(* ===== verification/Prelude.thy ===== *)
theory Prelude
  imports
    Main
    "HOL-Library.Multiset"
    "HOL-Library.Char_ord"
    "HOL-Library.List_Lexorder"
begin

text \<open>
  What every component of the development shares: the fragment of Go's standard library the
  sources call on strings (packages \<open>strings\<close>, \<open>fmt\<close>, \<open>net/url\<close>), the model of
  \<open>sort.SliceStable\<close> with its laws, and results of fallible calls.

  A Go string is a sequence of bytes; here it is a \<^typ>\<open>string\<close>, a list of 8-bit characters
  (UTF-8 bytes where the source has non-ASCII text). Go compares strings byte by byte, which is
  the lexicographic order of the library theories imported here.
\<close>

named_theorems go_simps \<open>defining equations of the Go standard-library fragment\<close>

section \<open>Results of fallible calls\<close>

text \<open>A Go function that returns \<open>(T, error)\<close> is a sum: \<^const>\<open>Inl\<close> the error.\<close>

definition bindE :: "'e + 'a \<Rightarrow> ('a \<Rightarrow> 'e + 'b) \<Rightarrow> 'e + 'b" where
  "bindE m f = (case m of Inl e \<Rightarrow> Inl e | Inr x \<Rightarrow> f x)"

definition mapErr :: "('e \<Rightarrow> 'f) \<Rightarrow> 'e + 'a \<Rightarrow> 'f + 'a" where
  "mapErr g m = (case m of Inl e \<Rightarrow> Inl (g e) | Inr x \<Rightarrow> Inr x)"

definition isOk :: "'e + 'a \<Rightarrow> bool" where
  "isOk m = (case m of Inl _ \<Rightarrow> False | Inr _ \<Rightarrow> True)"

section \<open>Strings\<close>

subsection \<open>Trimming\<close>

text \<open>
  The UTF-8 encodings of the code points \<open>unicode.IsSpace\<close> accepts, which
  \<open>strings.TrimSpace\<close> removes at both ends: the six ASCII ones, U+0085, U+00A0, U+1680,
  U+2000 to U+200A, U+2028, U+2029, U+202F, U+205F and U+3000.
\<close>

definition spaceRunes :: "string list" where
  "spaceRunes =
     [[CHR 0x09], [CHR 0x0A], [CHR 0x0B], [CHR 0x0C], [CHR 0x0D], [CHR 0x20],
      [CHR 0xC2, CHR 0x85], [CHR 0xC2, CHR 0xA0], [CHR 0xE1, CHR 0x9A, CHR 0x80],
      [CHR 0xE2, CHR 0x80, CHR 0x80], [CHR 0xE2, CHR 0x80, CHR 0x81],
      [CHR 0xE2, CHR 0x80, CHR 0x82], [CHR 0xE2, CHR 0x80, CHR 0x83],
      [CHR 0xE2, CHR 0x80, CHR 0x84], [CHR 0xE2, CHR 0x80, CHR 0x85],
      [CHR 0xE2, CHR 0x80, CHR 0x86], [CHR 0xE2, CHR 0x80, CHR 0x87],
      [CHR 0xE2, CHR 0x80, CHR 0x88], [CHR 0xE2, CHR 0x80, CHR 0x89],
      [CHR 0xE2, CHR 0x80, CHR 0x8A], [CHR 0xE2, CHR 0x80, CHR 0xA8],
      [CHR 0xE2, CHR 0x80, CHR 0xA9], [CHR 0xE2, CHR 0x80, CHR 0xAF],
      [CHR 0xE2, CHR 0x81, CHR 0x9F], [CHR 0xE3, CHR 0x80, CHR 0x80]]"

fun hasPrefix :: "string \<Rightarrow> string \<Rightarrow> bool" where
  "hasPrefix s [] = True"
| "hasPrefix [] (p # ps) = False"
| "hasPrefix (c # s) (p # ps) = (c = p \<and> hasPrefix s ps)"

text \<open>The length of the rune among \<open>rs\<close> that \<open>s\<close> starts with, 0 when there is none.\<close>

fun leadingRune :: "string list \<Rightarrow> string \<Rightarrow> nat" where
  "leadingRune [] s = 0"
| "leadingRune (r # rs) s = (if hasPrefix s r then length r else leadingRune rs s)"

function trimLeft :: "string list \<Rightarrow> string \<Rightarrow> string" where
  "trimLeft rs s =
     (let n = leadingRune rs s in if n = 0 \<or> s = [] then s else trimLeft rs (drop n s))"
  by pat_completeness auto
termination
  by (relation "measure (\<lambda>(rs, s). length s)") auto

declare trimLeft.simps [simp del]

definition trimSpace :: "string \<Rightarrow> string" where
  "trimSpace s = rev (trimLeft (map rev spaceRunes) (rev (trimLeft spaceRunes s)))"

definition trimSuffix :: "string \<Rightarrow> string \<Rightarrow> string" where
  "trimSuffix s p =
     (if hasPrefix (rev s) (rev p) then take (length s - length p) s else s)"

subsection \<open>Lower case\<close>

text \<open>
  \<open>strings.ToLower\<close>. The sources use the result only to compare it with ASCII names, so the
  model maps what becomes ASCII: the letters A to Z, U+0130 (bytes C4 B0, lower case \<open>i\<close>) and
  U+212A (bytes E2 84 AA, lower case \<open>k\<close>). Every other code point outside ASCII stays outside
  ASCII under \<open>unicode.ToLower\<close> and is kept as it is.
\<close>

definition lowerByte :: "char \<Rightarrow> char" where
  "lowerByte c = (let n = of_char c :: nat in if 65 \<le> n \<and> n \<le> 90 then char_of (n + 32) else c)"

fun toLower :: "string \<Rightarrow> string" where
  "toLower [] = []"
| "toLower (c # s) =
     (if hasPrefix (c # s) [CHR 0xC4, CHR 0xB0] then CHR ''i'' # toLower (drop 1 s)
      else if hasPrefix (c # s) [CHR 0xE2, CHR 0x84, CHR 0xAA] then CHR ''k'' # toLower (drop 2 s)
      else lowerByte c # toLower s)"

subsection \<open>Splitting, joining and decimal numerals\<close>

fun splitOn :: "char \<Rightarrow> string \<Rightarrow> string list" where
  "splitOn sep [] = [[]]"
| "splitOn sep (c # s) =
     (if c = sep then [] # splitOn sep s
      else (case splitOn sep s of [] \<Rightarrow> [[c]] | w # ws \<Rightarrow> (c # w) # ws))"

fun joinWith :: "string \<Rightarrow> string list \<Rightarrow> string" where
  "joinWith sep [] = []"
| "joinWith sep [w] = w"
| "joinWith sep (w # v # ws) = w @ sep @ joinWith sep (v # ws)"

fun natDec :: "nat \<Rightarrow> string" where
  "natDec n =
     (if n < 10 then [char_of (n + 48)] else natDec (n div 10) @ [char_of (n mod 10 + 48)])"

declare natDec.simps [simp del]

definition intDec :: "int \<Rightarrow> string" where
  "intDec i = (if i < 0 then CHR ''-'' # natDec (nat (- i)) else natDec (nat i))"

subsection \<open>Escaping of path segments (package \<open>net/url\<close>)\<close>

definition isAlnum :: "char \<Rightarrow> bool" where
  "isAlnum c = (let n = of_char c :: nat in
     (97 \<le> n \<and> n \<le> 122) \<or> (65 \<le> n \<and> n \<le> 90) \<or> (48 \<le> n \<and> n \<le> 57))"

text \<open>\<open>shouldEscape(c, encodePathSegment)\<close>.\<close>

definition shouldEscape :: "char \<Rightarrow> bool" where
  "shouldEscape c =
     (if isAlnum c then False
      else if c \<in> set ''-_.~'' then False
      else if c \<in> set ''$&+,/:;=?@'' then c \<in> set ''/;,?''
      else True)"

definition hexDigit :: "nat \<Rightarrow> char" where
  "hexDigit n = (if n < 10 then char_of (n + 48) else char_of (n + 55))"

fun pathEscape :: "string \<Rightarrow> string" where
  "pathEscape [] = []"
| "pathEscape (c # s) =
     (if shouldEscape c
      then CHR ''%'' # hexDigit (of_char c div 16) # hexDigit (of_char c mod 16) # pathEscape s
      else c # pathEscape s)"

definition unhex :: "char \<Rightarrow> nat option" where
  "unhex c = (let n = of_char c :: nat in
     if 48 \<le> n \<and> n \<le> 57 then Some (n - 48)
     else if 97 \<le> n \<and> n \<le> 102 then Some (n - 87)
     else if 65 \<le> n \<and> n \<le> 70 then Some (n - 55)
     else None)"

text \<open>\<open>url.PathUnescape\<close>: \<^const>\<open>None\<close> for an invalid percent escape.\<close>

fun pathUnescape :: "string \<Rightarrow> string option" where
  "pathUnescape [] = Some []"
| "pathUnescape (c # s) =
     (if c = CHR ''%''
      then (case s of
              a # b # rest \<Rightarrow>
                (case (unhex a, unhex b) of
                   (Some x, Some y) \<Rightarrow> map_option (Cons (char_of (16 * x + y))) (pathUnescape rest)
                 | _ \<Rightarrow> None)
            | _ \<Rightarrow> None)
      else map_option (Cons c) (pathUnescape s))"

section \<open>Stable sorting\<close>

text \<open>
  \<open>sort.SliceStable\<close> (and \<open>sort.Slice\<close>, \<open>sort.Strings\<close> where no two elements compare
  equal): for a comparison that is a strict weak order the stable result is unique, so any stable
  algorithm models it; the insertion sort below is one.
\<close>

fun insertBy :: "('a \<Rightarrow> 'a \<Rightarrow> bool) \<Rightarrow> 'a \<Rightarrow> 'a list \<Rightarrow> 'a list" where
  "insertBy lt x [] = [x]"
| "insertBy lt x (y # ys) = (if lt y x then y # insertBy lt x ys else x # y # ys)"

fun sliceStable :: "('a \<Rightarrow> 'a \<Rightarrow> bool) \<Rightarrow> 'a list \<Rightarrow> 'a list" where
  "sliceStable lt [] = []"
| "sliceStable lt (x # xs) = insertBy lt x (sliceStable lt xs)"

section \<open>Laws\<close>

subsection \<open>Results\<close>

lemma bindE_simps [simp]:
  "bindE (Inl e) f = Inl e" "bindE (Inr x) f = f x"
  by (simp_all add: bindE_def)

lemma mapErr_simps [simp]:
  "mapErr g (Inl e) = Inl (g e)" "mapErr g (Inr x) = Inr x"
  by (simp_all add: mapErr_def)

lemma isOk_simps [simp]: "isOk (Inl e) = False" "isOk (Inr x) = True"
  by (simp_all add: isOk_def)

lemma bindE_eq_Inr: "bindE m f = Inr y \<longleftrightarrow> (\<exists>x. m = Inr x \<and> f x = Inr y)"
  by (cases m) auto

lemma mapErr_eq_Inr: "mapErr g m = Inr y \<longleftrightarrow> m = Inr y"
  by (cases m) auto

lemma bindE_cong [fundef_cong]:
  "m = n \<Longrightarrow> (\<And>x. n = Inr x \<Longrightarrow> f x = g x) \<Longrightarrow> bindE m f = bindE n g"
  by (cases n) auto

subsection \<open>Prefixes and separators\<close>

lemma hasPrefix_iff: "hasPrefix s p \<longleftrightarrow> (\<exists>t. s = p @ t)"
  by (induction s p rule: hasPrefix.induct) auto

lemma hasPrefix_rev_iff: "hasPrefix (rev s) (rev p) \<longleftrightarrow> (\<exists>t. s = t @ p)"
proof -
  have "hasPrefix (rev s) (rev p) \<longleftrightarrow> (\<exists>t. rev s = rev p @ t)"
    by (rule hasPrefix_iff)
  also have "\<dots> \<longleftrightarrow> (\<exists>t. s = t @ p)"
    by (metis append_Nil2 rev_append rev_rev_ident)
  finally show ?thesis .
qed

lemma trimSuffix_other: "\<not> (\<exists>t. s = t @ p) \<Longrightarrow> trimSuffix s p = s"
  by (simp add: trimSuffix_def hasPrefix_rev_iff)

lemma splitOn_not_Nil [simp]: "splitOn sep s \<noteq> []"
  by (induction s) (auto split: list.splits)

lemma splitOn_no_sep: "sep \<notin> set w \<Longrightarrow> splitOn sep w = [w]"
  by (induction w) auto

lemma splitOn_append_sep:
  "sep \<notin> set w \<Longrightarrow> splitOn sep (w @ sep # s) = w # splitOn sep s"
  by (induction w) auto

lemma splitOn_joinWith:
  "ws \<noteq> [] \<Longrightarrow> \<forall>w\<in>set ws. sep \<notin> set w \<Longrightarrow> splitOn sep (joinWith [sep] ws) = ws"
proof (induction ws rule: induct_list012)
  case (3 w v ws)
  then show ?case by (simp add: splitOn_append_sep)
qed (simp_all add: splitOn_no_sep)

subsection \<open>Path segments survive escaping\<close>

lemma of_char_less_256: "(of_char c :: nat) < 256"
  by simp

lemma unhex_hexDigit: "n < 16 \<Longrightarrow> unhex (hexDigit n) = Some n"
  by (auto simp: unhex_def hexDigit_def Let_def)

lemma char_of_nibbles: "char_of (16 * (of_char c div 16) + of_char c mod 16 :: nat) = (c :: char)"
  by simp

lemma percent_escaped: "shouldEscape (CHR ''%'')"
  by (simp add: shouldEscape_def isAlnum_def)

theorem pathUnescape_pathEscape [go_simps]: "pathUnescape (pathEscape s) = Some s"
proof (induction s)
  case (Cons c s)
  have hi: "unhex (hexDigit (of_char c div 16)) = Some (of_char c div 16)"
    using of_char_less_256 [of c] by (intro unhex_hexDigit) linarith
  have lo: "unhex (hexDigit (of_char c mod 16)) = Some (of_char c mod 16)"
    by (intro unhex_hexDigit) simp
  show ?case
  proof (cases "shouldEscape c")
    case True
    then show ?thesis by (simp add: hi lo Cons.IH)
  next
    case False
    then have "c \<noteq> CHR ''%''" using percent_escaped by auto
    with False show ?thesis by (simp add: Cons.IH)
  qed
qed simp

lemma slash_escaped: "shouldEscape (CHR ''/'')"
  by (simp add: shouldEscape_def isAlnum_def)

lemma star_escaped: "shouldEscape (CHR ''*'')"
  by (simp add: shouldEscape_def isAlnum_def)

lemma hexDigit_safe:
  "n < 16 \<Longrightarrow> hexDigit n \<noteq> CHR ''/''" "n < 16 \<Longrightarrow> hexDigit n \<noteq> CHR ''*''"
proof -
  have "\<forall>n \<in> set [0..<16]. hexDigit n \<noteq> CHR ''/'' \<and> hexDigit n \<noteq> CHR ''*''"
    by code_simp
  then show "n < 16 \<Longrightarrow> hexDigit n \<noteq> CHR ''/''" "n < 16 \<Longrightarrow> hexDigit n \<noteq> CHR ''*''"
    by auto
qed

lemma pathEscape_safe:
  "CHR ''/'' \<notin> set (pathEscape s)" "CHR ''*'' \<notin> set (pathEscape s)"
proof -
  have "of_char c div 16 < (16::nat)" for c :: char
    using of_char_less_256 [of c] by linarith
  then show "CHR ''/'' \<notin> set (pathEscape s)" "CHR ''*'' \<notin> set (pathEscape s)"
    by (induction s)
      (auto simp: slash_escaped star_escaped hexDigit_safe hexDigit_safe [THEN not_sym])
qed

lemma pathEscape_eq_Nil [simp]: "pathEscape s = [] \<longleftrightarrow> s = []"
  by (cases s) auto

subsection \<open>Trimming\<close>

lemma trimLeft_leading: "leadingRune rs s = 0 \<Longrightarrow> trimLeft rs s = s"
  by (simp add: trimLeft.simps [of rs s])

lemma trimLeft_leadingRune: "leadingRune rs (trimLeft rs s) = 0 \<or> trimLeft rs s = []"
proof (induction rs s rule: trimLeft.induct)
  case (1 rs s)
  then show ?case
    by (cases "leadingRune rs s = 0 \<or> s = []") (auto simp: trimLeft.simps [of rs s] Let_def)
qed

lemma trimLeft_idem: "trimLeft rs (trimLeft rs s) = trimLeft rs s"
  using trimLeft_leadingRune [of rs s] by (auto simp: trimLeft.simps [of rs "trimLeft rs s"])

lemma trimLeft_suffix: "\<exists>t. s = t @ trimLeft rs s"
proof (induction rs s rule: trimLeft.induct)
  case (1 rs s)
  show ?case
  proof (cases "leadingRune rs s = 0 \<or> s = []")
    case True
    then show ?thesis by (auto simp: trimLeft.simps [of rs s] Let_def)
  next
    case False
    with "1.IH" obtain t where "drop (leadingRune rs s) s = t @ trimLeft rs (drop (leadingRune rs s) s)"
      by blast
    then have "s = (take (leadingRune rs s) s @ t) @ trimLeft rs (drop (leadingRune rs s) s)"
      by (metis append.assoc append_take_drop_id)
    with False show ?thesis
      by (metis trimLeft.simps)
  qed
qed

lemma leadingRune_0: "\<forall>r \<in> set rs. \<not> hasPrefix s r \<Longrightarrow> leadingRune rs s = 0"
  by (induction rs) auto

lemma leadingRune_0_iff: "[] \<notin> set rs \<Longrightarrow> leadingRune rs s = 0 \<longleftrightarrow> (\<forall>r \<in> set rs. \<not> hasPrefix s r)"
  by (induction rs) auto

lemma spaceRunes_not_Nil: "[] \<notin> set spaceRunes"
  by (simp add: spaceRunes_def)

lemma trimSpace_idem: "trimSpace (trimSpace s) = trimSpace s"
proof -
  define u where "u = trimLeft spaceRunes s"
  define v where "v = trimLeft (map rev spaceRunes) (rev u)"
  have s: "trimSpace s = rev v" by (simp add: trimSpace_def u_def v_def)
  obtain t where "rev u = t @ v" using trimLeft_suffix v_def by blast
  then have u: "u = rev v @ rev t" by (metis rev_append rev_rev_ident)
  have "trimLeft spaceRunes (rev v) = rev v"
  proof (cases "leadingRune spaceRunes u = 0")
    case True
    then have "\<forall>r \<in> set spaceRunes. \<not> hasPrefix (rev v) r"
      using u by (auto simp: leadingRune_0_iff spaceRunes_not_Nil hasPrefix_iff)
    then show ?thesis by (intro trimLeft_leading leadingRune_0)
  next
    case False
    then have "u = []" using trimLeft_leadingRune [of spaceRunes s] u_def by auto
    then show ?thesis using u by (simp add: trimLeft.simps)
  qed
  then have "trimSpace (rev v) = rev (trimLeft (map rev spaceRunes) v)"
    by (simp add: trimSpace_def)
  also have "\<dots> = rev v" by (simp add: v_def trimLeft_idem)
  finally show ?thesis by (simp add: s)
qed

text \<open>A string of printable ASCII characters without blanks is not trimmed.\<close>

definition visibleChar :: "char \<Rightarrow> bool" where
  "visibleChar c = (let n = of_char c :: nat in 33 \<le> n \<and> n \<le> 126)"

lemma spaceRunes_invisible:
  "\<forall>r \<in> set spaceRunes. r \<noteq> [] \<and> \<not> visibleChar (hd r) \<and> \<not> visibleChar (last r)"
  by code_simp

lemma visible_no_rune:
  assumes "\<forall>c \<in> set s. visibleChar c" and "\<forall>r \<in> set rs. r \<noteq> [] \<and> \<not> visibleChar (hd r)"
  shows "trimLeft rs s = s"
proof -
  have "\<not> hasPrefix s r" if "r \<in> set rs" for r
  proof
    assume "hasPrefix s r"
    with that assms(2) have "hd r \<in> set s" by (auto simp: hasPrefix_iff)
    with assms that show False by auto
  qed
  then show ?thesis by (intro trimLeft_leading leadingRune_0) blast
qed

lemma trimSpace_visible:
  assumes "\<forall>c \<in> set s. visibleChar c"
  shows "trimSpace s = s"
proof -
  have "\<forall>r \<in> set spaceRunes. r \<noteq> [] \<and> \<not> visibleChar (hd r)"
    using spaceRunes_invisible by blast
  then have l: "trimLeft spaceRunes s = s" by (rule visible_no_rune [OF assms])
  have "\<forall>r \<in> set (map rev spaceRunes). r \<noteq> [] \<and> \<not> visibleChar (hd r)"
    unfolding set_map ball_simps using spaceRunes_invisible by (simp only: hd_rev rev_is_Nil_conv) blast
  then have "trimLeft (map rev spaceRunes) (rev s) = rev s"
    by (rule visible_no_rune [rotated]) (use assms in simp)
  with l show ?thesis by (simp add: trimSpace_def)
qed

lemma shouldEscape_visible: "\<not> shouldEscape c \<Longrightarrow> visibleChar c"
proof -
  have "list_all (\<lambda>c. visibleChar c) ''-_.~$&+:=@''" by code_simp
  then have punct: "c \<in> set ''-_.~$&+:=@'' \<Longrightarrow> visibleChar c"
    by (simp only: list_all_iff)
  have alnum: "isAlnum c \<Longrightarrow> visibleChar c"
    by (auto simp: isAlnum_def visibleChar_def Let_def)
  show "\<not> shouldEscape c \<Longrightarrow> visibleChar c"
    using punct alnum unfolding shouldEscape_def by (fastforce split: if_splits)
qed

lemma hexDigit_visible: "n < 16 \<Longrightarrow> visibleChar (hexDigit n)"
  by (auto simp: hexDigit_def visibleChar_def Let_def)

lemma pathEscape_visible: "c \<in> set (pathEscape s) \<Longrightarrow> visibleChar c"
proof (induction s)
  case (Cons d s)
  have "of_char d div 16 < (16::nat)" using of_char_less_256 [of d] by linarith
  moreover have "visibleChar (CHR ''%'')" by code_simp
  ultimately show ?case
    using Cons by (auto simp: hexDigit_visible shouldEscape_visible split: if_splits)
qed simp

lemma splitOn_append: "splitOn sep (t @ sep # w) = splitOn sep t @ splitOn sep w"
proof (induction t)
  case (Cons c t)
  then show ?case by (cases "splitOn sep t") (auto simp: splitOn_not_Nil)
qed simp

subsection \<open>Stable sorting\<close>

lemma mset_concat_map_cong:
  "mset xs = mset ys \<Longrightarrow> mset (concat (map f xs)) = mset (concat (map f ys))"
  unfolding mset_concat map_map comp_def by (metis mset_map sum_mset_sum_list)

lemma mset_insertBy [simp]: "mset (insertBy lt x ys) = add_mset x (mset ys)"
  by (induction ys) auto

lemma mset_sliceStable [simp]: "mset (sliceStable lt xs) = mset xs"
  by (induction xs) auto

lemma set_insertBy [simp]: "set (insertBy lt x ys) = insert x (set ys)"
  by (induction ys) auto

lemma set_sliceStable [simp]: "set (sliceStable lt xs) = set xs"
  by (induction xs) auto

lemma length_sliceStable [simp]: "length (sliceStable lt xs) = length xs"
  by (metis mset_sliceStable size_mset)

lemma sliceStable_eq_Nil [simp]: "sliceStable lt xs = [] \<longleftrightarrow> xs = []"
  by (metis length_0_conv length_sliceStable)

text \<open>
  The contract \<open>sort.SliceStable\<close> puts on its comparison: on the elements being sorted it is
  a strict weak order. What the clients rely on follows from it once: the result is sorted, equal
  elements keep their order, the first element is minimal.
\<close>

locale sort_order =
  fixes lt :: "'a \<Rightarrow> 'a \<Rightarrow> bool"
    and A :: "'a set"
  assumes asym: "x \<in> A \<Longrightarrow> y \<in> A \<Longrightarrow> lt x y \<Longrightarrow> \<not> lt y x"
    and ntrans: "x \<in> A \<Longrightarrow> y \<in> A \<Longrightarrow> z \<in> A \<Longrightarrow> lt x z \<Longrightarrow> lt x y \<or> lt y z"
begin

lemma sorted_insertBy:
  assumes "x \<in> A" and "set ys \<subseteq> A" and "sorted_wrt (\<lambda>a b. \<not> lt b a) ys"
  shows "sorted_wrt (\<lambda>a b. \<not> lt b a) (insertBy lt x ys)"
  using assms
proof (induction ys)
  case (Cons y ys)
  show ?case
  proof (cases "lt y x")
    case True
    with Cons have "sorted_wrt (\<lambda>a b. \<not> lt b a) (insertBy lt x ys)" by simp
    moreover have "\<not> lt x y" using True Cons.prems asym by simp
    ultimately show ?thesis using True Cons.prems by simp
  next
    case False
    have "\<not> lt z x" if "z \<in> set ys" for z
      using that False Cons.prems ntrans [of z y x] by auto
    with False Cons.prems show ?thesis by simp
  qed
qed simp

lemma sorted_sliceStable:
  "set xs \<subseteq> A \<Longrightarrow> sorted_wrt (\<lambda>a b. \<not> lt b a) (sliceStable lt xs)"
  by (induction xs) (simp_all add: sorted_insertBy)

lemma hd_sliceStable_minimal:
  assumes "set xs \<subseteq> A" and "sliceStable lt xs = w # ws" and "x \<in> set xs"
  shows "\<not> lt x w"
proof -
  have w: "w \<in> A"
    using assms(1,2) by (metis list.set_intros(1) set_sliceStable subsetD)
  have "x \<in> set (w # ws)"
    using assms(2,3) by (metis set_sliceStable)
  moreover have "\<not> lt y w" if "y \<in> set ws" for y
    using sorted_sliceStable [OF assms(1)] assms(2) that by simp
  moreover have "\<not> lt w w"
    using asym [OF w w] by blast
  ultimately show ?thesis by auto
qed

lemma filter_insertBy_eqv:
  assumes "set (x # ys) \<subseteq> A" and "e \<in> A"
  shows "filter (\<lambda>y. \<not> lt e y \<and> \<not> lt y e) (insertBy lt x ys)
       = filter (\<lambda>y. \<not> lt e y \<and> \<not> lt y e) (x # ys)"
  using assms
proof (induction ys)
  case (Cons y ys)
  show ?case
  proof (cases "lt y x")
    case True
    then have "\<not> ((\<not> lt e x \<and> \<not> lt x e) \<and> (\<not> lt e y \<and> \<not> lt y e))"
      using Cons.prems ntrans [of y e x] by auto
    with True Cons show ?thesis by auto
  qed simp
qed simp

lemma sliceStable_stable:
  assumes "set xs \<subseteq> A" and "e \<in> A"
  shows "filter (\<lambda>y. \<not> lt e y \<and> \<not> lt y e) (sliceStable lt xs)
       = filter (\<lambda>y. \<not> lt e y \<and> \<not> lt y e) xs"
  using assms
proof (induction xs)
  case (Cons x xs)
  then show ?case using filter_insertBy_eqv [of x "sliceStable lt xs" e] by simp
qed simp

end

text \<open>
  Where elements that compare equal are equal, the result does not depend on the order of the
  input: sorting a permutation gives the same list.
\<close>

locale total_sort_order = sort_order +
  assumes total: "x \<in> A \<Longrightarrow> y \<in> A \<Longrightarrow> \<not> lt x y \<Longrightarrow> \<not> lt y x \<Longrightarrow> x = y"
begin

lemma sorted_mset_unique:
  assumes "sorted_wrt (\<lambda>a b. \<not> lt b a) xs" and "sorted_wrt (\<lambda>a b. \<not> lt b a) ys"
    and "mset xs = mset ys" and "set xs \<subseteq> A"
  shows "xs = ys"
  using assms
proof (induction xs arbitrary: ys)
  case (Cons x xs)
  then obtain y ys' where ys: "ys = y # ys'" by (cases ys) auto
  have sets: "set (x # xs) = set (y # ys')"
    using Cons.prems(3) ys by (metis set_mset_mset)
  have "\<not> lt y x \<and> \<not> lt x y"
  proof (cases "x = y")
    case True
    then show ?thesis using Cons.prems(4) asym [of x x] by auto
  next
    case False
    then have "y \<in> set xs" "x \<in> set ys'" using sets by auto
    then show ?thesis using Cons.prems(1,2) ys by auto
  qed
  moreover have "x \<in> A" "y \<in> A" using Cons.prems(4) sets by auto
  ultimately have "x = y" using total by blast
  moreover have "xs = ys'"
    using Cons.IH [of ys'] Cons.prems ys \<open>x = y\<close> by simp
  ultimately show ?case using ys by simp
qed simp

lemma sliceStable_perm:
  assumes "mset xs = mset ys" and "set xs \<subseteq> A"
  shows "sliceStable lt xs = sliceStable lt ys"
proof (rule sorted_mset_unique)
  have "set ys \<subseteq> A" using assms by (metis set_mset_mset)
  then show "sorted_wrt (\<lambda>a b. \<not> lt b a) (sliceStable lt ys)"
    by (rule sorted_sliceStable)
qed (use assms in \<open>simp_all add: sorted_sliceStable\<close>)

end

text \<open>Sorting strings (\<open>sort.Strings\<close>) is the instance every component uses.\<close>

definition sortStrings :: "string list \<Rightarrow> string list" where
  "sortStrings = sliceStable (<)"

interpretation string_order: total_sort_order "(<) :: string \<Rightarrow> string \<Rightarrow> bool" UNIV
  by unfold_locales auto

lemma sortStrings_sorted: "sorted (sortStrings xs)"
  using string_order.sorted_sliceStable [of xs]
  by (simp add: sortStrings_def not_less sorted_wrt_iff_nth_less sorted_iff_nth_mono_less)

lemma sortStrings_set [simp]: "set (sortStrings xs) = set xs"
  by (simp add: sortStrings_def)

lemma sortStrings_perm: "mset xs = mset ys \<Longrightarrow> sortStrings xs = sortStrings ys"
  unfolding sortStrings_def by (rule string_order.sliceStable_perm) simp_all

end
