(* ===== verification/AccessOperation.thy ===== *)
theory AccessOperation
  imports Prelude "HOL-Library.Word"
begin

text \<open>
  Operation sets of package \<open>access\<close> (\<open>src/access/operation.go\<close>), the effects of rules
  (\<open>src/access/rule.go\<close>) and the errors the package returns while a policy is built or
  decoded. An operation set is the 16-bit mask of the source; a leaf is one of its eight bits.
\<close>

unbundle bit_operations_syntax

section \<open>Definitions\<close>

type_synonym operations = "16 word"

definition Get :: operations where "Get = 1"
definition Exists :: operations where "Exists = 2"
definition Query :: operations where "Query = 4"
definition Insert :: operations where "Insert = 8"
definition Set :: operations where "Set = 16"
definition Update :: operations where "Update = 32"
definition Delete :: operations where "Delete = 64"
definition Truncate :: operations where "Truncate = 128"

definition Read :: operations where "Read = Get OR Exists OR Query"
definition Write :: operations where "Write = Insert OR Set OR Update OR Delete OR Truncate"
definition ReadWrite :: operations where "ReadWrite = Read OR Write"
definition knownOperations :: operations where "knownOperations = ReadWrite"

definition operationNames :: "(operations \<times> string) list" where
  "operationNames =
     [(Get, ''get''), (Exists, ''exists''), (Query, ''query''), (Insert, ''insert''),
      (Set, ''set''), (Update, ''update''), (Delete, ''delete''), (Truncate, ''truncate'')]"

datatype effect = effectNone | effectAllow | effectDeny | effectAudit | effectIgnoreAudit

fun effectString :: "effect \<Rightarrow> string" where
  "effectString effectAllow = ''allow''"
| "effectString effectDeny = ''deny''"
| "effectString effectAudit = ''audit''"
| "effectString effectIgnoreAudit = ''ignore-audit''"
| "effectString effectNone = ''unknown''"

text \<open>
  The kinds of policy targets (\<open>ResourceKind\<close> in \<open>resource.go\<close>); \<open>noResource\<close> is
  the zero value a denial without a resource carries.
\<close>

datatype ResourceKind = noResource | PathResource | CollectionGroupResource | OpaqueQueryResource

text \<open>One constructor for each \<open>fmt.Errorf\<close> of the package, with the values it formats.\<close>

datatype accessError =
    UnknownOperation string
  | OperationListRequired
  | InvalidOperationSet operations
  | PathPartNotCollection nat
  | PathIDNil nat
  | DuplicateRuleName string
  | EffectNotValid effect
  | RuleInvalidOperations string
  | PathScopeNested ResourceKind
  | CollectionGroupNotTopLevel
  | CollectionGroupNameRequired
  | OpaqueQueryNotTopLevel
  | UnknownRuleKind
  | PolicyNameRequired
  | AuditPolicyNameRequired
  | UnsupportedAPIVersion string
  | MetadataNameRequired
  | ScopeRequired
  | ExpectedKind string string
  | DefaultMustBe effect
  | AtScopes nat accessError
  | AtRules nat accessError
  | ScopeSelectsNotOne
  | ScopeWithoutRules
  | RuleIDRequired
  | EffectNotValidForKind effect string
  | UnknownEffect string
  | PathMustStartWithSlash string
  | PathEmptySegment string
  | PathInvalidEscaping string
  | PathStarCollection string
  | NotSerializable
  | ReaderAndCodecRequired
  | WriterAndCodecRequired
  | DecodeFailed string string
  | EncodeFailed string string
  | NotOneDocument
  | NilPolicy

definition validLeaf :: "operations \<Rightarrow> bool" where
  "validLeaf o1 \<longleftrightarrow> o1 \<noteq> 0 \<and> o1 AND knownOperations = o1 \<and> o1 AND (o1 - 1) = 0"

definition opContains :: "operations \<Rightarrow> operations \<Rightarrow> bool" where
  "opContains o1 operation \<longleftrightarrow> validLeaf operation \<and> o1 AND operation \<noteq> 0"

definition validSet :: "operations \<Rightarrow> bool" where
  "validSet o1 \<longleftrightarrow> o1 \<noteq> 0 \<and> o1 AND NOT knownOperations = 0"

definition operationsString :: "operations \<Rightarrow> string" where
  "operationsString o1 =
     (if o1 = 0 then ''none''
      else
        let names = map snd (filter (\<lambda>item. o1 AND fst item \<noteq> 0) operationNames);
            unknown = o1 AND NOT knownOperations
        in joinWith '','' (names @
             (if unknown \<noteq> 0 then [''unknown('' @ natDec (unat unknown) @ '')''] else [])))"

fun lookupOperation :: "(operations \<times> string) list \<Rightarrow> string \<Rightarrow> operations option" where
  "lookupOperation [] name = None"
| "lookupOperation ((operation, n) # items) name =
     (if name = n then Some operation else lookupOperation items name)"

definition parseOperationName :: "operations \<Rightarrow> string \<Rightarrow> accessError + operations" where
  "parseOperationName ops rawName =
     (let name = toLower (trimSpace rawName) in
      if name = ''read'' then Inr (ops OR Read)
      else if name \<in> {''write'', ''mutation'', ''mutations''} then Inr (ops OR Write)
      else if name \<in> {''readwrite'', ''read-write'', ''read_write''} then Inr (ops OR ReadWrite)
      else case lookupOperation operationNames name of
             Some operation \<Rightarrow> Inr (ops OR operation)
           | None \<Rightarrow> Inl (UnknownOperation rawName))"

fun parseOperationsLoop :: "operations \<Rightarrow> string list \<Rightarrow> accessError + operations" where
  "parseOperationsLoop ops [] =
     (if validSet ops then Inr ops else Inl OperationListRequired)"
| "parseOperationsLoop ops (rawName # names) =
     bindE (parseOperationName ops rawName) (\<lambda>ops'. parseOperationsLoop ops' names)"

definition parseOperations :: "string list \<Rightarrow> accessError + operations" where
  "parseOperations names = parseOperationsLoop 0 names"

definition operationNamesForDocument :: "operations \<Rightarrow> accessError + string list" where
  "operationNamesForDocument ops =
     (if \<not> validSet ops then Inl (InvalidOperationSet ops)
      else if ops = Read then Inr [''read'']
      else if ops = Write then Inr [''write'']
      else if ops = ReadWrite then Inr [''readwrite'']
      else Inr (map snd (filter (\<lambda>item. ops AND fst item \<noteq> 0) operationNames)))"

section \<open>Operation sets as sets of leaves\<close>

lemmas operation_defs =
  Get_def Exists_def Query_def Insert_def Set_def Update_def Delete_def Truncate_def

lemmas group_defs = Read_def Write_def ReadWrite_def knownOperations_def operation_defs

lemma knownOperations_mask: "knownOperations = 255"
  by (simp add: group_defs)

definition leaves :: "operations list" where
  "leaves = [Get, Exists, Query, Insert, Set, Update, Delete, Truncate]"

lemma and_known_iff: "o1 AND knownOperations = o1 \<longleftrightarrow> o1 AND NOT knownOperations = 0"
proof
  assume "o1 AND knownOperations = o1"
  then have "o1 AND NOT knownOperations = (o1 AND knownOperations) AND NOT knownOperations"
    by simp
  also have "\<dots> = 0" by (simp add: and.assoc)
  finally show "o1 AND NOT knownOperations = 0" .
next
  assume a: "o1 AND NOT knownOperations = 0"
  show "o1 AND knownOperations = o1"
  proof (rule bit_word_eqI)
    fix n
    assume "n < LENGTH(16)"
    have "bit (o1 AND NOT knownOperations) n = bit (0 :: operations) n" using a by simp
    then show "bit (o1 AND knownOperations) n = bit o1 n"
      using \<open>n < LENGTH(16)\<close> by (auto simp: bit_simps)
  qed
qed

text \<open>Below 256 the predicates are decided by inspection of every mask.\<close>

lemma small_mask_cases:
  assumes "\<forall>n \<in> set [0..<256]. P (word_of_nat n :: operations)" and "o1 AND NOT knownOperations = 0"
  shows "P o1"
proof -
  have "o1 AND 255 = o1"
    using assms(2) and_known_iff knownOperations_mask by metis
  then have "unat o1 \<le> unat (255 :: operations)"
    by (metis word_and_le1 word_le_nat_alt)
  then have "unat o1 \<in> set [0..<256]" by simp
  with assms(1) have "P (word_of_nat (unat o1))" by blast
  then show ?thesis by simp
qed

lemma validLeaf_iff: "validLeaf o1 \<longleftrightarrow> o1 \<in> set leaves"
proof
  assume v: "validLeaf o1"
  have "\<forall>n \<in> set [0..<256]. validLeaf (word_of_nat n) \<longrightarrow> (word_of_nat n) \<in> set leaves"
    by code_simp
  moreover have "o1 AND NOT knownOperations = 0"
    using v by (simp add: validLeaf_def flip: and_known_iff)
  ultimately show "o1 \<in> set leaves"
    using small_mask_cases [where P = "\<lambda>w. validLeaf w \<longrightarrow> w \<in> set leaves"] v by blast
next
  have "\<forall>w \<in> set leaves. validLeaf w" by code_simp
  then show "o1 \<in> set leaves \<Longrightarrow> validLeaf o1" by blast
qed

lemma validLeaf_validSet: "validLeaf o1 \<Longrightarrow> validSet o1"
  by (simp add: validLeaf_def validSet_def and_known_iff)

section \<open>Names of operations\<close>

lemma operationName_plain:
  "\<forall>item \<in> set operationNames. toLower (trimSpace (snd item)) = snd item"
  by code_simp

lemma operationName_lookup:
  "\<forall>item \<in> set operationNames. lookupOperation operationNames (snd item) = Some (fst item)"
  by code_simp

lemma operationName_not_group:
  "\<forall>item \<in> set operationNames. snd item \<notin> {''read'', ''write'', ''mutation'', ''mutations'',
     ''readwrite'', ''read-write'', ''read_write''}"
  by code_simp

lemma parseOperationName_leaf:
  assumes "item \<in> set operationNames"
  shows "parseOperationName ops (snd item) = Inr (ops OR fst item)"
  using assms operationName_plain operationName_lookup operationName_not_group
  by (auto simp: parseOperationName_def Let_def)

lemma parseOperationsLoop_leaves:
  assumes "set items \<subseteq> set operationNames"
  shows "parseOperationsLoop ops (map snd items)
       = parseOperationsLoop (fold (\<lambda>item acc. acc OR fst item) items ops) []"
  using assms
  by (induction items arbitrary: ops) (simp_all add: parseOperationName_leaf)

lemma fold_named_bits:
  assumes "validSet ops"
  shows "fold (\<lambda>item acc. acc OR fst item)
           (filter (\<lambda>item. ops AND fst item \<noteq> 0) operationNames) 0 = ops"
proof -
  have "\<forall>n \<in> set [0..<256]. fold (\<lambda>item acc. acc OR fst item)
           (filter (\<lambda>item. (word_of_nat n :: operations) AND fst item \<noteq> 0) operationNames) 0
         = word_of_nat n"
    by code_simp
  then show ?thesis
    by (rule small_mask_cases) (use assms in \<open>simp add: validSet_def\<close>)
qed

lemma validSet_groups: "validSet Read" "validSet Write" "validSet ReadWrite"
  by (simp_all add: validSet_def group_defs)

lemma parse_group_names:
  "parseOperations [''read''] = Inr Read"
  "parseOperations [''write''] = Inr Write"
  "parseOperations [''readwrite''] = Inr ReadWrite"
  by code_simp+

text \<open>Encoding an operation set into the names of a document and parsing them gives it back.\<close>

lemma parseOperations_names:
  assumes "operationNamesForDocument ops = Inr names"
  shows "parseOperations names = Inr ops"
proof -
  from assms have v: "validSet ops"
    by (simp add: operationNamesForDocument_def split: if_splits)
  consider "ops = Read" | "ops = Write" | "ops = ReadWrite"
    | "ops \<notin> {Read, Write, ReadWrite}" by blast
  then show ?thesis
  proof cases
    case 4
    with assms v have "names = map snd (filter (\<lambda>item. ops AND fst item \<noteq> 0) operationNames)"
      by (auto simp: operationNamesForDocument_def split: if_splits)
    then show ?thesis
      using v fold_named_bits [OF v]
        parseOperationsLoop_leaves [of "filter (\<lambda>item. ops AND fst item \<noteq> 0) operationNames" 0]
      by (simp add: parseOperations_def)
  qed (use assms v in \<open>auto simp: operationNamesForDocument_def parse_group_names split: if_splits\<close>)
qed

lemma operationNamesForDocument_ok: "isOk (operationNamesForDocument ops) \<longleftrightarrow> validSet ops"
  by (simp add: operationNamesForDocument_def)

lemma parseOperationsLoop_validSet:
  "parseOperationsLoop ops names = Inr r \<Longrightarrow> validSet r"
  by (induction ops names rule: parseOperationsLoop.induct) (auto simp: bindE_eq_Inr split: if_splits)

lemma parseOperations_validSet: "parseOperations names = Inr ops \<Longrightarrow> validSet ops"
  unfolding parseOperations_def by (rule parseOperationsLoop_validSet)

section \<open>Properties\<close>

text \<open>The leaves are exactly the eight operation constants; \<open>Write\<close> and \<open>Read\<close> share none of
  them, so write access never grants read access; \<open>ReadWrite\<close> contains every leaf.\<close>

theorem operation_leaves:
  "(validLeaf operation \<longleftrightarrow>
      operation \<in> {Get, Exists, Query, Insert, Set, Update, Delete, Truncate}) \<and>
   \<not> (opContains Write operation \<and> opContains Read operation) \<and>
   (opContains ReadWrite operation \<longleftrightarrow> validLeaf operation)"
proof -
  have disjoint: "\<forall>w \<in> set leaves. \<not> (Write AND w \<noteq> 0 \<and> Read AND w \<noteq> 0)"
    and all: "\<forall>w \<in> set leaves. ReadWrite AND w \<noteq> 0"
    by code_simp+
  have "validLeaf operation \<longleftrightarrow>
      operation \<in> {Get, Exists, Query, Insert, Set, Update, Delete, Truncate}"
    by (simp only: validLeaf_iff leaves_def list.set)
  moreover have "\<not> (opContains Write operation \<and> opContains Read operation)"
    unfolding opContains_def validLeaf_iff using disjoint by metis
  moreover have "opContains ReadWrite operation \<longleftrightarrow> validLeaf operation"
    unfolding opContains_def validLeaf_iff using all by metis
  ultimately show ?thesis by (intro conjI)
qed

text \<open>Writing an operation set to the operation names of a document and parsing the names
  gives the set back; a set with no known bit or with an unknown one is refused.\<close>

theorem operation_names_roundtrip:
  "bindE (operationNamesForDocument ops) parseOperations =
     (if validSet ops then Inr ops else Inl (InvalidOperationSet ops))"
proof (cases "operationNamesForDocument ops")
  case (Inl e)
  then show ?thesis by (auto simp: operationNamesForDocument_def split: if_splits)
next
  case (Inr names)
  then show ?thesis
    using parseOperations_names operationNamesForDocument_ok [of ops] by simp
qed

end
