(* ===== verification/AccessResource.thy ===== *)
theory AccessResource
  imports AccessOperation
begin

text \<open>
  Policy targets and path patterns of package \<open>access\<close> (\<open>src/access/resource.go\<close>).

  The sources handle record identifiers as Go interface values (\<open>any\<close>); \<^verbatim>\<open>goval\<close> keeps what
  the package observes of one through \<open>reflect\<close>: its dynamic type's name, its kind and its
  value. A key of the module \<open>github.com/dal-go/record\<close> is represented by what its accessors
  return: collection, identifier, parent. Two functions come from outside the repository and are
  arguments: \<open>stringer\<close>, the text \<open>fmt.Sprint\<close> gives for values whose type prints itself,
  and \<open>escapeID\<close>, the module's \<open>record.EscapeID\<close>; both only shape display names.
\<close>

section \<open>Definitions\<close>

text \<open>
  \<open>GOther t c\<close> is a value of any other type \<open>t\<close>; \<open>c\<close> is its class under
  \<open>reflect.DeepEqual\<close>, \<^const>\<open>None\<close> for a value that is not even equal to itself (a function, a
  NaN).
\<close>

datatype goval =
    GNil
  | GString string string
  | GInt string int
  | GUint string nat
  | GOther string "nat option"

abbreviation goStr :: "string \<Rightarrow> goval" where
  "goStr s \<equiv> GString ''string'' s"

fun deepEqual :: "goval \<Rightarrow> goval \<Rightarrow> bool" where
  "deepEqual GNil GNil = True"
| "deepEqual (GString t s) (GString t' s') = (t = t' \<and> s = s')"
| "deepEqual (GInt t i) (GInt t' i') = (t = t' \<and> i = i')"
| "deepEqual (GUint t n) (GUint t' n') = (t = t' \<and> n = n')"
| "deepEqual (GOther t c) (GOther t' c') = (t = t' \<and> c = c' \<and> c \<noteq> None)"
| "deepEqual _ _ = False"

text \<open>
  \<open>fmt.Sprint\<close>: exact for \<open>nil\<close> and the predeclared types, the type's own text (the
  argument) for every other one.
\<close>

definition intTypes :: "string list" where
  "intTypes = [''int'', ''int8'', ''int16'', ''int32'', ''int64'']"

definition uintTypes :: "string list" where
  "uintTypes = [''uint'', ''uint8'', ''uint16'', ''uint32'', ''uint64'', ''uintptr'']"

fun fmtSprint :: "(goval \<Rightarrow> string) \<Rightarrow> goval \<Rightarrow> string" where
  "fmtSprint stringer GNil = ''<nil>''"
| "fmtSprint stringer (GString t s) = (if t = ''string'' then s else stringer (GString t s))"
| "fmtSprint stringer (GInt t i) = (if t \<in> set intTypes then intDec i else stringer (GInt t i))"
| "fmtSprint stringer (GUint t n) = (if t \<in> set uintTypes then natDec n else stringer (GUint t n))"
| "fmtSprint stringer v = stringer v"

datatype key = Key (keyCollection: string) (keyID: goval) (keyParent: "key option")

datatype segmentKind = collectionSegment | idSegment

record pathSegment =
  segKind :: segmentKind
  segValue :: goval
  segAnyID :: bool

abbreviation collectionSeg :: "string \<Rightarrow> pathSegment" where
  "collectionSeg c \<equiv> \<lparr>segKind = collectionSegment, segValue = goStr c, segAnyID = False\<rparr>"

abbreviation idSeg :: "goval \<Rightarrow> pathSegment" where
  "idSeg v \<equiv> \<lparr>segKind = idSegment, segValue = v, segAnyID = False\<rparr>"

abbreviation anySeg :: pathSegment where
  "anySeg \<equiv> \<lparr>segKind = idSegment, segValue = GNil, segAnyID = True\<rparr>"

type_synonym PathPattern = "pathSegment list"

record Resource =
  resKind :: ResourceKind
  resPath :: "pathSegment list"
  resName :: string

record displayEnv =
  stringer :: "goval \<Rightarrow> string"
  escapeID :: "string \<Rightarrow> string"

definition zeroResource :: Resource where
  "zeroResource = \<lparr>resKind = noResource, resPath = [], resName = []\<rparr>"

definition segmentString :: "displayEnv \<Rightarrow> pathSegment \<Rightarrow> string" where
  "segmentString env segment =
     (if segAnyID segment then ''*''
      else
        let value = fmtSprint (stringer env) (segValue segment)
        in if segKind segment = idSegment then escapeID env value else value)"

definition resourceString :: "displayEnv \<Rightarrow> Resource \<Rightarrow> string" where
  "resourceString env r =
     (case resKind r of
        CollectionGroupResource \<Rightarrow> ''collection-group:'' @ resName r
      | OpaqueQueryResource \<Rightarrow>
          (if resName r = [] then ''opaque-query'' else ''opaque-query:'' @ resName r)
      | _ \<Rightarrow>
          (if resPath r = [] then ''/''
           else ''/'' @ joinWith ''/'' (map (segmentString env) (resPath r))))"

text \<open>The keys from the given one up to the root: the loop over \<open>current.Parent()\<close>.\<close>

fun keyChain :: "key \<Rightarrow> key list" where
  "keyChain (Key c i p) = Key c i p # (case p of None \<Rightarrow> [] | Some q \<Rightarrow> keyChain q)"

definition segmentsForKey :: "key option \<Rightarrow> pathSegment list" where
  "segmentsForKey k =
     (case k of
        None \<Rightarrow> []
      | Some current \<Rightarrow>
          concat (map (\<lambda>kk. [collectionSeg (keyCollection kk), idSeg (keyID kk)])
            (rev (keyChain current))))"

definition RecordResourceForKey :: "key option \<Rightarrow> Resource" where
  "RecordResourceForKey k = \<lparr>resKind = PathResource, resPath = segmentsForKey k, resName = []\<rparr>"

definition CollectionResourceFor :: "key option \<Rightarrow> string \<Rightarrow> Resource" where
  "CollectionResourceFor parent collection =
     \<lparr>resKind = PathResource, resPath = segmentsForKey parent @ [collectionSeg collection],
      resName = []\<rparr>"

definition CollectionGroup :: "string \<Rightarrow> Resource" where
  "CollectionGroup name = \<lparr>resKind = CollectionGroupResource, resPath = [], resName = name\<rparr>"

definition OpaqueQuery :: "string \<Rightarrow> Resource" where
  "OpaqueQuery description = \<lparr>resKind = OpaqueQueryResource, resPath = [], resName = description\<rparr>"

text \<open>An argument of \<open>Path\<close>: the marker \<open>AnyID\<close> or any other Go value.\<close>

datatype pathPart = AnyID | Part goval

fun newPathPart :: "nat \<Rightarrow> pathPart \<Rightarrow> accessError + pathSegment" where
  "newPathPart i part =
     (if i mod 2 = 0 then
        (case part of
           Part (GString t collection) \<Rightarrow>
             (if t \<noteq> ''string'' \<or> trimSpace collection = [] then Inl (PathPartNotCollection i)
              else Inr (collectionSeg collection))
         | _ \<Rightarrow> Inl (PathPartNotCollection i))
      else
        (case part of
           AnyID \<Rightarrow> Inr anySeg
         | Part v \<Rightarrow> if v = GNil then Inl (PathIDNil i) else Inr (idSeg v)))"

fun newPathFrom :: "nat \<Rightarrow> pathPart list \<Rightarrow> accessError + PathPattern" where
  "newPathFrom i [] = Inr []"
| "newPathFrom i (part # parts) =
     bindE (newPathPart i part) (\<lambda>segment.
       bindE (newPathFrom (Suc i) parts) (\<lambda>segments. Inr (segment # segments)))"

definition NewPath :: "pathPart list \<Rightarrow> accessError + PathPattern" where
  "NewPath parts = newPathFrom 0 parts"

definition patternString :: "displayEnv \<Rightarrow> PathPattern \<Rightarrow> string" where
  "patternString env p = resourceString env \<lparr>resKind = PathResource, resPath = p, resName = []\<rparr>"

definition patternAppend :: "PathPattern \<Rightarrow> PathPattern \<Rightarrow> PathPattern" where
  "patternAppend p other = p @ other"

fun isStringKind :: "goval \<Rightarrow> bool" where
  "isStringKind (GString _ _) = True"
| "isStringKind _ = False"

fun isSignedInteger :: "goval \<Rightarrow> bool" where
  "isSignedInteger (GInt _ _) = True"
| "isSignedInteger _ = False"

fun isUnsignedInteger :: "goval \<Rightarrow> bool" where
  "isUnsignedInteger (GUint _ _) = True"
| "isUnsignedInteger _ = False"

fun reflectString :: "goval \<Rightarrow> string" where
  "reflectString (GString _ s) = s"
| "reflectString _ = []"

fun reflectInt :: "goval \<Rightarrow> int" where
  "reflectInt (GInt _ i) = i"
| "reflectInt _ = 0"

fun reflectUint :: "goval \<Rightarrow> nat" where
  "reflectUint (GUint _ n) = n"
| "reflectUint _ = 0"

definition equalID :: "goval \<Rightarrow> goval \<Rightarrow> bool" where
  "equalID expected actual =
     (if deepEqual expected actual then True
      else if expected = GNil \<or> actual = GNil then False
      else if isStringKind expected \<and> isStringKind actual
        then reflectString expected = reflectString actual
      else if isSignedInteger expected \<and> isSignedInteger actual
        then reflectInt expected = reflectInt actual
      else if isUnsignedInteger expected \<and> isUnsignedInteger actual
        then reflectUint expected = reflectUint actual
      else False)"

definition segmentMatch :: "(goval \<Rightarrow> string) \<Rightarrow> pathSegment \<Rightarrow> pathSegment \<Rightarrow> bool" where
  "segmentMatch sp expected actual =
     (if segKind expected \<noteq> segKind actual then False
      else if segAnyID expected then True
      else if segKind expected = collectionSegment
        then fmtSprint sp (segValue expected) = fmtSprint sp (segValue actual)
      else equalID (segValue expected) (segValue actual))"

fun segmentsMatch :: "(goval \<Rightarrow> string) \<Rightarrow> pathSegment list \<Rightarrow> pathSegment list \<Rightarrow> bool" where
  "segmentsMatch sp [] actuals = True"
| "segmentsMatch sp (expected # es) [] = False"
| "segmentsMatch sp (expected # es) (actual # as) =
     (segmentMatch sp expected actual \<and> segmentsMatch sp es as)"

definition patternsMatch :: "displayEnv \<Rightarrow> PathPattern \<Rightarrow> Resource \<Rightarrow> bool" where
  "patternsMatch env pattern resource =
     (if resKind resource \<noteq> PathResource \<or> length pattern > length (resPath resource) then False
      else segmentsMatch (stringer env) pattern (resPath resource))"

section \<open>Well-formed segments\<close>

text \<open>
  What the constructors produce: a collection segment holds a Go string and is no wildcard.
  Patterns need not alternate, since nesting appends them.
\<close>

definition wfSegment :: "pathSegment \<Rightarrow> bool" where
  "wfSegment s \<longleftrightarrow>
     (segKind s = collectionSegment \<longrightarrow> \<not> segAnyID s \<and> (\<exists>c. segValue s = goStr c))"

lemma wfSegment_segmentsForKey: "s \<in> set (segmentsForKey k) \<Longrightarrow> wfSegment s"
  by (auto simp: segmentsForKey_def wfSegment_def split: option.splits)

lemma newPathPart_wf: "newPathPart i part = Inr s \<Longrightarrow> wfSegment s"
  by (auto simp: wfSegment_def split: if_splits pathPart.splits goval.splits)

lemma newPathFrom_wf: "newPathFrom i parts = Inr p \<Longrightarrow> s \<in> set p \<Longrightarrow> wfSegment s"
  by (induction i parts arbitrary: p rule: newPathFrom.induct)
    (auto simp: bindE_eq_Inr simp del: newPathPart.simps dest: newPathPart_wf)

lemma NewPath_wf: "NewPath parts = Inr p \<Longrightarrow> s \<in> set p \<Longrightarrow> wfSegment s"
  unfolding NewPath_def by (rule newPathFrom_wf)

section \<open>Matching\<close>

text \<open>
  Identifiers match when they are the same value up to the names of their types: two strings, two
  signed or two unsigned integers of any width; anything else by deep equality.
\<close>

lemma equalID_iff:
  "equalID x y \<longleftrightarrow>
     (case (x, y) of
        (GString _ s, GString _ s') \<Rightarrow> s = s'
      | (GInt _ i, GInt _ i') \<Rightarrow> i = i'
      | (GUint _ n, GUint _ n') \<Rightarrow> n = n'
      | _ \<Rightarrow> deepEqual x y)"
  by (cases x; cases y) (auto simp: equalID_def)

lemma equalID_sym: "equalID x y = equalID y x"
  by (cases x; cases y) (auto simp: equalID_iff)

lemma equalID_trans: "equalID x y \<Longrightarrow> equalID y z \<Longrightarrow> equalID x z"
  by (cases x; cases y; cases z) (auto simp: equalID_iff)

lemma segmentsMatch_length: "segmentsMatch sp es as \<Longrightarrow> length es \<le> length as"
  by (induction sp es as rule: segmentsMatch.induct) auto

lemma segmentsMatch_iff:
  "segmentsMatch sp es as \<longleftrightarrow>
     length es \<le> length as \<and> (\<forall>i < length es. segmentMatch sp (es ! i) (as ! i))"
proof (induction sp es as rule: segmentsMatch.induct)
  case (3 sp expected es actual as)
  then show ?case by (auto simp: nth_Cons split: nat.splits)
qed auto

lemma segmentsMatch_append:
  "segmentsMatch sp (es @ fs) as \<longleftrightarrow>
     segmentsMatch sp es as \<and> segmentsMatch sp fs (drop (length es) as)"
  by (induction sp es as rule: segmentsMatch.induct) (auto split: if_splits)

lemma patternsMatch_iff:
  "patternsMatch env p r \<longleftrightarrow> resKind r = PathResource \<and> segmentsMatch (stringer env) p (resPath r)"
  by (auto simp: patternsMatch_def dest: segmentsMatch_length)

lemma segmentMatch_sprint_irrelevant:
  "wfSegment e \<Longrightarrow> wfSegment a \<Longrightarrow> segmentMatch sp e a = segmentMatch sp' e a"
  by (cases "segKind e") (auto simp: segmentMatch_def wfSegment_def)

text \<open>The scope of a path pattern is inherited by everything below it.\<close>

lemma patternsMatch_below:
  assumes "patternsMatch env p r" and "resKind r' = PathResource"
    and "resPath r' = resPath r @ rest"
  shows "patternsMatch env p r'"
proof -
  have "segmentsMatch sp es as \<Longrightarrow> segmentsMatch sp es (as @ rest)" for sp es as
    by (induction sp es as rule: segmentsMatch.induct) auto
  with assms show ?thesis by (simp add: patternsMatch_iff)
qed

text \<open>The wildcard accepts the incomplete key of an insert as well as any identifier.\<close>

lemma keyChain_not_Nil [simp]: "keyChain k \<noteq> []"
  by (cases k) simp

lemma segmentsForKey_child:
  "segmentsForKey (Some (Key c i p)) = segmentsForKey p @ [collectionSeg c, idSeg i]"
  by (cases p) (simp_all add: segmentsForKey_def)

lemma segmentsForKey_eq:
  "segmentsForKey k = segmentsForKey k' \<Longrightarrow> k = k'"
proof (induction k arbitrary: k' rule: option.induct)
  case None
  then show ?case by (cases k') (auto simp: segmentsForKey_def)
next
  case (Some kk)
  show ?case using Some
  proof (induction kk arbitrary: k')
    case (Key c i p)
    then obtain c' i' p' where k': "k' = Some (Key c' i' p')"
      by (cases k') (auto simp: segmentsForKey_def, metis key.exhaust)
    with Key.prems have eqs: "c = c'" "i = i'" "segmentsForKey p = segmentsForKey p'"
      by (simp_all add: segmentsForKey_child)
    have "p = p'"
    proof (cases p)
      case None
      with eqs(3) show ?thesis
        by (cases p') (auto simp: segmentsForKey_def)
    next
      case (Some q)
      with eqs(3) Key.IH [of q p'] show ?thesis by simp
    qed
    with eqs k' show ?case by simp
  qed
qed

section \<open>Properties\<close>


text \<open>Different records are different resources: the structural path of a key determines its
  collections, its identifiers with their Go types, and its parents.\<close>

theorem record_resource_injective:
  "RecordResourceForKey k = RecordResourceForKey k' \<longleftrightarrow> k = k'"
  by (auto simp: RecordResourceForKey_def dest: segmentsForKey_eq)

end
