(* ===== verification/AccessRule.thy ===== *)
theory AccessRule
  imports AccessResource
begin

text \<open>
  Declarative rules and their compilation (\<open>src/access/rule.go\<close>). A rule is a tree of scopes
  with directives at its leaves; \<open>compileRules\<close> flattens a list of them into compiled rules,
  each a directive with the path pattern of the scopes around it, or reports the first error.
\<close>

section \<open>Definitions\<close>

datatype ruleKind = noRule | directiveRule | scopeRule | collectionGroupRule | opaqueQueryRule

datatype Rule =
  Rule (ruleKindOf: ruleKind) (rulePattern: PathPattern) (ruleName: string)
    (ruleOperations: operations) (ruleEffect: effect) (ruleResource: string)
    (ruleChildren: "Rule list")

definition directive :: "effect \<Rightarrow> operations \<Rightarrow> string list \<Rightarrow> Rule" where
  "directive ruleEff ops names =
     Rule directiveRule [] (case names of [] \<Rightarrow> [] | n # _ \<Rightarrow> trimSpace n) ops ruleEff [] []"

definition Allow :: "operations \<Rightarrow> string list \<Rightarrow> Rule" where
  "Allow ops name = directive effectAllow ops name"

definition Deny :: "operations \<Rightarrow> string list \<Rightarrow> Rule" where
  "Deny ops name = directive effectDeny ops name"

definition Audit :: "operations \<Rightarrow> string list \<Rightarrow> Rule" where
  "Audit ops name = directive effectAudit ops name"

definition IgnoreAudit :: "operations \<Rightarrow> string list \<Rightarrow> Rule" where
  "IgnoreAudit ops name = directive effectIgnoreAudit ops name"

definition Under :: "PathPattern \<Rightarrow> Rule list \<Rightarrow> Rule" where
  "Under pattern rules = Rule scopeRule pattern [] 0 effectNone [] rules"

text \<open>\<open>Scope\<close> and \<open>Collection\<close> go through \<open>Path\<close>, whose panic is the error here.\<close>

definition Scope :: "string \<Rightarrow> pathPart \<Rightarrow> Rule list \<Rightarrow> accessError + Rule" where
  "Scope collection i rules =
     bindE (NewPath [Part (goStr collection), i]) (\<lambda>p. Inr (Under p rules))"

definition Collection :: "string \<Rightarrow> Rule list \<Rightarrow> accessError + Rule" where
  "Collection collection rules =
     bindE (NewPath [Part (goStr collection)]) (\<lambda>p. Inr (Under p rules))"

definition Root :: "Rule list \<Rightarrow> Rule" where
  "Root rules = Under [] rules"

definition CollectionGroupScope :: "string \<Rightarrow> Rule list \<Rightarrow> Rule" where
  "CollectionGroupScope name rules = Rule collectionGroupRule [] [] 0 effectNone name rules"

definition OpaqueQueryScope :: "Rule list \<Rightarrow> Rule" where
  "OpaqueQueryScope rules = Rule opaqueQueryRule [] [] 0 effectNone [] rules"

record compiledRule =
  crKind :: ResourceKind
  crPattern :: PathPattern
  crResource :: string
  crName :: string
  crOperations :: operations
  crEffect :: effect
  crDepth :: nat
  crLiterals :: nat

definition literalCount :: "PathPattern \<Rightarrow> nat" where
  "literalCount pattern = length (filter (\<lambda>segment. \<not> segAnyID segment) pattern)"

definition resourceDescription :: "displayEnv \<Rightarrow> ResourceKind \<Rightarrow> string \<Rightarrow> PathPattern \<Rightarrow> string" where
  "resourceDescription env kind name pattern =
     (case kind of
        CollectionGroupResource \<Rightarrow> ''collection-group:'' @ name
      | OpaqueQueryResource \<Rightarrow> ''opaque-query''
      | _ \<Rightarrow> patternString env pattern)"

definition directiveName ::
  "displayEnv \<Rightarrow> string \<Rightarrow> effect \<Rightarrow> operations \<Rightarrow> ResourceKind \<Rightarrow> string \<Rightarrow> PathPattern \<Rightarrow> string" where
  "directiveName env name eff ops kind resourceName prefix =
     (if name = []
      then effectString eff @ '' '' @ operationsString ops @ '' at ''
             @ resourceDescription env kind resourceName prefix
      else name)"

definition compileDirective ::
  "displayEnv \<Rightarrow> (effect \<Rightarrow> bool) \<Rightarrow> string \<Rightarrow> operations \<Rightarrow> effect \<Rightarrow> PathPattern \<Rightarrow> ResourceKind \<Rightarrow>
   string \<Rightarrow> compiledRule list \<Rightarrow> accessError + compiledRule list" where
  "compileDirective env allowedEffects name ops eff prefix kind resourceName compiled =
     (if \<not> allowedEffects eff then Inl (EffectNotValid eff)
      else if \<not> validSet ops then Inl (RuleInvalidOperations name)
      else Inr (compiled @
        [\<lparr>crKind = kind, crPattern = prefix, crResource = resourceName,
          crName = directiveName env name eff ops kind resourceName prefix,
          crOperations = ops, crEffect = eff, crDepth = length prefix,
          crLiterals = literalCount prefix\<rparr>]))"

fun compileRule ::
  "displayEnv \<Rightarrow> (effect \<Rightarrow> bool) \<Rightarrow> Rule \<Rightarrow> PathPattern \<Rightarrow> ResourceKind \<Rightarrow> string \<Rightarrow>
   compiledRule list \<Rightarrow> accessError + compiledRule list"
and compileChildren ::
  "displayEnv \<Rightarrow> (effect \<Rightarrow> bool) \<Rightarrow> Rule list \<Rightarrow> PathPattern \<Rightarrow> ResourceKind \<Rightarrow> string \<Rightarrow>
   compiledRule list \<Rightarrow> accessError + compiledRule list" where
  "compileRule env allowedEffects (Rule k pattern name ops eff resource children)
     prefix kind resourceName compiled =
     (case k of
        directiveRule \<Rightarrow>
          compileDirective env allowedEffects name ops eff prefix kind resourceName compiled
      | scopeRule \<Rightarrow>
          (if kind \<noteq> PathResource then Inl (PathScopeNested kind)
           else compileChildren env allowedEffects children (patternAppend prefix pattern)
                  PathResource [] compiled)
      | collectionGroupRule \<Rightarrow>
          (if kind \<noteq> PathResource \<or> length prefix \<noteq> 0 then Inl CollectionGroupNotTopLevel
           else if trimSpace resource = [] then Inl CollectionGroupNameRequired
           else compileChildren env allowedEffects children [] CollectionGroupResource resource
                  compiled)
      | opaqueQueryRule \<Rightarrow>
          (if kind \<noteq> PathResource \<or> length prefix \<noteq> 0 then Inl OpaqueQueryNotTopLevel
           else compileChildren env allowedEffects children [] OpaqueQueryResource [] compiled)
      | noRule \<Rightarrow> Inl UnknownRuleKind)"
| "compileChildren env allowedEffects [] prefix kind resourceName compiled = Inr compiled"
| "compileChildren env allowedEffects (rule # rules) prefix kind resourceName compiled =
     bindE (compileRule env allowedEffects rule prefix kind resourceName compiled)
       (\<lambda>compiled'. compileChildren env allowedEffects rules prefix kind resourceName compiled')"

fun checkNames :: "string set \<Rightarrow> compiledRule list \<Rightarrow> accessError + unit" where
  "checkNames names [] = Inr ()"
| "checkNames names (rule # rules) =
     (if crName rule \<in> names then Inl (DuplicateRuleName (crName rule))
      else checkNames (insert (crName rule) names) rules)"

definition compileRules ::
  "displayEnv \<Rightarrow> (effect \<Rightarrow> bool) \<Rightarrow> Rule list \<Rightarrow> accessError + compiledRule list" where
  "compileRules env allowedEffects rules =
     bindE (compileChildren env allowedEffects rules [] PathResource [] []) (\<lambda>compiled.
       bindE (checkNames {} compiled) (\<lambda>_. Inr compiled))"

section \<open>Compilation is a flattening\<close>

text \<open>
  The reference reading of a rule tree, without errors or accumulator: every directive, with the
  patterns of the scopes around it appended.
\<close>

fun flattenRule :: "displayEnv \<Rightarrow> Rule \<Rightarrow> PathPattern \<Rightarrow> ResourceKind \<Rightarrow> string \<Rightarrow> compiledRule list" where
  "flattenRule env (Rule k pattern name ops eff resource children) prefix kind resourceName =
     (case k of
        directiveRule \<Rightarrow>
          [\<lparr>crKind = kind, crPattern = prefix, crResource = resourceName,
            crName = directiveName env name eff ops kind resourceName prefix,
            crOperations = ops, crEffect = eff, crDepth = length prefix,
            crLiterals = literalCount prefix\<rparr>]
      | scopeRule \<Rightarrow>
          concat (map (\<lambda>r. flattenRule env r (prefix @ pattern) PathResource []) children)
      | collectionGroupRule \<Rightarrow>
          concat (map (\<lambda>r. flattenRule env r [] CollectionGroupResource resource) children)
      | opaqueQueryRule \<Rightarrow>
          concat (map (\<lambda>r. flattenRule env r [] OpaqueQueryResource []) children)
      | noRule \<Rightarrow> [])"

definition flattenRules :: "displayEnv \<Rightarrow> Rule list \<Rightarrow> compiledRule list" where
  "flattenRules env rules = concat (map (\<lambda>r. flattenRule env r [] PathResource []) rules)"

lemma compile_flatten:
  "compileRule env al rule prefix kind rn acc = Inr out \<Longrightarrow>
     out = acc @ flattenRule env rule prefix kind rn"
  "compileChildren env al rules prefix kind rn acc = Inr out \<Longrightarrow>
     out = acc @ concat (map (\<lambda>r. flattenRule env r prefix kind rn) rules)"
proof (induction env al rule prefix kind rn acc and env al rules prefix kind rn acc
    arbitrary: out and out rule: compileRule_compileChildren.induct)
  case (1 env al k pattern name ops eff resource children prefix kind rn acc)
  then show ?case
    by (cases k) (auto simp: compileDirective_def patternAppend_def split: if_splits)
next
  case (3 env al rule rules prefix kind rn acc)
  from "3.prems" obtain c where c: "compileRule env al rule prefix kind rn acc = Inr c"
    and rest: "compileChildren env al rules prefix kind rn c = Inr out"
    by (auto simp: bindE_eq_Inr)
  from "3.IH"(1) [OF c] "3.IH"(2) [OF c rest] show ?case by simp
qed simp

lemma checkNames_iff:
  "isOk (checkNames names rules) \<longleftrightarrow>
     distinct (map crName rules) \<and> set (map crName rules) \<inter> names = {}"
  by (induction names rules rule: checkNames.induct) auto

lemma checkNames_Inr: "checkNames names rules = Inr u \<longleftrightarrow> isOk (checkNames names rules)"
  by (cases "checkNames names rules") auto

lemma compileRules_Inr:
  "compileRules env al rules = Inr out \<Longrightarrow> out = flattenRules env rules \<and> distinct (map crName out)"
  by (auto simp: compileRules_def flattenRules_def bindE_eq_Inr checkNames_Inr checkNames_iff
      dest: compile_flatten(2))

text \<open>When compilation succeeds does not depend on what has been compiled before.\<close>

fun ruleOk :: "(effect \<Rightarrow> bool) \<Rightarrow> Rule \<Rightarrow> PathPattern \<Rightarrow> ResourceKind \<Rightarrow> bool" where
  "ruleOk al (Rule k pattern name ops eff resource children) prefix kind =
     (case k of
        directiveRule \<Rightarrow> al eff \<and> validSet ops
      | scopeRule \<Rightarrow>
          kind = PathResource \<and> (\<forall>r \<in> set children. ruleOk al r (prefix @ pattern) PathResource)
      | collectionGroupRule \<Rightarrow>
          kind = PathResource \<and> prefix = [] \<and> trimSpace resource \<noteq> [] \<and>
          (\<forall>r \<in> set children. ruleOk al r [] CollectionGroupResource)
      | opaqueQueryRule \<Rightarrow>
          kind = PathResource \<and> prefix = [] \<and>
          (\<forall>r \<in> set children. ruleOk al r [] OpaqueQueryResource)
      | noRule \<Rightarrow> False)"

lemma compile_ok:
  "isOk (compileRule env al rule prefix kind rn acc) \<longleftrightarrow> ruleOk al rule prefix kind"
  "isOk (compileChildren env al rules prefix kind rn acc) \<longleftrightarrow>
     (\<forall>r \<in> set rules. ruleOk al r prefix kind)"
proof (induction env al rule prefix kind rn acc and env al rules prefix kind rn acc
    rule: compileRule_compileChildren.induct)
  case (1 env al k pattern name ops eff resource children prefix kind rn acc)
  then show ?case
    by (cases k) (auto simp: compileDirective_def patternAppend_def)
next
  case (3 env al rule rules prefix kind rn acc)
  then show ?case
    by (cases "compileRule env al rule prefix kind rn acc") auto
qed auto

lemma isOk_iff: "isOk m \<longleftrightarrow> (\<exists>x. m = Inr x)"
  by (cases m) auto

lemma compileRules_ok:
  "isOk (compileRules env al rules) \<longleftrightarrow>
     (\<forall>r \<in> set rules. ruleOk al r [] PathResource) \<and> distinct (map crName (flattenRules env rules))"
proof (cases "compileChildren env al rules [] PathResource [] []")
  case (Inl e)
  then show ?thesis
    using compile_ok(2) [of env al rules "[]" PathResource "[]" "[]"]
    by (simp add: compileRules_def)
next
  case (Inr c)
  then have c: "c = flattenRules env rules"
    by (auto simp: flattenRules_def dest: compile_flatten(2))
  have "\<forall>r \<in> set rules. ruleOk al r [] PathResource"
    using compile_ok(2) [of env al rules "[]" PathResource "[]" "[]"] Inr by simp
  with Inr c show ?thesis
    using checkNames_iff [of "{}" c]
    by (cases "checkNames {} c") (simp_all add: compileRules_def)
qed

section \<open>What compiled rules look like\<close>

lemma flattenRule_shape:
  assumes "ruleOk al rule prefix kind" and "r \<in> set (flattenRule env rule prefix kind rn)"
  shows "al (crEffect r) \<and> validSet (crOperations r) \<and> crDepth r = length (crPattern r) \<and>
    crLiterals r = literalCount (crPattern r)"
  using assms
proof (induction env rule prefix kind rn rule: flattenRule.induct)
  case (1 env k pattern name ops eff resource children prefix kind rn)
  then show ?case by (cases k) auto
qed

section \<open>Properties\<close>

text \<open>C32: Compilation succeeds exactly when every rule is well placed, every directive has an
  effect of the policy kind and a valid operation set, and no two compiled names coincide; then the
  result is the flattening of the rule trees, each directive under the concatenated path of the
  scopes around it.\<close>

theorem compileRules_is_flattening:
  "compileRules env allowedEffects rules = Inr compiled \<longleftrightarrow>
     list_all (\<lambda>r. ruleOk allowedEffects r [] PathResource) rules \<and>
     distinct (map crName (flattenRules env rules)) \<and> compiled = flattenRules env rules"
  using compileRules_ok [of env allowedEffects rules] compileRules_Inr [of env allowedEffects rules]
  by (cases "compileRules env allowedEffects rules") (auto simp: list_all_iff)

end
