(* ===== verification/AccessPolicy.thy ===== *)
theory AccessPolicy
  imports AccessRule "HOL-Library.Product_Lexorder"
begin

text \<open>
  Access and audit policies (\<open>src/access/policy.go\<close>): construction from rules, the selection
  of the winning rule for an operation on a resource, decisions and classifications.
\<close>

section \<open>Definitions\<close>

record 'q Request =
  reqOperation :: operations
  reqResources :: "Resource list"
  reqQuery :: "'q option"

datatype explanation =
    NotALeafOperation
  | NoResources
  | NoMatchingAllowRule
  | MatchedRule string effect
  | ContextPolicyRequired
  | InvalidAuditRequest
  | NoMatchingAuditRule

record Decision =
  decAllowed :: bool
  decOperation :: operations
  decResource :: Resource
  decPolicy :: string
  decPolicySource :: string
  decRule :: string
  decEffect :: string
  decExplanation :: explanation

record AccessPolicy =
  polName :: string
  polSource :: string
  polRules :: "Rule list"
  polCompiled :: "compiledRule list"

definition accessEffects :: "effect \<Rightarrow> bool" where
  "accessEffects e \<longleftrightarrow> e \<in> {effectAllow, effectDeny}"

definition auditEffects :: "effect \<Rightarrow> bool" where
  "auditEffects e \<longleftrightarrow> e \<in> {effectAudit, effectIgnoreAudit}"

definition NewPolicy :: "displayEnv \<Rightarrow> string \<Rightarrow> Rule list \<Rightarrow> accessError + AccessPolicy" where
  "NewPolicy env name rules =
     (if name = [] then Inl PolicyNameRequired
      else bindE (compileRules env accessEffects rules) (\<lambda>compiled.
        Inr \<lparr>polName = name, polSource = [], polRules = rules, polCompiled = compiled\<rparr>))"

definition ruleMatchesResource :: "displayEnv \<Rightarrow> compiledRule \<Rightarrow> Resource \<Rightarrow> bool" where
  "ruleMatchesResource env rule resource =
     (if crKind rule \<noteq> resKind resource then False
      else case crKind rule of
             PathResource \<Rightarrow> patternsMatch env (crPattern rule) resource
           | CollectionGroupResource \<Rightarrow> crResource rule = resName resource
           | OpaqueQueryResource \<Rightarrow> True
           | noResource \<Rightarrow> False)"

definition effectIsRestrictive :: "effect \<Rightarrow> bool" where
  "effectIsRestrictive e \<longleftrightarrow> e = effectDeny \<or> e = effectIgnoreAudit"

definition ruleLess :: "compiledRule \<Rightarrow> compiledRule \<Rightarrow> bool" where
  "ruleLess left right =
     (if crDepth left \<noteq> crDepth right then crDepth left > crDepth right
      else if crLiterals left \<noteq> crLiterals right then crLiterals left > crLiterals right
      else if crEffect left \<noteq> crEffect right then effectIsRestrictive (crEffect left)
      else crName left < crName right)"

definition matchingRules ::
  "displayEnv \<Rightarrow> compiledRule list \<Rightarrow> operations \<Rightarrow> Resource \<Rightarrow> compiledRule list" where
  "matchingRules env rules operation resource =
     sliceStable ruleLess
       (filter (\<lambda>rule. opContains (crOperations rule) operation \<and>
                 ruleMatchesResource env rule resource) rules)"

definition decideResource :: "displayEnv \<Rightarrow> AccessPolicy \<Rightarrow> operations \<Rightarrow> Resource \<Rightarrow> Decision" where
  "decideResource env p operation resource =
     (case matchingRules env (polCompiled p) operation resource of
        [] \<Rightarrow>
          \<lparr>decAllowed = False, decOperation = operation, decResource = resource,
           decPolicy = polName p, decPolicySource = polSource p, decRule = [],
           decEffect = effectString effectDeny, decExplanation = NoMatchingAllowRule\<rparr>
      | winner # _ \<Rightarrow>
          \<lparr>decAllowed = (crEffect winner = effectAllow), decOperation = operation,
           decResource = resource, decPolicy = polName p, decPolicySource = polSource p,
           decRule = crName winner, decEffect = effectString (crEffect winner),
           decExplanation = MatchedRule (crName winner) (crEffect winner)\<rparr>)"

definition deniedRequest :: "AccessPolicy \<Rightarrow> operations \<Rightarrow> explanation \<Rightarrow> Decision" where
  "deniedRequest p operation why =
     \<lparr>decAllowed = False, decOperation = operation, decResource = zeroResource,
      decPolicy = polName p, decPolicySource = polSource p, decRule = [],
      decEffect = effectString effectDeny, decExplanation = why\<rparr>"

text \<open>The loop over the resources: the first denial, else the decision on the last one.\<close>

fun decideLoop :: "displayEnv \<Rightarrow> AccessPolicy \<Rightarrow> operations \<Rightarrow> Decision \<Rightarrow> Resource list \<Rightarrow> Decision" where
  "decideLoop env p operation latest [] = latest"
| "decideLoop env p operation latest (resource # resources) =
     (let d = decideResource env p operation resource in
      if \<not> decAllowed d then d else decideLoop env p operation d resources)"

definition Decide :: "displayEnv \<Rightarrow> AccessPolicy \<Rightarrow> 'q Request \<Rightarrow> Decision" where
  "Decide env p request =
     (if \<not> validLeaf (reqOperation request)
        then deniedRequest p (reqOperation request) NotALeafOperation
      else if reqResources request = []
        then deniedRequest p (reqOperation request) NoResources
      else decideLoop env p (reqOperation request)
             (deniedRequest p (reqOperation request) NoResources) (reqResources request))"

text \<open>\<open>Authorize\<close>: \<^const>\<open>None\<close> is Go's nil error, a denial carries its decision.\<close>

definition Authorize :: "displayEnv \<Rightarrow> AccessPolicy \<Rightarrow> 'q Request \<Rightarrow> Decision option" where
  "Authorize env p request =
     (let decision = Decide env p request in if decAllowed decision then None else Some decision)"

record AuditDecision =
  audAudit :: bool
  audOperation :: operations
  audResource :: Resource
  audPolicy :: string
  audPolicySource :: string
  audRule :: string
  audEffect :: string
  audExplanation :: explanation

record AuditPolicy =
  audName :: string
  audSource :: string
  audRules :: "Rule list"
  audCompiled :: "compiledRule list"

definition NewAuditPolicy :: "displayEnv \<Rightarrow> string \<Rightarrow> Rule list \<Rightarrow> accessError + AuditPolicy" where
  "NewAuditPolicy env name rules =
     (if name = [] then Inl AuditPolicyNameRequired
      else bindE (compileRules env auditEffects rules) (\<lambda>compiled.
        Inr \<lparr>audName = name, audSource = [], audRules = rules, audCompiled = compiled\<rparr>))"

definition classifyResource :: "displayEnv \<Rightarrow> AuditPolicy \<Rightarrow> operations \<Rightarrow> Resource \<Rightarrow> AuditDecision" where
  "classifyResource env p operation resource =
     (case matchingRules env (audCompiled p) operation resource of
        [] \<Rightarrow>
          \<lparr>audAudit = False, audOperation = operation, audResource = resource,
           audPolicy = audName p, audPolicySource = audSource p, audRule = [],
           audEffect = effectString effectIgnoreAudit, audExplanation = NoMatchingAuditRule\<rparr>
      | winner # _ \<Rightarrow>
          \<lparr>audAudit = (crEffect winner = effectAudit), audOperation = operation,
           audResource = resource, audPolicy = audName p, audPolicySource = audSource p,
           audRule = crName winner, audEffect = effectString (crEffect winner),
           audExplanation = MatchedRule (crName winner) (crEffect winner)\<rparr>)"

fun classifyLoop ::
  "displayEnv \<Rightarrow> AuditPolicy \<Rightarrow> operations \<Rightarrow> AuditDecision \<Rightarrow> Resource list \<Rightarrow> AuditDecision" where
  "classifyLoop env p operation latest [] = latest"
| "classifyLoop env p operation latest (resource # resources) =
     (let d = classifyResource env p operation resource in
      if audAudit d then d else classifyLoop env p operation d resources)"

definition Classify :: "displayEnv \<Rightarrow> AuditPolicy \<Rightarrow> 'q Request \<Rightarrow> AuditDecision" where
  "Classify env p request =
     (let ignored =
        \<lparr>audAudit = False, audOperation = reqOperation request, audResource = zeroResource,
         audPolicy = audName p, audPolicySource = audSource p, audRule = [],
         audEffect = effectString effectIgnoreAudit, audExplanation = InvalidAuditRequest\<rparr>
      in if \<not> validLeaf (reqOperation request) \<or> reqResources request = [] then ignored
         else classifyLoop env p (reqOperation request) ignored (reqResources request))"

section \<open>The order on compiled rules\<close>

text \<open>
  On rules with the effects of one policy kind the comparison is a strict weak order, as
  \<open>sort.SliceStable\<close> requires; on rules that mix effects of both kinds it is not.
\<close>

definition ruleKey :: "compiledRule \<Rightarrow> int \<times> int \<times> nat \<times> string" where
  "ruleKey r =
     (- int (crDepth r), - int (crLiterals r), (if effectIsRestrictive (crEffect r) then 0 else 1),
      crName r)"

definition ofOneKind :: "effect \<Rightarrow> effect \<Rightarrow> bool" where
  "ofOneKind e e' \<longleftrightarrow> (e \<noteq> e' \<longrightarrow> effectIsRestrictive e \<noteq> effectIsRestrictive e')"

lemma ruleLess_key:
  "ofOneKind (crEffect x) (crEffect y) \<Longrightarrow> ruleLess x y \<longleftrightarrow> ruleKey x < ruleKey y"
  by (auto simp: ruleLess_def ruleKey_def ofOneKind_def)

lemma ofOneKind_effects [simp]:
  "accessEffects e \<Longrightarrow> accessEffects e' \<Longrightarrow> ofOneKind e e'"
  "auditEffects e \<Longrightarrow> auditEffects e' \<Longrightarrow> ofOneKind e e'"
  by (auto simp: accessEffects_def auditEffects_def ofOneKind_def effectIsRestrictive_def)

section \<open>Policies built by the constructors\<close>

definition wfCompiled :: "(effect \<Rightarrow> bool) \<Rightarrow> compiledRule list \<Rightarrow> bool" where
  "wfCompiled al rules \<longleftrightarrow> distinct (map crName rules) \<and>
     (\<forall>r \<in> set rules. al (crEffect r) \<and> validSet (crOperations r) \<and>
        crDepth r = length (crPattern r) \<and> crLiterals r = literalCount (crPattern r))"

lemma compileRules_wf:
  assumes "compileRules env al rules = Inr out"
  shows "wfCompiled al out"
proof -
  from assms have "isOk (compileRules env al rules)" by simp
  then have "\<forall>r \<in> set rules. ruleOk al r [] PathResource"
    by (simp add: compileRules_ok)
  with compileRules_Inr [OF assms] show ?thesis
    by (auto simp: wfCompiled_def flattenRules_def dest: flattenRule_shape)
qed

lemma NewPolicy_wf: "NewPolicy env name rules = Inr p \<Longrightarrow> wfCompiled accessEffects (polCompiled p)"
  by (auto simp: NewPolicy_def bindE_eq_Inr split: if_splits dest: compileRules_wf)

lemma NewAuditPolicy_wf:
  "NewAuditPolicy env name rules = Inr p \<Longrightarrow> wfCompiled auditEffects (audCompiled p)"
  by (auto simp: NewAuditPolicy_def bindE_eq_Inr split: if_splits dest: compileRules_wf)

section \<open>Which rule wins\<close>

definition matches :: "displayEnv \<Rightarrow> operations \<Rightarrow> Resource \<Rightarrow> compiledRule \<Rightarrow> bool" where
  "matches env operation resource rule \<longleftrightarrow>
     opContains (crOperations rule) operation \<and> ruleMatchesResource env rule resource"

definition moreSpecific :: "compiledRule \<Rightarrow> compiledRule \<Rightarrow> bool" where
  "moreSpecific r r' \<longleftrightarrow>
     crDepth r > crDepth r' \<or> crDepth r = crDepth r' \<and> crLiterals r > crLiterals r'"

lemma set_matchingRules:
  "set (matchingRules env rules operation resource) = {r \<in> set rules. matches env operation resource r}"
  by (auto simp: matchingRules_def matches_def)

text \<open>
  The declarative reading of a winner with a given effect: some rule with that effect matches, and
  every rule that matches is less specific than it, or as specific and of the same effect.
\<close>

definition specSelects ::
  "displayEnv \<Rightarrow> compiledRule list \<Rightarrow> effect \<Rightarrow> operations \<Rightarrow> Resource \<Rightarrow> bool" where
  "specSelects env rules eff operation resource \<longleftrightarrow>
     (\<exists>r \<in> set rules. matches env operation resource r \<and> crEffect r = eff \<and>
        (\<forall>r' \<in> set rules. matches env operation resource r' \<longrightarrow>
           moreSpecific r r' \<or> \<not> moreSpecific r' r \<and> crEffect r' = eff))"

definition specAllows :: "displayEnv \<Rightarrow> compiledRule list \<Rightarrow> operations \<Rightarrow> Resource \<Rightarrow> bool" where
  "specAllows env rules = specSelects env rules effectAllow"

definition specAudits :: "displayEnv \<Rightarrow> compiledRule list \<Rightarrow> operations \<Rightarrow> Resource \<Rightarrow> bool" where
  "specAudits env rules = specSelects env rules effectAudit"

definition winnerHas :: "effect \<Rightarrow> compiledRule list \<Rightarrow> bool" where
  "winnerHas eff matching = (case matching of [] \<Rightarrow> False | winner # _ \<Rightarrow> crEffect winner = eff)"

text \<open>
  A kind of policy: the effects its rules may have, and the permissive one among them. The access
  policies and the audit policies are its two instances.
\<close>

locale policy_kind =
  fixes al :: "effect \<Rightarrow> bool" and want :: effect
  assumes one_kind: "al e \<Longrightarrow> al e' \<Longrightarrow> ofOneKind e e'"
    and want_ok: "al want" "\<not> effectIsRestrictive want"
begin

lemma other_restrictive: "al e \<Longrightarrow> e \<noteq> want \<Longrightarrow> effectIsRestrictive e"
  using one_kind [of e want] want_ok by (simp add: ofOneKind_def)

end

sublocale policy_kind \<subseteq> sort_order ruleLess "{r. al (crEffect r)}"
  by unfold_locales (use one_kind in \<open>auto simp: ruleLess_key\<close>)

context policy_kind
begin

lemma matchingRules_winner:
  assumes "\<forall>r \<in> set rules. al (crEffect r)"
    and "matchingRules env rules operation resource = winner # rest"
  shows "winner \<in> set rules \<and> matches env operation resource winner \<and>
    (\<forall>r \<in> set rules. matches env operation resource r \<longrightarrow> \<not> ruleLess r winner)"
proof -
  let ?ms = "filter (\<lambda>rule. opContains (crOperations rule) operation \<and>
                 ruleMatchesResource env rule resource) rules"
  have sub: "set ?ms \<subseteq> {r. al (crEffect r)}" using assms(1) by auto
  have "winner \<in> set (matchingRules env rules operation resource)" using assms(2) by simp
  moreover have "\<not> ruleLess r winner" if "r \<in> set ?ms" for r
    using hd_sliceStable_minimal [OF sub _ that] assms(2) by (simp add: matchingRules_def)
  ultimately show ?thesis by (auto simp: set_matchingRules matches_def)
qed

lemma winner_beats_iff:
  assumes "\<forall>r \<in> set rules. al (crEffect r)" and "w \<in> set rules" "matches env operation resource w"
    and "\<forall>r \<in> set rules. matches env operation resource r \<longrightarrow> \<not> ruleLess r w"
  shows "crEffect w = want \<longleftrightarrow> specSelects env rules want operation resource"
proof
  assume want: "crEffect w = want"
  have "moreSpecific w r \<or> \<not> moreSpecific r w \<and> crEffect r = want"
    if r: "r \<in> set rules" "matches env operation resource r" for r
  proof -
    have "\<not> ruleLess r w" and "crEffect r \<noteq> want \<Longrightarrow> effectIsRestrictive (crEffect r)"
      using assms(1,4) r other_restrictive by blast+
    then show ?thesis using want by (auto simp: ruleLess_def moreSpecific_def split: if_splits)
  qed
  with assms(2,3) want show "specSelects env rules want operation resource"
    unfolding specSelects_def by blast
next
  assume "specSelects env rules want operation resource"
  then obtain r where r: "r \<in> set rules" "matches env operation resource r" "crEffect r = want"
    "moreSpecific r w \<or> \<not> moreSpecific w r \<and> crEffect w = want"
    using assms(2,3) unfolding specSelects_def by blast
  moreover have "\<not> ruleLess r w" using assms(4) r(1,2) by blast
  ultimately show "crEffect w = want"
    by (auto simp: ruleLess_def moreSpecific_def split: if_splits)
qed

lemma winnerHas_spec:
  assumes "\<forall>r \<in> set rules. al (crEffect r)"
  shows "winnerHas want (matchingRules env rules operation resource) \<longleftrightarrow>
    specSelects env rules want operation resource"
proof (cases "matchingRules env rules operation resource")
  case Nil
  then have "{r \<in> set rules. matches env operation resource r} = {}"
    using set_matchingRules [of env rules operation resource] by simp
  with Nil show ?thesis by (auto simp: winnerHas_def specSelects_def)
next
  case (Cons winner rest)
  with matchingRules_winner [OF assms Cons] winner_beats_iff [OF assms] show ?thesis
    by (simp add: winnerHas_def)
qed

lemma total_on_distinct_names:
  assumes "wfCompiled al rules"
  shows "total_sort_order ruleLess (set rules)"
proof
  have eff: "\<forall>r \<in> set rules. al (crEffect r)" and dist: "inj_on crName (set rules)"
    using assms by (auto simp: wfCompiled_def distinct_map)
  show "ruleLess x y \<Longrightarrow> \<not> ruleLess y x" if "x \<in> set rules" "y \<in> set rules" for x y
    using that eff asym by simp
  show "ruleLess x z \<Longrightarrow> ruleLess x y \<or> ruleLess y z"
    if "x \<in> set rules" "y \<in> set rules" "z \<in> set rules" for x y z
    using that eff ntrans [of x y z] by simp
  show "x = y" if "x \<in> set rules" "y \<in> set rules" "\<not> ruleLess x y" "\<not> ruleLess y x" for x y
  proof -
    have "crName x = crName y"
      using that eff one_kind by (auto simp: ruleLess_key ruleKey_def)
    with that dist show ?thesis by (auto dest: inj_onD)
  qed
qed

lemma matchingRules_perm:
  assumes "wfCompiled al rules" and "mset rules = mset rules'"
  shows "matchingRules env rules operation resource = matchingRules env rules' operation resource"
  unfolding matchingRules_def
  by (rule total_sort_order.sliceStable_perm [OF total_on_distinct_names [OF assms(1)]])
    (use assms(2) in \<open>auto simp: mset_filter\<close>)

end

interpretation access_kind: policy_kind accessEffects effectAllow
  by unfold_locales (auto simp: accessEffects_def effectIsRestrictive_def ofOneKind_def)

interpretation audit_kind: policy_kind auditEffects effectAudit
  by unfold_locales (auto simp: auditEffects_def effectIsRestrictive_def ofOneKind_def)

lemma decideResource_allowed:
  "decAllowed (decideResource env p operation resource) \<longleftrightarrow>
     winnerHas effectAllow (matchingRules env (polCompiled p) operation resource)"
  by (simp add: decideResource_def winnerHas_def split: list.split)

lemma classifyResource_audit:
  "audAudit (classifyResource env p operation resource) \<longleftrightarrow>
     winnerHas effectAudit (matchingRules env (audCompiled p) operation resource)"
  by (simp add: classifyResource_def winnerHas_def split: list.split)

section \<open>Requests over several resources\<close>

lemma decideLoop_allowed:
  "decAllowed (decideLoop env p operation latest resources) \<longleftrightarrow>
     (if resources = [] then decAllowed latest
      else \<forall>r \<in> set resources. decAllowed (decideResource env p operation r))"
  by (induction resources arbitrary: latest) (auto simp: Let_def)

lemma Decide_allowed:
  "decAllowed (Decide env p request) \<longleftrightarrow>
     validLeaf (reqOperation request) \<and> reqResources request \<noteq> [] \<and>
     (\<forall>r \<in> set (reqResources request). decAllowed (decideResource env p (reqOperation request) r))"
  by (simp add: Decide_def deniedRequest_def decideLoop_allowed)

lemma Authorize_None: "Authorize env p request = None \<longleftrightarrow> decAllowed (Decide env p request)"
  by (simp add: Authorize_def Let_def)

lemma Authorize_Some_denies:
  "Authorize env p request = Some d \<Longrightarrow> \<not> decAllowed d \<and> d = Decide env p request"
  by (auto simp: Authorize_def Let_def split: if_splits)

lemma decideLoop_first_denial:
  assumes "\<not> decAllowed (decideLoop env p operation latest resources)" and "resources \<noteq> []"
  shows "\<exists>before r after. resources = before @ r # after \<and>
    (\<forall>b \<in> set before. decAllowed (decideResource env p operation b)) \<and>
    decideLoop env p operation latest resources = decideResource env p operation r \<and>
    \<not> decAllowed (decideResource env p operation r)"
  using assms
proof (induction resources arbitrary: latest)
  case (Cons r rs)
  show ?case
  proof (cases "decAllowed (decideResource env p operation r)")
    case True
    with Cons.prems have "\<not> decAllowed (decideLoop env p operation (decideResource env p operation r) rs)"
      "rs \<noteq> []" by (auto simp: Let_def)
    from Cons.IH [OF this] obtain before r' after where "rs = before @ r' # after"
      "\<forall>b \<in> set before. decAllowed (decideResource env p operation b)"
      "decideLoop env p operation (decideResource env p operation r) rs = decideResource env p operation r'"
      "\<not> decAllowed (decideResource env p operation r')" by blast
    with True show ?thesis
      by (intro exI [of _ "r # before"]) auto
  next
    case False
    then show ?thesis by (intro exI [of _ "[]"]) (auto simp: Let_def)
  qed
qed simp

section \<open>Order of rules does not matter\<close>

text \<open>
  Names are unique, so two different rules never compare equal: the winner is determined by the
  set of compiled rules, not by the order they were declared in.
\<close>

lemma decideResource_perm:
  assumes "wfCompiled accessEffects (polCompiled p)" and "mset (polCompiled p) = mset (polCompiled p')"
    and "polName p = polName p'" and "polSource p = polSource p'"
  shows "decideResource env p operation resource = decideResource env p' operation resource"
  using access_kind.matchingRules_perm [OF assms(1,2), of env operation resource] assms(3,4)
  by (simp add: decideResource_def split: list.split)

lemma Decide_perm:
  assumes "wfCompiled accessEffects (polCompiled p)" and "mset (polCompiled p) = mset (polCompiled p')"
    and "polName p = polName p'" and "polSource p = polSource p'"
  shows "Decide env p request = Decide env p' request"
proof -
  have "decideLoop env p operation d rs = decideLoop env p' operation d rs" for operation d rs
    by (induction rs arbitrary: d) (simp_all add: decideResource_perm [OF assms] Let_def)
  then show ?thesis using assms(3,4) by (simp add: Decide_def deniedRequest_def)
qed

section \<open>Audit classification\<close>

lemma classifyLoop_audit:
  "audAudit (classifyLoop env p operation latest resources) \<longleftrightarrow>
     (if resources = [] then audAudit latest
      else \<exists>r \<in> set resources. audAudit (classifyResource env p operation r))"
  by (induction resources arbitrary: latest) (auto simp: Let_def)

lemma Classify_audit:
  "audAudit (Classify env p request) \<longleftrightarrow>
     validLeaf (reqOperation request) \<and>
     (\<exists>r \<in> set (reqResources request). audAudit (classifyResource env p (reqOperation request) r))"
  by (auto simp: Classify_def Let_def classifyLoop_audit)

section \<open>Properties\<close>

text \<open>C1: A policy allows a request exactly when its operation is a single leaf, it names at least
  one resource, and for every resource an allowing rule matches that no other matching rule beats:
  the most specific rule wins, a denial wins a tie, and without a matching rule the answer is no.\<close>

theorem policy_decision:
  assumes "NewPolicy env name rules = Inr p"
  shows "decAllowed (Decide env p request) \<longleftrightarrow>
    validLeaf (reqOperation request) \<and> reqResources request \<noteq> [] \<and>
    list_all (specAllows env (polCompiled p) (reqOperation request)) (reqResources request)"
proof -
  have "\<forall>r \<in> set (polCompiled p). accessEffects (crEffect r)"
    using NewPolicy_wf [OF assms] by (simp add: wfCompiled_def)
  then show ?thesis by (simp add: Decide_allowed decideResource_allowed access_kind.winnerHas_spec specAllows_def
        list_all_iff)
qed

definition sampleEnv :: displayEnv where
  "sampleEnv = \<lparr>stringer = (\<lambda>_. []), escapeID = (\<lambda>s. s)\<rparr>"

definition sampleRules :: "Rule list" where
  "sampleRules =
     [Root [Deny ReadWrite [''outside'']],
      Under [collectionSeg ''spaces'', anySeg] [Allow Read [''space''], Deny Query [''no-query'']]]"

definition sampleRequest :: "unit Request" where
  "sampleRequest =
     \<lparr>reqOperation = Get,
      reqResources = [RecordResourceForKey (Some (Key ''spaces'' (goStr ''s1'') None))],
      reqQuery = None\<rparr>"

lemma sample_policy:
  "NewPolicy sampleEnv ''p'' sampleRules =
     Inr \<lparr>polName = ''p'', polSource = [], polRules = sampleRules,
          polCompiled = flattenRules sampleEnv sampleRules\<rparr>"
  by code_simp

theorem policy_decision_witness:
  "list_all (specAllows sampleEnv (flattenRules sampleEnv sampleRules) Get) (reqResources sampleRequest)"
proof -
  have "decAllowed (Decide sampleEnv \<lparr>polName = ''p'', polSource = [], polRules = sampleRules,
          polCompiled = flattenRules sampleEnv sampleRules\<rparr> sampleRequest)"
    by code_simp
  then show ?thesis
    using policy_decision [OF sample_policy, of sampleRequest] by (simp add: sampleRequest_def)
qed

text \<open>The order in which the rules of a policy are declared does not matter: any permutation
  is accepted and every request gets the same decision, with the same winning rule.\<close>

theorem rule_order_irrelevant:
  assumes "NewPolicy env name rules = Inr p" and "mset rules' = mset rules"
  shows "\<exists>p'. NewPolicy env name rules' = Inr p' \<and> (\<forall>request. Decide env p' request = Decide env p request)"
proof -
  from assms(1) obtain c where c: "compileRules env accessEffects rules = Inr c"
    "p = \<lparr>polName = name, polSource = [], polRules = rules, polCompiled = c\<rparr>" "name \<noteq> []"
    by (auto simp: NewPolicy_def bindE_eq_Inr split: if_splits)
  have flat: "mset (flattenRules env rules') = mset (flattenRules env rules)"
    using assms(2) unfolding flattenRules_def by (rule mset_concat_map_cong)
  have "set rules' = set rules" using assms(2) by (rule mset_eq_setD)
  moreover have "distinct (map crName (flattenRules env rules'))"
    using mset_eq_imp_distinct_iff [of "map crName (flattenRules env rules')"] flat
      compileRules_Inr [OF c(1)] by (metis mset_map)
  ultimately have "isOk (compileRules env accessEffects rules')"
    using c(1) compileRules_ok [of env accessEffects] by (metis isOk_simps(2))
  then obtain c' where c': "compileRules env accessEffects rules' = Inr c'" by (auto simp: isOk_iff)
  let ?p' = "\<lparr>polName = name, polSource = [], polRules = rules', polCompiled = c'\<rparr>"
  have "mset c = mset c'" using compileRules_Inr [OF c(1)] compileRules_Inr [OF c'] flat by simp
  then have "Decide env ?p' request = Decide env p request" for request :: "'q Request"
    using Decide_perm [of p ?p' env request] compileRules_wf [OF c(1)] c(2) by simp
  then show ?thesis using c' c(3) by (auto simp: NewPolicy_def)
qed

theorem rule_order_irrelevant_witness:
  "\<exists>p'. NewPolicy sampleEnv ''p'' (rev sampleRules) = Inr p' \<and>
     (\<forall>request :: unit Request. Decide sampleEnv p' request =
        Decide sampleEnv \<lparr>polName = ''p'', polSource = [], polRules = sampleRules,
          polCompiled = flattenRules sampleEnv sampleRules\<rparr> request)"
  using rule_order_irrelevant [OF sample_policy, of "rev sampleRules"] by simp

text \<open>A request over several resources that is denied reports the first resource, in the order
  of the request, that the policy denies.\<close>

theorem denial_reports_first_resource:
  assumes "validLeaf (reqOperation request)" and "reqResources request \<noteq> []"
    and "Authorize env p request = Some d"
  shows "\<exists>before r after. reqResources request = before @ r # after \<and>
    list_all (\<lambda>b. decAllowed (decideResource env p (reqOperation request) b)) before \<and>
    d = decideResource env p (reqOperation request) r \<and> \<not> decAllowed d"
proof -
  let ?start = "deniedRequest p (reqOperation request) NoResources"
  have d: "d = decideLoop env p (reqOperation request) ?start (reqResources request)" "\<not> decAllowed d"
    using Authorize_Some_denies [OF assms(3)] assms(1,2) by (auto simp: Decide_def)
  then show ?thesis
    using decideLoop_first_denial [of env p "reqOperation request" ?start "reqResources request"] assms(2)
    by (auto simp: list_all_iff)
qed

theorem denial_reports_first_resource_witness:
  "\<exists>d. Authorize sampleEnv \<lparr>polName = ''p'', polSource = [], polRules = [], polCompiled = []\<rparr>
      sampleRequest = Some d \<and>
     d = decideResource sampleEnv \<lparr>polName = ''p'', polSource = [], polRules = [], polCompiled = []\<rparr>
       Get (RecordResourceForKey (Some (Key ''spaces'' (goStr ''s1'') None)))"
proof -
  let ?p = "\<lparr>polName = ''p'', polSource = [], polRules = [], polCompiled = []\<rparr>"
  have v: "validLeaf (reqOperation sampleRequest)" by code_simp
  have n: "reqResources sampleRequest \<noteq> []" by (simp add: sampleRequest_def)
  have "\<not> decAllowed (Decide sampleEnv ?p sampleRequest)" by code_simp
  then have a: "Authorize sampleEnv ?p sampleRequest = Some (Decide sampleEnv ?p sampleRequest)"
    by (simp add: Authorize_def Let_def)
  from denial_reports_first_resource [OF v n a] a show ?thesis
    by (auto simp: sampleRequest_def Cons_eq_append_conv)
qed

text \<open>An audit policy selects a request exactly when its operation is a leaf and for one of its
  resources the winning rule audits: an auditing rule matches that no matching rule beats, where
  the exclusion from audit wins a tie and is the default.\<close>

theorem audit_selection:
  assumes "NewAuditPolicy env name rules = Inr p"
  shows "audAudit (Classify env p request) \<longleftrightarrow>
    validLeaf (reqOperation request) \<and>
    list_ex (specAudits env (audCompiled p) (reqOperation request)) (reqResources request)"
proof -
  have "\<forall>r \<in> set (audCompiled p). auditEffects (crEffect r)"
    using NewAuditPolicy_wf [OF assms] by (simp add: wfCompiled_def)
  then show ?thesis
    by (simp add: Classify_audit classifyResource_audit audit_kind.winnerHas_spec specAudits_def
        list_ex_iff)
qed

definition sampleAuditRules :: "Rule list" where
  "sampleAuditRules =
     [Root [Audit Write [''all-writes'']],
      Under [collectionSeg ''logs''] [IgnoreAudit ReadWrite [''quiet'']]]"

lemma sample_audit_policy:
  "NewAuditPolicy sampleEnv ''a'' sampleAuditRules =
     Inr \<lparr>audName = ''a'', audSource = [], audRules = sampleAuditRules,
          audCompiled = flattenRules sampleEnv sampleAuditRules\<rparr>"
  by code_simp

theorem audit_selection_witness:
  "specAudits sampleEnv (flattenRules sampleEnv sampleAuditRules) Set
     (RecordResourceForKey (Some (Key ''spaces'' (goStr ''s1'') None)))"
proof -
  let ?r = "\<lparr>reqOperation = Set,
      reqResources = [RecordResourceForKey (Some (Key ''spaces'' (goStr ''s1'') None))],
      reqQuery = None :: unit option\<rparr>"
  have "audAudit (Classify sampleEnv \<lparr>audName = ''a'', audSource = [], audRules = sampleAuditRules,
          audCompiled = flattenRules sampleEnv sampleAuditRules\<rparr> ?r)"
    by code_simp
  then show ?thesis using audit_selection [OF sample_audit_policy, of ?r] by simp
qed

end
