(* ===== verification/AccessGuard.thy ===== *)
theory AccessGuard
  imports AccessPolicy
begin

text \<open>
  Enforcement: policies carried by contexts and guards (\<open>src/access/context.go\<close>), secured
  sessions (\<open>src/access/session.go\<close>) and secured databases (\<open>src/access/database.go\<close>).

  The adapter behind a secured session is an argument: a record of operations on its own state,
  so that "the adapter is not reached" is the statement that its state does not change. A policy is
  what the interface \<open>Policy\<close> promises of one: a function from the context and the request to
  nil or a denial. A context is the list of policies the package stores in it under its private
  key, and the rest of it, which is all a policy from outside the package can look at.
\<close>

section \<open>Contexts and guards\<close>

datatype recordsetSource =
    CollectionRefSource "key option" string
  | CollectionGroupRefSource string
  | OtherSource string

text \<open>
  A query: structured, with its base source, its joined sources and the rest of it, or any other
  one, with its text.
\<close>

datatype 'q query =
    StructuredQuery recordsetSource "recordsetSource list" 'q
  | OtherQuery string 'q

type_synonym ('r, 'q) policy = "'r option \<Rightarrow> 'q query Request \<Rightarrow> Decision option"

record ('r, 'q) goContext =
  ctxPolicies :: "('r, 'q) policy list"
  ctxRest :: 'r

definition policiesFromContext :: "('r, 'q) goContext option \<Rightarrow> ('r, 'q) policy list" where
  "policiesFromContext ctx = (case ctx of None \<Rightarrow> [] | Some c \<Rightarrow> ctxPolicies c)"

definition restOf :: "('r, 'q) goContext option \<Rightarrow> 'r option" where
  "restOf ctx = map_option ctxRest ctx"

datatype panic = NilContext | NilContextPolicy nat

fun firstNil :: "nat \<Rightarrow> 'p option list \<Rightarrow> nat option" where
  "firstNil i [] = None"
| "firstNil i (p # ps) = (if p = None then Some i else firstNil (Suc i) ps)"

definition WithPolicy ::
  "('r, 'q) goContext option \<Rightarrow> ('r, 'q) policy option list \<Rightarrow> panic + ('r, 'q) goContext" where
  "WithPolicy ctx policies =
     (case ctx of
        None \<Rightarrow> Inl NilContext
      | Some c \<Rightarrow>
          (let combined = map Some (policiesFromContext ctx) @ policies in
           case firstNil 0 combined of
             Some i \<Rightarrow> Inl (NilContextPolicy i)
           | None \<Rightarrow> Inr (c\<lparr>ctxPolicies := map the combined\<rparr>)))"

record ('r, 'q) guard =
  databasePolicies :: "('r, 'q) policy list"
  boundPolicies :: "('r, 'q) policy list"
  requireContext :: bool

definition guardBind :: "('r, 'q) guard \<Rightarrow> ('r, 'q) goContext option \<Rightarrow> ('r, 'q) guard" where
  "guardBind g ctx = g\<lparr>boundPolicies := boundPolicies g @ policiesFromContext ctx\<rparr>"

definition requireContextPolicy :: "('r, 'q) guard \<Rightarrow> operations \<Rightarrow> nat \<Rightarrow> Decision option" where
  "requireContextPolicy g operation contextPolicyCount =
     (if \<not> requireContext g \<or> contextPolicyCount > 0 then None
      else Some
        \<lparr>decAllowed = False, decOperation = operation, decResource = zeroResource,
         decPolicy = ''context'', decPolicySource = [], decRule = [],
         decEffect = effectString effectDeny, decExplanation = ContextPolicyRequired\<rparr>)"

fun authorizeLoop ::
  "'r option \<Rightarrow> 'q query Request \<Rightarrow> ('r, 'q) policy list \<Rightarrow> Decision option" where
  "authorizeLoop rest request [] = None"
| "authorizeLoop rest request (policy # policies) =
     (case policy rest request of
        Some d \<Rightarrow> Some d
      | None \<Rightarrow> authorizeLoop rest request policies)"

definition authorizeRequest ::
  "('r, 'q) guard \<Rightarrow> ('r, 'q) goContext option \<Rightarrow> 'q query Request \<Rightarrow> Decision option" where
  "authorizeRequest g ctx request =
     (let dynamicPolicies = policiesFromContext ctx;
          contextPolicyCount = length (boundPolicies g) + length dynamicPolicies
      in case requireContextPolicy g (reqOperation request) contextPolicyCount of
           Some d \<Rightarrow> Some d
         | None \<Rightarrow>
             authorizeLoop (restOf ctx) request
               (databasePolicies g @ boundPolicies g @ dynamicPolicies))"

definition authorize ::
  "('r, 'q) guard \<Rightarrow> ('r, 'q) goContext option \<Rightarrow> operations \<Rightarrow> Resource list \<Rightarrow> Decision option" where
  "authorize g ctx operation resources =
     authorizeRequest g ctx \<lparr>reqOperation = operation, reqResources = resources, reqQuery = None\<rparr>"

definition checkContext :: "('r, 'q) guard \<Rightarrow> ('r, 'q) goContext option \<Rightarrow> Decision option" where
  "checkContext g ctx =
     requireContextPolicy g 0 (length (boundPolicies g) + length (policiesFromContext ctx))"

section \<open>Secured sessions\<close>

datatype 'x goError = DeniedError Decision | OtherError 'x

type_synonym ('s, 'x, 'a) action = "'s \<Rightarrow> 's \<times> ('x goError + 'a)"

text \<open>
  Sessions of the interfaces \<open>dal.ReadSession\<close> and \<open>dal.WriteSession\<close>. \<^typ>\<open>'rec\<close>
  stands for records of the module \<open>github.com/dal-go/record\<close>; \<^typ>\<open>'d\<close> for what passes
  through unchanged: options, updates, preconditions, readers.
\<close>

record ('r, 'q, 'rec, 'd, 's, 'x) readSession =
  sExists :: "('r, 'q) goContext option \<Rightarrow> key option \<Rightarrow> ('s, 'x, bool) action"
  sGet :: "('r, 'q) goContext option \<Rightarrow> 'rec \<Rightarrow> ('s, 'x, unit) action"
  sGetMulti :: "('r, 'q) goContext option \<Rightarrow> 'rec list \<Rightarrow> ('s, 'x, unit) action"
  sQueryRecords :: "('r, 'q) goContext option \<Rightarrow> 'q query \<Rightarrow> ('s, 'x, 'd) action"
  sQueryRecordset :: "('r, 'q) goContext option \<Rightarrow> 'q query \<Rightarrow> 'd list \<Rightarrow> ('s, 'x, 'd) action"

record ('r, 'q, 'rec, 'd, 's, 'x) writeSession =
  sSet :: "('r, 'q) goContext option \<Rightarrow> 'rec \<Rightarrow> ('s, 'x, unit) action"
  sSetMulti :: "('r, 'q) goContext option \<Rightarrow> 'rec list \<Rightarrow> ('s, 'x, unit) action"
  sInsert :: "('r, 'q) goContext option \<Rightarrow> 'rec \<Rightarrow> 'd list \<Rightarrow> ('s, 'x, unit) action"
  sInsertMulti :: "('r, 'q) goContext option \<Rightarrow> 'rec list \<Rightarrow> 'd list \<Rightarrow> ('s, 'x, unit) action"
  sUpdate :: "('r, 'q) goContext option \<Rightarrow> key option \<Rightarrow> 'd list \<Rightarrow> 'd list \<Rightarrow> ('s, 'x, unit) action"
  sUpdateRecord :: "('r, 'q) goContext option \<Rightarrow> 'rec \<Rightarrow> 'd list \<Rightarrow> 'd list \<Rightarrow> ('s, 'x, unit) action"
  sUpdateMulti :: "('r, 'q) goContext option \<Rightarrow> key option list \<Rightarrow> 'd list \<Rightarrow> 'd list \<Rightarrow> ('s, 'x, unit) action"
  sDelete :: "('r, 'q) goContext option \<Rightarrow> key option \<Rightarrow> ('s, 'x, unit) action"
  sDeleteMulti :: "('r, 'q) goContext option \<Rightarrow> key option list \<Rightarrow> ('s, 'x, unit) action"

text \<open>The shape of every secured method: on an error return it, else delegate.\<close>

definition guarded :: "Decision option \<Rightarrow> ('s, 'x, 'a) action \<Rightarrow> ('s, 'x, 'a) action" where
  "guarded err delegate s = (case err of Some d \<Rightarrow> (s, Inl (DeniedError d)) | None \<Rightarrow> delegate s)"

definition resourcesForRecords :: "('rec \<Rightarrow> key option) \<Rightarrow> 'rec list \<Rightarrow> Resource list" where
  "resourcesForRecords recKey records = map (\<lambda>rec. RecordResourceForKey (recKey rec)) records"

definition resourcesForKeys :: "key option list \<Rightarrow> Resource list" where
  "resourcesForKeys keys = map RecordResourceForKey keys"

fun resourceForRecordsetSource :: "recordsetSource \<Rightarrow> Resource" where
  "resourceForRecordsetSource (CollectionRefSource parent name) = CollectionResourceFor parent name"
| "resourceForRecordsetSource (CollectionGroupRefSource name) = CollectionGroup name"
| "resourceForRecordsetSource (OtherSource text) = OpaqueQuery text"

fun resourcesForQuery :: "'q query \<Rightarrow> Resource list" where
  "resourcesForQuery (StructuredQuery base joins q) =
     resourceForRecordsetSource base # map resourceForRecordsetSource joins"
| "resourcesForQuery (OtherQuery text q) = [OpaqueQuery text]"

definition queryRequest :: "'q query \<Rightarrow> 'q query Request" where
  "queryRequest query =
     \<lparr>reqOperation = Query, reqResources = resourcesForQuery query, reqQuery = Some query\<rparr>"

definition securedReadSession ::
  "('rec \<Rightarrow> key option) \<Rightarrow> ('r, 'q, 'rec, 'd, 's, 'x) readSession \<Rightarrow> ('r, 'q) guard \<Rightarrow>
   ('r, 'q, 'rec, 'd, 's, 'x) readSession" where
  "securedReadSession recKey session g =
     \<lparr>sExists = (\<lambda>ctx key.
        guarded (authorize g ctx Exists [RecordResourceForKey key]) (sExists session ctx key)),
      sGet = (\<lambda>ctx rec.
        guarded (authorize g ctx Get [RecordResourceForKey (recKey rec)]) (sGet session ctx rec)),
      sGetMulti = (\<lambda>ctx records.
        guarded (authorize g ctx Get (resourcesForRecords recKey records))
          (sGetMulti session ctx records)),
      sQueryRecords = (\<lambda>ctx query.
        guarded (authorizeRequest g ctx (queryRequest query)) (sQueryRecords session ctx query)),
      sQueryRecordset = (\<lambda>ctx query options.
        guarded (authorizeRequest g ctx (queryRequest query))
          (sQueryRecordset session ctx query options))\<rparr>"

definition securedWriteSession ::
  "('rec \<Rightarrow> key option) \<Rightarrow> ('r, 'q, 'rec, 'd, 's, 'x) writeSession \<Rightarrow> ('r, 'q) guard \<Rightarrow>
   ('r, 'q, 'rec, 'd, 's, 'x) writeSession" where
  "securedWriteSession recKey session g =
     \<lparr>sSet = (\<lambda>ctx rec.
        guarded (authorize g ctx Set [RecordResourceForKey (recKey rec)]) (sSet session ctx rec)),
      sSetMulti = (\<lambda>ctx records.
        guarded (authorize g ctx Set (resourcesForRecords recKey records))
          (sSetMulti session ctx records)),
      sInsert = (\<lambda>ctx rec options.
        guarded (authorize g ctx Insert [RecordResourceForKey (recKey rec)])
          (sInsert session ctx rec options)),
      sInsertMulti = (\<lambda>ctx records options.
        guarded (authorize g ctx Insert (resourcesForRecords recKey records))
          (sInsertMulti session ctx records options)),
      sUpdate = (\<lambda>ctx key updates preconditions.
        guarded (authorize g ctx Update [RecordResourceForKey key])
          (sUpdate session ctx key updates preconditions)),
      sUpdateRecord = (\<lambda>ctx rec updates preconditions.
        guarded (authorize g ctx Update [RecordResourceForKey (recKey rec)])
          (sUpdateRecord session ctx rec updates preconditions)),
      sUpdateMulti = (\<lambda>ctx keys updates preconditions.
        guarded (authorize g ctx Update (resourcesForKeys keys))
          (sUpdateMulti session ctx keys updates preconditions)),
      sDelete = (\<lambda>ctx key.
        guarded (authorize g ctx Delete [RecordResourceForKey key]) (sDelete session ctx key)),
      sDeleteMulti = (\<lambda>ctx keys.
        guarded (authorize g ctx Delete (resourcesForKeys keys)) (sDeleteMulti session ctx keys))\<rparr>"

definition databaseGuard :: "('r, 'q) policy list \<Rightarrow> ('r, 'q) guard" where
  "databaseGuard policies =
     \<lparr>databasePolicies = policies, boundPolicies = [], requireContext = False\<rparr>"

definition SecureReadSession ::
  "('rec \<Rightarrow> key option) \<Rightarrow> ('r, 'q, 'rec, 'd, 's, 'x) readSession \<Rightarrow> ('r, 'q) policy list \<Rightarrow>
   ('r, 'q, 'rec, 'd, 's, 'x) readSession" where
  "SecureReadSession recKey session policies =
     securedReadSession recKey session (databaseGuard policies)"

definition SecureWriteSession ::
  "('rec \<Rightarrow> key option) \<Rightarrow> ('r, 'q, 'rec, 'd, 's, 'x) writeSession \<Rightarrow> ('r, 'q) policy list \<Rightarrow>
   ('r, 'q, 'rec, 'd, 's, 'x) writeSession" where
  "SecureWriteSession recKey session policies =
     securedWriteSession recKey session (databaseGuard policies)"

definition SecureReadwriteSession ::
  "('rec \<Rightarrow> key option) \<Rightarrow>
   ('r, 'q, 'rec, 'd, 's, 'x) readSession \<times> ('r, 'q, 'rec, 'd, 's, 'x) writeSession \<Rightarrow>
   ('r, 'q) policy list \<Rightarrow>
   ('r, 'q, 'rec, 'd, 's, 'x) readSession \<times> ('r, 'q, 'rec, 'd, 's, 'x) writeSession" where
  "SecureReadwriteSession recKey session policies =
     (let g = databaseGuard policies
      in (securedReadSession recKey (fst session) g, securedWriteSession recKey (snd session) g))"

section \<open>Secured databases\<close>

record ('r, 'q, 'rec, 'd, 's, 'x) readTransaction =
  txRead :: "('r, 'q, 'rec, 'd, 's, 'x) readSession"
  txOptions :: 'd

record ('r, 'q, 'rec, 'd, 's, 'x) readwriteTransaction =
  rwRead :: "('r, 'q, 'rec, 'd, 's, 'x) readSession"
  rwWrite :: "('r, 'q, 'rec, 'd, 's, 'x) writeSession"
  rwID :: string
  rwOptions :: 'd

type_synonym ('r, 'q, 'rec, 'd, 's, 'x) roWorker =
  "('r, 'q) goContext option \<Rightarrow> ('r, 'q, 'rec, 'd, 's, 'x) readTransaction \<Rightarrow> ('s, 'x, unit) action"

type_synonym ('r, 'q, 'rec, 'd, 's, 'x) rwWorker =
  "('r, 'q) goContext option \<Rightarrow> ('r, 'q, 'rec, 'd, 's, 'x) readwriteTransaction \<Rightarrow> ('s, 'x, unit) action"

record ('r, 'q, 'rec, 'd, 's, 'x) database =
  dbID :: string
  dbAdapter :: 'd
  dbSchema :: 'd
  dbConcurrent :: bool
  dbRead :: "('r, 'q, 'rec, 'd, 's, 'x) readSession"
  dbRunReadonly ::
    "('r, 'q) goContext option \<Rightarrow> ('r, 'q, 'rec, 'd, 's, 'x) roWorker \<Rightarrow> 'd list \<Rightarrow> ('s, 'x, unit) action"
  dbRunReadwrite ::
    "('r, 'q) goContext option \<Rightarrow> ('r, 'q, 'rec, 'd, 's, 'x) rwWorker \<Rightarrow> 'd list \<Rightarrow> ('s, 'x, unit) action"

record ('r, 'q) secureDBOptions =
  optDatabasePolicies :: "('r, 'q) policy list"
  optRequireContext :: bool

datatype dbOptionError = DBRequired | NilDBOption | NilDatabasePolicy nat

type_synonym ('r, 'q) dbOption =
  "('r, 'q) secureDBOptions \<Rightarrow> dbOptionError + ('r, 'q) secureDBOptions"

definition WithDatabasePolicies :: "('r, 'q) policy option list \<Rightarrow> ('r, 'q) dbOption" where
  "WithDatabasePolicies policies options =
     (case firstNil 0 policies of
        Some i \<Rightarrow> Inl (NilDatabasePolicy i)
      | None \<Rightarrow> Inr (options\<lparr>optDatabasePolicies := optDatabasePolicies options @ map the policies\<rparr>))"

definition RequireContextPolicy :: "('r, 'q) dbOption" where
  "RequireContextPolicy options = Inr (options\<lparr>optRequireContext := True\<rparr>)"

fun applyDBOptions ::
  "('r, 'q) secureDBOptions \<Rightarrow> ('r, 'q) dbOption option list \<Rightarrow>
   dbOptionError + ('r, 'q) secureDBOptions" where
  "applyDBOptions settings [] = Inr settings"
| "applyDBOptions settings (opt # options) =
     (case opt of
        None \<Rightarrow> Inl NilDBOption
      | Some f \<Rightarrow> bindE (f settings) (\<lambda>settings'. applyDBOptions settings' options))"

record ('r, 'q, 'rec, 'd, 's, 'x) securedDB =
  sdbDB :: "('r, 'q, 'rec, 'd, 's, 'x) database"
  sdbGuard :: "('r, 'q) guard"

definition SecureDB ::
  "('r, 'q, 'rec, 'd, 's, 'x) database option \<Rightarrow> ('r, 'q) dbOption option list \<Rightarrow>
   dbOptionError + ('r, 'q, 'rec, 'd, 's, 'x) securedDB" where
  "SecureDB db options =
     (case db of
        None \<Rightarrow> Inl DBRequired
      | Some db' \<Rightarrow>
          bindE (applyDBOptions \<lparr>optDatabasePolicies = [], optRequireContext = False\<rparr> options)
            (\<lambda>settings.
              Inr \<lparr>sdbDB = db',
                   sdbGuard = \<lparr>databasePolicies = optDatabasePolicies settings, boundPolicies = [],
                               requireContext = optRequireContext settings\<rparr>\<rparr>))"

text \<open>\<open>BindDB\<close> on a secured database (Inr) and on any other one (Inl).\<close>

definition BindDB ::
  "('r, 'q, 'rec, 'd, 's, 'x) database + ('r, 'q, 'rec, 'd, 's, 'x) securedDB \<Rightarrow>
   ('r, 'q) goContext option \<Rightarrow> ('r, 'q, 'rec, 'd, 's, 'x) securedDB" where
  "BindDB db ctx =
     (case db of
        Inr secured \<Rightarrow> secured\<lparr>sdbGuard := guardBind (sdbGuard secured) ctx\<rparr>
      | Inl raw \<Rightarrow> \<lparr>sdbDB = raw, sdbGuard = guardBind (databaseGuard []) ctx\<rparr>)"

definition securedReadTransaction ::
  "('rec \<Rightarrow> key option) \<Rightarrow> ('r, 'q) guard \<Rightarrow> ('r, 'q, 'rec, 'd, 's, 'x) readTransaction \<Rightarrow>
   ('r, 'q, 'rec, 'd, 's, 'x) readTransaction" where
  "securedReadTransaction recKey captured tx =
     \<lparr>txRead = securedReadSession recKey (txRead tx) captured, txOptions = txOptions tx\<rparr>"

definition securedReadwriteTransaction ::
  "('rec \<Rightarrow> key option) \<Rightarrow> ('r, 'q) guard \<Rightarrow> ('r, 'q, 'rec, 'd, 's, 'x) readwriteTransaction \<Rightarrow>
   ('r, 'q, 'rec, 'd, 's, 'x) readwriteTransaction" where
  "securedReadwriteTransaction recKey captured tx =
     \<lparr>rwRead = securedReadSession recKey (rwRead tx) captured,
      rwWrite = securedWriteSession recKey (rwWrite tx) captured,
      rwID = rwID tx, rwOptions = rwOptions tx\<rparr>"

text \<open>
  The two transaction runners. The arguments \<open>roCtx\<close> and \<open>rwCtx\<close> are the effect of
  \<open>dal.NewContextWithTransaction\<close> on the rest of a context: storing the transaction in it.
\<close>

definition RunReadonlyTransaction ::
  "('rec \<Rightarrow> key option) \<Rightarrow>
   (('r, 'q, 'rec, 'd, 's, 'x) readTransaction \<Rightarrow> ('r, 'q) goContext option \<Rightarrow> ('r, 'q) goContext option) \<Rightarrow>
   ('r, 'q, 'rec, 'd, 's, 'x) securedDB \<Rightarrow> ('r, 'q) goContext option \<Rightarrow>
   ('r, 'q, 'rec, 'd, 's, 'x) roWorker \<Rightarrow> 'd list \<Rightarrow> ('s, 'x, unit) action" where
  "RunReadonlyTransaction recKey roCtx db ctx worker options s =
     (case checkContext (sdbGuard db) ctx of
        Some d \<Rightarrow> (s, Inl (DeniedError d))
      | None \<Rightarrow>
          (let captured = guardBind (sdbGuard db) ctx in
           dbRunReadonly (sdbDB db) ctx
             (\<lambda>workerCtx tx.
               let securedTx = securedReadTransaction recKey captured tx
               in worker (roCtx securedTx workerCtx) securedTx)
             options s))"

definition RunReadwriteTransaction ::
  "('rec \<Rightarrow> key option) \<Rightarrow>
   (('r, 'q, 'rec, 'd, 's, 'x) readwriteTransaction \<Rightarrow> ('r, 'q) goContext option \<Rightarrow> ('r, 'q) goContext option) \<Rightarrow>
   ('r, 'q, 'rec, 'd, 's, 'x) securedDB \<Rightarrow> ('r, 'q) goContext option \<Rightarrow>
   ('r, 'q, 'rec, 'd, 's, 'x) rwWorker \<Rightarrow> 'd list \<Rightarrow> ('s, 'x, unit) action" where
  "RunReadwriteTransaction recKey rwCtx db ctx worker options s =
     (case checkContext (sdbGuard db) ctx of
        Some d \<Rightarrow> (s, Inl (DeniedError d))
      | None \<Rightarrow>
          (let captured = guardBind (sdbGuard db) ctx in
           dbRunReadwrite (sdbDB db) ctx
             (\<lambda>workerCtx tx.
               let securedTx = securedReadwriteTransaction recKey captured tx
               in worker (rwCtx securedTx workerCtx) securedTx)
             options s))"

text \<open>The secured database itself is a database: its reads are those of a secured session.\<close>

definition asDatabase ::
  "('rec \<Rightarrow> key option) \<Rightarrow>
   (('r, 'q, 'rec, 'd, 's, 'x) readTransaction \<Rightarrow> ('r, 'q) goContext option \<Rightarrow> ('r, 'q) goContext option) \<Rightarrow>
   (('r, 'q, 'rec, 'd, 's, 'x) readwriteTransaction \<Rightarrow> ('r, 'q) goContext option \<Rightarrow> ('r, 'q) goContext option) \<Rightarrow>
   ('r, 'q, 'rec, 'd, 's, 'x) securedDB \<Rightarrow> ('r, 'q, 'rec, 'd, 's, 'x) database" where
  "asDatabase recKey roCtx rwCtx db =
     \<lparr>dbID = dbID (sdbDB db), dbAdapter = dbAdapter (sdbDB db), dbSchema = dbSchema (sdbDB db),
      dbConcurrent = dbConcurrent (sdbDB db),
      dbRead = securedReadSession recKey (dbRead (sdbDB db)) (sdbGuard db),
      dbRunReadonly = RunReadonlyTransaction recKey roCtx db,
      dbRunReadwrite = RunReadwriteTransaction recKey rwCtx db\<rparr>"

section \<open>Guards compose policies by intersection\<close>

definition allPolicies :: "('r, 'q) guard \<Rightarrow> ('r, 'q) goContext option \<Rightarrow> ('r, 'q) policy list" where
  "allPolicies g ctx = databasePolicies g @ boundPolicies g @ policiesFromContext ctx"

lemma authorizeLoop_None:
  "authorizeLoop rest request policies = None \<longleftrightarrow> (\<forall>p \<in> set policies. p rest request = None)"
  by (induction policies) (auto split: option.split)

lemma authorizeLoop_Some:
  "authorizeLoop rest request policies = Some d \<Longrightarrow> \<exists>p \<in> set policies. p rest request = Some d"
  by (induction policies) (auto split: option.splits)

lemma authorizeRequest_None:
  "authorizeRequest g ctx request = None \<longleftrightarrow>
     (requireContext g \<longrightarrow> boundPolicies g @ policiesFromContext ctx \<noteq> []) \<and>
     (\<forall>p \<in> set (allPolicies g ctx). p (restOf ctx) request = None)"
  by (auto simp: authorizeRequest_def requireContextPolicy_def authorizeLoop_None allPolicies_def
      Let_def split: option.splits)

lemma authorizeRequest_Some:
  "authorizeRequest g ctx request = Some d \<Longrightarrow>
     decExplanation d = ContextPolicyRequired \<or>
     (\<exists>p \<in> set (allPolicies g ctx). p (restOf ctx) request = Some d)"
  by (auto simp: authorizeRequest_def requireContextPolicy_def allPolicies_def Let_def
      split: option.splits if_splits dest: authorizeLoop_Some)

lemma allPolicies_guardBind:
  "set (allPolicies (guardBind g c) ctx) = set (allPolicies g ctx) \<union> set (policiesFromContext c)"
  by (auto simp: allPolicies_def guardBind_def)

lemma firstNil_None: "firstNil i ps = None \<longleftrightarrow> None \<notin> set ps"
  by (induction ps arbitrary: i) auto

lemma WithPolicy_Inr:
  "WithPolicy ctx policies = Inr c' \<Longrightarrow>
     policiesFromContext (Some c') = policiesFromContext ctx @ map the policies \<and>
     restOf (Some c') = restOf ctx"
  by (auto simp: WithPolicy_def policiesFromContext_def restOf_def Let_def
      split: option.splits)

section \<open>Complete mediation\<close>

text \<open>
  The contract between a secured session and the code that holds it: every call is decided before
  the adapter sees it. Calls are values, so that a client is a sequence of them.
\<close>

primrec runCalls :: "('call \<Rightarrow> 's \<Rightarrow> 's \<times> 'res) \<Rightarrow> 'call list \<Rightarrow> 's \<Rightarrow> 's \<times> 'res list" where
  "runCalls step [] s = (s, [])"
| "runCalls step (c # cs) s =
     (case step c s of (s', r) \<Rightarrow> (case runCalls step cs s' of (s'', rs) \<Rightarrow> (s'', r # rs)))"

locale mediation =
  fixes decide :: "'call \<Rightarrow> Decision option"
    and raw :: "'call \<Rightarrow> 's \<Rightarrow> 's \<times> ('x goError + 'a)"
    and secured :: "'call \<Rightarrow> 's \<Rightarrow> 's \<times> ('x goError + 'a)"
  assumes secured_denied: "decide c = Some d \<Longrightarrow> secured c s = (s, Inl (DeniedError d))"
    and secured_allowed: "decide c = None \<Longrightarrow> secured c s = raw c s"
begin

lemma state_change_authorized: "fst (secured c s) \<noteq> s \<Longrightarrow> decide c = None"
  using secured_denied by (cases "decide c") auto

lemma success_authorized: "snd (secured c s) = Inr x \<Longrightarrow> decide c = None"
  using secured_denied by (cases "decide c") auto

lemma trace_state:
  "fst (runCalls secured cs s) = fst (runCalls raw (filter (\<lambda>c. decide c = None) cs) s)"
proof (induction cs arbitrary: s)
  case (Cons c cs)
  show ?case
  proof (cases "decide c")
    case None
    with Cons show ?thesis by (simp add: secured_allowed split: prod.split) (metis fst_conv)
  next
    case (Some d)
    with Cons show ?thesis by (simp add: secured_denied split: prod.split) (metis fst_conv)
  qed
qed simp

end

datatype ('r, 'q, 'rec, 'd) call =
    CallExists "('r, 'q) goContext option" "key option"
  | CallGet "('r, 'q) goContext option" 'rec
  | CallGetMulti "('r, 'q) goContext option" "'rec list"
  | CallQueryRecords "('r, 'q) goContext option" "'q query"
  | CallQueryRecordset "('r, 'q) goContext option" "'q query" "'d list"
  | CallSet "('r, 'q) goContext option" 'rec
  | CallSetMulti "('r, 'q) goContext option" "'rec list"
  | CallInsert "('r, 'q) goContext option" 'rec "'d list"
  | CallInsertMulti "('r, 'q) goContext option" "'rec list" "'d list"
  | CallUpdate "('r, 'q) goContext option" "key option" "'d list" "'d list"
  | CallUpdateRecord "('r, 'q) goContext option" 'rec "'d list" "'d list"
  | CallUpdateMulti "('r, 'q) goContext option" "key option list" "'d list" "'d list"
  | CallDelete "('r, 'q) goContext option" "key option"
  | CallDeleteMulti "('r, 'q) goContext option" "key option list"

datatype 'd callResult = ResUnit | ResBool bool | ResReader 'd

definition liftRes :: "('a \<Rightarrow> 'd callResult) \<Rightarrow> 's \<times> ('x goError + 'a) \<Rightarrow> 's \<times> ('x goError + 'd callResult)" where
  "liftRes f sr = (fst sr, map_sum id f (snd sr))"

fun runCall ::
  "('r, 'q, 'rec, 'd, 's, 'x) readSession \<Rightarrow> ('r, 'q, 'rec, 'd, 's, 'x) writeSession \<Rightarrow>
   ('r, 'q, 'rec, 'd) call \<Rightarrow> ('s, 'x, 'd callResult) action" where
  "runCall rs ws (CallExists ctx key) s = liftRes ResBool (sExists rs ctx key s)"
| "runCall rs ws (CallGet ctx rec) s = liftRes (\<lambda>_. ResUnit) (sGet rs ctx rec s)"
| "runCall rs ws (CallGetMulti ctx records) s = liftRes (\<lambda>_. ResUnit) (sGetMulti rs ctx records s)"
| "runCall rs ws (CallQueryRecords ctx q) s = liftRes ResReader (sQueryRecords rs ctx q s)"
| "runCall rs ws (CallQueryRecordset ctx q os) s = liftRes ResReader (sQueryRecordset rs ctx q os s)"
| "runCall rs ws (CallSet ctx rec) s = liftRes (\<lambda>_. ResUnit) (sSet ws ctx rec s)"
| "runCall rs ws (CallSetMulti ctx records) s = liftRes (\<lambda>_. ResUnit) (sSetMulti ws ctx records s)"
| "runCall rs ws (CallInsert ctx rec os) s = liftRes (\<lambda>_. ResUnit) (sInsert ws ctx rec os s)"
| "runCall rs ws (CallInsertMulti ctx records os) s =
     liftRes (\<lambda>_. ResUnit) (sInsertMulti ws ctx records os s)"
| "runCall rs ws (CallUpdate ctx key us ps) s = liftRes (\<lambda>_. ResUnit) (sUpdate ws ctx key us ps s)"
| "runCall rs ws (CallUpdateRecord ctx rec us ps) s =
     liftRes (\<lambda>_. ResUnit) (sUpdateRecord ws ctx rec us ps s)"
| "runCall rs ws (CallUpdateMulti ctx keys us ps) s =
     liftRes (\<lambda>_. ResUnit) (sUpdateMulti ws ctx keys us ps s)"
| "runCall rs ws (CallDelete ctx key) s = liftRes (\<lambda>_. ResUnit) (sDelete ws ctx key s)"
| "runCall rs ws (CallDeleteMulti ctx keys) s = liftRes (\<lambda>_. ResUnit) (sDeleteMulti ws ctx keys s)"

text \<open>What a call asks for: the operation and the resources it is about.\<close>

definition plainRequest :: "operations \<Rightarrow> Resource list \<Rightarrow> 'q query Request" where
  "plainRequest operation resources =
     \<lparr>reqOperation = operation, reqResources = resources, reqQuery = None\<rparr>"

fun callRequest ::
  "('rec \<Rightarrow> key option) \<Rightarrow> ('r, 'q, 'rec, 'd) call \<Rightarrow> ('r, 'q) goContext option \<times> 'q query Request" where
  "callRequest recKey (CallExists ctx key) = (ctx, plainRequest Exists [RecordResourceForKey key])"
| "callRequest recKey (CallGet ctx rec) = (ctx, plainRequest Get [RecordResourceForKey (recKey rec)])"
| "callRequest recKey (CallGetMulti ctx records) =
     (ctx, plainRequest Get (resourcesForRecords recKey records))"
| "callRequest recKey (CallQueryRecords ctx q) = (ctx, queryRequest q)"
| "callRequest recKey (CallQueryRecordset ctx q os) = (ctx, queryRequest q)"
| "callRequest recKey (CallSet ctx rec) = (ctx, plainRequest Set [RecordResourceForKey (recKey rec)])"
| "callRequest recKey (CallSetMulti ctx records) =
     (ctx, plainRequest Set (resourcesForRecords recKey records))"
| "callRequest recKey (CallInsert ctx rec os) =
     (ctx, plainRequest Insert [RecordResourceForKey (recKey rec)])"
| "callRequest recKey (CallInsertMulti ctx records os) =
     (ctx, plainRequest Insert (resourcesForRecords recKey records))"
| "callRequest recKey (CallUpdate ctx key us ps) = (ctx, plainRequest Update [RecordResourceForKey key])"
| "callRequest recKey (CallUpdateRecord ctx rec us ps) =
     (ctx, plainRequest Update [RecordResourceForKey (recKey rec)])"
| "callRequest recKey (CallUpdateMulti ctx keys us ps) =
     (ctx, plainRequest Update (resourcesForKeys keys))"
| "callRequest recKey (CallDelete ctx key) = (ctx, plainRequest Delete [RecordResourceForKey key])"
| "callRequest recKey (CallDeleteMulti ctx keys) =
     (ctx, plainRequest Delete (resourcesForKeys keys))"

definition callDecision ::
  "('rec \<Rightarrow> key option) \<Rightarrow> ('r, 'q) guard \<Rightarrow> ('r, 'q, 'rec, 'd) call \<Rightarrow> Decision option" where
  "callDecision recKey g c = (case callRequest recKey c of (ctx, request) \<Rightarrow> authorizeRequest g ctx request)"

lemmas secured_session_defs =
  securedReadSession_def securedWriteSession_def guarded_def authorize_def plainRequest_def liftRes_def
  callDecision_def

lemma secured_call_denied:
  "callDecision recKey g c = Some d \<Longrightarrow>
     runCall (securedReadSession recKey rs g) (securedWriteSession recKey ws g) c s
       = (s, Inl (DeniedError d))"
  by (cases c) (simp_all add: secured_session_defs)

lemma secured_call_allowed:
  "callDecision recKey g c = None \<Longrightarrow>
     runCall (securedReadSession recKey rs g) (securedWriteSession recKey ws g) c s
       = runCall rs ws c s"
  by (cases c) (simp_all add: secured_session_defs)

interpretation session_mediation: mediation
  "callDecision recKey g" "runCall rs ws"
  "runCall (securedReadSession recKey rs g) (securedWriteSession recKey ws g)"
  for recKey g rs ws
  by unfold_locales (simp_all add: secured_call_denied secured_call_allowed)

section \<open>Properties\<close>

text \<open>C9: A guard lets a request pass exactly when every policy of the database, every bound policy
  and every policy of the context authorizes it, and, where a context policy is required, at least
  one bound or context policy exists.\<close>

theorem guard_is_intersection:
  "authorizeRequest g ctx request = None \<longleftrightarrow>
     (if requireContext g then boundPolicies g @ policiesFromContext ctx \<noteq> [] else True) \<and>
     list_all (\<lambda>p. p (restOf ctx) request = None)
       (databasePolicies g @ boundPolicies g @ policiesFromContext ctx)"
  by (auto simp: authorizeRequest_None allPolicies_def list_all_iff)

text \<open>Adding policies to a context only narrows: what passes with them is still authorized by
  every database, bound and inherited policy, and by each added one.\<close>

theorem context_policies_narrow:
  assumes "WithPolicy ctx policies = Inr ctx'" and "authorizeRequest g (Some ctx') request = None"
  shows "list_all (\<lambda>p. p (restOf ctx) request = None) (allPolicies g ctx @ map the policies)"
  using assms(2) WithPolicy_Inr [OF assms(1)]
  by (auto simp: authorizeRequest_None allPolicies_def list_all_iff)

definition denyNothing :: "(unit, unit) policy" where
  "denyNothing = (\<lambda>_ _. None)"

theorem context_policies_narrow_witness:
  "list_all (\<lambda>p. p (Some ()) (plainRequest Get []) = None) [denyNothing]"
proof -
  let ?c = "\<lparr>ctxPolicies = [] :: (unit, unit) policy list, ctxRest = ()\<rparr>"
  have w: "WithPolicy (Some ?c) [Some denyNothing] = Inr (?c\<lparr>ctxPolicies := [denyNothing]\<rparr>)"
    by (simp add: WithPolicy_def policiesFromContext_def)
  have a: "authorizeRequest (databaseGuard []) (Some (?c\<lparr>ctxPolicies := [denyNothing]\<rparr>))
      (plainRequest Get []) = None"
    by (simp add: authorizeRequest_None allPolicies_def databaseGuard_def policiesFromContext_def
        denyNothing_def)
  show ?thesis
    using context_policies_narrow [OF w a]
    by (simp add: allPolicies_def databaseGuard_def policiesFromContext_def restOf_def)
qed

text \<open>C2: Whatever sequence of calls a client makes on a secured session, the adapter ends in the
  state it reaches on the authorized calls alone: a denied call, single or batch, read or write,
  never reaches it.\<close>

theorem secured_session_mediates:
  "fst (runCalls (runCall (securedReadSession recKey rs g) (securedWriteSession recKey ws g)) calls s) =
   fst (runCalls (runCall rs ws) (filter (\<lambda>c. callDecision recKey g c = None) calls) s)"
  by (rule session_mediation.trace_state)


definition denyAll :: "(unit, unit) policy" where
  "denyAll = (\<lambda>_ request. Some (deniedRequest \<lparr>polName = ''p'', polSource = [], polRules = [],
     polCompiled = []\<rparr> (reqOperation request) NoMatchingAllowRule))"

definition countingWrites :: "(unit, unit, key option, unit, nat, unit) writeSession" where
  "countingWrites =
     \<lparr>sSet = (\<lambda>_ _ n. (Suc n, Inr ())), sSetMulti = (\<lambda>_ _ n. (Suc n, Inr ())),
      sInsert = (\<lambda>_ _ _ n. (Suc n, Inr ())), sInsertMulti = (\<lambda>_ _ _ n. (Suc n, Inr ())),
      sUpdate = (\<lambda>_ _ _ _ n. (Suc n, Inr ())), sUpdateRecord = (\<lambda>_ _ _ _ n. (Suc n, Inr ())),
      sUpdateMulti = (\<lambda>_ _ _ _ n. (Suc n, Inr ())), sDelete = (\<lambda>_ _ n. (Suc n, Inr ())),
      sDeleteMulti = (\<lambda>_ _ n. (Suc n, Inr ()))\<rparr>"

definition countingReads :: "(unit, unit, key option, unit, nat, unit) readSession" where
  "countingReads =
     \<lparr>sExists = (\<lambda>_ _ n. (Suc n, Inr True)), sGet = (\<lambda>_ _ n. (Suc n, Inr ())),
      sGetMulti = (\<lambda>_ _ n. (Suc n, Inr ())), sQueryRecords = (\<lambda>_ _ n. (Suc n, Inr ())),
      sQueryRecordset = (\<lambda>_ _ _ n. (Suc n, Inr ()))\<rparr>"


text \<open>Binding a context to a secured database handle can only add policies: what the bound
  handle authorizes under any later context, every policy of the original handle and of the bound
  context authorizes.\<close>

theorem bound_handle_not_widened:
  assumes "authorizeRequest (sdbGuard (BindDB (Inr db) ctx)) ctx' request = None"
  shows "list_all (\<lambda>p. p (restOf ctx') request = None)
    (allPolicies (sdbGuard db) ctx' @ policiesFromContext ctx)"
  using assms by (auto simp: BindDB_def authorizeRequest_None allPolicies_guardBind list_all_iff)

theorem bound_handle_not_widened_witness:
  "list_all (\<lambda>p. p None (plainRequest Get []) = None) ([] @ [denyNothing])"
proof -
  let ?raw = "\<lparr>dbID = [], dbAdapter = (), dbSchema = (), dbConcurrent = True, dbRead = countingReads,
    dbRunReadonly = (\<lambda>_ _ _ s. (s, Inr ())), dbRunReadwrite = (\<lambda>_ _ _ s. (s, Inr ()))\<rparr>"
  let ?db = "\<lparr>sdbDB = ?raw, sdbGuard = databaseGuard []\<rparr>"
  let ?ctx = "Some \<lparr>ctxPolicies = [denyNothing], ctxRest = ()\<rparr>"
  have "authorizeRequest (sdbGuard (BindDB (Inr ?db) ?ctx)) None (plainRequest Get []) = None"
    by (simp add: BindDB_def authorizeRequest_None allPolicies_def guardBind_def databaseGuard_def
        policiesFromContext_def denyNothing_def)
  from bound_handle_not_widened [OF this] show ?thesis
    by (simp add: allPolicies_def databaseGuard_def policiesFromContext_def restOf_def)
qed

text \<open>Where a context policy is required, starting a transaction without any bound or context
  policy is denied before the adapter's runner or the worker is called.\<close>

theorem transaction_requires_context_policy:
  assumes "requireContext (sdbGuard db)"
    and "boundPolicies (sdbGuard db) @ policiesFromContext ctx = []"
  shows "\<exists>d. decExplanation d = ContextPolicyRequired \<and>
    RunReadonlyTransaction recKey roCtx db ctx roWorker options s = (s, Inl (DeniedError d)) \<and>
    RunReadwriteTransaction recKey rwCtx db ctx rwWorker options s = (s, Inl (DeniedError d))"
  using assms
  by (simp add: RunReadonlyTransaction_def RunReadwriteTransaction_def checkContext_def
      requireContextPolicy_def)

theorem transaction_requires_context_policy_witness:
  "\<exists>d. decExplanation d = ContextPolicyRequired \<and>
     RunReadwriteTransaction id (\<lambda>_ c. c)
       \<lparr>sdbDB = \<lparr>dbID = [], dbAdapter = (), dbSchema = (), dbConcurrent = True, dbRead = countingReads,
          dbRunReadonly = (\<lambda>_ _ _ s. (s, Inr ())), dbRunReadwrite = (\<lambda>_ _ _ s. (Suc s, Inr ()))\<rparr>,
        sdbGuard = \<lparr>databasePolicies = [], boundPolicies = [], requireContext = True\<rparr>\<rparr>
       None (\<lambda>_ _ s. (s, Inr ())) [] 5 = (5, Inl (DeniedError d))"
  using transaction_requires_context_policy
    [of "\<lparr>sdbDB = \<lparr>dbID = [], dbAdapter = (), dbSchema = (), dbConcurrent = True, dbRead = countingReads,
          dbRunReadonly = (\<lambda>_ _ _ s. (s, Inr ())), dbRunReadwrite = (\<lambda>_ _ _ s. (Suc s, Inr ()))\<rparr>,
        sdbGuard = \<lparr>databasePolicies = [], boundPolicies = [], requireContext = True\<rparr>\<rparr>"
      None id "\<lambda>_ c. c" "\<lambda>_ _ s. (s, Inr ())" "[]" 5 "\<lambda>_ c. c" "\<lambda>_ _ s. (s, Inr ())"]
  by (auto simp: policiesFromContext_def)

end
