(* ===== verification/AccessDocument.thy ===== *)
theory AccessDocument
  imports AccessPolicy
begin

text \<open>
  Portable policy documents (\<open>src/access/document.go\<close>): policies decoded from documents,
  documents made from policies, and the round trip between them.

  The codecs (package \<open>gopkg.in/yaml.v3\<close>, \<open>encoding/json\<close>, or a caller's own) are
  arguments: a decoder from the reader's contents to a document or an error, an encoder back.
\<close>

section \<open>Definitions\<close>

definition DocumentAPIVersion :: string where "DocumentAPIVersion = ''dalgo.io/access/v1''"
definition AccessPolicyKind :: string where "AccessPolicyKind = ''AccessPolicy''"
definition AuditPolicyKind :: string where "AuditPolicyKind = ''AuditPolicy''"

record DocumentRule =
  drID :: string
  drEffect :: string
  drOperations :: "string list"

datatype DocumentScope =
  DocumentScope (dsPath: string) (dsCollectionGroup: string) (dsOpaqueQuery: bool)
    (dsRules: "DocumentRule list") (dsScopes: "DocumentScope list")

record Document =
  docAPIVersion :: string
  docKind :: string
  docName :: string
  docDefault :: string
  docScopes :: "DocumentScope list"

definition parseEffect :: "string \<Rightarrow> accessError + effect" where
  "parseEffect value =
     (let v = toLower (trimSpace value) in
      if v = effectString effectAllow then Inr effectAllow
      else if v = effectString effectDeny then Inr effectDeny
      else if v = effectString effectAudit then Inr effectAudit
      else if v = effectString effectIgnoreAudit then Inr effectIgnoreAudit
      else Inl (UnknownEffect value))"

definition ruleFromDocumentRule :: "(effect \<Rightarrow> bool) \<Rightarrow> DocumentRule \<Rightarrow> accessError + Rule" where
  "ruleFromDocumentRule allowedEffects documentRule =
     (let i = trimSpace (drID documentRule) in
      if i = [] then Inl RuleIDRequired
      else bindE (parseOperations (drOperations documentRule)) (\<lambda>ops.
        bindE (parseEffect (drEffect documentRule)) (\<lambda>ruleEff.
          if \<not> allowedEffects ruleEff then Inl (EffectNotValidForKind ruleEff (drEffect documentRule))
          else Inr (directive ruleEff ops [i]))))"

fun pathPartsFrom :: "string \<Rightarrow> nat \<Rightarrow> string list \<Rightarrow> accessError + pathPart list" where
  "pathPartsFrom value i [] = Inr []"
| "pathPartsFrom value i (part # parts) =
     (if part = [] then Inl (PathEmptySegment value)
      else case pathUnescape part of
             None \<Rightarrow> Inl (PathInvalidEscaping value)
           | Some decoded \<Rightarrow>
               (if i mod 2 = 1 \<and> decoded = ''*''
                  then bindE (pathPartsFrom value (Suc i) parts) (\<lambda>ps. Inr (AnyID # ps))
                else if decoded = ''*'' then Inl (PathStarCollection value)
                else bindE (pathPartsFrom value (Suc i) parts)
                       (\<lambda>ps. Inr (Part (goStr decoded) # ps))))"

definition parseDocumentPath :: "string \<Rightarrow> accessError + PathPattern" where
  "parseDocumentPath value =
     (let path = trimSpace value in
      if \<not> hasPrefix path ''/'' then Inl (PathMustStartWithSlash value)
      else if path = ''/'' \<or> path = ''/**'' then Inr []
      else
        let path' = trimSuffix path ''/**'';
            parts = splitOn (CHR ''/'') (if hasPrefix path' ''/'' then drop 1 path' else path')
        in bindE (pathPartsFrom value 0 parts) NewPath)"

fun rulesFromDocumentRules ::
  "(effect \<Rightarrow> bool) \<Rightarrow> nat \<Rightarrow> DocumentRule list \<Rightarrow> accessError + Rule list" where
  "rulesFromDocumentRules allowedEffects i [] = Inr []"
| "rulesFromDocumentRules allowedEffects i (dr # drs) =
     bindE (mapErr (AtRules i) (ruleFromDocumentRule allowedEffects dr)) (\<lambda>rule.
       bindE (rulesFromDocumentRules allowedEffects (Suc i) drs) (\<lambda>rules. Inr (rule # rules)))"

definition selectors :: "string \<Rightarrow> string \<Rightarrow> bool \<Rightarrow> nat" where
  "selectors path collectionGroup opaqueQuery =
     (if path \<noteq> [] then 1 else 0) + (if collectionGroup \<noteq> [] then 1 else 0)
       + (if opaqueQuery then 1 else 0)"

fun ruleFromDocumentScope :: "(effect \<Rightarrow> bool) \<Rightarrow> DocumentScope \<Rightarrow> accessError + Rule"
and rulesFromDocumentScopes ::
  "(effect \<Rightarrow> bool) \<Rightarrow> nat \<Rightarrow> DocumentScope list \<Rightarrow> accessError + Rule list" where
  "ruleFromDocumentScope allowedEffects (DocumentScope path collectionGroup opaqueQuery rules scopes) =
     (if selectors path collectionGroup opaqueQuery \<noteq> 1 then Inl ScopeSelectsNotOne
      else bindE (rulesFromDocumentRules allowedEffects 0 rules) (\<lambda>directives.
        bindE (rulesFromDocumentScopes allowedEffects 0 scopes) (\<lambda>childScopes.
          let children = directives @ childScopes in
          if children = [] then Inl ScopeWithoutRules
          else if path \<noteq> [] then
            bindE (parseDocumentPath path) (\<lambda>pattern. Inr (Under pattern children))
          else if collectionGroup \<noteq> [] then Inr (CollectionGroupScope collectionGroup children)
          else Inr (OpaqueQueryScope children))))"
| "rulesFromDocumentScopes allowedEffects i [] = Inr []"
| "rulesFromDocumentScopes allowedEffects i (scope # scopes) =
     bindE (mapErr (AtScopes i) (ruleFromDocumentScope allowedEffects scope)) (\<lambda>rule.
       bindE (rulesFromDocumentScopes allowedEffects (Suc i) scopes) (\<lambda>rules. Inr (rule # rules)))"

definition rulesFromDocument :: "Document \<Rightarrow> (effect \<Rightarrow> bool) \<Rightarrow> accessError + Rule list" where
  "rulesFromDocument document allowedEffects =
     rulesFromDocumentScopes allowedEffects 0 (docScopes document)"

type_synonym decodeOption = "string \<Rightarrow> string"

definition WithSource :: "string \<Rightarrow> decodeOption" where
  "WithSource reference = (\<lambda>_. trimSpace reference)"

definition decodeSettings :: "decodeOption option list \<Rightarrow> string" where
  "decodeSettings options =
     fold (\<lambda>opt source. case opt of None \<Rightarrow> source | Some f \<Rightarrow> f source) options []"

definition decodeDocument ::
  "'b option \<Rightarrow> ('b \<Rightarrow> accessError + Document) option \<Rightarrow> decodeOption option list \<Rightarrow>
   accessError + (Document \<times> string)" where
  "decodeDocument reader codec options =
     (let settings = decodeSettings options in
      case (reader, codec) of
        (Some bytes, Some decode) \<Rightarrow>
          bindE (decode bytes) (\<lambda>document.
            if docAPIVersion document \<noteq> DocumentAPIVersion
              then Inl (UnsupportedAPIVersion (docAPIVersion document))
            else if trimSpace (docName document) = [] then Inl MetadataNameRequired
            else if docScopes document = [] then Inl ScopeRequired
            else Inr (document, settings))
      | _ \<Rightarrow> Inl ReaderAndCodecRequired)"

definition DecodeAccessPolicy ::
  "displayEnv \<Rightarrow> 'b option \<Rightarrow> ('b \<Rightarrow> accessError + Document) option \<Rightarrow> decodeOption option list \<Rightarrow>
   accessError + AccessPolicy" where
  "DecodeAccessPolicy env reader codec options =
     bindE (decodeDocument reader codec options) (\<lambda>(document, settings).
       if docKind document \<noteq> AccessPolicyKind
         then Inl (ExpectedKind AccessPolicyKind (docKind document))
       else if docDefault document \<noteq> effectString effectDeny then Inl (DefaultMustBe effectDeny)
       else bindE (rulesFromDocument document accessEffects) (\<lambda>rules.
         bindE (NewPolicy env (docName document) rules) (\<lambda>policy.
           Inr (policy\<lparr>polSource := settings\<rparr>))))"

definition DecodeAuditPolicy ::
  "displayEnv \<Rightarrow> 'b option \<Rightarrow> ('b \<Rightarrow> accessError + Document) option \<Rightarrow> decodeOption option list \<Rightarrow>
   accessError + AuditPolicy" where
  "DecodeAuditPolicy env reader codec options =
     bindE (decodeDocument reader codec options) (\<lambda>(document, settings).
       if docKind document \<noteq> AuditPolicyKind
         then Inl (ExpectedKind AuditPolicyKind (docKind document))
       else if docDefault document \<noteq> effectString effectIgnoreAudit
         then Inl (DefaultMustBe effectIgnoreAudit)
       else bindE (rulesFromDocument document auditEffects) (\<lambda>rules.
         bindE (NewAuditPolicy env (docName document) rules) (\<lambda>policy.
           Inr (policy\<lparr>audSource := settings\<rparr>))))"

fun documentPathPart :: "pathSegment \<Rightarrow> accessError + string" where
  "documentPathPart segment =
     (if segAnyID segment then Inr ''*''
      else case segValue segment of
             GString t value \<Rightarrow> (if t = ''string'' then Inr (pathEscape value) else Inl NotSerializable)
           | _ \<Rightarrow> Inl NotSerializable)"

fun documentPathParts :: "PathPattern \<Rightarrow> accessError + string list" where
  "documentPathParts [] = Inr []"
| "documentPathParts (segment # segments) =
     bindE (documentPathPart segment) (\<lambda>part.
       bindE (documentPathParts segments) (\<lambda>parts. Inr (part # parts)))"

definition documentPath :: "PathPattern \<Rightarrow> accessError + string" where
  "documentPath pattern =
     (if pattern = [] then Inr ''/''
      else bindE (documentPathParts pattern) (\<lambda>parts. Inr (''/'' @ joinWith ''/'' parts)))"

definition documentRuleFromRule :: "Rule \<Rightarrow> accessError + DocumentRule" where
  "documentRuleFromRule rule =
     (if ruleKindOf rule \<noteq> directiveRule \<or> trimSpace (ruleName rule) = [] then Inl NotSerializable
      else case operationNamesForDocument (ruleOperations rule) of
             Inl _ \<Rightarrow> Inl NotSerializable
           | Inr ops \<Rightarrow>
               Inr \<lparr>drID = ruleName rule, drEffect = effectString (ruleEffect rule),
                    drOperations = ops\<rparr>)"

text \<open>
  The two loops over children and scopes: \<open>documentChildren\<close> splits the children of a rule
  into directives and nested scopes, each in order.
\<close>

fun documentScopeFromRule :: "Rule \<Rightarrow> accessError + DocumentScope"
and documentChildren :: "Rule list \<Rightarrow> accessError + (DocumentRule list \<times> DocumentScope list)" where
  "documentScopeFromRule (Rule k pattern name ops eff resource children) =
     (case k of
        directiveRule \<Rightarrow>
          bindE (documentRuleFromRule (Rule k pattern name ops eff resource children))
            (\<lambda>dr. Inr (DocumentScope ''/'' [] False [dr] []))
      | scopeRule \<Rightarrow>
          bindE (documentPath pattern) (\<lambda>path.
            bindE (documentChildren children) (\<lambda>(rules, scopes).
              Inr (DocumentScope path [] False rules scopes)))
      | collectionGroupRule \<Rightarrow>
          bindE (documentChildren children) (\<lambda>(rules, scopes).
            Inr (DocumentScope [] resource False rules scopes))
      | opaqueQueryRule \<Rightarrow>
          bindE (documentChildren children) (\<lambda>(rules, scopes).
            Inr (DocumentScope [] [] True rules scopes))
      | noRule \<Rightarrow> Inl NotSerializable)"
| "documentChildren [] = Inr ([], [])"
| "documentChildren (child # children) =
     (if ruleKindOf child = directiveRule
      then bindE (documentRuleFromRule child) (\<lambda>dr.
        bindE (documentChildren children) (\<lambda>(rules, scopes). Inr (dr # rules, scopes)))
      else bindE (documentScopeFromRule child) (\<lambda>scope.
        bindE (documentChildren children) (\<lambda>(rules, scopes). Inr (rules, scope # scopes))))"

fun documentScopes :: "Rule list \<Rightarrow> accessError + DocumentScope list" where
  "documentScopes [] = Inr []"
| "documentScopes (rule # rules) =
     bindE (documentScopeFromRule rule) (\<lambda>scope.
       bindE (documentScopes rules) (\<lambda>scopes. Inr (scope # scopes)))"

definition documentFromRules ::
  "string \<Rightarrow> string \<Rightarrow> effect \<Rightarrow> Rule list \<Rightarrow> accessError + Document" where
  "documentFromRules kind name defaultEffect rules =
     bindE (documentScopes rules) (\<lambda>scopes.
       Inr \<lparr>docAPIVersion = DocumentAPIVersion, docKind = kind, docName = name,
            docDefault = effectString defaultEffect, docScopes = scopes\<rparr>)"

definition encodeDocument ::
  "(Document \<Rightarrow> accessError + 'b) option \<Rightarrow> Document \<Rightarrow> accessError + 'b" where
  "encodeDocument codec document =
     (case codec of None \<Rightarrow> Inl WriterAndCodecRequired | Some encode \<Rightarrow> encode document)"

definition EncodeAccessPolicy ::
  "(Document \<Rightarrow> accessError + 'b) option \<Rightarrow> AccessPolicy option \<Rightarrow> accessError + 'b" where
  "EncodeAccessPolicy codec policy =
     (case policy of
        None \<Rightarrow> Inl NilPolicy
      | Some p \<Rightarrow>
          bindE (documentFromRules AccessPolicyKind (polName p) effectDeny (polRules p))
            (encodeDocument codec))"

definition EncodeAuditPolicy ::
  "(Document \<Rightarrow> accessError + 'b) option \<Rightarrow> AuditPolicy option \<Rightarrow> accessError + 'b" where
  "EncodeAuditPolicy codec policy =
     (case policy of
        None \<Rightarrow> Inl NilPolicy
      | Some p \<Rightarrow>
          bindE (documentFromRules AuditPolicyKind (audName p) effectIgnoreAudit (audRules p))
            (encodeDocument codec))"

section \<open>Paths survive the round trip\<close>

text \<open>
  What a portable pattern is: it alternates collections and identifiers from the root, its
  identifiers are wildcards or Go strings, and no name is empty or a literal asterisk.
\<close>

fun portableName :: "goval \<Rightarrow> bool" where
  "portableName (GString t v) = (t = ''string'' \<and> v \<noteq> [] \<and> v \<noteq> ''*'')"
| "portableName _ = False"

fun stringOf :: "goval \<Rightarrow> string" where
  "stringOf (GString _ v) = v"
| "stringOf _ = []"

definition portableSegment :: "nat \<Rightarrow> pathSegment \<Rightarrow> bool" where
  "portableSegment i seg =
     (if i mod 2 = 0
      then segKind seg = collectionSegment \<and> \<not> segAnyID seg \<and> portableName (segValue seg)
             \<and> trimSpace (stringOf (segValue seg)) \<noteq> []
      else segKind seg = idSegment \<and>
             (if segAnyID seg then segValue seg = GNil else portableName (segValue seg)))"

fun portableFrom :: "nat \<Rightarrow> PathPattern \<Rightarrow> bool" where
  "portableFrom i [] = True"
| "portableFrom i (seg # segs) = (portableSegment i seg \<and> portableFrom (Suc i) segs)"

lemma portableNameE:
  assumes "portableName v"
  obtains w where "v = goStr w" "w \<noteq> []" "w \<noteq> ''*''"
  using assms by (cases v) auto

lemma star_unescape: "pathUnescape ''*'' = Some ''*''"
  by code_simp

lemma portable_segment_part:
  assumes "portableSegment i seg"
  shows "\<exists>part. documentPathPart seg = Inr part \<and> part \<noteq> [] \<and> part \<noteq> ''**'' \<and>
    (\<forall>c \<in> set part. visibleChar c \<and> c \<noteq> CHR ''/'') \<and>
    (\<forall>value parts. pathPartsFrom value i (part # parts) =
       bindE (pathPartsFrom value (Suc i) parts) (\<lambda>ps. Inr (
         (if segAnyID seg then AnyID else Part (segValue seg)) # ps))) \<and>
    newPathPart i (if segAnyID seg then AnyID else Part (segValue seg)) = Inr seg"
proof (cases "segAnyID seg")
  case True
  with assms have "i mod 2 = 1" "seg = anySeg"
    by (auto simp: portableSegment_def split: if_splits)
  moreover have "\<forall>c \<in> set ''*''. visibleChar c \<and> c \<noteq> CHR ''/''" by code_simp
  ultimately show ?thesis by (simp add: star_unescape)
next
  case False
  with assms obtain w where w: "segValue seg = goStr w" "w \<noteq> []" "w \<noteq> ''*''"
    by (auto simp: portableSegment_def split: if_splits elim: portableNameE)
  have seg: "seg = (if i mod 2 = 0 then collectionSeg w else idSeg (goStr w))"
    using assms False w by (auto simp: portableSegment_def)
  have np: "newPathPart i (Part (goStr w)) = Inr seg"
    using assms seg w by (cases "i mod 2 = 0") (simp_all add: portableSegment_def)
  have "pathEscape w \<noteq> ''**''"
    using pathEscape_safe(2) [of w] by (metis list.set_intros(1))
  with False w np show ?thesis
    using pathEscape_safe(1) [of w]
    by (auto simp: pathUnescape_pathEscape pathEscape_visible simp del: newPathPart.simps)
qed

lemma portable_parts:
  assumes "portableFrom i pattern"
  shows "\<exists>parts pps. documentPathParts pattern = Inr parts \<and> length parts = length pattern \<and>
    [] \<notin> set parts \<and> ''**'' \<notin> set parts \<and>
    (\<forall>part \<in> set parts. \<forall>c \<in> set part. visibleChar c \<and> c \<noteq> CHR ''/'') \<and>
    (\<forall>value. pathPartsFrom value i parts = Inr pps) \<and> newPathFrom i pps = Inr pattern"
  using assms
proof (induction i pattern rule: portableFrom.induct)
  case (2 i seg segs)
  from 2 obtain parts pps where rest: "documentPathParts segs = Inr parts"
    "length parts = length segs" "[] \<notin> set parts" "''**'' \<notin> set parts"
    "\<forall>part \<in> set parts. \<forall>c \<in> set part. visibleChar c \<and> c \<noteq> CHR ''/''"
    "\<forall>value. pathPartsFrom value (Suc i) parts = Inr pps" "newPathFrom (Suc i) pps = Inr segs"
    by auto
  let ?pp = "if segAnyID seg then AnyID else Part (segValue seg)"
  from 2 obtain part where head: "documentPathPart seg = Inr part" "part \<noteq> []" "part \<noteq> ''**''"
    "\<forall>c \<in> set part. visibleChar c \<and> c \<noteq> CHR ''/''"
    "\<forall>value parts. pathPartsFrom value i (part # parts) =
       bindE (pathPartsFrom value (Suc i) parts) (\<lambda>ps. Inr (?pp # ps))"
    "newPathPart i ?pp = Inr seg"
    using portable_segment_part [of i seg] by (metis portableFrom.simps(2))
  show ?case
  proof (intro exI conjI)
    show "documentPathParts (seg # segs) = Inr (part # parts)"
      using rest head by (simp del: documentPathPart.simps)
    show "\<forall>value. pathPartsFrom value i (part # parts) = Inr (?pp # pps)"
      using rest head by (simp del: pathPartsFrom.simps)
    show "newPathFrom i (?pp # pps) = Inr (seg # segs)"
      using rest head by (simp del: newPathPart.simps)
  qed (use rest head in auto)
qed simp

lemma joinWith_chars: "c \<in> set (joinWith sep ws) \<Longrightarrow> c \<in> set sep \<or> (\<exists>w \<in> set ws. c \<in> set w)"
  by (induction sep ws rule: joinWith.induct) auto

lemma documentPath_roundtrip:
  assumes "portableFrom 0 pattern"
  shows "\<exists>path. documentPath pattern = Inr path \<and> path \<noteq> [] \<and> parseDocumentPath path = Inr pattern"
proof (cases "pattern = []")
  case True
  have "parseDocumentPath ''/'' = Inr []" by code_simp
  with True show ?thesis by (simp add: documentPath_def)
next
  case False
  from portable_parts [OF assms] obtain parts pps where parts: "documentPathParts pattern = Inr parts"
    "length parts = length pattern" "[] \<notin> set parts" "''**'' \<notin> set parts"
    "\<forall>part \<in> set parts. \<forall>c \<in> set part. visibleChar c \<and> c \<noteq> CHR ''/''"
    "\<forall>value. pathPartsFrom value 0 parts = Inr pps" "newPathFrom 0 pps = Inr pattern"
    by blast
  define path where "path = ''/'' @ joinWith ''/'' parts"
  have ne: "parts \<noteq> []" using False parts(2) by auto
  have split: "splitOn (CHR ''/'') (joinWith ''/'' parts) = parts"
    using ne parts(5) by (intro splitOn_joinWith) auto
  have visible: "\<forall>c \<in> set path. visibleChar c"
  proof -
    have "visibleChar (CHR ''/'')" by code_simp
    moreover have "visibleChar c" if "c \<in> set (joinWith ''/'' parts)" for c
      using joinWith_chars [OF that] parts(5) \<open>visibleChar (CHR ''/'')\<close> by auto
    ultimately show ?thesis by (simp add: path_def)
  qed
  have no_suffix: "\<not> (\<exists>t. path = t @ ''/**'')"
  proof
    assume "\<exists>t. path = t @ ''/**''"
    then obtain t where t: "path = t @ CHR ''/'' # ''**''" by auto
    have "splitOn (CHR ''/'') path = [] # parts" using split by (simp add: path_def)
    then have "splitOn (CHR ''/'') t @ [''**''] = [] # parts"
      using splitOn_append [of "CHR ''/''" t "''**''"] t splitOn_no_sep [of "CHR ''/''" "''**''"] by simp
    then have "''**'' \<in> set parts"
      by (metis Cons_eq_append_conv append_is_Nil_conv in_set_conv_decomp list.inject
          splitOn_not_Nil)
    with parts(4) show False by simp
  qed
  have "path \<noteq> ''/''"
  proof
    assume "path = ''/''"
    then have "parts = [[]]" using split by (simp add: path_def)
    with parts(3) show False by simp
  qed
  moreover have "path \<noteq> ''/**''" using no_suffix by (metis append_Nil)
  moreover have "hasPrefix path ''/''" by (simp add: path_def)
  ultimately have "parseDocumentPath path = bindE (pathPartsFrom path 0 parts) NewPath"
    using visible no_suffix split
    by (simp add: parseDocumentPath_def trimSpace_visible trimSuffix_other path_def)
  then show ?thesis
    using parts False by (simp add: NewPath_def documentPath_def path_def)
qed

section \<open>Policies survive the round trip\<close>

fun portableRule :: "Rule \<Rightarrow> bool" where
  "portableRule (Rule k pattern name ops eff resource children) =
     (case k of
        directiveRule \<Rightarrow> name \<noteq> [] \<and> trimSpace name = name
      | scopeRule \<Rightarrow>
          portableFrom 0 pattern \<and> children \<noteq> [] \<and> (\<forall>c \<in> set children. portableRule c)
      | collectionGroupRule \<Rightarrow> children \<noteq> [] \<and> (\<forall>c \<in> set children. portableRule c)
      | opaqueQueryRule \<Rightarrow> children \<noteq> [] \<and> (\<forall>c \<in> set children. portableRule c)
      | noRule \<Rightarrow> False)"

lemma parseEffect_effectString: "e \<noteq> effectNone \<Longrightarrow> parseEffect (effectString e) = Inr e"
proof -
  have "parseEffect (effectString effectAllow) = Inr effectAllow"
    "parseEffect (effectString effectDeny) = Inr effectDeny"
    "parseEffect (effectString effectAudit) = Inr effectAudit"
    "parseEffect (effectString effectIgnoreAudit) = Inr effectIgnoreAudit"
    by code_simp+
  then show "e \<noteq> effectNone \<Longrightarrow> parseEffect (effectString e) = Inr e"
    by (cases e) simp_all
qed

lemma directive_roundtrip:
  assumes "documentRuleFromRule rule = Inr dr" and "portableRule rule"
    and "al (ruleEffect rule)" and "\<not> al effectNone"
  shows "ruleFromDocumentRule al dr = Inr (directive (ruleEffect rule) (ruleOperations rule) [ruleName rule])"
    and "ruleKindOf rule = directiveRule" and "validSet (ruleOperations rule)"
proof -
  have kind: "ruleKindOf rule = directiveRule" and
    names: "operationNamesForDocument (ruleOperations rule) = Inr (drOperations dr)" and
    dr: "drID dr = ruleName rule" "drEffect dr = effectString (ruleEffect rule)"
    using assms(1) by (auto simp: documentRuleFromRule_def split: if_splits sum.splits)
  have name: "ruleName rule \<noteq> []" "trimSpace (ruleName rule) = ruleName rule"
    using assms(2) kind by (cases rule; simp)+
  have "ruleEffect rule \<noteq> effectNone" using assms(3,4) by auto
  then show "ruleFromDocumentRule al dr = Inr (directive (ruleEffect rule) (ruleOperations rule) [ruleName rule])"
    using names dr name assms(3)
    by (simp add: ruleFromDocumentRule_def parseOperations_names parseEffect_effectString)
  show "ruleKindOf rule = directiveRule" by (rule kind)
  show "validSet (ruleOperations rule)"
    using names operationNamesForDocument_ok [of "ruleOperations rule"] by simp
qed

lemma flatten_directive:
  assumes "ruleKindOf rule = directiveRule" and "portableRule rule"
  shows "flattenRule env (directive (ruleEffect rule) (ruleOperations rule) [ruleName rule]) prefix kind rn
       = flattenRule env rule prefix kind rn"
  using assms by (cases rule) (simp add: directive_def)

lemma flatten_Under:
  "flattenRule env (Under pattern children) prefix kind rn =
     concat (map (\<lambda>r. flattenRule env r (prefix @ pattern) PathResource []) children)"
  by (simp add: Under_def)

lemma flatten_groups:
  "flattenRule env (CollectionGroupScope name children) prefix kind rn =
     concat (map (\<lambda>r. flattenRule env r [] CollectionGroupResource name) children)"
  "flattenRule env (OpaqueQueryScope children) prefix kind rn =
     concat (map (\<lambda>r. flattenRule env r [] OpaqueQueryResource []) children)"
  by (simp_all add: CollectionGroupScope_def OpaqueQueryScope_def)

definition sameRules ::
  "displayEnv \<Rightarrow> (effect \<Rightarrow> bool) \<Rightarrow> PathPattern \<Rightarrow> ResourceKind \<Rightarrow> string \<Rightarrow> Rule list \<Rightarrow> Rule list \<Rightarrow> bool" where
  "sameRules env al prefix kind rn rules rules' \<longleftrightarrow>
     (\<forall>r \<in> set rules'. ruleOk al r prefix kind) \<and>
     mset (concat (map (\<lambda>r. flattenRule env r prefix kind rn) rules')) =
       mset (concat (map (\<lambda>r. flattenRule env r prefix kind rn) rules))"

text \<open>
  One lemma for each shape of rule: given that the children of a rule decode to the same rules, the
  scope made from it does.
\<close>

definition decodesTo ::
  "displayEnv \<Rightarrow> (effect \<Rightarrow> bool) \<Rightarrow> PathPattern \<Rightarrow> ResourceKind \<Rightarrow> string \<Rightarrow> Rule list \<Rightarrow>
   nat \<Rightarrow> DocumentRule list \<Rightarrow> nat \<Rightarrow> DocumentScope list \<Rightarrow> bool" where
  "decodesTo env al prefix kind rn rules i drs j scopes \<longleftrightarrow>
     (\<exists>ds cs. rulesFromDocumentRules al i drs = Inr ds \<and> rulesFromDocumentScopes al j scopes = Inr cs \<and>
        (ds @ cs = [] \<longleftrightarrow> rules = []) \<and> sameRules env al prefix kind rn rules (ds @ cs))"

definition scopeDecodes ::
  "displayEnv \<Rightarrow> (effect \<Rightarrow> bool) \<Rightarrow> PathPattern \<Rightarrow> ResourceKind \<Rightarrow> string \<Rightarrow> Rule \<Rightarrow> DocumentScope \<Rightarrow> bool" where
  "scopeDecodes env al prefix kind rn rule scope \<longleftrightarrow>
     (\<exists>rule'. ruleFromDocumentScope al scope = Inr rule' \<and> sameRules env al prefix kind rn [rule] [rule'])"

lemma scopeDecodes_directive:
  assumes "documentRuleFromRule rule = Inr dr" and "portableRule rule"
    and "ruleOk al rule prefix PathResource" and "\<not> al effectNone"
  shows "scopeDecodes env al prefix PathResource [] rule (DocumentScope ''/'' [] False [dr] [])"
proof -
  obtain k pattern name ops eff resource children where
    rule: "rule = Rule k pattern name ops eff resource children" by (cases rule)
  have k: "k = directiveRule"
    using assms(1) rule by (simp add: documentRuleFromRule_def split: if_splits)
  then have "al eff" using assms(3) rule by simp
  then have rt: "ruleFromDocumentRule al dr = Inr (directive eff ops [name])"
    using directive_roundtrip(1) [where al = al, OF assms(1,2)] assms(4) rule by simp
  have root: "parseDocumentPath ''/'' = Inr []" by code_simp
  have "ruleFromDocumentScope al (DocumentScope ''/'' [] False [dr] [])
      = Inr (Under [] [directive eff ops [name]])"
    using rt root by (simp add: selectors_def)
  moreover have "sameRules env al prefix PathResource [] [rule] [Under [] [directive eff ops [name]]]"
    using assms(2,3) rule k by (simp add: sameRules_def Under_def directive_def)
  ultimately show ?thesis unfolding scopeDecodes_def by blast
qed

lemma scopeDecodes_path:
  assumes "decodesTo env al (prefix @ pattern) PathResource [] children 0 drs 0 scopes"
    and "children \<noteq> []" and "path \<noteq> []" and "parseDocumentPath path = Inr pattern"
  shows "scopeDecodes env al prefix PathResource rn (Rule scopeRule pattern name ops eff resource children)
    (DocumentScope path [] False drs scopes)"
proof -
  from assms(1) obtain ds cs where ch: "rulesFromDocumentRules al 0 drs = Inr ds"
    "rulesFromDocumentScopes al 0 scopes = Inr cs" "ds @ cs = [] \<longleftrightarrow> children = []"
    "sameRules env al (prefix @ pattern) PathResource [] children (ds @ cs)"
    unfolding decodesTo_def by blast
  have "ruleFromDocumentScope al (DocumentScope path [] False drs scopes) = Inr (Under pattern (ds @ cs))"
    using ch assms(2-4) by (auto simp: selectors_def Let_def)
  moreover have "sameRules env al prefix PathResource rn
      [Rule scopeRule pattern name ops eff resource children] [Under pattern (ds @ cs)]"
    using ch(4) by (auto simp: sameRules_def Under_def)
  ultimately show ?thesis unfolding scopeDecodes_def by blast
qed

lemma scopeDecodes_group:
  assumes "decodesTo env al [] CollectionGroupResource resource children 0 drs 0 scopes"
    and "children \<noteq> []" and "trimSpace resource \<noteq> []"
  shows "scopeDecodes env al [] PathResource rn
    (Rule collectionGroupRule pattern name ops eff resource children)
    (DocumentScope [] resource False drs scopes)"
proof -
  from assms(1) obtain ds cs where ch: "rulesFromDocumentRules al 0 drs = Inr ds"
    "rulesFromDocumentScopes al 0 scopes = Inr cs" "ds @ cs = [] \<longleftrightarrow> children = []"
    "sameRules env al [] CollectionGroupResource resource children (ds @ cs)"
    unfolding decodesTo_def by blast
  have "resource \<noteq> []" using assms(3) by (auto simp: trimSpace_visible)
  then have "ruleFromDocumentScope al (DocumentScope [] resource False drs scopes)
      = Inr (CollectionGroupScope resource (ds @ cs))"
    using ch assms(2) by (auto simp: selectors_def Let_def)
  moreover have "sameRules env al [] PathResource rn
      [Rule collectionGroupRule pattern name ops eff resource children]
      [CollectionGroupScope resource (ds @ cs)]"
    using ch(4) assms(3) by (auto simp: sameRules_def CollectionGroupScope_def)
  ultimately show ?thesis unfolding scopeDecodes_def by blast
qed

lemma scopeDecodes_opaque:
  assumes "decodesTo env al [] OpaqueQueryResource [] children 0 drs 0 scopes" and "children \<noteq> []"
  shows "scopeDecodes env al [] PathResource rn
    (Rule opaqueQueryRule pattern name ops eff resource children) (DocumentScope [] [] True drs scopes)"
proof -
  from assms(1) obtain ds cs where ch: "rulesFromDocumentRules al 0 drs = Inr ds"
    "rulesFromDocumentScopes al 0 scopes = Inr cs" "ds @ cs = [] \<longleftrightarrow> children = []"
    "sameRules env al [] OpaqueQueryResource [] children (ds @ cs)"
    unfolding decodesTo_def by blast
  have "ruleFromDocumentScope al (DocumentScope [] [] True drs scopes) = Inr (OpaqueQueryScope (ds @ cs))"
    using ch assms(2) by (auto simp: selectors_def Let_def)
  moreover have "sameRules env al [] PathResource rn
      [Rule opaqueQueryRule pattern name ops eff resource children] [OpaqueQueryScope (ds @ cs)]"
    using ch(4) by (auto simp: sameRules_def OpaqueQueryScope_def)
  ultimately show ?thesis unfolding scopeDecodes_def by blast
qed

lemma decodesTo_directive:
  assumes "documentRuleFromRule child = Inr dr" and "portableRule child"
    and "ruleOk al child prefix kind" and "\<not> al effectNone"
    and "decodesTo env al prefix kind rn children (Suc i) drs j scopes"
  shows "decodesTo env al prefix kind rn (child # children) i (dr # drs) j scopes"
proof -
  have dir: "ruleKindOf child = directiveRule"
    using assms(1) by (simp add: documentRuleFromRule_def split: if_splits)
  have al: "al (ruleEffect child)" using assms(3) dir by (cases child) simp
  note rt = directive_roundtrip [where al = al, OF assms(1,2) al assms(4)]
  from assms(5) obtain ds cs where ch: "rulesFromDocumentRules al (Suc i) drs = Inr ds"
    "rulesFromDocumentScopes al j scopes = Inr cs"
    "sameRules env al prefix kind rn children (ds @ cs)" unfolding decodesTo_def by blast
  let ?d = "directive (ruleEffect child) (ruleOperations child) [ruleName child]"
  have "rulesFromDocumentRules al i (dr # drs) = Inr (?d # ds)"
    using rt(1) ch(1) by simp
  moreover have "ruleOk al ?d prefix kind" using al rt(3) by (simp add: directive_def)
  then have "sameRules env al prefix kind rn (child # children) ((?d # ds) @ cs)"
    using ch(3) flatten_directive [OF rt(2) assms(2), of env prefix kind rn]
    by (simp add: sameRules_def)
  ultimately show ?thesis using ch(2) unfolding decodesTo_def by fastforce
qed

lemma decodesTo_scope:
  assumes "scopeDecodes env al prefix kind rn child scope"
    and "decodesTo env al prefix kind rn children i drs (Suc j) scopes"
  shows "decodesTo env al prefix kind rn (child # children) i drs j (scope # scopes)"
proof -
  from assms(1) obtain child' where c: "ruleFromDocumentScope al scope = Inr child'"
    "sameRules env al prefix kind rn [child] [child']" unfolding scopeDecodes_def by blast
  from assms(2) obtain ds cs where ch: "rulesFromDocumentRules al i drs = Inr ds"
    "rulesFromDocumentScopes al (Suc j) scopes = Inr cs"
    "sameRules env al prefix kind rn children (ds @ cs)" unfolding decodesTo_def by blast
  have "rulesFromDocumentScopes al j (scope # scopes) = Inr (child' # cs)"
    using c(1) ch(2) by simp
  moreover have "sameRules env al prefix kind rn (child # children) (ds @ child' # cs)"
    using ch(3) c(2) by (auto simp: sameRules_def)
  ultimately show ?thesis using ch(1) unfolding decodesTo_def by fastforce
qed

lemma document_roundtrip:
  assumes noNone: "\<not> al effectNone"
  shows "documentScopeFromRule rule = Inr scope \<Longrightarrow> portableRule rule \<Longrightarrow> ruleOk al rule prefix kind \<Longrightarrow>
      (ruleKindOf rule = directiveRule \<longrightarrow> kind = PathResource \<and> rn = []) \<Longrightarrow>
      scopeDecodes env al prefix kind rn rule scope"
    and "documentChildren rules = Inr (drs, scopes) \<Longrightarrow>
      \<forall>r \<in> set rules. portableRule r \<and> ruleOk al r prefix kind \<Longrightarrow>
      decodesTo env al prefix kind rn rules i drs j scopes"
proof (induction rule and rules arbitrary: scope prefix kind rn and drs scopes prefix kind rn i j
    rule: documentScopeFromRule_documentChildren.induct)
  case (1 k pattern name ops eff resource children)
  show ?case
  proof (cases k)
    case directiveRule
    with "1.prems" show ?thesis by (auto simp: bindE_eq_Inr intro!: scopeDecodes_directive noNone)
  next
    case scopeRule
    with "1.prems" obtain path drs scopes where sc: "documentPath pattern = Inr path"
      "documentChildren children = Inr (drs, scopes)" "scope = DocumentScope path [] False drs scopes"
      by (auto simp: bindE_eq_Inr)
    moreover have "path \<noteq> []" "parseDocumentPath path = Inr pattern"
      using documentPath_roundtrip [of pattern] "1.prems"(2) sc(1) scopeRule by auto
    ultimately show ?thesis
      using "1.IH"(1) [OF scopeRule sc(1) sc(2)] "1.prems"(2,3) scopeRule
      by (auto intro!: scopeDecodes_path)
  next
    case collectionGroupRule
    with "1.prems" "1.IH"(2) show ?thesis by (auto simp: bindE_eq_Inr intro!: scopeDecodes_group)
  next
    case opaqueQueryRule
    with "1.prems" "1.IH"(3) show ?thesis by (auto simp: bindE_eq_Inr intro!: scopeDecodes_opaque)
  next
    case noRule
    with "1.prems" show ?thesis by simp
  qed
next
  case 2
  then show ?case by (simp add: decodesTo_def sameRules_def)
next
  case (3 child children)
  show ?case
  proof (cases "ruleKindOf child = directiveRule")
    case True
    with "3.prems" "3.IH"(1) noNone show ?thesis
      by (auto simp: bindE_eq_Inr intro!: decodesTo_directive)
  next
    case False
    with "3.prems" "3.IH"(2,3) show ?thesis by (auto simp: bindE_eq_Inr intro!: decodesTo_scope)
  qed
qed

text \<open>Every portable rule that compiles can be written to a document.\<close>

lemma portable_encodes:
  "portableRule rule \<Longrightarrow> ruleOk al rule prefix kind \<Longrightarrow> isOk (documentScopeFromRule rule)"
  "\<forall>r \<in> set rules. portableRule r \<and> ruleOk al r prefix kind \<Longrightarrow> isOk (documentChildren rules)"
proof (induction rule and rules arbitrary: prefix kind and prefix kind
    rule: documentScopeFromRule_documentChildren.induct)
  case (1 k pattern name ops eff resource children)
  have ok: "isOk (bindE m (\<lambda>(a, b). Inr (f a b)))" if "isOk m" for m f
    using that by (cases m) auto
  show ?case
  proof (cases k)
    case directiveRule
    with 1 show ?thesis
      using operationNamesForDocument_ok [of ops]
      by (auto simp: documentRuleFromRule_def split: sum.splits)
  next
    case scopeRule
    then obtain path where "documentPath pattern = Inr path"
      using "1.prems" documentPath_roundtrip [of pattern] by auto
    with scopeRule 1 show ?thesis by (auto intro!: ok)
  qed (use 1 in \<open>auto intro!: ok\<close>)
next
  case (3 child children)
  show ?case
  proof (cases "ruleKindOf child = directiveRule")
    case True
    have "isOk (documentRuleFromRule child)"
      using "3.prems" True operationNamesForDocument_ok [of "ruleOperations child"]
      by (cases child) (auto simp: documentRuleFromRule_def split: sum.splits)
    then obtain dr where dr: "documentRuleFromRule child = Inr dr" by (auto simp: isOk_iff)
    have "isOk (documentChildren children)"
      using "3.IH"(1) [OF True dr, of prefix kind] "3.prems" by simp
    with True dr show ?thesis by (auto simp: isOk_iff)
  next
    case False
    obtain scope where scope: "documentScopeFromRule child = Inr scope"
      using "3.IH"(2) [OF False, of prefix kind] "3.prems" by (auto simp: isOk_iff)
    have "isOk (documentChildren children)"
      using "3.IH"(3) [OF False scope, of prefix kind] "3.prems" by simp
    with False scope show ?thesis by (auto simp: isOk_iff)
  qed
qed simp

lemma documentScopes_roundtrip:
  assumes "\<forall>r \<in> set rules. portableRule r \<and> ruleOk al r [] PathResource" and "\<not> al effectNone"
  shows "\<exists>scopes. documentScopes rules = Inr scopes \<and> (scopes = [] \<longleftrightarrow> rules = []) \<and>
    (\<exists>rules'. rulesFromDocumentScopes al i scopes = Inr rules' \<and>
       sameRules env al [] PathResource [] rules rules')"
  using assms(1)
proof (induction rules arbitrary: i)
  case Nil
  then show ?case by (simp add: sameRules_def)
next
  case (Cons r rs)
  then obtain scopes rules' where rest: "documentScopes rs = Inr scopes"
    "rulesFromDocumentScopes al (Suc i) scopes = Inr rules'"
    "sameRules env al [] PathResource [] rs rules'" by (metis list.set_intros(2))
  obtain scope where scope: "documentScopeFromRule r = Inr scope"
    using portable_encodes(1) [of r al "[]" PathResource] Cons.prems
    by (cases "documentScopeFromRule r") auto
  then obtain r' where r': "ruleFromDocumentScope al scope = Inr r'"
    "sameRules env al [] PathResource [] [r] [r']"
    using document_roundtrip(1) [where al = al, OF assms(2) scope, of "[]" PathResource "[]" env] Cons.prems
    by (auto simp: scopeDecodes_def)
  have "sameRules env al [] PathResource [] (r # rs) (r' # rules')"
    using rest(3) r'(2) by (auto simp: sameRules_def)
  with rest scope r' show ?case by simp
qed

lemma sameRules_compile:
  assumes "compileRules env al rules = Inr compiled" and "sameRules env al [] PathResource [] rules rules'"
  shows "\<exists>compiled'. compileRules env al rules' = Inr compiled' \<and> mset compiled' = mset compiled"
proof -
  have flat: "mset (flattenRules env rules') = mset (flattenRules env rules)"
    using assms(2) by (simp add: sameRules_def flattenRules_def)
  have "distinct (map crName (flattenRules env rules))"
    using compileRules_Inr [OF assms(1)] by auto
  then have "distinct (map crName (flattenRules env rules'))"
    using mset_eq_imp_distinct_iff [of "map crName (flattenRules env rules')"] flat by (metis mset_map)
  then have "isOk (compileRules env al rules')"
    using assms(2) by (simp add: compileRules_ok sameRules_def)
  then obtain c' where "compileRules env al rules' = Inr c'" by (auto simp: isOk_iff)
  with flat compileRules_Inr [OF assms(1)] compileRules_Inr [OF this] show ?thesis by auto
qed

section \<open>Properties\<close>

text \<open>A policy built from portable rules can be encoded, and decoding the document with any
  codec that decodes what it encodes gives a policy that decides every request the same way. A
  portable rule has a trimmed, non-empty name, scopes that are not empty, and paths made of wildcards
  and of non-empty strings other than a literal asterisk.\<close>

theorem access_policy_roundtrip:
  assumes "NewPolicy env name rules = Inr p" and "trimSpace name \<noteq> []" and "rules \<noteq> []"
    and "\<forall>r \<in> set rules. portableRule r"
    and "\<And>d. \<exists>b. encode d = Inr b \<and> decode b = Inr d"
  shows "\<exists>bytes p'. EncodeAccessPolicy (Some encode) (Some p) = Inr bytes \<and>
    DecodeAccessPolicy env (Some bytes) (Some decode) [] = Inr p' \<and>
    (\<forall>request. Decide env p' request = Decide env p request)"
proof -
  from assms(1) obtain c where c: "compileRules env accessEffects rules = Inr c"
    "p = \<lparr>polName = name, polSource = [], polRules = rules, polCompiled = c\<rparr>" "name \<noteq> []"
    by (auto simp: NewPolicy_def bindE_eq_Inr split: if_splits)
  have "\<forall>r \<in> set rules. portableRule r \<and> ruleOk accessEffects r [] PathResource"
    using compileRules_ok [of env accessEffects rules] c(1) assms(4) by simp
  moreover have "\<not> accessEffects effectNone" by (simp add: accessEffects_def)
  ultimately obtain scopes rules' where sc: "documentScopes rules = Inr scopes"
    "scopes = [] \<longleftrightarrow> rules = []" "rulesFromDocumentScopes accessEffects 0 scopes = Inr rules'"
    "sameRules env accessEffects [] PathResource [] rules rules'"
    using documentScopes_roundtrip [of rules accessEffects 0 env] by blast
  obtain c' where c': "compileRules env accessEffects rules' = Inr c'" "mset c' = mset c"
    using sameRules_compile [OF c(1) sc(4)] by blast
  let ?doc = "\<lparr>docAPIVersion = DocumentAPIVersion, docKind = AccessPolicyKind, docName = name,
            docDefault = effectString effectDeny, docScopes = scopes\<rparr>"
  let ?p' = "\<lparr>polName = name, polSource = [], polRules = rules', polCompiled = c'\<rparr>"
  obtain bytes where bytes: "encode ?doc = Inr bytes" "decode bytes = Inr ?doc" using assms(5) by blast
  have "EncodeAccessPolicy (Some encode) (Some p) = Inr bytes"
    using sc(1) bytes(1) c(2) by (simp add: EncodeAccessPolicy_def documentFromRules_def encodeDocument_def)
  moreover have "DecodeAccessPolicy env (Some bytes) (Some decode) [] = Inr ?p'"
    using sc bytes(2) c(3) c'(1) assms(2,3)
    by (simp add: DecodeAccessPolicy_def decodeDocument_def rulesFromDocument_def NewPolicy_def
        decodeSettings_def)
  moreover have "Decide env ?p' request = Decide env p request" for request :: "'q Request"
    using Decide_perm [of p ?p' env request] compileRules_wf [OF c(1)] c(2) c'(2) by simp
  ultimately show ?thesis by blast
qed

theorem access_policy_roundtrip_witness:
  "\<exists>bytes p'. EncodeAccessPolicy (Some Inr) (Some \<lparr>polName = ''p'', polSource = [],
      polRules = sampleRules, polCompiled = flattenRules sampleEnv sampleRules\<rparr>) = Inr bytes \<and>
    DecodeAccessPolicy sampleEnv (Some bytes) (Some Inr) [] = Inr p' \<and>
    (\<forall>request :: unit Request. Decide sampleEnv p' request = Decide sampleEnv
       \<lparr>polName = ''p'', polSource = [], polRules = sampleRules,
        polCompiled = flattenRules sampleEnv sampleRules\<rparr> request)"
proof -
  have "trimSpace ''p'' \<noteq> []" "sampleRules \<noteq> []" "\<forall>r \<in> set sampleRules. portableRule r"
    by code_simp+
  moreover have "\<And>d :: Document. \<exists>b. Inr d = Inr b \<and> (Inr b :: accessError + Document) = Inr d" by blast
  ultimately show ?thesis by (rule access_policy_roundtrip [OF sample_policy])
qed

text \<open>A literal asterisk as an identifier does not survive: the policy that allows reading the
  record named \<open>*\<close> is encoded with the escape \<open>%2A\<close>, and decoding it gives the wildcard, so the
  decoded policy allows reading records the original denies.\<close>

theorem literal_star_widens:
  "let rules = [Under [collectionSeg ''spaces'', idSeg (goStr ''*'')] [Allow Read [''star'']]];
       other = \<lparr>reqOperation = Get,
         reqResources = [RecordResourceForKey (Some (Key ''spaces'' (goStr ''s1'') None))],
         reqQuery = None :: unit option\<rparr>;
       decoded = bindE (NewPolicy sampleEnv ''p'' rules) (\<lambda>p.
         bindE (EncodeAccessPolicy (Some Inr) (Some p)) (\<lambda>doc.
           DecodeAccessPolicy sampleEnv (Some doc) (Some Inr) []))
   in NewPath [Part (goStr ''spaces''), Part (goStr ''*'')] =
        Inr [collectionSeg ''spaces'', idSeg (goStr ''*'')] \<and>
      (\<exists>p p'. NewPolicy sampleEnv ''p'' rules = Inr p \<and> decoded = Inr p' \<and>
         \<not> decAllowed (Decide sampleEnv p other) \<and> decAllowed (Decide sampleEnv p' other))"
proof -
  let ?rules = "[Under [collectionSeg ''spaces'', idSeg (goStr ''*'')] [Allow Read [''star'']]]"
  let ?other = "\<lparr>reqOperation = Get,
         reqResources = [RecordResourceForKey (Some (Key ''spaces'' (goStr ''s1'') None))],
         reqQuery = None :: unit option\<rparr>"
  let ?p = "\<lparr>polName = ''p'', polSource = [], polRules = ?rules,
    polCompiled = flattenRules sampleEnv ?rules\<rparr>"
  let ?rules' = "[Under [collectionSeg ''spaces'', anySeg] [Allow Read [''star'']]]"
  let ?p' = "\<lparr>polName = ''p'', polSource = [], polRules = ?rules',
    polCompiled = flattenRules sampleEnv ?rules'\<rparr>"
  have new: "NewPolicy sampleEnv ''p'' ?rules = Inr ?p" by code_simp
  have path: "NewPath [Part (goStr ''spaces''), Part (goStr ''*'')] =
      Inr [collectionSeg ''spaces'', idSeg (goStr ''*'')]" by code_simp
  have dec: "bindE (EncodeAccessPolicy (Some Inr) (Some ?p)) (\<lambda>doc.
      DecodeAccessPolicy sampleEnv (Some doc) (Some Inr) []) = Inr ?p'" by code_simp
  have "\<not> decAllowed (Decide sampleEnv ?p ?other)" "decAllowed (Decide sampleEnv ?p' ?other)"
    by code_simp+
  with new path dec show ?thesis by (simp add: Let_def)
qed

end
