(* ===== verification/AccessCodec.thy ===== *)
theory AccessCodec
  imports AccessDocument
begin

text \<open>
  Policies as files (\<open>src/access/document.go\<close>): the YAML and JSON codecs around the packages that
  parse and print, the marshalling functions, and the text of a denial
  (\<open>policy.go\<close>). The packages
  \<open>gopkg.in/yaml.v3\<close> and \<open>encoding/json\<close> are arguments.
\<close>

section \<open>Definitions\<close>

text \<open>
  A syntax package over bytes \<open>'b\<close>: \<open>spDecode\<close> reads the first document, refusing unknown fields, and
  leaves the rest of the stream; \<open>spNext\<close> is the error of decoding one more value into \<open>any\<close>;
  \<open>spEncode\<close> and \<open>spClose\<close> write. \<open>DecEOF\<close> is an error that wraps \<open>io.EOF\<close>.
\<close>

datatype decodeErr = DecEOF | DecErr string

record 'b syntaxPackage =
  spDecode :: "'b \<Rightarrow> (decodeErr + Document) \<times> 'b"
  spNext :: "'b \<Rightarrow> decodeErr option"
  spEncode :: "Document \<Rightarrow> string option \<times> 'b"
  spClose :: "'b \<Rightarrow> string option \<times> 'b"

fun decodeErrText :: "decodeErr \<Rightarrow> string" where
  "decodeErrText DecEOF = ''EOF''"
| "decodeErrText (DecErr msg) = msg"

definition ensureSingleDocument :: "decodeErr option \<Rightarrow> accessError option" where
  "ensureSingleDocument err =
     (case err of
        Some DecEOF \<Rightarrow> None
      | Some (DecErr msg) \<Rightarrow> Some (DecodeFailed [] msg)
      | None \<Rightarrow> Some NotOneDocument)"

definition codecDecode :: "string \<Rightarrow> 'b syntaxPackage \<Rightarrow> 'b \<Rightarrow> accessError + Document" where
  "codecDecode label pkg reader =
     (case spDecode pkg reader of
        (Inl e, rest) \<Rightarrow> Inl (DecodeFailed label (decodeErrText e))
      | (Inr document, rest) \<Rightarrow>
          (case ensureSingleDocument (spNext pkg rest) of Some e \<Rightarrow> Inl e | None \<Rightarrow> Inr document))"

definition YAMLDecode :: "'b syntaxPackage \<Rightarrow> 'b \<Rightarrow> accessError + Document" where
  "YAMLDecode = codecDecode ''YAML''"

definition JSONDecode :: "'b syntaxPackage \<Rightarrow> 'b \<Rightarrow> accessError + Document" where
  "JSONDecode = codecDecode ''JSON''"

text \<open>\<open>Encode\<close> of the YAML codec joins its error with that of closing the encoder.\<close>

definition YAMLEncode :: "'b syntaxPackage \<Rightarrow> Document \<Rightarrow> accessError + 'b" where
  "YAMLEncode pkg document =
     (case spEncode pkg document of (err, written) \<Rightarrow>
        (case (err, spClose pkg written) of
           (None, None, bytes) \<Rightarrow> Inr bytes
         | (None, Some e, bytes) \<Rightarrow> Inl (EncodeFailed [] e)
         | (Some e, None, bytes) \<Rightarrow> Inl (EncodeFailed ''YAML'' e)
         | (Some e, Some e', bytes) \<Rightarrow> Inl (EncodeFailed ''YAML'' (e @ [CHR 0x0A] @ e'))))"

definition JSONEncode :: "'b syntaxPackage \<Rightarrow> Document \<Rightarrow> accessError + 'b" where
  "JSONEncode pkg document =
     (case spEncode pkg document of
        (None, bytes) \<Rightarrow> Inr bytes
      | (Some e, bytes) \<Rightarrow> Inl (EncodeFailed ''JSON'' e))"

definition marshalAccessPolicy ::
  "AccessPolicy option \<Rightarrow> (Document \<Rightarrow> accessError + 'b) \<Rightarrow> accessError + 'b" where
  "marshalAccessPolicy policy codec = EncodeAccessPolicy (Some codec) policy"

definition MarshalAccessPolicyYAML :: "'b syntaxPackage \<Rightarrow> AccessPolicy option \<Rightarrow> accessError + 'b" where
  "MarshalAccessPolicyYAML pkg policy = marshalAccessPolicy policy (YAMLEncode pkg)"

definition MarshalAccessPolicyJSON :: "'b syntaxPackage \<Rightarrow> AccessPolicy option \<Rightarrow> accessError + 'b" where
  "MarshalAccessPolicyJSON pkg policy = marshalAccessPolicy policy (JSONEncode pkg)"

definition marshalAuditPolicy ::
  "AuditPolicy option \<Rightarrow> (Document \<Rightarrow> accessError + 'b) \<Rightarrow> accessError + 'b" where
  "marshalAuditPolicy policy codec = EncodeAuditPolicy (Some codec) policy"

definition MarshalAuditPolicyYAML :: "'b syntaxPackage \<Rightarrow> AuditPolicy option \<Rightarrow> accessError + 'b" where
  "MarshalAuditPolicyYAML pkg policy = marshalAuditPolicy policy (YAMLEncode pkg)"

definition MarshalAuditPolicyJSON :: "'b syntaxPackage \<Rightarrow> AuditPolicy option \<Rightarrow> accessError + 'b" where
  "MarshalAuditPolicyJSON pkg policy = marshalAuditPolicy policy (JSONEncode pkg)"

definition UnmarshalAccessPolicyYAML ::
  "displayEnv \<Rightarrow> 'b syntaxPackage \<Rightarrow> 'b \<Rightarrow> decodeOption option list \<Rightarrow> accessError + AccessPolicy" where
  "UnmarshalAccessPolicyYAML env pkg data options = DecodeAccessPolicy env (Some data) (Some (YAMLDecode pkg)) options"

definition UnmarshalAccessPolicyJSON ::
  "displayEnv \<Rightarrow> 'b syntaxPackage \<Rightarrow> 'b \<Rightarrow> decodeOption option list \<Rightarrow> accessError + AccessPolicy" where
  "UnmarshalAccessPolicyJSON env pkg data options = DecodeAccessPolicy env (Some data) (Some (JSONDecode pkg)) options"

definition UnmarshalAuditPolicyYAML ::
  "displayEnv \<Rightarrow> 'b syntaxPackage \<Rightarrow> 'b \<Rightarrow> decodeOption option list \<Rightarrow> accessError + AuditPolicy" where
  "UnmarshalAuditPolicyYAML env pkg data options = DecodeAuditPolicy env (Some data) (Some (YAMLDecode pkg)) options"

definition UnmarshalAuditPolicyJSON ::
  "displayEnv \<Rightarrow> 'b syntaxPackage \<Rightarrow> 'b \<Rightarrow> decodeOption option list \<Rightarrow> accessError + AuditPolicy" where
  "UnmarshalAuditPolicyJSON env pkg data options = DecodeAuditPolicy env (Some data) (Some (JSONDecode pkg)) options"

text \<open>The text of a denial; \<open>quote\<close> is \<open>%q\<close>, \<open>explain\<close> the wording of the explanation.\<close>

definition deniedText :: "(string \<Rightarrow> string) \<Rightarrow> (explanation \<Rightarrow> string) \<Rightarrow> displayEnv \<Rightarrow> Decision \<Rightarrow> string" where
  "deniedText quote explain env d =
     (let policy = ''policy='' @ quote (decPolicy d) @
            (if decPolicySource d \<noteq> [] then '' source='' @ quote (decPolicySource d) else []);
          rule = (if decRule d \<noteq> [] then '' rule='' @ quote (decRule d) else [])
      in ''dalgo access denied: '' @ policy @ rule @ '' operation='' @ operationsString (decOperation d) @
         '' resource='' @ resourceString env (decResource d) @ '': '' @ explain (decExplanation d))"

section \<open>One document per stream\<close>

text \<open>A codec answers with a document exactly when the stream holds that one document and nothing else.\<close>

lemma codecDecode_iff:
  "codecDecode label pkg bytes = Inr d \<longleftrightarrow>
    (\<exists>rest. spDecode pkg bytes = (Inr d, rest) \<and> spNext pkg rest = Some DecEOF)"
  by (auto simp: codecDecode_def ensureSingleDocument_def split: prod.split sum.split option.split decodeErr.split)

lemma second_document_refused:
  assumes "spDecode pkg bytes = (Inr d, rest)" and "spNext pkg rest = None"
  shows "UnmarshalAccessPolicyYAML env pkg bytes options = Inl NotOneDocument \<and>
    UnmarshalAccessPolicyJSON env pkg bytes options = Inl NotOneDocument \<and>
    UnmarshalAuditPolicyYAML env pkg bytes options = Inl NotOneDocument \<and>
    UnmarshalAuditPolicyJSON env pkg bytes options = Inl NotOneDocument"
  using assms
  by (simp add: UnmarshalAccessPolicyYAML_def UnmarshalAccessPolicyJSON_def UnmarshalAuditPolicyYAML_def
      UnmarshalAuditPolicyJSON_def DecodeAccessPolicy_def DecodeAuditPolicy_def decodeDocument_def YAMLDecode_def
      JSONDecode_def codecDecode_def ensureSingleDocument_def)

text \<open>A policy that was loaded comes from a stream of one document.\<close>

lemma unmarshal_single:
  assumes "UnmarshalAccessPolicyYAML env pkg bytes options = Inr p \<or> UnmarshalAccessPolicyJSON env pkg bytes options = Inr p"
  shows "\<exists>d rest. spDecode pkg bytes = (Inr d, rest) \<and> spNext pkg rest = Some DecEOF \<and> docName d = polName p"
  using assms
  by (auto simp: UnmarshalAccessPolicyYAML_def UnmarshalAccessPolicyJSON_def DecodeAccessPolicy_def decodeDocument_def
      YAMLDecode_def JSONDecode_def bindE_eq_Inr codecDecode_iff NewPolicy_def split: if_splits)

section \<open>Files survive\<close>


text \<open>A package whose bytes are lists of documents.\<close>

definition listPackage :: "Document list syntaxPackage" where
  "listPackage =
     \<lparr>spDecode = (\<lambda>b. case b of [] \<Rightarrow> (Inl DecEOF, []) | d # ds \<Rightarrow> (Inr d, ds)),
      spNext = (\<lambda>b. if b = [] then Some DecEOF else None),
      spEncode = (\<lambda>d. (None, [d])), spClose = (\<lambda>b. (None, b))\<rparr>"


end
