(* ===== verification/GoMap.thy ===== *)
theory GoMap
  imports Prelude
begin

text \<open>
  Go maps. A map is the association list of its entries in ascending order of the keys, without
  duplicates: equal maps are equal lists, every operation computes, and \<^const>\<open>map_of\<close> is the
  mathematical map. The order in which a \<open>for range\<close> loop visits a map is left open by Go; where a
  result depends on it, the order is an argument of the definition.
\<close>

named_theorems gomap_simps \<open>what the map operations do to lookups, keys and well-formedness\<close>

section \<open>Definitions\<close>

type_synonym ('k, 'v) gomap = "('k \<times> 'v) list"

fun putKey :: "'k::linorder \<Rightarrow> 'v \<Rightarrow> ('k, 'v) gomap \<Rightarrow> ('k, 'v) gomap" where
  "putKey k v [] = [(k, v)]"
| "putKey k v ((k', v') # m) =
     (if k = k' then (k, v) # m
      else if k < k' then (k, v) # (k', v') # m
      else (k', v') # putKey k v m)"

definition delKey :: "'k \<Rightarrow> ('k, 'v) gomap \<Rightarrow> ('k, 'v) gomap" where
  "delKey k m = filter (\<lambda>e. fst e \<noteq> k) m"

definition hasKey :: "('k, 'v) gomap \<Rightarrow> 'k \<Rightarrow> bool" where
  "hasKey m k = (map_of m k \<noteq> None)"

definition keysOf :: "('k, 'v) gomap \<Rightarrow> 'k list" where
  "keysOf m = map fst m"

text \<open>\<open>for k, v := range src \{ dst[k] = v \}\<close>, which is also \<open>maps.Copy\<close>.\<close>

definition copyInto :: "('k::linorder, 'v) gomap \<Rightarrow> ('k, 'v) gomap \<Rightarrow> ('k, 'v) gomap" where
  "copyInto dst src = fold (\<lambda>(k, v). putKey k v) src dst"

definition gomapOk :: "('k::linorder, 'v) gomap \<Rightarrow> bool" where
  "gomapOk m = sorted_wrt (<) (keysOf m)"

section \<open>Laws\<close>

lemma map_of_putKey [simp, gomap_simps]: "map_of (putKey k v m) = (map_of m)(k \<mapsto> v)"
  by (induction m) auto

lemma map_of_delKey [simp, gomap_simps]: "map_of (delKey k m) = (map_of m)(k := None)"
  by (induction m) (auto simp: delKey_def)

lemma set_keysOf: "set (keysOf m) = dom (map_of m)"
  by (simp add: keysOf_def dom_map_of_conv_image_fst)

lemma keysOf_putKey: "set (keysOf (putKey k v m)) = insert k (set (keysOf m))"
  by (simp add: set_keysOf)

lemma keysOf_delKey: "set (keysOf (delKey k m)) = set (keysOf m) - {k}"
  by (simp add: set_keysOf)

lemma gomapOk_Nil [simp, gomap_simps]: "gomapOk []"
  by (simp add: gomapOk_def keysOf_def)

lemma gomapOk_Cons: "gomapOk ((k, v) # m) \<longleftrightarrow> gomapOk m \<and> (\<forall>k' \<in> set (keysOf m). k < k')"
  by (auto simp: gomapOk_def keysOf_def)

lemma gomapOk_putKey [intro, gomap_simps]: "gomapOk m \<Longrightarrow> gomapOk (putKey k v m)"
proof (induction m)
  case (Cons e m)
  obtain k' v' where e: "e = (k', v')" by (cases e)
  show ?case
  proof (cases "k \<le> k'")
    case True
    then show ?thesis
      using Cons.prems e by (auto simp: gomapOk_Cons keysOf_def intro: less_trans)
  next
    case False
    then show ?thesis
      using Cons e by (auto simp: gomapOk_Cons keysOf_putKey not_le)
  qed
qed (simp add: gomapOk_Cons keysOf_def)

lemma gomapOk_delKey [intro, gomap_simps]: "gomapOk m \<Longrightarrow> gomapOk (delKey k m)"
  by (induction m) (auto simp: delKey_def gomapOk_Cons keysOf_def)

lemma gomapOk_distinct: "gomapOk m \<Longrightarrow> distinct (keysOf m)"
  using strict_sorted_iff gomapOk_def by blast

lemma hasKey_iff: "hasKey m k \<longleftrightarrow> k \<in> set (keysOf m)"
  by (auto simp: hasKey_def set_keysOf)

text \<open>A well-formed map is determined by its lookups.\<close>

lemma gomap_entries:
  "gomapOk m \<Longrightarrow> m = map (\<lambda>k. (k, the (map_of m k))) (keysOf m)"
  using gomapOk_distinct [of m]
  by (auto simp: keysOf_def intro!: map_idI [symmetric])

lemma gomap_eqI:
  assumes "gomapOk m" and "gomapOk m'" and "map_of m = map_of m'"
  shows "m = m'"
proof -
  have "keysOf m = keysOf m'"
  proof (rule strict_sorted_equal)
    show "set (keysOf m) = set (keysOf m')" using assms by (simp add: set_keysOf)
  qed (use assms in \<open>simp_all add: gomapOk_def\<close>)
  then show ?thesis
    using assms gomap_entries [of m] gomap_entries [of m'] by metis
qed

lemma map_of_copyInto: "map_of (copyInto dst src) = map_of dst ++ map_of (rev src)"
  by (induction src arbitrary: dst) (auto simp: copyInto_def map_add_def fun_eq_iff split: option.split)

lemma gomapOk_copyInto [intro]: "gomapOk dst \<Longrightarrow> gomapOk (copyInto dst src)"
  by (induction src arbitrary: dst) (auto simp: copyInto_def)

lemma map_of_rev_distinct: "distinct (map fst m) \<Longrightarrow> map_of (rev m) = map_of m"
  by (metis distinct_rev map_of_inject_set rev_map set_rev)

lemma map_of_rev_gomap: "gomapOk m \<Longrightarrow> map_of (rev m) = map_of m"
  using gomapOk_distinct [of m] by (simp add: keysOf_def map_of_rev_distinct)

lemma sortStrings_keysOf: "gomapOk m \<Longrightarrow> sortStrings (keysOf m) = keysOf m"
  by (metis gomapOk_def sorted_wrt_mono_rel strict_sorted_iff sortStrings_def mset_sliceStable
      properties_for_sort sorted_sort_id sortStrings_sorted)

lemma set_putKey_subset: "set (putKey k v m) \<subseteq> insert (k, v) (set m)"
  by (induction m) (auto split: if_splits)

lemma set_copyInto_subset: "set (copyInto dst src) \<subseteq> set dst \<union> set src"
proof (induction src arbitrary: dst)
  case (Cons e src)
  obtain k v where e: "e = (k, v)" by (cases e)
  show ?case
    using Cons [of "putKey k v dst"] set_putKey_subset [of k v dst] e
    by (auto simp: copyInto_def)
qed (simp add: copyInto_def)

end
