(* ===== verification/MemoryValue.thy ===== *)
theory MemoryValue
  imports Complex_Main GoMap AccessResource
begin

text \<open>
  Values and JSON documents as the in-memory adapter (\<open>src/adapters/dalgo2memory\<close>) sees them.

  \<^verbatim>\<open>value\<close> is what the adapter observes of a Go interface value: its dynamic type, its kind and
  its content. Decoding JSON into \<open>any\<close> gives \<open>nil\<close>, \<open>bool\<close>, \<open>float64\<close>, \<open>string\<close>,
  \<open>[]any\<close> and \<open>map[string]any\<close>; constants of a query can be anything. A finite \<open>float64\<close> is
  its exact rational value (the two zeros are identified; infinities and NaN have no JSON form and
  are outside the model), and a JSON document is its tree, not its text. Strings are valid UTF-8,
  which JSON carries unchanged.

  What types declared outside the repository do is an argument, \<open>valueEnv\<close>: the text
  \<open>fmt.Sprint\<close> gives for their values, and for a \<open>float64\<close> that is not an integer below a
  million, and the document \<open>json.Marshal\<close> gives.
\<close>

section \<open>Definitions\<close>

datatype "value" =
    VNil
  | VBool string bool
  | VInt string int
  | VUint string nat
  | VFloat string rat
  | VString string string
  | VList string "value list"
  | VMap "(string \<times> value) list"
  | VOther string bool nat

text \<open>
  \<open>VList t xs\<close> is a slice whose elements marshal one by one (a byte slice is a \<open>VOther\<close>);
  \<open>VOther t comparable n\<close> is a value of any other type, \<open>n\<close> its class under \<open>==\<close>.
\<close>

datatype json =
    JNull
  | JBool bool
  | JNum rat
  | JStr string
  | JArr "json list"
  | JObj "(string \<times> json) list"

type_synonym fields = "(string, value) gomap"

abbreviation anySlice :: string where "anySlice \<equiv> ''[]interface {}''"

record valueEnv =
  otherText :: "value \<Rightarrow> string"
  otherJSON :: "value \<Rightarrow> json option"

subsection \<open>Floating-point numbers\<close>

fun bitLen :: "nat \<Rightarrow> nat" where
  "bitLen n = (if n = 0 then 0 else Suc (bitLen (n div 2)))"

declare bitLen.simps [simp del]

definition pow2 :: "int \<Rightarrow> rat" where
  "pow2 e = (if 0 \<le> e then 2 ^ nat e else 1 / 2 ^ nat (- e))"

definition roundHalfEven :: "rat \<Rightarrow> int" where
  "roundHalfEven q =
     (let f = \<lfloor>q\<rfloor>; d = q - of_int f
      in if d > 1 / 2 \<or> (d = 1 / 2 \<and> odd f) then f + 1 else f)"

text \<open>The \<open>float64\<close> nearest to a rational, ties to even; 53 significant bits, no overflow.\<close>

definition roundF64 :: "rat \<Rightarrow> rat" where
  "roundF64 q =
     (if q = 0 then 0
      else
        let (n, d) = quotient_of \<bar>q\<bar>;
            e = int (bitLen (nat n)) - int (bitLen (nat d));
            lead = (if pow2 e \<le> \<bar>q\<bar> then e else e - 1);
            ulp = pow2 (max (lead - 52) (- 1074))
        in sgn q * of_int (roundHalfEven (\<bar>q\<bar> / ulp)) * ulp)"

text \<open>\<open>number\<close> of \<open>database.go\<close>: every integer and float kind as a \<open>float64\<close>.\<close>

fun number :: "value \<Rightarrow> rat option" where
  "number (VInt t i) = Some (roundF64 (of_int i))"
| "number (VUint t n) = Some (roundF64 (of_nat n))"
| "number (VFloat t q) = Some q"
| "number _ = None"

subsection \<open>Equality and text\<close>

fun typeText :: "value \<Rightarrow> string" where
  "typeText VNil = ''<nil>''"
| "typeText (VBool t b) = t"
| "typeText (VInt t i) = t"
| "typeText (VUint t n) = t"
| "typeText (VFloat t q) = t"
| "typeText (VString t s) = t"
| "typeText (VList t xs) = t"
| "typeText (VMap m) = ''map[string]interface {}''"
| "typeText (VOther t c n) = t"

fun comparable :: "value \<Rightarrow> bool" where
  "comparable (VList t xs) = False"
| "comparable (VMap m) = False"
| "comparable (VOther t c n) = c"
| "comparable _ = True"

text \<open>
  Go's \<open>==\<close> on two interface values: false for different dynamic types, a run-time panic
  (\<^const>\<open>None\<close>) for two values of the same type that cannot be compared.
\<close>

definition goEq :: "value \<Rightarrow> value \<Rightarrow> bool option" where
  "goEq a b =
     (if typeText a \<noteq> typeText b then Some False
      else if comparable a then Some (a = b)
      else None)"

fun sprint :: "valueEnv \<Rightarrow> value \<Rightarrow> string" where
  "sprint env VNil = ''<nil>''"
| "sprint env (VBool t b) =
     (if t = ''bool'' then if b then ''true'' else ''false'' else otherText env (VBool t b))"
| "sprint env (VInt t i) = (if t \<in> set intTypes then intDec i else otherText env (VInt t i))"
| "sprint env (VUint t n) = (if t \<in> set uintTypes then natDec n else otherText env (VUint t n))"
| "sprint env (VFloat t q) =
     (if t = ''float64'' \<and> of_int \<lfloor>q\<rfloor> = q \<and> \<bar>q\<bar> < 1000000 then intDec \<lfloor>q\<rfloor>
      else otherText env (VFloat t q))"
| "sprint env (VString t s) = (if t = ''string'' then s else otherText env (VString t s))"
| "sprint env (VList t xs) =
     (if t = anySlice then ''['' @ joinWith '' '' (map (sprint env) xs) @ '']''
      else otherText env (VList t xs))"
| "sprint env (VMap m) =
     ''map['' @ joinWith '' '' (map (\<lambda>(k, v). k @ '':'' @ sprint env v) m) @ '']''"
| "sprint env (VOther t c n) = otherText env (VOther t c n)"

subsection \<open>JSON\<close>

text \<open>\<open>json.Marshal\<close> on a value: \<^const>\<open>None\<close> is its error.\<close>

fun marshal :: "valueEnv \<Rightarrow> value \<Rightarrow> json option" where
  "marshal env VNil = Some JNull"
| "marshal env (VBool t b) = (if t = ''bool'' then Some (JBool b) else otherJSON env (VBool t b))"
| "marshal env (VInt t i) =
     (if t \<in> set intTypes then Some (JNum (of_int i)) else otherJSON env (VInt t i))"
| "marshal env (VUint t n) =
     (if t \<in> set uintTypes then Some (JNum (of_nat n)) else otherJSON env (VUint t n))"
| "marshal env (VFloat t q) =
     (if t = ''float64'' then Some (JNum q) else otherJSON env (VFloat t q))"
| "marshal env (VString t s) =
     (if t = ''string'' then Some (JStr s) else otherJSON env (VString t s))"
| "marshal env (VList t xs) =
     (if t = anySlice then map_option JArr (those (map (marshal env) xs))
      else otherJSON env (VList t xs))"
| "marshal env (VMap m) =
     map_option JObj (those (map (\<lambda>(k, v). map_option (Pair k) (marshal env v)) m))"
| "marshal env (VOther t c n) = otherJSON env (VOther t c n)"

text \<open>\<open>json.Unmarshal\<close> into an \<open>any\<close>; of entries with the same name the last one stays.\<close>

fun decodeAny :: "json \<Rightarrow> value" where
  "decodeAny JNull = VNil"
| "decodeAny (JBool b) = VBool ''bool'' b"
| "decodeAny (JNum q) = VFloat ''float64'' (roundF64 q)"
| "decodeAny (JStr s) = VString ''string'' s"
| "decodeAny (JArr js) = VList anySlice (map decodeAny js)"
| "decodeAny (JObj es) = VMap (copyInto [] (map (\<lambda>(k, j). (k, decodeAny j)) es))"

text \<open>\<open>json.Unmarshal\<close> into a fresh \<open>map[string]any\<close>: \<open>null\<close> leaves it nil.\<close>

fun decodeMap :: "json \<Rightarrow> fields option option" where
  "decodeMap JNull = Some None"
| "decodeMap (JObj es) = Some (Some (copyInto [] (map (\<lambda>(k, j). (k, decodeAny j)) es)))"
| "decodeMap _ = None"

text \<open>\<open>normalizeConstant\<close>: a constant that cannot be marshalled stays as it is.\<close>

definition normalizeConstant :: "valueEnv \<Rightarrow> value \<Rightarrow> value" where
  "normalizeConstant env v = (case marshal env v of None \<Rightarrow> v | Some j \<Rightarrow> decodeAny j)"

subsection \<open>Comparisons of \<open>database.go\<close> and \<open>join.go\<close>\<close>

definition compareStrings :: "string \<Rightarrow> string \<Rightarrow> int" where
  "compareStrings a b = (if a < b then - 1 else if b < a then 1 else 0)"

definition compare_value :: "valueEnv \<Rightarrow> value \<Rightarrow> value \<Rightarrow> int" where
  "compare_value env a b =
     (case (number a, number b) of
        (Some af, Some bf) \<Rightarrow> (if af < bf then - 1 else if af > bf then 1 else 0)
      | _ \<Rightarrow> compareStrings (sprint env a) (sprint env b))"

definition elementEquals :: "value \<Rightarrow> value \<Rightarrow> bool" where
  "elementEquals a b =
     (case number a of
        Some af \<Rightarrow> (case number b of Some bf \<Rightarrow> af = bf | None \<Rightarrow> False)
      | None \<Rightarrow> if comparable a \<and> comparable b then goEq a b = Some True else False)"

definition valuesEqual :: "value \<Rightarrow> value \<Rightarrow> bool option" where
  "valuesEqual a b =
     (case (number a, number b) of
        (Some af, Some bf) \<Rightarrow> Some (af = bf)
      | _ \<Rightarrow> goEq a b)"

section \<open>Laws\<close>

text \<open>What JSON decoding produces: the values stored rows are made of.\<close>

fun decoded :: "value \<Rightarrow> bool" where
  "decoded VNil = True"
| "decoded (VBool t b) = (t = ''bool'')"
| "decoded (VFloat t q) = (t = ''float64'')"
| "decoded (VString t s) = (t = ''string'')"
| "decoded (VList t xs) = (t = anySlice \<and> list_all decoded xs)"
| "decoded (VMap m) = (gomapOk m \<and> list_all (\<lambda>e. decoded (snd e)) m)"
| "decoded _ = False"

lemma decoded_decodeAny: "decoded (decodeAny j)"
proof (induction j rule: decodeAny.induct)
  case (6 es)
  have "set (copyInto [] (map (\<lambda>(k, j). (k, decodeAny j)) es))
      \<subseteq> (\<lambda>(k, j). (k, decodeAny j)) ` set es"
    using set_copyInto_subset [of "[]"] by force
  then show ?case
    using 6 by (auto simp: list_all_iff)
qed (simp_all add: list_all_iff)

end
