(* ===== verification/MemoryEngine.thy ===== *)
theory MemoryEngine
  imports MemoryValue "HOL-Library.Sublist"
begin

text \<open>
  The storage seam of the in-memory adapter: field updates (\<open>src/adapters/dalgo2memory/engine.go\<close>),
  the default engine that keeps one JSON document per record (\<open>serialized.go\<close>), and the contract
  \<open>storageEngine\<close> as the locale \<open>storage_engine\<close>, with the client's view of it proved once: an
  engine is a finite map from storage identifiers to keys and contents.

  A record of the module \<open>github.com/dal-go/record\<close> is what the adapter reads of it, its key and
  its data. The type \<open>'d\<close> of the data belongs to the caller: how it marshals, and what decoding a
  document into a value of it gives, are arguments (\<open>dataEnv\<close>).
\<close>

section \<open>Definitions\<close>

datatype memError =
    RecordAlreadyExists key
  | RecordNotFound key
  | MarshalFailed
  | UnmarshalFailed
  | SchemaMismatch string
  | UnknownField string string
  | DeclaredColumnMismatch string string
  | SegmentNotMap string string
  | NilMapPanic
  | UncomparablePanic
  | ColumnarRequiresType string
  | ColumnarRequiresDeclared string
  | CollectionUndefined string
  | ReadAfterWriteInTransaction

subsection \<open>Field updates (\<open>engine.go\<close>)\<close>

datatype updateValue = DeleteField | SetField "value"

record fieldUpdate =
  updFieldName :: string
  updFieldPath :: "string list"
  updValue :: updateValue

text \<open>
  \<open>applyPathUpdate\<close> on a map that may be nil (\<^const>\<open>None\<close>): writing to a nil map panics,
  deleting from one does nothing. The caller never passes an empty path.
\<close>

fun applyPathUpdate :: "fields option \<Rightarrow> string list \<Rightarrow> updateValue \<Rightarrow> memError + fields option" where
  "applyPathUpdate data [] v = Inr data"
| "applyPathUpdate data [leaf] v =
     (case v of
        DeleteField \<Rightarrow> Inr (map_option (delKey leaf) data)
      | SetField x \<Rightarrow> (case data of None \<Rightarrow> Inl NilMapPanic | Some m \<Rightarrow> Inr (Some (putKey leaf x m))))"
| "applyPathUpdate data (seg # seg' # path) v =
     (case data of
        None \<Rightarrow> Inl NilMapPanic
      | Some m \<Rightarrow>
          let child = (case map_of m seg of
                 None \<Rightarrow> Inr []
               | Some VNil \<Rightarrow> Inr []
               | Some (VMap m') \<Rightarrow> Inr m'
               | Some x \<Rightarrow> Inl (SegmentNotMap seg (typeText x)))
          in bindE child (\<lambda>c.
             bindE (applyPathUpdate (Some c) (seg' # path) v) (\<lambda>c'.
             Inr (Some (putKey seg (VMap (the c')) m)))))"

definition updatePath :: "fieldUpdate \<Rightarrow> string list" where
  "updatePath upd =
     (if updFieldPath upd \<noteq> [] then updFieldPath upd
      else if updFieldName upd \<noteq> [] then [updFieldName upd]
      else [])"

fun applyUpdatesToMap :: "fields option \<Rightarrow> fieldUpdate list \<Rightarrow> memError + fields option" where
  "applyUpdatesToMap data [] = Inr data"
| "applyUpdatesToMap data (upd # updates) =
     (if updatePath upd = [] then applyUpdatesToMap data updates
      else bindE (applyPathUpdate data (updatePath upd) (updValue upd))
             (\<lambda>data'. applyUpdatesToMap data' updates))"

subsection \<open>Record types and data\<close>

text \<open>
  What \<open>reflect\<close> says of a type, as far as the adapter asks: a struct's fields with their export
  status, their names, their \<open>json\<close> tags and types.
\<close>

datatype goType =
    TBasic string
  | TSlice
  | TMapStringAny
  | TMap
  | TPointer goType
  | TInterface
  | TChan
  | TFunc
  | TUnsafePointer
  | TArray goType
  | TStruct "(bool \<times> string \<times> string option \<times> goType) list"

record 'd goFactory =
  newData :: 'd
  strictDecode :: "json \<Rightarrow> bool"
  factoryType :: "goType option"

record 'd dataEnv =
  valEnv :: valueEnv
  marshalData :: "'d \<Rightarrow> json option"
  unmarshalInto :: "json \<Rightarrow> 'd \<Rightarrow> 'd option"

record 'd memRecord =
  recKey :: key
  recData :: 'd

record 'd engineRow =
  rowId :: string
  rowData :: fields
  rowMaterialize :: "'d \<Rightarrow> 'd option"
  rowKey :: "key option"

definition checkUnknownFields :: "string \<Rightarrow> 'd goFactory option \<Rightarrow> json \<Rightarrow> memError option" where
  "checkUnknownFields collection factory marshaled =
     (case factory of
        None \<Rightarrow> None
      | Some f \<Rightarrow> if strictDecode f marshaled then None else Some (SchemaMismatch collection))"

subsection \<open>The serialized engine (\<open>serialized.go\<close>)\<close>

record 'd serializedEngine =
  seCollection :: string
  seFactory :: "'d goFactory option"
  seRecords :: "(string, json) gomap"
  seKeys :: "(string, key) gomap"

definition newSerializedEngine :: "string \<Rightarrow> 'd goFactory option \<Rightarrow> 'd serializedEngine" where
  "newSerializedEngine collection factory =
     \<lparr>seCollection = collection, seFactory = factory, seRecords = [], seKeys = []\<rparr>"

definition serializedExists :: "'d serializedEngine \<Rightarrow> string \<Rightarrow> bool" where
  "serializedExists e rid = hasKey (seRecords e) rid"

definition serializedStore ::
  "'d dataEnv \<Rightarrow> 'd serializedEngine \<Rightarrow> string \<Rightarrow> 'd memRecord \<Rightarrow> bool \<Rightarrow> memError + 'd serializedEngine" where
  "serializedStore env e rid r overwrite =
     (if \<not> overwrite \<and> hasKey (seRecords e) rid then Inl (RecordAlreadyExists (recKey r))
      else
        case marshalData env (recData r) of
          None \<Rightarrow> Inl MarshalFailed
        | Some b \<Rightarrow>
            (case checkUnknownFields (seCollection e) (seFactory e) b of
               Some err \<Rightarrow> Inl err
             | None \<Rightarrow>
                 Inr (e\<lparr>seRecords := putKey rid b (seRecords e), seKeys := putKey rid (recKey r) (seKeys e)\<rparr>)))"

definition serializedLoad ::
  "'d dataEnv \<Rightarrow> 'd serializedEngine \<Rightarrow> string \<Rightarrow> 'd memRecord \<Rightarrow> memError + 'd" where
  "serializedLoad env e rid r =
     (case map_of (seRecords e) rid of
        None \<Rightarrow> Inl (RecordNotFound (recKey r))
      | Some b \<Rightarrow>
          (case unmarshalInto env b (recData r) of None \<Rightarrow> Inl UnmarshalFailed | Some d \<Rightarrow> Inr d))"

definition serializedDelete :: "'d serializedEngine \<Rightarrow> string \<Rightarrow> 'd serializedEngine" where
  "serializedDelete e rid =
     e\<lparr>seRecords := delKey rid (seRecords e), seKeys := delKey rid (seKeys e)\<rparr>"

definition marshalMap :: "valueEnv \<Rightarrow> fields option \<Rightarrow> json option" where
  "marshalMap env m = (case m of None \<Rightarrow> Some JNull | Some fs \<Rightarrow> marshal env (VMap fs))"

text \<open>The document an update makes of the stored one.\<close>

definition updateDocument ::
  "'d dataEnv \<Rightarrow> string \<Rightarrow> 'd goFactory option \<Rightarrow> fieldUpdate list \<Rightarrow> json \<Rightarrow> memError + json" where
  "updateDocument env collection factory updates b =
     (case decodeMap b of
        None \<Rightarrow> Inl UnmarshalFailed
      | Some data \<Rightarrow>
          bindE (applyUpdatesToMap data updates) (\<lambda>data'.
            case marshalMap (valEnv env) data' of
              None \<Rightarrow> Inl MarshalFailed
            | Some next_b \<Rightarrow>
                (case checkUnknownFields collection factory next_b of
                   Some err \<Rightarrow> Inl err
                 | None \<Rightarrow> Inr next_b)))"

definition serializedUpdate ::
  "'d dataEnv \<Rightarrow> 'd serializedEngine \<Rightarrow> string \<Rightarrow> fieldUpdate list \<Rightarrow> memError + 'd serializedEngine" where
  "serializedUpdate env e rid updates =
     (case map_of (seRecords e) rid of
        None \<Rightarrow> Inl (RecordNotFound (Key (seCollection e) (goStr rid) None))
      | Some b \<Rightarrow>
          bindE (updateDocument env (seCollection e) (seFactory e) updates b)
            (\<lambda>next_b. Inr (e\<lparr>seRecords := putKey rid next_b (seRecords e)\<rparr>)))"

text \<open>\<open>order\<close> is the order in which the loop over the map visits the identifiers.\<close>

fun serializedRowsLoop ::
  "'d dataEnv \<Rightarrow> 'd serializedEngine \<Rightarrow> string list \<Rightarrow> memError + 'd engineRow list" where
  "serializedRowsLoop env e [] = Inr []"
| "serializedRowsLoop env e (rid # rids) =
     (let b = the (map_of (seRecords e) rid)
      in case decodeMap b of
           None \<Rightarrow> Inl UnmarshalFailed
         | Some data \<Rightarrow>
             bindE (serializedRowsLoop env e rids) (\<lambda>rows.
               Inr (\<lparr>rowId = rid, rowData = (case data of None \<Rightarrow> [] | Some m \<Rightarrow> m),
                     rowMaterialize = unmarshalInto env b, rowKey = map_of (seKeys e) rid\<rparr> # rows)))"

definition serializedRows ::
  "(string list \<Rightarrow> string list) \<Rightarrow> 'd dataEnv \<Rightarrow> 'd serializedEngine \<Rightarrow> memError + 'd engineRow list" where
  "serializedRows order env e = serializedRowsLoop env e (order (keysOf (seRecords e)))"

subsection \<open>Operations of an engine as data\<close>

datatype 'd engineOp =
    OpExists string
  | OpStore string "'d memRecord" bool
  | OpLoad string "'d memRecord"
  | OpDelete string
  | OpUpdate string "fieldUpdate list"

datatype 'd engineResult =
    RBool bool
  | RData 'd
  | RDone
  | RError memError

record ('e, 'd) engineOps =
  eExists :: "'e \<Rightarrow> string \<Rightarrow> bool"
  eStore :: "'e \<Rightarrow> string \<Rightarrow> 'd memRecord \<Rightarrow> bool \<Rightarrow> memError + 'e"
  eLoad :: "'e \<Rightarrow> string \<Rightarrow> 'd memRecord \<Rightarrow> memError + 'd"
  eDelete :: "'e \<Rightarrow> string \<Rightarrow> 'e"
  eUpdate :: "'e \<Rightarrow> string \<Rightarrow> fieldUpdate list \<Rightarrow> memError + 'e"

definition settle :: "'e \<Rightarrow> memError + 'e \<Rightarrow> 'e \<times> 'd engineResult" where
  "settle e r = (case r of Inl err \<Rightarrow> (e, RError err) | Inr e' \<Rightarrow> (e', RDone))"

fun engineStep :: "('e, 'd) engineOps \<Rightarrow> 'e \<Rightarrow> 'd engineOp \<Rightarrow> 'e \<times> 'd engineResult" where
  "engineStep E e (OpExists rid) = (e, RBool (eExists E e rid))"
| "engineStep E e (OpStore rid r ow) = settle e (eStore E e rid r ow)"
| "engineStep E e (OpLoad rid r) =
     (e, (case eLoad E e rid r of Inl err \<Rightarrow> RError err | Inr d \<Rightarrow> RData d))"
| "engineStep E e (OpDelete rid) = (eDelete E e rid, RDone)"
| "engineStep E e (OpUpdate rid us) = settle e (eUpdate E e rid us)"

fun runEngine :: "('e \<Rightarrow> 'o \<Rightarrow> 'e \<times> 'r) \<Rightarrow> 'e \<Rightarrow> 'o list \<Rightarrow> 'e \<times> 'r list" where
  "runEngine step e [] = (e, [])"
| "runEngine step e (op # ops) =
     (let (e', r) = step e op; (e'', rs) = runEngine step e' ops in (e'', r # rs))"

text \<open>
  The abstract machine: a map from identifiers to the key and the content of the record. What a
  content is, how data becomes one, how it is read and updated, is the representation's.
\<close>

record ('c, 'd) contentOps =
  cEncode :: "'d \<Rightarrow> memError + 'c"
  cDecode :: "'c \<Rightarrow> 'd \<Rightarrow> memError + 'd"
  cAmend :: "fieldUpdate list \<Rightarrow> 'c \<Rightarrow> memError + 'c"

type_synonym 'c store_map = "string \<Rightarrow> (key \<times> 'c) option"

fun mapStep ::
  "string \<Rightarrow> ('c, 'd) contentOps \<Rightarrow> 'c store_map \<Rightarrow> 'd engineOp \<Rightarrow> 'c store_map \<times> 'd engineResult" where
  "mapStep coll C m (OpExists rid) = (m, RBool (m rid \<noteq> None))"
| "mapStep coll C m (OpStore rid r ow) =
     (if \<not> ow \<and> m rid \<noteq> None then (m, RError (RecordAlreadyExists (recKey r)))
      else case cEncode C (recData r) of
             Inl err \<Rightarrow> (m, RError err)
           | Inr c \<Rightarrow> (m(rid \<mapsto> (recKey r, c)), RDone))"
| "mapStep coll C m (OpLoad rid r) =
     (m, case m rid of
           None \<Rightarrow> RError (RecordNotFound (recKey r))
         | Some (k, c) \<Rightarrow>
             (case cDecode C c (recData r) of Inl err \<Rightarrow> RError err | Inr d \<Rightarrow> RData d))"
| "mapStep coll C m (OpDelete rid) = (m(rid := None), RDone)"
| "mapStep coll C m (OpUpdate rid us) =
     (case m rid of
        None \<Rightarrow> (m, RError (RecordNotFound (Key coll (goStr rid) None)))
      | Some (k, c) \<Rightarrow>
          (case cAmend C us c of
             Inl err \<Rightarrow> (m, RError err)
           | Inr c' \<Rightarrow> (m(rid \<mapsto> (k, c')), RDone)))"

section \<open>The contract of a storage engine\<close>

text \<open>
  \<open>inv\<close> is the engine's own invariant, \<open>content\<close> the map it stands for, \<open>config\<close> what no
  operation changes. The laws are those of \<open>storageEngine\<close>: a store that may not overwrite fails
  on a taken identifier, a failed operation changes nothing, every other one changes the one entry
  it names.
\<close>

locale storage_engine =
  fixes E :: "('e, 'd) engineOps"
    and C :: "'k \<Rightarrow> ('c, 'd) contentOps"
    and coll :: "'k \<Rightarrow> string"
    and inv :: "'e \<Rightarrow> bool"
    and content :: "'e \<Rightarrow> 'c store_map"
    and config :: "'e \<Rightarrow> 'k"
  assumes exists_law: "inv e \<Longrightarrow> eExists E e rid \<longleftrightarrow> content e rid \<noteq> None"
    and store_err: "inv e \<Longrightarrow> eStore E e rid r ow = Inl err \<longleftrightarrow>
      (if \<not> ow \<and> content e rid \<noteq> None then err = RecordAlreadyExists (recKey r)
       else cEncode (C (config e)) (recData r) = Inl err)"
    and store_ok: "inv e \<Longrightarrow> eStore E e rid r ow = Inr e' \<Longrightarrow>
      inv e' \<and> config e' = config e \<and>
      (\<exists>c. cEncode (C (config e)) (recData r) = Inr c \<and> content e' = (content e)(rid \<mapsto> (recKey r, c)))"
    and load_law: "inv e \<Longrightarrow> eLoad E e rid r =
      (case content e rid of
         None \<Rightarrow> Inl (RecordNotFound (recKey r))
       | Some (k, c) \<Rightarrow> cDecode (C (config e)) c (recData r))"
    and delete_law: "inv e \<Longrightarrow>
      inv (eDelete E e rid) \<and> config (eDelete E e rid) = config e \<and>
      content (eDelete E e rid) = (content e)(rid := None)"
    and update_err: "inv e \<Longrightarrow> eUpdate E e rid us = Inl err \<longleftrightarrow>
      (case content e rid of
         None \<Rightarrow> err = RecordNotFound (Key (coll (config e)) (goStr rid) None)
       | Some (k, c) \<Rightarrow> cAmend (C (config e)) us c = Inl err)"
    and update_ok: "inv e \<Longrightarrow> eUpdate E e rid us = Inr e' \<Longrightarrow>
      inv e' \<and> config e' = config e \<and>
      (\<exists>k c c'. content e rid = Some (k, c) \<and> cAmend (C (config e)) us c = Inr c' \<and>
         content e' = (content e)(rid \<mapsto> (k, c')))"
begin

lemma step_simulation:
  assumes "inv e" and "engineStep E e op = (e', res)"
  shows "inv e' \<and> config e' = config e \<and>
    mapStep (coll (config e)) (C (config e)) (content e) op = (content e', res)"
proof (cases op)
  case (OpExists rid)
  then show ?thesis using assms exists_law by auto
next
  case (OpStore rid r ow)
  show ?thesis
  proof (cases "eStore E e rid r ow")
    case (Inl err)
    then show ?thesis
      using assms OpStore store_err [OF assms(1), of rid r ow err] by (auto simp: settle_def split: if_splits)
  next
    case (Inr e1)
    have "\<not> (\<not> ow \<and> content e rid \<noteq> None)"
      using store_err [OF assms(1), of rid r ow "RecordAlreadyExists (recKey r)"] Inr by auto
    then show ?thesis
      using assms OpStore store_ok [OF assms(1) Inr] Inr by (auto simp: settle_def)
  qed
next
  case (OpLoad rid r)
  then show ?thesis
    using assms load_law [OF assms(1), of rid r] by (auto split: option.split)
next
  case (OpDelete rid)
  then show ?thesis using assms delete_law by auto
next
  case (OpUpdate rid us)
  show ?thesis
  proof (cases "eUpdate E e rid us")
    case (Inl err)
    then show ?thesis
      using assms OpUpdate update_err [OF assms(1), of rid us err]
      by (auto simp: settle_def split: option.splits)
  next
    case (Inr e1)
    then show ?thesis
      using assms OpUpdate update_ok [OF assms(1) Inr] by (auto simp: settle_def)
  qed
qed

text \<open>A whole history of calls answers as the abstract map does.\<close>

lemma trace_simulation:
  "inv e \<Longrightarrow> runEngine (engineStep E) e ops = (e', rs) \<Longrightarrow>
   inv e' \<and> config e' = config e \<and>
   runEngine (mapStep (coll (config e)) (C (config e))) (content e) ops = (content e', rs)"
proof (induction ops arbitrary: e rs)
  case (Cons op ops)
  obtain e1 r where step: "engineStep E e op = (e1, r)" by (cases "engineStep E e op")
  obtain e2 rs' where rest: "runEngine (engineStep E) e1 ops = (e2, rs')"
    by (cases "runEngine (engineStep E) e1 ops")
  have eq: "e2 = e'" "rs = r # rs'" using Cons.prems step rest by auto
  have s: "inv e1 \<and> config e1 = config e \<and>
      mapStep (coll (config e)) (C (config e)) (content e) op = (content e1, r)"
    using step_simulation [OF Cons.prems(1) step] .
  then show ?case using Cons.IH [of e1 rs'] rest eq by auto
qed simp

lemma stored_is_loaded:
  assumes "inv e" and "eStore E e rid r ow = Inr e'"
  shows "eExists E e' rid \<and>
    eLoad E e' rid r' = bindE (cEncode (C (config e)) (recData r)) (\<lambda>c. cDecode (C (config e)) c (recData r'))"
  using store_ok [OF assms] exists_law load_law by auto

lemma other_untouched:
  assumes "inv e" and "engineStep E e op = (e', res)"
    and "op \<in> {OpStore rid r ow, OpDelete rid, OpUpdate rid us}" and "other \<noteq> rid"
  shows "eLoad E e' other r' = eLoad E e other r'"
proof -
  have sim: "inv e'" "config e' = config e"
    "mapStep (coll (config e)) (C (config e)) (content e) op = (content e', res)"
    using step_simulation [OF assms(1,2)] by auto
  have "content e' other = content e other"
    using sim(3) assms(3,4)
    by (auto split: if_splits sum.splits option.splits dest!: fun_cong [where x = other])
  then show ?thesis using sim assms(1) by (simp add: load_law cong: option.case_cong)
qed

end

section \<open>The serialized engine meets the contract\<close>

definition serializedOps :: "'d dataEnv \<Rightarrow> ('d serializedEngine, 'd) engineOps" where
  "serializedOps env =
     \<lparr>eExists = serializedExists, eStore = serializedStore env, eLoad = serializedLoad env,
      eDelete = serializedDelete, eUpdate = serializedUpdate env\<rparr>"

definition serializedInv :: "'d serializedEngine \<Rightarrow> bool" where
  "serializedInv e =
     (gomapOk (seRecords e) \<and> gomapOk (seKeys e) \<and> keysOf (seRecords e) = keysOf (seKeys e))"

definition serializedContent :: "'d serializedEngine \<Rightarrow> json store_map" where
  "serializedContent e rid =
     (case map_of (seRecords e) rid of
        None \<Rightarrow> None
      | Some b \<Rightarrow> map_option (\<lambda>k. (k, b)) (map_of (seKeys e) rid))"

definition serializedConfig :: "'d serializedEngine \<Rightarrow> string \<times> 'd goFactory option" where
  "serializedConfig e = (seCollection e, seFactory e)"

definition documentOps :: "'d dataEnv \<Rightarrow> string \<times> 'd goFactory option \<Rightarrow> (json, 'd) contentOps" where
  "documentOps env cfg =
     \<lparr>cEncode = (\<lambda>d. case marshalData env d of
          None \<Rightarrow> Inl MarshalFailed
        | Some b \<Rightarrow> (case checkUnknownFields (fst cfg) (snd cfg) b of Some err \<Rightarrow> Inl err | None \<Rightarrow> Inr b)),
      cDecode = (\<lambda>b d. case unmarshalInto env b d of None \<Rightarrow> Inl UnmarshalFailed | Some x \<Rightarrow> Inr x),
      cAmend = updateDocument env (fst cfg) (snd cfg)\<rparr>"

lemma keysOf_eq_iff_dom:
  "gomapOk m \<Longrightarrow> gomapOk m' \<Longrightarrow> keysOf m = keysOf m' \<longleftrightarrow> dom (map_of m) = dom (map_of m')"
  using strict_sorted_equal gomapOk_def set_keysOf by metis

lemmas serialized_defs =
  serializedOps_def serializedInv_def serializedContent_def serializedConfig_def documentOps_def
  serializedExists_def serializedStore_def serializedLoad_def serializedDelete_def serializedUpdate_def

lemma serializedInv_dom: "serializedInv e \<Longrightarrow> dom (map_of (seRecords e)) = dom (map_of (seKeys e))"
  by (metis serializedInv_def set_keysOf)

lemma serializedContent_None:
  "serializedInv e \<Longrightarrow> serializedContent e rid = None \<longleftrightarrow> map_of (seRecords e) rid = None"
  using serializedInv_dom [of e] domIff [of rid "map_of (seRecords e)"] domIff [of rid "map_of (seKeys e)"]
  by (auto simp: serializedContent_def split: option.split)

lemma serializedContent_Some:
  "serializedInv e \<Longrightarrow> map_of (seRecords e) rid = Some b \<Longrightarrow>
   \<exists>k. map_of (seKeys e) rid = Some k \<and> serializedContent e rid = Some (k, b)"
  using serializedInv_dom [of e] domIff [of rid "map_of (seRecords e)"] domIff [of rid "map_of (seKeys e)"]
  by (auto simp: serializedContent_def split: option.split)

interpretation serialized: storage_engine
  "serializedOps env" "documentOps env" fst serializedInv serializedContent serializedConfig
  for env :: "'d dataEnv"
proof (unfold_locales, goal_cases)
  case (1 e rid)
  then show ?case by (simp add: serializedOps_def serializedExists_def hasKey_def serializedContent_None)
next
  case (2 e rid r ow err)
  then show ?case
    using serializedContent_None [OF 2, of rid]
    by (auto simp: serializedOps_def serializedStore_def documentOps_def serializedConfig_def hasKey_def
        split: option.splits)
next
  case (3 e rid r ow e')
  then show ?case
    by (auto simp: serializedOps_def serializedStore_def documentOps_def serializedConfig_def
        serializedInv_def keysOf_eq_iff_dom gomapOk_putKey serializedContent_def fun_eq_iff
        split: option.splits if_splits)
next
  case (4 e rid r)
  then show ?case
    using serializedContent_None [OF 4, of rid] serializedContent_Some [OF 4, of rid]
    by (auto simp: serializedOps_def serializedLoad_def documentOps_def split: option.splits)
next
  case (5 e rid)
  then have "serializedInv (serializedDelete e rid)"
    using serializedInv_dom [OF 5]
    by (simp add: serializedDelete_def serializedInv_def keysOf_eq_iff_dom gomapOk_delKey)
  then show ?case
    by (auto simp: serializedOps_def serializedDelete_def serializedConfig_def serializedContent_def
        fun_eq_iff split: option.splits)
next
  case (6 e rid us err)
  then show ?case
    using serializedContent_None [OF 6, of rid] serializedContent_Some [OF 6, of rid]
    by (auto simp: serializedOps_def serializedUpdate_def documentOps_def serializedConfig_def
        bindE_def split: option.splits sum.splits)
next
  case (7 e rid us e')
  then show ?case
    using serializedContent_None [OF 7(1), of rid] serializedContent_Some [OF 7(1), of rid]
    by (auto simp: serializedOps_def serializedUpdate_def documentOps_def serializedConfig_def
        serializedInv_def keysOf_eq_iff_dom gomapOk_putKey serializedContent_def fun_eq_iff
        bindE_def split: option.splits sum.splits)
qed

section \<open>Properties\<close>

text \<open>Every history of calls on a fresh serialized engine, whatever identifiers, records and updates
  it uses, answers exactly as a map from identifiers to documents does, and the engine stands for
  that map afterwards: duplicate inserts, missing records and failing encodings included.\<close>

theorem serialized_engine_is_map:
  "map_prod serializedContent (\<lambda>rs. rs)
     (runEngine (engineStep (serializedOps env)) (newSerializedEngine collection factory) ops) =
   runEngine (mapStep collection (documentOps env (collection, factory))) (\<lambda>_. None) ops"
proof -
  define e where "e = newSerializedEngine collection factory"
  obtain e' rs where run: "runEngine (engineStep (serializedOps env)) e ops = (e', rs)"
    by (cases "runEngine (engineStep (serializedOps env)) e ops")
  have e: "serializedInv e" "serializedConfig e = (collection, factory)" "serializedContent e = (\<lambda>_. None)"
    by (simp_all add: e_def newSerializedEngine_def serializedInv_def serializedConfig_def
        serializedContent_def fun_eq_iff keysOf_def)
  from serialized.trace_simulation [OF e(1) run] e run show ?thesis
    by (simp add: e_def)
qed

subsection \<open>Field updates\<close>

fun lookupPath :: "fields \<Rightarrow> string list \<Rightarrow> value option" where
  "lookupPath m [] = None"
| "lookupPath m [k] = map_of m k"
| "lookupPath m (k # k' # path) =
     (case map_of m k of Some (VMap m') \<Rightarrow> lookupPath m' (k' # path) | _ \<Rightarrow> None)"

definition updateResult :: "updateValue \<Rightarrow> value option" where
  "updateResult v = (case v of DeleteField \<Rightarrow> None | SetField x \<Rightarrow> Some x)"

lemma lookupPath_Nil [simp]: "lookupPath [] path = None"
  by (cases "([] :: fields, path)" rule: lookupPath.cases) auto

lemma applyPathUpdate_Some:
  "applyPathUpdate (Some m) path v = Inr r \<Longrightarrow> \<exists>m'. r = Some m'"
  by (induction "Some m" path v arbitrary: r rule: applyPathUpdate.induct)
    (auto simp: bindE_eq_Inr split: updateValue.splits)

lemma applyPathUpdate_child:
  assumes "applyPathUpdate (Some m) (seg # seg' # path) v = Inr (Some m')"
  obtains c c' where "applyPathUpdate (Some c) (seg' # path) v = Inr (Some c')"
    "m' = putKey seg (VMap c') m"
    "map_of m seg = Some (VMap c) \<or> (c = [] \<and> (map_of m seg = None \<or> map_of m seg = Some VNil))"
proof -
  from assms obtain c r where c: "applyPathUpdate (Some c) (seg' # path) v = Inr r"
    "m' = putKey seg (VMap (the r)) m"
    "map_of m seg = Some (VMap c) \<or> (c = [] \<and> (map_of m seg = None \<or> map_of m seg = Some VNil))"
    by (auto simp: bindE_eq_Inr split: option.splits "value.splits")
  moreover obtain c' where "r = Some c'" using applyPathUpdate_Some [OF c(1)] by blast
  ultimately show thesis using that by simp
qed

lemma applyPathUpdate_at:
  "path \<noteq> [] \<Longrightarrow> applyPathUpdate (Some m) path v = Inr (Some m') \<Longrightarrow>
   lookupPath m' path = updateResult v"
proof (induction path arbitrary: m m' rule: induct_list012)
  case (2 leaf)
  then show ?case by (auto simp: updateResult_def split: updateValue.splits)
next
  case (3 seg seg' path)
  from 3(4) obtain c c' where "applyPathUpdate (Some c) (seg' # path) v = Inr (Some c')"
    "m' = putKey seg (VMap c') m" by (rule applyPathUpdate_child)
  then show ?case using 3(2) by simp
qed simp

lemma applyPathUpdate_other:
  "applyPathUpdate (Some m) path v = Inr (Some m') \<Longrightarrow>
   \<not> prefix path other \<Longrightarrow> \<not> prefix other path \<Longrightarrow> lookupPath m' other = lookupPath m other"
proof (induction path arbitrary: m m' other rule: induct_list012)
  case (2 leaf)
  then show ?case
    by (cases "(m, other)" rule: lookupPath.cases) (auto split: updateValue.splits)
next
  case (3 seg seg' path)
  from 3(3) obtain c c' where c: "applyPathUpdate (Some c) (seg' # path) v = Inr (Some c')"
    "m' = putKey seg (VMap c') m"
    "map_of m seg = Some (VMap c) \<or> (c = [] \<and> (map_of m seg = None \<or> map_of m seg = Some VNil))"
    by (rule applyPathUpdate_child)
  show ?case
  proof (cases "(m, other)" rule: lookupPath.cases)
    case (3 m0 k k' rest)
    show ?thesis
    proof (cases "k = seg")
      case True
      then have "lookupPath c' (k' # rest) = lookupPath c (k' # rest)"
        using "3.IH"(2) [OF c(1), of "k' # rest"] "3.prems"(2,3) 3 by simp
      then show ?thesis using True c 3 by auto
    qed (use c 3 in auto)
  qed (use "3.prems" c in auto)
qed simp

text \<open>Some proper prefix of the path holds a value that is neither a map nor nil.\<close>

definition notMap :: "value option \<Rightarrow> bool" where
  "notMap x = (case x of None \<Rightarrow> False | Some VNil \<Rightarrow> False | Some (VMap m) \<Rightarrow> False | Some _ \<Rightarrow> True)"

definition blocked :: "fields \<Rightarrow> string list \<Rightarrow> bool" where
  "blocked m path = (\<exists>p. (p \<noteq> [] \<and> strict_prefix p path) \<and> notMap (lookupPath m p))"

lemma blocked_single [simp]: "\<not> blocked m [k]" "\<not> blocked m []"
  by (auto simp: blocked_def strict_prefix_def prefix_Cons)

lemma blocked_empty [simp]: "\<not> blocked [] path"
  by (auto simp: blocked_def notMap_def)

lemma strict_prefix_Cons2:
  "p \<noteq> [] \<and> strict_prefix p (k # k' # path) \<longleftrightarrow>
   p = [k] \<or> (\<exists>q. p = k # q \<and> q \<noteq> [] \<and> strict_prefix q (k' # path))"
  by (cases p) (auto simp: strict_prefix_def prefix_Cons)

lemma lookupPath_Cons:
  "q \<noteq> [] \<Longrightarrow> lookupPath m (k # q) = (case map_of m k of Some (VMap m') \<Rightarrow> lookupPath m' q | _ \<Rightarrow> None)"
  by (cases q) auto

lemma blocked_Cons2:
  "blocked m (k # k' # path) \<longleftrightarrow>
     (case map_of m k of
        None \<Rightarrow> False
      | Some VNil \<Rightarrow> False
      | Some (VMap m') \<Rightarrow> blocked m' (k' # path)
      | Some _ \<Rightarrow> True)"
proof -
  have "blocked m (k # k' # path) \<longleftrightarrow>
      notMap (map_of m k) \<or>
      (\<exists>q. (q \<noteq> [] \<and> strict_prefix q (k' # path)) \<and> notMap (lookupPath m (k # q)))"
    (is "_ \<longleftrightarrow> _ \<or> ?deeper")
  proof
    assume "blocked m (k # k' # path)"
    then obtain p where p: "p \<noteq> [] \<and> strict_prefix p (k # k' # path)" "notMap (lookupPath m p)"
      unfolding blocked_def by blast
    from p(1) have "p = [k] \<or> (\<exists>q. p = k # q \<and> q \<noteq> [] \<and> strict_prefix q (k' # path))"
      by (rule strict_prefix_Cons2 [THEN iffD1])
    then show "notMap (map_of m k) \<or> ?deeper"
      using p(2) by (metis lookupPath.simps(2))
  next
    assume "notMap (map_of m k) \<or> ?deeper"
    then show "blocked m (k # k' # path)"
      unfolding blocked_def by (metis lookupPath.simps(2) strict_prefix_Cons2)
  qed
  moreover have "notMap (lookupPath m (k # q)) \<longleftrightarrow>
      (case map_of m k of Some (VMap m') \<Rightarrow> notMap (lookupPath m' q) | _ \<Rightarrow> False)" if "q \<noteq> []" for q
    using that by (auto simp: lookupPath_Cons notMap_def split: option.splits "value.splits")
  ultimately have "blocked m (k # k' # path) \<longleftrightarrow>
      notMap (map_of m k) \<or>
      (\<exists>q. (q \<noteq> [] \<and> strict_prefix q (k' # path)) \<and>
        (case map_of m k of Some (VMap m') \<Rightarrow> notMap (lookupPath m' q) | _ \<Rightarrow> False))"
    by auto
  then show ?thesis
    by (cases "map_of m k"; cases "the (map_of m k)") (simp_all add: blocked_def notMap_def)
qed

lemma applyPathUpdate_isOk: "isOk (applyPathUpdate (Some m) path v) \<longleftrightarrow> \<not> blocked m path"
proof (induction path arbitrary: m rule: induct_list012)
  case (2 leaf)
  then show ?case by (auto split: updateValue.splits)
next
  case (3 seg seg' path)
  have *: "isOk (bindE (applyPathUpdate (Some c) (seg' # path) v) (\<lambda>c'. Inr (f c'))) \<longleftrightarrow>
      \<not> blocked c (seg' # path)" for c and f :: "fields option \<Rightarrow> fields option"
    using "3.IH"(2) [of c] by (cases "applyPathUpdate (Some c) (seg' # path) v") auto
  show ?case
    by (cases "map_of m seg"; cases "the (map_of m seg)") (simp_all add: blocked_Cons2 *)
qed simp

text \<open>C33: A field update succeeds exactly when no proper prefix of its path holds something other than
  a map or nil. Then the path reads back what was set, or nothing after a deletion, and every path
  that neither contains nor extends it reads as before.\<close>

theorem field_update_effect:
  assumes "path \<noteq> []"
  shows "case applyPathUpdate (Some m) path v of
      Inl err \<Rightarrow> blocked m path
    | Inr r \<Rightarrow> \<not> blocked m path \<and>
        (\<exists>m'. r = Some m' \<and> lookupPath m' path = updateResult v \<and>
          (\<forall>other. \<not> prefix path other \<and> \<not> prefix other path \<longrightarrow> lookupPath m' other = lookupPath m other))"
proof (cases "applyPathUpdate (Some m) path v")
  case (Inl err)
  then show ?thesis using applyPathUpdate_isOk [of m path v] by simp
next
  case (Inr r)
  obtain m' where m': "r = Some m'" using applyPathUpdate_Some [OF Inr] by blast
  then show ?thesis
    using Inr applyPathUpdate_at [OF assms] applyPathUpdate_other applyPathUpdate_isOk [of m path v]
    by fastforce
qed

theorem field_update_effect_witness:
  "case applyPathUpdate (Some [(''a'', VMap [(''b'', VString ''string'' ''x'')])]) [''a'', ''c''] (SetField VNil) of
      Inl err \<Rightarrow> False
    | Inr r \<Rightarrow> (\<exists>m'. r = Some m' \<and> lookupPath m' [''a'', ''c''] = Some VNil \<and>
        lookupPath m' [''a'', ''b''] = Some (VString ''string'' ''x''))"
  using field_update_effect [of "[''a'', ''c'']" "[(''a'', VMap [(''b'', VString ''string'' ''x'')])]" "SetField VNil"]
  by (auto simp: updateResult_def)

end
