(* ===== verification/MemoryColumnar.thy ===== *)
theory MemoryColumnar
  imports MemoryEngine
begin

text \<open>
  The columnar engine of the in-memory adapter (\<open>src/adapters/dalgo2memory/columnar.go\<close>): one slice
  per column over slots shared by all columns, tombstones for deleted rows, a free list, and
  compaction. The theory shows that the slots implement the same contract as the serialized engine.

  A cell of a column is of a type \<open>'c\<close> of which the model knows what \<open>reflect\<close> and
  \<open>encoding/json\<close> do with it, \<open>elemOps\<close>: the zero value, decoding and encoding, and equality. A
  column strategy that is not the built-in one is code of the caller; it is represented by the calls
  it has received. Values have no identity here, so whether a cell shares memory with the caller's
  data, which the option \<open>refBreak\<close> controls, shows only in where the cell's value comes from.
\<close>

section \<open>Definitions\<close>

subsection \<open>Columns and types\<close>

record 'c elemType =
  etZero :: 'c
  etDecode :: "value \<Rightarrow> 'c option"
  etEncode :: "'c \<Rightarrow> json option"
  etComparable :: bool
  etEquals :: "'c \<Rightarrow> value \<Rightarrow> bool"

record ('d, 'c) columnEnv =
  baseEnv :: "'d dataEnv"
  elemOps :: "goType \<Rightarrow> 'c elemType"
  ofAny :: "value \<Rightarrow> 'c"
  liveField :: "'d \<Rightarrow> string \<Rightarrow> 'c option"

text \<open>
  The strategy of a column: the built-in one reading the column itself, the built-in one reading a
  column object that is not part of the engine (see \<open>addDeclared\<close>), or one of the caller's with
  the calls made to it.
\<close>

datatype 'c strategyCall = SetValue nat 'c | ClearValue nat

datatype 'c strategy = TypedSlice | DetachedSlice | External "'c strategyCall list"

record columnDesc =
  cdName :: string
  cdGoField :: string
  cdElemType :: goType
  cdRefBearing :: bool

record 'c column =
  colDesc :: columnDesc
  colValues :: "'c list"
  colStrategy :: "'c strategy"

record ('d, 'c) columnarEngine =
  ceCollection :: string
  ceFactory :: "'d goFactory option"
  ceColumns :: "'c column list"
  ceIdToSlot :: "(string, nat) gomap"
  ceSlotToID :: "string list"
  ceSlotToKey :: "key option list"
  ceLive :: "bool list"
  ceFreeList :: "nat list"
  ceDeadCount :: int
  ceRefBreak :: bool
  ceMapBacked :: bool
  ceLeftover :: "fields option list"
  ceInitErr :: "memError option"

record columnarConfig =
  cfgStrategies :: "string list"
  cfgRefBreakOver :: "bool option"
  cfgDeclared :: "(string \<times> goType) list"

fun derefType :: "goType \<Rightarrow> goType" where
  "derefType (TPointer t) = derefType t"
| "derefType t = t"

definition isMapBackedFactory :: "'d goFactory option \<Rightarrow> bool" where
  "isMapBackedFactory factory =
     (case factory of
        None \<Rightarrow> False
      | Some f \<Rightarrow> (case factoryType f of None \<Rightarrow> False | Some t \<Rightarrow> derefType t = TMapStringAny))"

definition structTypeOf ::
  "'d goFactory option \<Rightarrow> (bool \<times> string \<times> string option \<times> goType) list option" where
  "structTypeOf factory =
     (case factory of
        None \<Rightarrow> None
      | Some f \<Rightarrow>
          (case factoryType f of
             None \<Rightarrow> None
           | Some t \<Rightarrow> (case derefType t of TStruct fs \<Rightarrow> Some fs | _ \<Rightarrow> None)))"

definition jsonFieldName :: "bool \<Rightarrow> string \<Rightarrow> string option \<Rightarrow> string option" where
  "jsonFieldName exported name tag =
     (if \<not> exported then None
      else
        case tag of
          None \<Rightarrow> Some name
        | Some t \<Rightarrow>
            let tagName = takeWhile (\<lambda>c. c \<noteq> CHR '','') t
            in if tagName = ''-'' then None else if tagName = [] then Some name else Some tagName)"

fun isRefBearing :: "goType \<Rightarrow> bool" where
  "isRefBearing (TArray t) = isRefBearing t"
| "isRefBearing (TStruct fs) =
     list_ex (\<lambda>(exported, name, tag, t). exported \<and> isRefBearing t) fs"
| "isRefBearing (TBasic n) = False"
| "isRefBearing _ = True"

definition newColumn :: "columnarConfig \<Rightarrow> string \<Rightarrow> string \<Rightarrow> goType \<Rightarrow> 'c column" where
  "newColumn cfg name goField t =
     \<lparr>colDesc = \<lparr>cdName = name, cdGoField = goField, cdElemType = t, cdRefBearing = isRefBearing t\<rparr>,
      colValues = [],
      colStrategy = (if name \<in> set (cfgStrategies cfg) then External [] else TypedSlice)\<rparr>"

definition buildColumns ::
  "columnarConfig \<Rightarrow> (bool \<times> string \<times> string option \<times> goType) list \<Rightarrow> 'c column list" where
  "buildColumns cfg fs =
     concat (map (\<lambda>(exported, goField, tag, t).
       case jsonFieldName exported goField tag of
         None \<Rightarrow> []
       | Some name \<Rightarrow> [newColumn cfg name goField t]) fs)"

text \<open>
  One declared column. A name declared before is replaced in place, \<open>*existing = *col\<close>; the
  built-in strategy that comes with it was made for the new column object, which is dropped.
\<close>

definition addDeclared :: "columnarConfig \<Rightarrow> 'c column list \<Rightarrow> string \<times> goType \<Rightarrow> 'c column list" where
  "addDeclared cfg columns dc =
     (let col = newColumn cfg (fst dc) [] (snd dc);
          moved = col\<lparr>colStrategy := (if colStrategy col = TypedSlice then DetachedSlice else colStrategy col)\<rparr>
      in if fst dc \<in> set (map (cdName \<circ> colDesc) columns)
         then map (\<lambda>c. if cdName (colDesc c) = fst dc then moved else c) columns
         else columns @ [col])"

definition buildDeclaredColumns :: "columnarConfig \<Rightarrow> 'c column list" where
  "buildDeclaredColumns cfg = foldl (addDeclared cfg) [] (cfgDeclared cfg)"

definition emptyColumnar ::
  "string \<Rightarrow> 'd goFactory option \<Rightarrow> bool \<Rightarrow> bool \<Rightarrow> 'c column list \<Rightarrow> memError option \<Rightarrow>
   ('d, 'c) columnarEngine" where
  "emptyColumnar collection factory refBreak mapBacked columns initErr =
     \<lparr>ceCollection = collection, ceFactory = factory, ceColumns = columns, ceIdToSlot = [],
      ceSlotToID = [], ceSlotToKey = [], ceLive = [], ceFreeList = [], ceDeadCount = 0,
      ceRefBreak = refBreak, ceMapBacked = mapBacked, ceLeftover = [], ceInitErr = initErr\<rparr>"

definition newMapBackedEngine ::
  "string \<Rightarrow> 'd goFactory option \<Rightarrow> bool \<Rightarrow> columnarConfig \<Rightarrow> ('d, 'c) columnarEngine" where
  "newMapBackedEngine collection factory refBreak cfg =
     (if cfgDeclared cfg = []
      then emptyColumnar collection factory False False [] (Some (ColumnarRequiresDeclared collection))
      else emptyColumnar collection factory refBreak True (buildDeclaredColumns cfg) None)"

definition newColumnarEngine ::
  "columnarConfig \<Rightarrow> string \<Rightarrow> 'd goFactory option \<Rightarrow> bool \<Rightarrow> ('d, 'c) columnarEngine" where
  "newColumnarEngine cfg collection factory schemaRefBreaking =
     (let refBreak = (case cfgRefBreakOver cfg of None \<Rightarrow> schemaRefBreaking | Some b \<Rightarrow> b)
      in case structTypeOf factory of
           None \<Rightarrow>
             if isMapBackedFactory factory then newMapBackedEngine collection factory refBreak cfg
             else emptyColumnar collection factory False False [] (Some (ColumnarRequiresType collection))
         | Some fs \<Rightarrow> emptyColumnar collection factory refBreak False (buildColumns cfg fs) None)"

subsection \<open>Encoding and decoding of rows\<close>

text \<open>What the encoding of a row depends on: nothing an operation changes.\<close>

record columnarShape =
  shCollection :: string
  shRefBreak :: bool
  shMapBacked :: bool
  shColumns :: "columnDesc list"

definition shapeOf :: "('d, 'c) columnarEngine \<Rightarrow> columnarShape" where
  "shapeOf e =
     \<lparr>shCollection = ceCollection e, shRefBreak = ceRefBreak e, shMapBacked = ceMapBacked e,
      shColumns = map colDesc (ceColumns e)\<rparr>"

definition columnNames :: "columnarShape \<Rightarrow> string list" where
  "columnNames sh = map cdName (shColumns sh)"

datatype 'd goData = OfRecord 'd | OfMap fields

definition marshalGo :: "('d, 'c) columnEnv \<Rightarrow> 'd goData \<Rightarrow> json option" where
  "marshalGo env data =
     (case data of
        OfRecord d \<Rightarrow> marshalData (baseEnv env) d
      | OfMap m \<Rightarrow> marshal (valEnv (baseEnv env)) (VMap m))"

definition structField :: "('d, 'c) columnEnv \<Rightarrow> 'd goData \<Rightarrow> string \<Rightarrow> 'c option" where
  "structField env data f = (case data of OfRecord d \<Rightarrow> liveField env d f | OfMap m \<Rightarrow> None)"

definition assignInto :: "('d, 'c) columnEnv \<Rightarrow> columnDesc \<Rightarrow> value \<Rightarrow> 'c option" where
  "assignInto env col raw =
     (if cdElemType col = TInterface
      then Some (if raw = VNil then etZero (elemOps env TInterface) else ofAny env raw)
      else etDecode (elemOps env (cdElemType col)) raw)"

definition decodeAsMap :: "('d, 'c) columnEnv \<Rightarrow> 'd goData \<Rightarrow> memError + fields" where
  "decodeAsMap env data =
     (case marshalGo env data of
        None \<Rightarrow> Inl MarshalFailed
      | Some b \<Rightarrow>
          (case decodeMap b of
             None \<Rightarrow> Inl UnmarshalFailed
           | Some None \<Rightarrow> Inr []
           | Some (Some m) \<Rightarrow> Inr m))"

definition decodeCell ::
  "('d, 'c) columnEnv \<Rightarrow> memError \<Rightarrow> fields \<Rightarrow> columnDesc \<Rightarrow> memError + 'c" where
  "decodeCell env mismatch asMap col =
     (case map_of asMap (cdName col) of
        None \<Rightarrow> Inr (etZero (elemOps env (cdElemType col)))
      | Some raw \<Rightarrow> (case assignInto env col raw of None \<Rightarrow> Inl mismatch | Some c \<Rightarrow> Inr c))"

fun mapCells :: "('a \<Rightarrow> 'e + 'c) \<Rightarrow> 'a list \<Rightarrow> 'e + 'c list" where
  "mapCells f [] = Inr []"
| "mapCells f (x # xs) = bindE (f x) (\<lambda>c. bindE (mapCells f xs) (\<lambda>cs. Inr (c # cs)))"

definition decodeMapFields ::
  "('d, 'c) columnEnv \<Rightarrow> columnarShape \<Rightarrow> 'd goData \<Rightarrow> memError + 'c list \<times> fields option" where
  "decodeMapFields env sh data =
     bindE (decodeAsMap env data) (\<lambda>asMap.
     bindE (mapCells (\<lambda>col. decodeCell env (DeclaredColumnMismatch (cdName col) (shCollection sh)) asMap col)
              (shColumns sh)) (\<lambda>values.
     let leftover = filter (\<lambda>(k, v). k \<notin> set (columnNames sh)) asMap
     in Inr (values, if leftover = [] then None else Some leftover)))"

text \<open>
  Of several unknown fields the loop over the map reports the one it meets first; the model reports
  the least.
\<close>

definition decodeFields ::
  "('d, 'c) columnEnv \<Rightarrow> columnarShape \<Rightarrow> 'd goData \<Rightarrow> memError + 'c list" where
  "decodeFields env sh data =
     bindE (decodeAsMap env data) (\<lambda>asMap.
       case filter (\<lambda>k. k \<notin> set (columnNames sh)) (keysOf asMap) of
         k # _ \<Rightarrow> Inl (UnknownField (shCollection sh) k)
       | [] \<Rightarrow>
           mapCells (\<lambda>col.
             if \<not> shRefBreak sh \<and> cdRefBearing col \<and> structField env data (cdGoField col) \<noteq> None
             then Inr (the (structField env data (cdGoField col)))
             else decodeCell env UnmarshalFailed asMap col) (shColumns sh))"

definition prepareWrite ::
  "('d, 'c) columnEnv \<Rightarrow> columnarShape \<Rightarrow> 'd goData \<Rightarrow> memError + 'c list \<times> fields option" where
  "prepareWrite env sh data =
     (if shMapBacked sh then decodeMapFields env sh data
      else bindE (decodeFields env sh data) (\<lambda>values. Inr (values, None)))"

text \<open>The JSON object of a row: the undeclared fields, then the columns.\<close>

definition rowDocument ::
  "('d, 'c) columnEnv \<Rightarrow> columnarShape \<Rightarrow> 'c list \<times> fields option \<Rightarrow> json option" where
  "rowDocument env sh row =
     (let leftover = (case snd row of None \<Rightarrow> [] | Some m \<Rightarrow> m);
          obj = copyInto (copyInto [] (map (\<lambda>(k, v). (k, marshal (valEnv (baseEnv env)) v)) leftover))
                  (map (\<lambda>(col, c). (cdName col, etEncode (elemOps env (cdElemType col)) c))
                     (zip (shColumns sh) (fst row)))
      in map_option JObj (those (map (\<lambda>(k, j). map_option (Pair k) j) obj)))"

definition rowFields ::
  "('d, 'c) columnEnv \<Rightarrow> columnarShape \<Rightarrow> 'c list \<times> fields option \<Rightarrow> memError + fields" where
  "rowFields env sh row =
     (case rowDocument env sh row of
        None \<Rightarrow> Inl MarshalFailed
      | Some b \<Rightarrow> (case decodeMap b of Some (Some m) \<Rightarrow> Inr m | _ \<Rightarrow> Inr []))"

definition leftoverAt :: "('d, 'c) columnarEngine \<Rightarrow> nat \<Rightarrow> fields option" where
  "leftoverAt e slot = (if ceMapBacked e then ceLeftover e ! slot else None)"

definition slotRow :: "('d, 'c) columnarEngine \<Rightarrow> nat \<Rightarrow> 'c list \<times> fields option" where
  "slotRow e slot = (map (\<lambda>col. colValues col ! slot) (ceColumns e), leftoverAt e slot)"

definition rowData_columnar ::
  "('d, 'c) columnEnv \<Rightarrow> ('d, 'c) columnarEngine \<Rightarrow> nat \<Rightarrow> memError + fields" where
  "rowData_columnar env e slot = rowFields env (shapeOf e) (slotRow e slot)"

definition materializeRow ::
  "('d, 'c) columnEnv \<Rightarrow> columnarShape \<Rightarrow> 'c list \<times> fields option \<Rightarrow> 'd \<Rightarrow> memError + 'd" where
  "materializeRow env sh row target =
     (case rowDocument env sh row of
        None \<Rightarrow> Inl MarshalFailed
      | Some b \<Rightarrow>
          (case unmarshalInto (baseEnv env) b target of None \<Rightarrow> Inl UnmarshalFailed | Some d \<Rightarrow> Inr d))"

definition materializeSlot ::
  "('d, 'c) columnEnv \<Rightarrow> ('d, 'c) columnarEngine \<Rightarrow> nat \<Rightarrow> 'd \<Rightarrow> memError + 'd" where
  "materializeSlot env e slot target = materializeRow env (shapeOf e) (slotRow e slot) target"

subsection \<open>Slots\<close>

definition liveSlotOf :: "('d, 'c) columnarEngine \<Rightarrow> string \<Rightarrow> nat option" where
  "liveSlotOf e rid =
     (case map_of (ceIdToSlot e) rid of
        None \<Rightarrow> None
      | Some slot \<Rightarrow> if ceLive e ! slot then Some slot else None)"

definition columnarExists :: "('d, 'c) columnarEngine \<Rightarrow> string \<Rightarrow> bool" where
  "columnarExists e rid = (if ceInitErr e \<noteq> None then False else liveSlotOf e rid \<noteq> None)"

definition allocSlot ::
  "('d, 'c) columnEnv \<Rightarrow> ('d, 'c) columnarEngine \<Rightarrow> string \<Rightarrow> ('d, 'c) columnarEngine \<times> nat" where
  "allocSlot env e rid =
     (case liveSlotOf e rid of
        Some slot \<Rightarrow> (e, slot)
      | None \<Rightarrow>
          if ceFreeList e \<noteq> []
          then
            let slot = last (ceFreeList e)
            in (e\<lparr>ceFreeList := butlast (ceFreeList e), ceDeadCount := ceDeadCount e - 1,
                  ceLive := (ceLive e)[slot := True], ceSlotToID := (ceSlotToID e)[slot := rid],
                  ceIdToSlot := putKey rid slot (ceIdToSlot e)\<rparr>, slot)
          else
            let slot = length (ceLive e)
            in (e\<lparr>ceColumns := map (\<lambda>col. col\<lparr>colValues :=
                    colValues col @ [etZero (elemOps env (cdElemType (colDesc col)))]\<rparr>) (ceColumns e),
                  ceLeftover := (if ceMapBacked e then ceLeftover e @ [None] else ceLeftover e),
                  ceLive := ceLive e @ [True], ceSlotToID := ceSlotToID e @ [rid],
                  ceIdToSlot := putKey rid slot (ceIdToSlot e)\<rparr>, slot))"

definition setSlotKey :: "('d, 'c) columnarEngine \<Rightarrow> nat \<Rightarrow> key \<Rightarrow> ('d, 'c) columnarEngine" where
  "setSlotKey e slot k =
     (let grown = ceSlotToKey e @ replicate (Suc slot - length (ceSlotToKey e)) None
      in e\<lparr>ceSlotToKey := grown[slot := Some k]\<rparr>)"

definition slotKey :: "('d, 'c) columnarEngine \<Rightarrow> nat \<Rightarrow> key option" where
  "slotKey e slot = (if slot < length (ceSlotToKey e) then ceSlotToKey e ! slot else None)"

definition notify :: "'c strategyCall \<Rightarrow> 'c strategy \<Rightarrow> 'c strategy" where
  "notify call s = (case s of External calls \<Rightarrow> External (calls @ [call]) | _ \<Rightarrow> s)"

definition writeCell :: "nat \<Rightarrow> 'c \<Rightarrow> 'c column \<Rightarrow> 'c column" where
  "writeCell slot c col =
     col\<lparr>colValues := (colValues col)[slot := c], colStrategy := notify (SetValue slot c) (colStrategy col)\<rparr>"

definition writeSlot ::
  "('d, 'c) columnarEngine \<Rightarrow> nat \<Rightarrow> 'c list \<times> fields option \<Rightarrow> ('d, 'c) columnarEngine" where
  "writeSlot e slot row =
     e\<lparr>ceColumns := map2 (writeCell slot) (fst row) (ceColumns e),
       ceLeftover := (if ceMapBacked e then (ceLeftover e)[slot := snd row] else ceLeftover e)\<rparr>"

definition clearCell :: "('d, 'c) columnEnv \<Rightarrow> nat \<Rightarrow> 'c column \<Rightarrow> 'c column" where
  "clearCell env slot col =
     col\<lparr>colValues := (colValues col)[slot := etZero (elemOps env (cdElemType (colDesc col)))],
         colStrategy := notify (ClearValue slot) (colStrategy col)\<rparr>"

definition freeSlot ::
  "('d, 'c) columnEnv \<Rightarrow> ('d, 'c) columnarEngine \<Rightarrow> nat \<Rightarrow> ('d, 'c) columnarEngine" where
  "freeSlot env e slot =
     e\<lparr>ceColumns := map (clearCell env slot) (ceColumns e),
       ceLeftover := (if ceMapBacked e then (ceLeftover e)[slot := None] else ceLeftover e),
       ceLive := (ceLive e)[slot := False], ceSlotToID := (ceSlotToID e)[slot := []],
       ceSlotToKey := (if slot < length (ceSlotToKey e) then (ceSlotToKey e)[slot := None] else ceSlotToKey e),
       ceFreeList := ceFreeList e @ [slot], ceDeadCount := ceDeadCount e + 1\<rparr>"

text \<open>\<open>rebuildStrategies\<close>, for one column: an external strategy is told every cell again.\<close>

definition rebuildStrategy :: "'c column \<Rightarrow> 'c column" where
  "rebuildStrategy col =
     col\<lparr>colStrategy := fold notify (map2 SetValue [0..<length (colValues col)] (colValues col)) (colStrategy col)\<rparr>"

definition liveSlots :: "('d, 'c) columnarEngine \<Rightarrow> nat list" where
  "liveSlots e = filter (\<lambda>slot. ceLive e ! slot) [0..<length (ceLive e)]"

definition compact :: "('d, 'c) columnarEngine \<Rightarrow> ('d, 'c) columnarEngine" where
  "compact e =
     (let slots = liveSlots e; ids = map (\<lambda>s. ceSlotToID e ! s) slots
      in e\<lparr>ceColumns := map (\<lambda>col. rebuildStrategy (col\<lparr>colValues := map (\<lambda>s. colValues col ! s) slots\<rparr>)) (ceColumns e),
           ceLeftover := (if ceMapBacked e then map (\<lambda>s. ceLeftover e ! s) slots else []),
           ceSlotToID := ids,
           ceSlotToKey := map (\<lambda>s. ceSlotToKey e ! s) slots,
           ceLive := replicate (length slots) True,
           ceIdToSlot := copyInto (ceIdToSlot e) (zip ids [0..<length slots]),
           ceFreeList := [], ceDeadCount := 0\<rparr>)"

text \<open>
  The threshold \<open>float64(dead)/float64(total) < 0.5\<close> in integers: for fewer than \<open>2 ^ 53\<close> slots
  the correctly rounded quotient is below one half exactly when the quotient is.
\<close>

definition maybeCompact :: "('d, 'c) columnarEngine \<Rightarrow> ('d, 'c) columnarEngine" where
  "maybeCompact e =
     (let total = int (length (ceLive e))
      in if total = 0 \<or> ceDeadCount e = 0 then e
         else if 2 * ceDeadCount e < total then e
         else compact e)"

subsection \<open>Operations\<close>

definition columnarStore ::
  "('d, 'c) columnEnv \<Rightarrow> ('d, 'c) columnarEngine \<Rightarrow> string \<Rightarrow> 'd memRecord \<Rightarrow> bool \<Rightarrow>
   memError + ('d, 'c) columnarEngine" where
  "columnarStore env e rid r overwrite =
     (case ceInitErr e of
        Some err \<Rightarrow> Inl err
      | None \<Rightarrow>
          if \<not> overwrite \<and> liveSlotOf e rid \<noteq> None then Inl (RecordAlreadyExists (recKey r))
          else
            bindE (prepareWrite env (shapeOf e) (OfRecord (recData r))) (\<lambda>row.
              let (e1, slot) = allocSlot env e rid
              in Inr (writeSlot (setSlotKey e1 slot (recKey r)) slot row)))"

definition columnarLoad ::
  "('d, 'c) columnEnv \<Rightarrow> ('d, 'c) columnarEngine \<Rightarrow> string \<Rightarrow> 'd memRecord \<Rightarrow> memError + 'd" where
  "columnarLoad env e rid r =
     (case ceInitErr e of
        Some err \<Rightarrow> Inl err
      | None \<Rightarrow>
          (case liveSlotOf e rid of
             None \<Rightarrow> Inl (RecordNotFound (recKey r))
           | Some slot \<Rightarrow> materializeSlot env e slot (recData r)))"

definition columnarDelete ::
  "('d, 'c) columnEnv \<Rightarrow> ('d, 'c) columnarEngine \<Rightarrow> string \<Rightarrow> ('d, 'c) columnarEngine" where
  "columnarDelete env e rid =
     (if ceInitErr e \<noteq> None then e
      else
        case liveSlotOf e rid of
          None \<Rightarrow> e
        | Some slot \<Rightarrow>
            let e1 = freeSlot env e slot
            in maybeCompact (e1\<lparr>ceIdToSlot := delKey rid (ceIdToSlot e1)\<rparr>))"

definition unknownUpdateField :: "columnarShape \<Rightarrow> fieldUpdate list \<Rightarrow> memError option" where
  "unknownUpdateField sh updates =
     (case filter (\<lambda>u. updFieldName u \<noteq> [] \<and> updFieldName u \<notin> set (columnNames sh) \<and> \<not> shMapBacked sh)
        updates of
        [] \<Rightarrow> None
      | u # _ \<Rightarrow> Some (UnknownField (shCollection sh) (updFieldName u)))"

text \<open>The row an update makes of the stored one.\<close>

definition updateRow ::
  "('d, 'c) columnEnv \<Rightarrow> columnarShape \<Rightarrow> fieldUpdate list \<Rightarrow> 'c list \<times> fields option \<Rightarrow>
   memError + 'c list \<times> fields option" where
  "updateRow env sh updates row =
     bindE (rowFields env sh row) (\<lambda>current.
       case unknownUpdateField sh updates of
         Some err \<Rightarrow> Inl err
       | None \<Rightarrow>
           bindE (applyUpdatesToMap (Some current) updates) (\<lambda>next_m.
             prepareWrite env sh (OfMap (the next_m))))"

definition columnarUpdate ::
  "('d, 'c) columnEnv \<Rightarrow> ('d, 'c) columnarEngine \<Rightarrow> string \<Rightarrow> fieldUpdate list \<Rightarrow>
   memError + ('d, 'c) columnarEngine" where
  "columnarUpdate env e rid updates =
     (case ceInitErr e of
        Some err \<Rightarrow> Inl err
      | None \<Rightarrow>
          (case liveSlotOf e rid of
             None \<Rightarrow> Inl (RecordNotFound (Key (ceCollection e) (goStr rid) None))
           | Some slot \<Rightarrow>
               bindE (updateRow env (shapeOf e) updates (slotRow e slot))
                 (\<lambda>row. Inr (writeSlot e slot row))))"

fun buildRows ::
  "('d, 'c) columnEnv \<Rightarrow> ('d, 'c) columnarEngine \<Rightarrow> string list \<Rightarrow> memError + 'd engineRow list" where
  "buildRows env e [] = Inr []"
| "buildRows env e (rid # rids) =
     (let slot = the (map_of (ceIdToSlot e) rid)
      in bindE (rowData_columnar env e slot) (\<lambda>data.
         bindE (buildRows env e rids) (\<lambda>rows.
         Inr (\<lparr>rowId = rid, rowData = data,
               rowMaterialize = (\<lambda>target. case materializeSlot env e slot target of Inl _ \<Rightarrow> None | Inr d \<Rightarrow> Some d),
               rowKey = slotKey e slot\<rparr> # rows))))"

definition columnarRows ::
  "('d, 'c) columnEnv \<Rightarrow> ('d, 'c) columnarEngine \<Rightarrow> memError + 'd engineRow list" where
  "columnarRows env e =
     (case ceInitErr e of
        Some err \<Rightarrow> Inl err
      | None \<Rightarrow> buildRows env e (sortStrings (keysOf (ceIdToSlot e))))"

section \<open>The slots implement the contract\<close>

subsection \<open>The invariant\<close>

text \<open>
  All slices have one entry per slot; the map of identifiers is the inverse of \<open>slotToID\<close> on the
  live slots; every live slot has its key; the free list holds the dead slots, each once.
\<close>

definition slotsInv :: "('d, 'c) columnarEngine \<Rightarrow> bool" where
  "slotsInv e =
     (ceInitErr e = None \<and>
      length (ceSlotToID e) = length (ceLive e) \<and> length (ceSlotToKey e) = length (ceLive e) \<and>
      (\<forall>col \<in> set (ceColumns e). length (colValues col) = length (ceLive e)) \<and>
      (ceMapBacked e \<longrightarrow> length (ceLeftover e) = length (ceLive e)) \<and>
      gomapOk (ceIdToSlot e) \<and>
      (\<forall>rid slot. map_of (ceIdToSlot e) rid = Some slot \<longleftrightarrow>
         slot < length (ceLive e) \<and> ceLive e ! slot \<and> ceSlotToID e ! slot = rid) \<and>
      (\<forall>slot < length (ceLive e). ceLive e ! slot \<longrightarrow> ceSlotToKey e ! slot \<noteq> None) \<and>
      distinct (ceFreeList e) \<and> set (ceFreeList e) = {slot. slot < length (ceLive e) \<and> \<not> ceLive e ! slot} \<and>
      ceDeadCount e = int (length (ceFreeList e)))"

text \<open>Dead slots stay below half of all slots.\<close>

definition wasteBound :: "('d, 'c) columnarEngine \<Rightarrow> bool" where
  "wasteBound e = (ceDeadCount e = 0 \<or> 2 * ceDeadCount e < int (length (ceLive e)))"

definition columnarInv :: "('d, 'c) columnarEngine \<Rightarrow> bool" where
  "columnarInv e = (slotsInv e \<and> wasteBound e)"

definition columnarContent :: "('d, 'c) columnarEngine \<Rightarrow> ('c list \<times> fields option) store_map" where
  "columnarContent e rid =
     map_option (\<lambda>slot. (the (ceSlotToKey e ! slot), slotRow e slot)) (map_of (ceIdToSlot e) rid)"

lemma slotsInvD:
  assumes "slotsInv e"
  shows "ceInitErr e = None" "length (ceSlotToID e) = length (ceLive e)"
    "length (ceSlotToKey e) = length (ceLive e)"
    "col \<in> set (ceColumns e) \<Longrightarrow> length (colValues col) = length (ceLive e)"
    "ceMapBacked e \<Longrightarrow> length (ceLeftover e) = length (ceLive e)"
    "gomapOk (ceIdToSlot e)"
    "map_of (ceIdToSlot e) rid = Some slot \<longleftrightarrow>
       slot < length (ceLive e) \<and> ceLive e ! slot \<and> ceSlotToID e ! slot = rid"
    "slot < length (ceLive e) \<Longrightarrow> ceLive e ! slot \<Longrightarrow> ceSlotToKey e ! slot \<noteq> None"
    "distinct (ceFreeList e)"
    "set (ceFreeList e) = {slot. slot < length (ceLive e) \<and> \<not> ceLive e ! slot}"
    "ceDeadCount e = int (length (ceFreeList e))"
  using assms unfolding slotsInv_def by blast+

lemma slotsInvI:
  assumes "ceInitErr e = None" and "length (ceSlotToID e) = length (ceLive e)"
    and "length (ceSlotToKey e) = length (ceLive e)"
    and "\<And>col. col \<in> set (ceColumns e) \<Longrightarrow> length (colValues col) = length (ceLive e)"
    and "ceMapBacked e \<Longrightarrow> length (ceLeftover e) = length (ceLive e)"
    and "gomapOk (ceIdToSlot e)"
    and "\<And>rid slot. map_of (ceIdToSlot e) rid = Some slot \<longleftrightarrow>
       slot < length (ceLive e) \<and> ceLive e ! slot \<and> ceSlotToID e ! slot = rid"
    and "\<And>slot. slot < length (ceLive e) \<Longrightarrow> ceLive e ! slot \<Longrightarrow> ceSlotToKey e ! slot \<noteq> None"
    and "distinct (ceFreeList e)"
    and "set (ceFreeList e) = {slot. slot < length (ceLive e) \<and> \<not> ceLive e ! slot}"
    and "ceDeadCount e = int (length (ceFreeList e))"
  shows "slotsInv e"
  using assms unfolding slotsInv_def by blast

lemma liveSlotOf_eq: "slotsInv e \<Longrightarrow> liveSlotOf e rid = map_of (ceIdToSlot e) rid"
proof (cases "map_of (ceIdToSlot e) rid")
  case (Some slot)
  assume "slotsInv e"
  then have "ceLive e ! slot" using Some slotsInvD(7) by blast
  then show ?thesis using Some by (simp add: liveSlotOf_def)
qed (simp add: liveSlotOf_def)

lemma columnarContent_None:
  "slotsInv e \<Longrightarrow> columnarContent e rid = None \<longleftrightarrow> liveSlotOf e rid = None"
  by (simp add: columnarContent_def liveSlotOf_eq)

subsection \<open>Writing a slot\<close>

definition rowOk :: "columnarShape \<Rightarrow> 'c list \<times> fields option \<Rightarrow> bool" where
  "rowOk sh row = (length (fst row) = length (shColumns sh) \<and> (shMapBacked sh \<or> snd row = None))"

lemma mapCells_length: "mapCells f xs = Inr cs \<Longrightarrow> length cs = length xs"
  by (induction xs arbitrary: cs) (auto simp: bindE_eq_Inr)

lemma decodeFields_length:
  "decodeFields env sh data = Inr cs \<Longrightarrow> length cs = length (shColumns sh)"
proof (cases "decodeAsMap env data")
  case (Inr m)
  assume "decodeFields env sh data = Inr cs"
  then show ?thesis
    using Inr by (cases "filter (\<lambda>k. k \<notin> set (columnNames sh)) (keysOf m)")
      (auto simp: decodeFields_def dest: mapCells_length)
qed (simp add: decodeFields_def)

lemma prepareWrite_rowOk: "prepareWrite env sh data = Inr row \<Longrightarrow> rowOk sh row"
  by (cases row) (auto simp: prepareWrite_def decodeMapFields_def bindE_eq_Inr rowOk_def
      Let_def dest: mapCells_length decodeFields_length split: if_splits)

lemma colDesc_writeCell [simp]: "colDesc (writeCell slot c col) = colDesc col"
  by (simp add: writeCell_def)

lemma colDesc_writeCells:
  "length cs = length cols \<Longrightarrow> map colDesc (map2 (writeCell slot) cs cols) = map colDesc cols"
  by (induction cs cols rule: list_induct2) auto

lemma shapeOf_writeSlot:
  "rowOk (shapeOf e) row \<Longrightarrow> shapeOf (writeSlot e slot row) = shapeOf e"
  by (simp add: shapeOf_def writeSlot_def rowOk_def colDesc_writeCells del: map_map)

lemma writeCells_at:
  assumes "length cs = length cols" and "\<forall>col \<in> set cols. slot < length (colValues col)"
  shows "map (\<lambda>col. colValues col ! slot) (map2 (writeCell slot) cs cols) = cs"
  using assms by (induction cs cols rule: list_induct2) (auto simp: writeCell_def)

lemma writeCells_other:
  assumes "length cs = length cols" and "slot' \<noteq> slot"
  shows "map (\<lambda>col. colValues col ! slot') (map2 (writeCell slot) cs cols) =
    map (\<lambda>col. colValues col ! slot') cols"
  using assms by (induction cs cols rule: list_induct2) (auto simp: writeCell_def)

lemma writeCells_length:
  assumes "\<forall>col \<in> set cols. length (colValues col) = n" and "col \<in> set (map2 (writeCell slot) cs cols)"
  shows "length (colValues col) = n"
  using assms by (auto simp: writeCell_def dest!: set_zip_rightD)

lemma slotsInv_writeSlot:
  assumes "slotsInv e"
  shows "slotsInv (writeSlot e slot row)"
proof -
  have "\<forall>col \<in> set (ceColumns (writeSlot e slot row)). length (colValues col) = length (ceLive e)"
    using assms writeCells_length [of "ceColumns e" "length (ceLive e)"]
    by (auto simp: writeSlot_def slotsInvD)
  then show ?thesis using assms by (simp add: slotsInv_def writeSlot_def)
qed

lemma slotRow_writeSlot:
  assumes "slotsInv e" and "rowOk (shapeOf e) row" and "slot < length (ceLive e)"
  shows "slotRow (writeSlot e slot row) slot = row"
    and "slot' \<noteq> slot \<Longrightarrow> slotRow (writeSlot e slot row) slot' = slotRow e slot'"
proof -
  have len: "length (fst row) = length (ceColumns e)"
    using assms(2) by (simp add: rowOk_def shapeOf_def)
  have "map (\<lambda>col. colValues col ! slot) (ceColumns (writeSlot e slot row)) = fst row"
    using writeCells_at [OF len] assms by (simp add: writeSlot_def slotsInvD del: map_map)
  then show "slotRow (writeSlot e slot row) slot = row"
    using assms by (cases row) (auto simp: slotRow_def leftoverAt_def writeSlot_def rowOk_def shapeOf_def slotsInvD)
  show "slotRow (writeSlot e slot row) slot' = slotRow e slot'" if "slot' \<noteq> slot"
    using writeCells_other [OF len that] that
    by (simp add: slotRow_def leftoverAt_def writeSlot_def del: map_map)
qed

lemma content_writeSlot:
  assumes "slotsInv e" and "rowOk (shapeOf e) row" and "slot < length (ceLive e)" and "ceLive e ! slot"
  shows "columnarContent (writeSlot e slot row) =
    (columnarContent e)(ceSlotToID e ! slot \<mapsto> (the (ceSlotToKey e ! slot), row))"
proof
  fix rid
  have same: "ceIdToSlot (writeSlot e slot row) = ceIdToSlot e" "ceSlotToKey (writeSlot e slot row) = ceSlotToKey e"
    by (simp_all add: writeSlot_def)
  show "columnarContent (writeSlot e slot row) rid =
      ((columnarContent e)(ceSlotToID e ! slot \<mapsto> (the (ceSlotToKey e ! slot), row))) rid"
  proof (cases "rid = ceSlotToID e ! slot")
    case True
    then have "map_of (ceIdToSlot e) rid = Some slot" using assms by (simp add: slotsInvD)
    then show ?thesis
      using True slotRow_writeSlot(1) [OF assms(1-3)] by (simp add: columnarContent_def same)
  next
    case False
    then have "map_of (ceIdToSlot e) rid \<noteq> Some slot" using assms by (simp add: slotsInvD)
    then show ?thesis
      using False slotRow_writeSlot(2) [OF assms(1-3)]
      by (cases "map_of (ceIdToSlot e) rid") (auto simp: columnarContent_def same)
  qed
qed

subsection \<open>Allocating a slot\<close>

text \<open>What allocation and recording the key give together.\<close>

definition allocated ::
  "('d, 'c) columnarEngine \<Rightarrow> string \<Rightarrow> key \<Rightarrow> ('d, 'c) columnarEngine \<Rightarrow> nat \<Rightarrow> bool" where
  "allocated e rid k e' slot =
     (slotsInv e' \<and> shapeOf e' = shapeOf e \<and> (wasteBound e \<longrightarrow> wasteBound e') \<and>
      slot < length (ceLive e') \<and> ceLive e' ! slot \<and> ceSlotToID e' ! slot = rid \<and>
      ceSlotToKey e' ! slot = Some k \<and>
      (\<forall>rid'. rid' \<noteq> rid \<longrightarrow> columnarContent e' rid' = columnarContent e rid'))"

lemma allocated_live:
  assumes "slotsInv e" and "liveSlotOf e rid = Some slot"
  shows "allocated e rid k (setSlotKey e slot k) slot"
proof -
  have slot: "slot < length (ceLive e)" "ceLive e ! slot" "ceSlotToID e ! slot = rid"
    using assms slotsInvD(7) [OF assms(1), of rid slot] by (simp_all add: liveSlotOf_eq)
  have set: "setSlotKey e slot k = e\<lparr>ceSlotToKey := (ceSlotToKey e)[slot := Some k]\<rparr>"
    using slot assms(1) by (simp add: setSlotKey_def slotsInvD(3))
  have "slotsInv (setSlotKey e slot k)"
    using assms(1) slot unfolding set slotsInv_def by (auto simp: nth_list_update)
  moreover have "columnarContent (setSlotKey e slot k) rid' = columnarContent e rid'" if "rid' \<noteq> rid" for rid'
  proof -
    have "map_of (ceIdToSlot e) rid' \<noteq> Some slot"
      using slotsInvD(7) [OF assms(1), of rid' slot] slot that by auto
    then show ?thesis
      unfolding set columnarContent_def
      by (cases "map_of (ceIdToSlot e) rid'") (auto simp: slotRow_def leftoverAt_def)
  qed
  ultimately show ?thesis
    using slot assms(1) unfolding allocated_def
    by (auto simp: set shapeOf_def wasteBound_def slotsInvD(3))
qed

lemma last_not_in_butlast: "distinct xs \<Longrightarrow> xs \<noteq> [] \<Longrightarrow> set (butlast xs) = set xs - {last xs}"
  by (induction xs rule: rev_induct) auto

lemma allocated_reuse:
  assumes inv: "slotsInv e" and dead: "liveSlotOf e rid = None" and free: "ceFreeList e \<noteq> []"
    and alloc: "allocSlot env e rid = (e1, slot)"
  shows "allocated e rid k (setSlotKey e1 slot k) slot"
proof -
  have slot_def: "slot = last (ceFreeList e)" using dead free alloc by (auto simp: allocSlot_def Let_def)
  have "slot \<in> set (ceFreeList e)" using free slot_def by simp
  then have slot: "slot < length (ceLive e)" "\<not> ceLive e ! slot"
    using slotsInvD(10) [OF inv] by auto
  define e2 where "e2 = setSlotKey e1 slot k"
  have e2: "e2 = e\<lparr>ceFreeList := butlast (ceFreeList e), ceDeadCount := ceDeadCount e - 1,
      ceLive := (ceLive e)[slot := True], ceSlotToID := (ceSlotToID e)[slot := rid],
      ceIdToSlot := putKey rid slot (ceIdToSlot e), ceSlotToKey := (ceSlotToKey e)[slot := Some k]\<rparr>"
    using dead free alloc slot inv
    by (auto simp: e2_def allocSlot_def Let_def setSlotKey_def slotsInvD(3))
  have fresh: "map_of (ceIdToSlot e) rid = None" using dead inv by (simp add: liveSlotOf_eq)
  have ids: "map_of (ceIdToSlot e) rid' = Some s \<longleftrightarrow> s < length (ceLive e) \<and> ceLive e ! s \<and> ceSlotToID e ! s = rid'"
    for rid' s by (rule slotsInvD(7) [OF inv])
  have len: "length (ceSlotToID e) = length (ceLive e)" "length (ceSlotToKey e) = length (ceLive e)"
    using inv by (rule slotsInvD)+
  have map: "map_of (ceIdToSlot e2) rid' = Some s \<longleftrightarrow>
      s < length (ceLive e2) \<and> ceLive e2 ! s \<and> ceSlotToID e2 ! s = rid'" for rid' s
    using ids [of rid' s] ids [of rid s] fresh slot len by (auto simp: e2 nth_list_update split: if_splits)
  have free2: "set (ceFreeList e2) = {s. s < length (ceLive e2) \<and> \<not> ceLive e2 ! s}"
    using last_not_in_butlast [OF slotsInvD(9) [OF inv] free] slot slotsInvD(10) [OF inv]
    by (auto simp: e2 nth_list_update slot_def [symmetric])
  have dead2: "ceDeadCount e2 = int (length (ceFreeList e2))"
    using free slotsInvD(11) [OF inv] by (auto simp: e2 neq_Nil_conv)
  have inv2: "slotsInv e2"
  proof (rule slotsInvI [OF _ _ _ _ _ _ map _ _ free2 dead2])
    show "ceSlotToKey e2 ! s \<noteq> None" if "s < length (ceLive e2)" "ceLive e2 ! s" for s
      using that slotsInvD(8) [OF inv, of s] slot len by (cases "s = slot") (simp_all add: e2)
  qed (use inv len in \<open>simp_all add: e2 slotsInvD distinct_butlast gomapOk_putKey\<close>)
  have "columnarContent e2 rid' = columnarContent e rid'" if "rid' \<noteq> rid" for rid'
  proof -
    have "map_of (ceIdToSlot e) rid' \<noteq> Some slot" using ids [of rid' slot] slot by auto
    then show ?thesis
      using that unfolding columnarContent_def
      by (cases "map_of (ceIdToSlot e) rid'") (auto simp: e2 slotRow_def leftoverAt_def)
  qed
  moreover have "wasteBound e \<longrightarrow> wasteBound e2"
    using free slotsInvD(11) [OF inv] by (auto simp: wasteBound_def e2 neq_Nil_conv)
  ultimately show ?thesis
    using inv2 slot len unfolding allocated_def e2_def [symmetric]
    by (auto simp: e2 shapeOf_def)
qed

lemma allocated_append:
  assumes inv: "slotsInv e" and dead: "liveSlotOf e rid = None" and full: "ceFreeList e = []"
    and alloc: "allocSlot env e rid = (e1, slot)"
  shows "allocated e rid k (setSlotKey e1 slot k) slot"
proof -
  have slot: "slot = length (ceLive e)" using dead full alloc by (auto simp: allocSlot_def Let_def)
  define e2 where "e2 = setSlotKey e1 slot k"
  have len: "length (ceSlotToID e) = length (ceLive e)" "length (ceSlotToKey e) = length (ceLive e)"
    using inv by (rule slotsInvD)+
  have e2: "e2 = e\<lparr>ceColumns := map (\<lambda>col. col\<lparr>colValues :=
                    colValues col @ [etZero (elemOps env (cdElemType (colDesc col)))]\<rparr>) (ceColumns e),
      ceLeftover := (if ceMapBacked e then ceLeftover e @ [None] else ceLeftover e),
      ceLive := ceLive e @ [True], ceSlotToID := ceSlotToID e @ [rid],
      ceIdToSlot := putKey rid slot (ceIdToSlot e), ceSlotToKey := ceSlotToKey e @ [Some k]\<rparr>"
    using dead full alloc slot len
    by (auto simp: e2_def allocSlot_def Let_def setSlotKey_def list_update_append)
  have fresh: "map_of (ceIdToSlot e) rid = None" using dead inv by (simp add: liveSlotOf_eq)
  have ids: "map_of (ceIdToSlot e) rid' = Some s \<longleftrightarrow> s < length (ceLive e) \<and> ceLive e ! s \<and> ceSlotToID e ! s = rid'"
    for rid' s by (rule slotsInvD(7) [OF inv])
  have map: "map_of (ceIdToSlot e2) rid' = Some s \<longleftrightarrow>
      s < length (ceLive e2) \<and> ceLive e2 ! s \<and> ceSlotToID e2 ! s = rid'" for rid' s
    using ids [of rid' s] ids [of rid s] fresh slot len
    by (auto simp: e2 nth_append less_Suc_eq split: if_splits)
  have free2: "set (ceFreeList e2) = {s. s < length (ceLive e2) \<and> \<not> ceLive e2 ! s}"
    using slotsInvD(10) [OF inv] full by (auto simp: e2 nth_append less_Suc_eq)
  have inv2: "slotsInv e2"
  proof (rule slotsInvI [OF _ _ _ _ _ _ map _ _ free2])
    show "ceSlotToKey e2 ! s \<noteq> None" if "s < length (ceLive e2)" "ceLive e2 ! s" for s
      using that slotsInvD(8) [OF inv, of s] len by (cases "s = length (ceLive e)") (simp_all add: e2 nth_append)
    show "length (colValues col) = length (ceLive e2)" if "col \<in> set (ceColumns e2)" for col
      using that inv by (auto simp: e2 slotsInvD(4))
  qed (use inv len full in \<open>simp_all add: e2 slotsInvD gomapOk_putKey\<close>)
  have "columnarContent e2 rid' = columnarContent e rid'" if "rid' \<noteq> rid" for rid'
  proof -
    have "slotRow e2 s = slotRow e s \<and> ceSlotToKey e2 ! s = ceSlotToKey e ! s" if "s < length (ceLive e)" for s
      using that inv len by (auto simp: e2 slotRow_def leftoverAt_def nth_append slotsInvD(4,5))
    moreover have "map_of (ceIdToSlot e2) rid' = map_of (ceIdToSlot e) rid'" using that by (simp add: e2)
    ultimately show ?thesis
      using ids [of rid' "the (map_of (ceIdToSlot e) rid')"] unfolding columnarContent_def
      by (cases "map_of (ceIdToSlot e) rid'") simp_all
  qed
  moreover have "wasteBound e \<longrightarrow> wasteBound e2" by (auto simp: wasteBound_def e2)
  ultimately show ?thesis
    using inv2 slot len unfolding allocated_def e2_def [symmetric]
    by (auto simp: e2 shapeOf_def nth_append)
qed

lemma allocSlot_allocated:
  assumes "slotsInv e" and "allocSlot env e rid = (e1, slot)"
  shows "allocated e rid k (setSlotKey e1 slot k) slot"
proof (cases "liveSlotOf e rid")
  case None
  then show ?thesis
    using assms allocated_reuse allocated_append by (cases "ceFreeList e = []") blast+
next
  case (Some s)
  then show ?thesis using assms allocated_live by (auto simp: allocSlot_def)
qed

subsection \<open>Freeing a slot and compaction\<close>

definition releaseSlot ::
  "('d, 'c) columnEnv \<Rightarrow> ('d, 'c) columnarEngine \<Rightarrow> string \<Rightarrow> nat \<Rightarrow> ('d, 'c) columnarEngine" where
  "releaseSlot env e rid slot =
     (let e1 = freeSlot env e slot in e1\<lparr>ceIdToSlot := delKey rid (ceIdToSlot e1)\<rparr>)"

lemma releaseSlot_correct:
  assumes inv: "slotsInv e" and rid: "map_of (ceIdToSlot e) rid = Some slot"
  shows "slotsInv (releaseSlot env e rid slot)"
    and "shapeOf (releaseSlot env e rid slot) = shapeOf e"
    and "columnarContent (releaseSlot env e rid slot) = (columnarContent e)(rid := None)"
    and "ceDeadCount (releaseSlot env e rid slot) > 0"
proof -
  define e2 where "e2 = releaseSlot env e rid slot"
  have ids: "map_of (ceIdToSlot e) rid' = Some s \<longleftrightarrow> s < length (ceLive e) \<and> ceLive e ! s \<and> ceSlotToID e ! s = rid'"
    for rid' s by (rule slotsInvD(7) [OF inv])
  have slot: "slot < length (ceLive e)" "ceLive e ! slot" "ceSlotToID e ! slot = rid"
    using ids [of rid slot] rid by auto
  have len: "length (ceSlotToID e) = length (ceLive e)" "length (ceSlotToKey e) = length (ceLive e)"
    using inv by (rule slotsInvD)+
  have e2: "e2 = e\<lparr>ceColumns := map (clearCell env slot) (ceColumns e),
       ceLeftover := (if ceMapBacked e then (ceLeftover e)[slot := None] else ceLeftover e),
       ceLive := (ceLive e)[slot := False], ceSlotToID := (ceSlotToID e)[slot := []],
       ceSlotToKey := (ceSlotToKey e)[slot := None], ceIdToSlot := delKey rid (ceIdToSlot e),
       ceFreeList := ceFreeList e @ [slot], ceDeadCount := ceDeadCount e + 1\<rparr>"
    using slot len by (simp add: e2_def releaseSlot_def freeSlot_def Let_def)
  have map: "map_of (ceIdToSlot e2) rid' = Some s \<longleftrightarrow>
      s < length (ceLive e2) \<and> ceLive e2 ! s \<and> ceSlotToID e2 ! s = rid'" for rid' s
    using ids [of rid' s] slot len rid by (auto simp: e2 nth_list_update split: if_splits)
  have free2: "set (ceFreeList e2) = {s. s < length (ceLive e2) \<and> \<not> ceLive e2 ! s}"
    using slot slotsInvD(10) [OF inv] by (auto simp: e2 nth_list_update)
  have "slotsInv e2"
  proof (rule slotsInvI [OF _ _ _ _ _ _ map _ _ free2])
    show "ceSlotToKey e2 ! s \<noteq> None" if "s < length (ceLive e2)" "ceLive e2 ! s" for s
      using that slotsInvD(8) [OF inv, of s] slot len by (cases "s = slot") (simp_all add: e2)
    show "length (colValues col) = length (ceLive e2)" if "col \<in> set (ceColumns e2)" for col
      using that inv by (auto simp: e2 slotsInvD(4) clearCell_def)
    show "distinct (ceFreeList e2)"
      using slot slotsInvD(9,10) [OF inv] by (simp add: e2)
  qed (use inv len in \<open>simp_all add: e2 slotsInvD gomapOk_delKey\<close>)
  then show "slotsInv (releaseSlot env e rid slot)" by (simp add: e2_def)
  have "shapeOf e2 = shapeOf e" by (simp add: shapeOf_def e2 clearCell_def)
  then show "shapeOf (releaseSlot env e rid slot) = shapeOf e" by (simp add: e2_def)
  have "columnarContent e2 rid' = ((columnarContent e)(rid := None)) rid'" for rid'
  proof (cases "rid' = rid")
    case False
    then have "map_of (ceIdToSlot e) rid' \<noteq> Some slot" using ids [of rid' slot] slot by auto
    then show ?thesis
      using False unfolding columnarContent_def
      by (cases "map_of (ceIdToSlot e) rid'") (auto simp: e2 slotRow_def leftoverAt_def clearCell_def)
  qed (simp add: columnarContent_def e2)
  then show "columnarContent (releaseSlot env e rid slot) = (columnarContent e)(rid := None)"
    by (simp add: e2_def fun_eq_iff)
  show "ceDeadCount (releaseSlot env e rid slot) > 0"
    using slotsInvD(11) [OF inv] e2 by (simp add: e2_def)
qed

lemma set_liveSlots: "set (liveSlots e) = {s. s < length (ceLive e) \<and> ceLive e ! s}"
  by (auto simp: liveSlots_def)

lemma distinct_liveSlots: "distinct (liveSlots e)"
  by (simp add: liveSlots_def)

lemma map_of_zip_upt:
  "distinct xs \<Longrightarrow> map_of (zip xs [0..<length xs]) x = Some i \<longleftrightarrow> i < length xs \<and> xs ! i = x"
  by (subst map_of_eq_Some_iff) (auto simp: set_zip)

lemma liveSlots_ids_distinct:
  "slotsInv e \<Longrightarrow> distinct (map (\<lambda>s. ceSlotToID e ! s) (liveSlots e))"
proof -
  assume inv: "slotsInv e"
  have "inj_on (\<lambda>s. ceSlotToID e ! s) (set (liveSlots e))"
    using slotsInvD(7) [OF inv] by (auto simp: inj_on_def set_liveSlots) (metis option.inject)
  then show ?thesis by (simp add: distinct_map distinct_liveSlots)
qed

lemma compact_ids:
  assumes inv: "slotsInv e"
  shows "map_of (ceIdToSlot (compact e)) rid = Some i \<longleftrightarrow>
    i < length (liveSlots e) \<and> ceSlotToID e ! (liveSlots e ! i) = rid"
proof -
  define ids where "ids = map (\<lambda>s. ceSlotToID e ! s) (liveSlots e)"
  have d: "distinct ids" using liveSlots_ids_distinct [OF inv] by (simp add: ids_def)
  have len: "length ids = length (liveSlots e)" by (simp add: ids_def)
  have m: "map_of (ceIdToSlot (compact e)) = map_of (ceIdToSlot e) ++ map_of (zip ids [0..<length ids])"
    using d by (simp add: compact_def Let_def ids_def map_of_copyInto map_of_rev_distinct)
  have "map_of (ceIdToSlot e) rid = None" if "rid \<notin> set ids"
    using that slotsInvD(7) [OF inv, of rid "the (map_of (ceIdToSlot e) rid)"]
    by (cases "map_of (ceIdToSlot e) rid") (auto simp: ids_def set_liveSlots)
  moreover have "map_of (zip ids [0..<length ids]) rid = None \<longleftrightarrow> rid \<notin> set ids"
    by (simp add: map_of_zip_is_None)
  ultimately have "map_of (ceIdToSlot (compact e)) rid = map_of (zip ids [0..<length ids]) rid"
    by (cases "rid \<in> set ids") (auto simp: m map_add_def simp del: map_of_zip_is_None split: option.split)
  then show ?thesis using map_of_zip_upt [OF d, of rid i] by (auto simp: len ids_def)
qed

lemma slotRow_compact:
  "i < length (liveSlots e) \<Longrightarrow> slotRow (compact e) i = slotRow e (liveSlots e ! i)"
  by (simp add: slotRow_def leftoverAt_def compact_def Let_def rebuildStrategy_def)

lemma compact_correct:
  assumes inv: "slotsInv e"
  shows "slotsInv (compact e)" and "shapeOf (compact e) = shapeOf e"
    and "columnarContent (compact e) = columnarContent e" and "ceDeadCount (compact e) = 0"
proof -
  have f: "ceLive (compact e) = replicate (length (liveSlots e)) True"
    "ceSlotToID (compact e) = map (\<lambda>s. ceSlotToID e ! s) (liveSlots e)"
    "ceSlotToKey (compact e) = map (\<lambda>s. ceSlotToKey e ! s) (liveSlots e)"
    "ceFreeList (compact e) = []" "ceDeadCount (compact e) = 0" "ceInitErr (compact e) = ceInitErr e"
    "ceMapBacked (compact e) = ceMapBacked e"
    by (simp_all add: compact_def Let_def)
  show "slotsInv (compact e)"
  proof (rule slotsInvI)
    show "ceSlotToKey (compact e) ! s \<noteq> None" if "s < length (ceLive (compact e))" for s
      using that slotsInvD(8) [OF inv] nth_mem [of s "liveSlots e"] by (auto simp: f set_liveSlots)
    show "map_of (ceIdToSlot (compact e)) rid = Some i \<longleftrightarrow>
        i < length (ceLive (compact e)) \<and> ceLive (compact e) ! i \<and> ceSlotToID (compact e) ! i = rid" for rid i
      using compact_ids [OF inv, of rid i] by (auto simp: f)
    show "gomapOk (ceIdToSlot (compact e))"
      using inv by (auto simp: compact_def Let_def slotsInvD(6))
    show "length (colValues col) = length (ceLive (compact e))" if "col \<in> set (ceColumns (compact e))" for col
      using that by (auto simp: compact_def Let_def rebuildStrategy_def)
    show "length (ceLeftover (compact e)) = length (ceLive (compact e))" if "ceMapBacked (compact e)"
      using that by (simp add: compact_def Let_def)
  qed (use inv in \<open>simp_all add: f slotsInvD(1)\<close>)
  show "shapeOf (compact e) = shapeOf e"
    by (simp add: shapeOf_def compact_def Let_def rebuildStrategy_def comp_def)
  show "columnarContent (compact e) = columnarContent e"
  proof
    fix rid
    show "columnarContent (compact e) rid = columnarContent e rid"
    proof (cases "map_of (ceIdToSlot (compact e)) rid")
      case None
      have "map_of (ceIdToSlot e) rid = None"
      proof (rule ccontr)
        assume "map_of (ceIdToSlot e) rid \<noteq> None"
        then obtain s where "s \<in> set (liveSlots e)" "ceSlotToID e ! s = rid"
          using slotsInvD(7) [OF inv, of rid] by (auto simp: set_liveSlots)
        then obtain i where "i < length (liveSlots e)" "ceSlotToID e ! (liveSlots e ! i) = rid"
          by (auto simp: in_set_conv_nth)
        then show False using compact_ids [OF inv, of rid i] None by simp
      qed
      then show ?thesis using None by (simp add: columnarContent_def)
    next
      case (Some i)
      then have i: "i < length (liveSlots e)" "ceSlotToID e ! (liveSlots e ! i) = rid"
        using compact_ids [OF inv, of rid i] by auto
      then have "map_of (ceIdToSlot e) rid = Some (liveSlots e ! i)"
        using slotsInvD(7) [OF inv, of rid "liveSlots e ! i"] nth_mem [OF i(1)] by (simp add: set_liveSlots)
      then show ?thesis using Some i slotRow_compact [OF i(1)] by (simp add: columnarContent_def f)
    qed
  qed
  show "ceDeadCount (compact e) = 0" by (rule f)
qed

lemma maybeCompact_correct:
  assumes inv: "slotsInv e"
  shows "columnarInv (maybeCompact e)" and "shapeOf (maybeCompact e) = shapeOf e"
    and "columnarContent (maybeCompact e) = columnarContent e"
proof -
  let ?keep = "int (length (ceLive e)) = 0 \<or> ceDeadCount e = 0 \<or> 2 * ceDeadCount e < int (length (ceLive e))"
  have "maybeCompact e = (if ?keep then e else compact e)"
    by (simp add: maybeCompact_def Let_def)
  moreover have "ceDeadCount e = 0" if "int (length (ceLive e)) = 0"
    using that slotsInvD(10) [OF inv] by (simp add: slotsInvD(11) [OF inv])
  then have "wasteBound e" if ?keep
    using that by (auto simp: wasteBound_def)
  moreover have "wasteBound (compact e)"
    using compact_correct(4) [OF inv] by (simp add: wasteBound_def)
  ultimately show "columnarInv (maybeCompact e)" "shapeOf (maybeCompact e) = shapeOf e"
      "columnarContent (maybeCompact e) = columnarContent e"
    using compact_correct [OF inv] inv by (simp_all add: columnarInv_def)
qed

subsection \<open>The interpretation\<close>

definition columnarOps :: "('d, 'c) columnEnv \<Rightarrow> (('d, 'c) columnarEngine, 'd) engineOps" where
  "columnarOps env =
     \<lparr>eExists = columnarExists, eStore = columnarStore env, eLoad = columnarLoad env,
      eDelete = columnarDelete env, eUpdate = columnarUpdate env\<rparr>"

definition rowOps ::
  "('d, 'c) columnEnv \<Rightarrow> columnarShape \<Rightarrow> ('c list \<times> fields option, 'd) contentOps" where
  "rowOps env sh =
     \<lparr>cEncode = (\<lambda>d. prepareWrite env sh (OfRecord d)),
      cDecode = materializeRow env sh,
      cAmend = updateRow env sh\<rparr>"

lemma columnarStore_ok:
  assumes inv: "columnarInv e" and store: "columnarStore env e rid r ow = Inr e'"
  shows "columnarInv e' \<and> shapeOf e' = shapeOf e \<and>
    (\<exists>row. prepareWrite env (shapeOf e) (OfRecord (recData r)) = Inr row \<and>
       columnarContent e' = (columnarContent e)(rid \<mapsto> (recKey r, row)))"
proof -
  have s: "slotsInv e" "wasteBound e" using inv by (simp_all add: columnarInv_def)
  obtain e1 slot where alloc: "allocSlot env e rid = (e1, slot)" by (cases "allocSlot env e rid")
  from store obtain row where row: "prepareWrite env (shapeOf e) (OfRecord (recData r)) = Inr row"
    "e' = writeSlot (setSlotKey e1 slot (recKey r)) slot row"
    using slotsInvD(1) [OF s(1)] alloc by (auto simp: columnarStore_def bindE_eq_Inr split: if_splits)
  define e2 where "e2 = setSlotKey e1 slot (recKey r)"
  have a: "slotsInv e2" "shapeOf e2 = shapeOf e" "wasteBound e2" "slot < length (ceLive e2)"
    "ceLive e2 ! slot" "ceSlotToID e2 ! slot = rid" "ceSlotToKey e2 ! slot = Some (recKey r)"
    "\<And>rid'. rid' \<noteq> rid \<Longrightarrow> columnarContent e2 rid' = columnarContent e rid'"
    using allocSlot_allocated [OF s(1) alloc, of "recKey r"] s(2) unfolding allocated_def e2_def by auto
  have ok: "rowOk (shapeOf e2) row" using prepareWrite_rowOk [OF row(1)] a(2) by simp
  have w: "wasteBound (writeSlot e2 slot row)" using a(3) by (simp add: wasteBound_def writeSlot_def)
  have "columnarContent e' = (columnarContent e)(rid \<mapsto> (recKey r, row))"
    using content_writeSlot [OF a(1) ok a(4,5)] a(6-8) row(2) by (auto simp: e2_def [symmetric] fun_eq_iff)
  then show ?thesis
    using slotsInv_writeSlot [OF a(1)] shapeOf_writeSlot [OF ok] a(2) w row
    by (simp add: e2_def [symmetric] columnarInv_def)
qed

lemma columnarUpdate_ok:
  assumes inv: "columnarInv e" and upd: "columnarUpdate env e rid us = Inr e'"
  shows "columnarInv e' \<and> shapeOf e' = shapeOf e \<and>
    (\<exists>k row row'. columnarContent e rid = Some (k, row) \<and> updateRow env (shapeOf e) us row = Inr row' \<and>
       columnarContent e' = (columnarContent e)(rid \<mapsto> (k, row')))"
proof -
  have s: "slotsInv e" "wasteBound e" using inv by (simp_all add: columnarInv_def)
  from upd obtain slot row' where slot: "map_of (ceIdToSlot e) rid = Some slot"
    "updateRow env (shapeOf e) us (slotRow e slot) = Inr row'" "e' = writeSlot e slot row'"
    using slotsInvD(1) [OF s(1)]
    by (auto simp: columnarUpdate_def bindE_eq_Inr liveSlotOf_eq [OF s(1)] split: option.splits)
  have ok: "rowOk (shapeOf e) row'"
    using slot(2) by (auto simp: updateRow_def bindE_eq_Inr intro: prepareWrite_rowOk split: option.splits)
  have live: "slot < length (ceLive e)" "ceLive e ! slot" "ceSlotToID e ! slot = rid"
    using slotsInvD(7) [OF s(1), of rid slot] slot(1) by auto
  have "wasteBound e'" using s(2) slot(3) by (simp add: wasteBound_def writeSlot_def)
  then show ?thesis
    using content_writeSlot [OF s(1) ok live(1,2)] slotsInv_writeSlot [OF s(1)] shapeOf_writeSlot [OF ok] slot live
    by (cases row') (auto simp: columnarInv_def columnarContent_def)
qed

lemma columnarDelete_ok:
  assumes inv: "columnarInv e"
  shows "columnarInv (columnarDelete env e rid) \<and> shapeOf (columnarDelete env e rid) = shapeOf e \<and>
    columnarContent (columnarDelete env e rid) = (columnarContent e)(rid := None)"
proof -
  have s: "slotsInv e" using inv by (simp add: columnarInv_def)
  show ?thesis
  proof (cases "map_of (ceIdToSlot e) rid")
    case None
    then show ?thesis
      using inv slotsInvD(1) [OF s] by (auto simp: columnarDelete_def liveSlotOf_eq [OF s] columnarContent_def fun_eq_iff)
  next
    case (Some slot)
    then have "columnarDelete env e rid = maybeCompact (releaseSlot env e rid slot)"
      using slotsInvD(1) [OF s] by (simp add: columnarDelete_def liveSlotOf_eq [OF s] releaseSlot_def Let_def)
    then show ?thesis
      using releaseSlot_correct [OF s Some, of env]
        maybeCompact_correct [OF releaseSlot_correct(1) [OF s Some, of env]] by simp
  qed
qed

interpretation columnar: storage_engine
  "columnarOps env" "rowOps env" shCollection columnarInv columnarContent shapeOf
  for env :: "('d, 'c) columnEnv"
proof (unfold_locales, goal_cases)
  case (1 e rid)
  then show ?case
    by (simp add: columnarOps_def columnarExists_def columnarInv_def slotsInvD(1) columnarContent_None)
next
  case (2 e rid r ow err)
  then show ?case
    using columnarContent_None [of e rid] slotsInvD(1) [of e]
    by (auto simp: columnarOps_def columnarStore_def rowOps_def columnarInv_def bindE_def split: sum.splits prod.splits)
next
  case (3 e rid r ow e')
  then show ?case using columnarStore_ok by (simp add: columnarOps_def rowOps_def)
next
  case (4 e rid r)
  then have s: "slotsInv e" by (simp add: columnarInv_def)
  then show ?case
    by (cases "map_of (ceIdToSlot e) rid")
      (simp_all add: columnarOps_def columnarLoad_def rowOps_def slotsInvD(1) liveSlotOf_eq columnarContent_def
        materializeSlot_def)
next
  case (5 e rid)
  then show ?case using columnarDelete_ok by (simp add: columnarOps_def)
next
  case (6 e rid us err)
  then have s: "slotsInv e" by (simp add: columnarInv_def)
  then show ?case
    by (cases "map_of (ceIdToSlot e) rid")
      (auto simp: columnarOps_def columnarUpdate_def rowOps_def slotsInvD(1) liveSlotOf_eq columnarContent_def
        shapeOf_def bindE_def split: sum.splits)
next
  case (7 e rid us e')
  then show ?case using columnarUpdate_ok by (simp add: columnarOps_def rowOps_def)
qed

section \<open>Properties\<close>

lemma new_columnar:
  "ceIdToSlot (newColumnarEngine cfg collection factory refBreaking) = []"
  "ceLive (newColumnarEngine cfg collection factory refBreaking) = []"
  "ceSlotToID (newColumnarEngine cfg collection factory refBreaking) = []"
  "ceSlotToKey (newColumnarEngine cfg collection factory refBreaking) = []"
  "ceFreeList (newColumnarEngine cfg collection factory refBreaking) = []"
  "ceDeadCount (newColumnarEngine cfg collection factory refBreaking) = 0"
  "ceLeftover (newColumnarEngine cfg collection factory refBreaking) = []"
  "ceCollection (newColumnarEngine cfg collection factory refBreaking) = collection"
  by (simp_all add: newColumnarEngine_def newMapBackedEngine_def emptyColumnar_def Let_def
      split: option.split)

lemma addDeclared_empty:
  "\<forall>col \<in> set cols. colValues col = [] \<Longrightarrow> \<forall>col \<in> set (addDeclared cfg cols dc). colValues col = []"
  by (auto simp: addDeclared_def Let_def newColumn_def)

lemma new_columns_empty:
  "col \<in> set (ceColumns (newColumnarEngine cfg collection factory refBreaking)) \<Longrightarrow> colValues col = []"
proof -
  have declared: "\<forall>col \<in> set (foldl (addDeclared cfg) cols dcs). colValues col = []"
    if "\<forall>col \<in> set cols. colValues col = []" for cols :: "'c column list" and dcs
    using that by (induction dcs arbitrary: cols) (auto dest: addDeclared_empty)
  assume "col \<in> set (ceColumns (newColumnarEngine cfg collection factory refBreaking))"
  then show ?thesis
    using declared [of "[]"]
    by (auto simp: newColumnarEngine_def newMapBackedEngine_def emptyColumnar_def Let_def
        buildDeclaredColumns_def buildColumns_def newColumn_def split: option.splits if_splits)
qed

lemma new_columnar_inv:
  assumes "ceInitErr (newColumnarEngine cfg collection factory refBreaking :: ('d, 'c) columnarEngine) = None"
  shows "columnarInv (newColumnarEngine cfg collection factory refBreaking :: ('d, 'c) columnarEngine)"
proof -
  have "slotsInv (newColumnarEngine cfg collection factory refBreaking :: ('d, 'c) columnarEngine)"
    by (rule slotsInvI) (simp_all add: assms new_columnar new_columns_empty)
  then show ?thesis by (simp add: columnarInv_def wasteBound_def new_columnar)
qed

lemma new_columnar_content: "columnarContent (newColumnarEngine cfg collection factory refBreaking) = (\<lambda>_. None)"
  by (simp add: columnarContent_def new_columnar fun_eq_iff)

text \<open>What an engine answers that could not be set up for its collection.\<close>

fun initErrResult :: "memError \<Rightarrow> 'd engineOp \<Rightarrow> 'd engineResult" where
  "initErrResult err (OpExists rid) = RBool False"
| "initErrResult err (OpDelete rid) = RDone"
| "initErrResult err _ = RError err"

lemma run_initErr:
  "ceInitErr e = Some err \<Longrightarrow>
   runEngine (engineStep (columnarOps env)) e ops = (e, map (initErrResult err) ops)"
proof (induction ops)
  case (Cons op ops)
  then show ?case
    by (cases op) (simp_all add: columnarOps_def columnarExists_def columnarStore_def columnarLoad_def
        columnarDelete_def columnarUpdate_def settle_def)
qed simp

text \<open>C4: Every history of calls on a fresh columnar engine answers exactly as a map from identifiers to
  rows does, through slot reuse, tombstones and compaction, and the engine stands for that map
  afterwards. An engine selected for a collection whose record type it cannot take answers every
  store, load and update with the same error and holds nothing.\<close>

theorem columnar_engine_is_map:
  fixes env :: "('d, 'c) columnEnv"
  shows "let e = newColumnarEngine cfg collection factory refBreaking in
    case ceInitErr e of
      Some err \<Rightarrow> runEngine (engineStep (columnarOps env)) e ops = (e, map (initErrResult err) ops)
    | None \<Rightarrow> map_prod columnarContent (\<lambda>rs. rs) (runEngine (engineStep (columnarOps env)) e ops) =
        runEngine (mapStep collection (rowOps env (shapeOf e))) (\<lambda>_. None) ops"
proof (cases "ceInitErr (newColumnarEngine cfg collection factory refBreaking :: ('d, 'c) columnarEngine)")
  case None
  define e :: "('d, 'c) columnarEngine" where "e = newColumnarEngine cfg collection factory refBreaking"
  have inv: "columnarInv e" using new_columnar_inv [OF None] by (simp add: e_def)
  obtain e' rs where run: "runEngine (engineStep (columnarOps env)) e ops = (e', rs)"
    by (cases "runEngine (engineStep (columnarOps env)) e ops")
  have "shCollection (shapeOf e) = collection" by (simp add: shapeOf_def e_def new_columnar)
  then show ?thesis
    using columnar.trace_simulation [OF inv run] None run
    by (simp add: e_def new_columnar_content Let_def)
qed (simp add: run_initErr Let_def)

subsection \<open>Space\<close>

lemma slots_partition:
  assumes inv: "slotsInv e"
  shows "length (ceIdToSlot e) + length (ceFreeList e) = length (ceLive e)"
proof -
  let ?live = "{s. s < length (ceLive e) \<and> ceLive e ! s}"
  have ids: "map_of (ceIdToSlot e) rid = Some s \<longleftrightarrow> s \<in> ?live \<and> ceSlotToID e ! s = rid" for rid s
    using slotsInvD(7) [OF inv] by simp
  have "dom (map_of (ceIdToSlot e)) = (\<lambda>s. ceSlotToID e ! s) ` ?live"
    using ids by (auto simp: dom_def)
  moreover have "inj_on (\<lambda>s. ceSlotToID e ! s) ?live"
    using ids by (auto simp: inj_on_def) (metis option.inject)
  ultimately have "card (dom (map_of (ceIdToSlot e))) = card ?live" by (simp add: card_image)
  moreover have "card (dom (map_of (ceIdToSlot e))) = length (ceIdToSlot e)"
    using gomapOk_distinct [OF slotsInvD(6) [OF inv]]
    by (metis distinct_card keysOf_def length_map set_keysOf)
  moreover have "card (set (ceFreeList e)) = length (ceFreeList e)"
    using slotsInvD(9) [OF inv] by (rule distinct_card)
  moreover have "card ?live + card (set (ceFreeList e)) = length (ceLive e)"
  proof -
    have "?live \<union> set (ceFreeList e) = {..<length (ceLive e)}" "?live \<inter> set (ceFreeList e) = {}"
      using slotsInvD(10) [OF inv] by auto
    then show ?thesis by (metis (no_types, lifting) card_Un_disjoint card_lessThan finite_Un finite_lessThan)
  qed
  ultimately show ?thesis by simp
qed

text \<open>C31: After any history of calls the slots of a columnar engine are its records and its dead slots,
  nothing else, every slice has that length, and the dead slots are fewer than half of all: deletions
  cannot make the slices grow beyond twice the number of records.\<close>

theorem columnar_space_bound:
  fixes env :: "('d, 'c) columnEnv"
  shows "let e = newColumnarEngine cfg collection factory refBreaking;
      e' = fst (runEngine (engineStep (columnarOps env)) e ops)
    in if ceInitErr e = None
       then int (length (ceLive e')) = int (length (ceIdToSlot e')) + ceDeadCount e' \<and>
         list_all (\<lambda>col. length (colValues col) = length (ceLive e')) (ceColumns e') \<and>
         (ceDeadCount e' = 0 \<or> 2 * ceDeadCount e' < int (length (ceLive e'))) \<and>
         (ceLive e' = [] \<or> length (ceLive e') < 2 * length (ceIdToSlot e'))
       else e' = e"
proof (cases "ceInitErr (newColumnarEngine cfg collection factory refBreaking :: ('d, 'c) columnarEngine)")
  case None
  define e :: "('d, 'c) columnarEngine" where "e = newColumnarEngine cfg collection factory refBreaking"
  define e' where "e' = fst (runEngine (engineStep (columnarOps env)) e ops)"
  have inv: "columnarInv e" using new_columnar_inv [OF None] by (simp add: e_def)
  have inv': "slotsInv e'" "wasteBound e'"
    using columnar.trace_simulation [OF inv, of env ops e' "snd (runEngine (engineStep (columnarOps env)) e ops)"]
    by (simp_all add: e'_def columnarInv_def)
  have "int (length (ceLive e')) = int (length (ceIdToSlot e')) + ceDeadCount e'"
    "list_all (\<lambda>col. length (colValues col) = length (ceLive e')) (ceColumns e')"
    using slots_partition [OF inv'(1)] slotsInvD(4,11) [OF inv'(1)] by (simp_all add: list_all_iff)
  then show ?thesis
    using None inv'(2) by (auto simp: wasteBound_def Let_def e_def e'_def)
qed (simp add: run_initErr Let_def)

end
