(* ===== verification/DalInsert.thy ===== *)
theory DalInsert
  imports AccessResource
begin

text \<open>
  Generated identifiers of package \<open>dal\<close>: the options of an insert (\<open>src/dal/tx_inserter.go\<close>),
  the generators (\<open>id_generator.go\<close>) and \<open>InsertWithIdGenerator\<close>, the loop that generates until an
  identifier is free.

  A generator is a function of the caller's state \<open>'s\<close> (random source, clock, counters) that gives
  the identifier it writes into the record's key; the check and the insert are the callbacks the
  adapter passes. \<open>random.ID\<close> of \<open>github.com/strongo/random\<close> is an argument.
\<close>

section \<open>Definitions\<close>

type_synonym ('s, 'e) IDGenerator = "'s \<Rightarrow> 's \<times> ('e + goval)"

datatype 'e checkResult = KeyTaken | KeyFree | CheckFailed 'e

datatype 'e insertError =
    GenerateFailed 'e
  | ValidateFailed 'e
  | ExistsCheckFailed 'e
  | ExceedsMaxNumberOfAttempts int
  | InsertFailed 'e

fun withKeyID :: "goval \<Rightarrow> key \<Rightarrow> key" where
  "withKeyID v (Key c i p) = Key c v p"

text \<open>
  The loop of \<open>InsertWithIdGenerator\<close> with \<open>n\<close> attempts left. The result is the state, the key the
  record has afterwards and the error. \<open>validate\<close> is \<open>ValidateWithKey\<close> of the record's data.
\<close>

fun insertAttempts ::
  "int \<Rightarrow> nat \<Rightarrow> ('s, 'e) IDGenerator \<Rightarrow> (key \<Rightarrow> 'e option) \<Rightarrow> ('s \<Rightarrow> key \<Rightarrow> 's \<times> 'e checkResult) \<Rightarrow>
   ('s \<Rightarrow> key \<Rightarrow> 's \<times> 'e option) \<Rightarrow> 's \<Rightarrow> key \<Rightarrow> 's \<times> key \<times> 'e insertError option" where
  "insertAttempts m 0 generateID validate existsKey insertRec s k =
     (s, withKeyID GNil k, Some (ExceedsMaxNumberOfAttempts m))"
| "insertAttempts m (Suc n) generateID validate existsKey insertRec s k =
     (case generateID s of
        (s1, Inl e) \<Rightarrow> (s1, withKeyID GNil k, Some (GenerateFailed e))
      | (s1, Inr v) \<Rightarrow>
          let k1 = withKeyID v k in
          (case validate k1 of
             Some e \<Rightarrow> (s1, k1, Some (ValidateFailed e))
           | None \<Rightarrow>
               (case existsKey s1 k1 of
                  (s2, KeyFree) \<Rightarrow>
                    (case insertRec s2 k1 of (s3, r) \<Rightarrow> (s3, k1, map_option InsertFailed r))
                | (s2, CheckFailed e) \<Rightarrow> (s2, withKeyID GNil k1, Some (ExistsCheckFailed e))
                | (s2, KeyTaken) \<Rightarrow> insertAttempts m n generateID validate existsKey insertRec s2 k1)))"

definition InsertWithIdGenerator ::
  "('s, 'e) IDGenerator \<Rightarrow> int \<Rightarrow> (key \<Rightarrow> 'e option) \<Rightarrow> ('s \<Rightarrow> key \<Rightarrow> 's \<times> 'e checkResult) \<Rightarrow>
   ('s \<Rightarrow> key \<Rightarrow> 's \<times> 'e option) \<Rightarrow> 's \<Rightarrow> key \<Rightarrow> 's \<times> key \<times> 'e insertError option" where
  "InsertWithIdGenerator generateID maxAttempts validate existsKey insertRec s k =
     insertAttempts maxAttempts (nat maxAttempts) generateID validate existsKey insertRec s k"

subsection \<open>Options and generators\<close>

text \<open>
  The counting generator \<open>idGenerator.GenerateID\<close>: its own count of attempts is part of the state.
  \<open>NewIDGenerator\<close> returns the method value of the field \<open>f\<close>, not of \<open>GenerateID\<close>.
\<close>

definition GenerateID ::
  "('s, 'e) IDGenerator \<Rightarrow> int \<Rightarrow> 'e \<Rightarrow> ('s \<times> int, 'e) IDGenerator" where
  "GenerateID f maxAttempts exceeded st =
     (let attempts = snd st + 1
      in if attempts > maxAttempts then ((fst st, attempts), Inl exceeded)
         else case f (fst st) of (s', r) \<Rightarrow> ((s', attempts), r))"

definition NewIDGenerator :: "('s, 'e) IDGenerator \<Rightarrow> int \<Rightarrow> ('s, 'e) IDGenerator" where
  "NewIDGenerator f maxAttempts = f"

record ('s, 'e) insertOptions =
  optIDGenerator :: "('s, 'e) IDGenerator option"
  optPreferAdapterGeneratedID :: bool

type_synonym ('s, 'e) InsertOption = "('s, 'e) insertOptions \<Rightarrow> ('s, 'e) insertOptions"

definition NewInsertOptions :: "('s, 'e) InsertOption list \<Rightarrow> ('s, 'e) insertOptions" where
  "NewInsertOptions opts =
     foldl (\<lambda>o1 opt. opt o1) \<lparr>optIDGenerator = None, optPreferAdapterGeneratedID = False\<rparr> opts"

definition WithAdapterGeneratedID :: "('s, 'e) InsertOption" where
  "WithAdapterGeneratedID o1 = o1\<lparr>optPreferAdapterGeneratedID := True\<rparr>"

definition randomStringGenerator :: "(int \<Rightarrow> 's \<Rightarrow> 's \<times> string) \<Rightarrow> int \<Rightarrow> ('s, 'e) IDGenerator" where
  "randomStringGenerator random len s = (case random len s of (s', w) \<Rightarrow> (s', Inr (goStr w)))"

definition WithRandomStringKey :: "(int \<Rightarrow> 's \<Rightarrow> 's \<times> string) \<Rightarrow> int \<Rightarrow> int \<Rightarrow> ('s, 'e) InsertOption" where
  "WithRandomStringKey random len maxAttempts o1 =
     o1\<lparr>optIDGenerator := Some (NewIDGenerator (randomStringGenerator random len) maxAttempts)\<rparr>"

text \<open>\<open>unixNow\<close> is \<open>time.Now().UTC().Unix()\<close>.\<close>

definition WithRandomStringKeyPrefixedByUnixTime ::
  "('s \<Rightarrow> int) \<Rightarrow> (int \<Rightarrow> 's \<Rightarrow> 's \<times> string) \<Rightarrow> int \<Rightarrow> int \<Rightarrow> ('s, 'e) InsertOption" where
  "WithRandomStringKeyPrefixedByUnixTime unixNow random len maxAttempts o1 =
     o1\<lparr>optIDGenerator := Some (NewIDGenerator (\<lambda>s.
        case random len s of (s', w) \<Rightarrow> (s', Inr (goStr (intDec (unixNow s) @ ''_'' @ w)))) maxAttempts)\<rparr>"

datatype TimeStampAccuracy =
    AccuracyNano | AccuracyMicrosecond | AccuracyMillisecond | AccuracySecond | AccuracyMinute
  | AccuracyHour | AccuracyDay

text \<open>
  The timestamp of \<open>WithTimeStampStringID\<close> from the nanoseconds since the epoch, for a clock past
  1970: \<open>Unix\<close>, \<open>UnixMilli\<close> and \<open>UnixMicro\<close> round down and Go's \<open>/\<close> does too on what is not
  negative.
\<close>

fun timestampFor :: "TimeStampAccuracy \<Rightarrow> nat \<Rightarrow> nat" where
  "timestampFor AccuracyNano now = now"
| "timestampFor AccuracyMicrosecond now = now div 1000"
| "timestampFor AccuracyMillisecond now = now div 1000000"
| "timestampFor AccuracySecond now = now div 1000000000"
| "timestampFor AccuracyMinute now = now div 1000000000 div 60"
| "timestampFor AccuracyHour now = now div 1000000000 div 60 div 60"
| "timestampFor AccuracyDay now = now div 1000000000 div 60 div 60 div 24"

definition digitChar :: "nat \<Rightarrow> char" where
  "digitChar d = (if d < 10 then char_of (d + 48) else char_of (d + 87))"

text \<open>\<open>strconv.FormatInt\<close> on a number that is not negative, for the bases it accepts, 2 to 36.\<close>

function formatNat :: "nat \<Rightarrow> nat \<Rightarrow> string" where
  "formatNat base n =
     (if base < 2 \<or> n < base then [digitChar n]
      else formatNat base (n div base) @ [digitChar (n mod base)])"
  by pat_completeness auto
termination
  by (relation "measure snd") auto

declare formatNat.simps [simp del]

definition WithTimeStampStringID ::
  "('s \<Rightarrow> 's \<times> nat) \<Rightarrow> TimeStampAccuracy \<Rightarrow> nat \<Rightarrow> int \<Rightarrow> ('s, 'e) InsertOption" where
  "WithTimeStampStringID clock accuracy base maxAttempts o1 =
     o1\<lparr>optIDGenerator := Some (NewIDGenerator (\<lambda>s.
        case clock s of (s', now) \<Rightarrow> (s', Inr (goStr (formatNat base (timestampFor accuracy now))))) maxAttempts)\<rparr>"

section \<open>Laws\<close>

lemma keyCollection_withKeyID [simp]: "keyCollection (withKeyID v k) = keyCollection k"
  and keyID_withKeyID [simp]: "keyID (withKeyID v k) = v"
  and keyParent_withKeyID [simp]: "keyParent (withKeyID v k) = keyParent k"
  by (cases k; simp)+

lemma withKeyID_withKeyID [simp]: "withKeyID v (withKeyID w k) = withKeyID v k"
  by (cases k) simp

text \<open>
  The loop against a stream of identifiers: the generator counts its calls and gives the next one,
  the check looks the identifier up, the insert is recorded.
\<close>

definition streamGen :: "(nat \<Rightarrow> goval) \<Rightarrow> (nat \<times> 's, 'e) IDGenerator" where
  "streamGen ids st = ((Suc (fst st), snd st), Inr (ids (fst st)))"

definition takenCheck :: "(goval \<Rightarrow> bool) \<Rightarrow> nat \<times> 's \<Rightarrow> key \<Rightarrow> (nat \<times> 's) \<times> 'e checkResult" where
  "takenCheck taken st k = (st, if taken (keyID k) then KeyTaken else KeyFree)"

definition innerInsert :: "('s \<Rightarrow> key \<Rightarrow> 's \<times> 'e option) \<Rightarrow> nat \<times> 's \<Rightarrow> key \<Rightarrow> (nat \<times> 's) \<times> 'e option" where
  "innerInsert ins st k = (case ins (snd st) k of (s', r) \<Rightarrow> ((fst st, s'), r))"

definition attemptOutcome ::
  "int \<Rightarrow> nat \<Rightarrow> nat \<Rightarrow> (nat \<Rightarrow> goval) \<Rightarrow> (goval \<Rightarrow> bool) \<Rightarrow> ('s \<Rightarrow> key \<Rightarrow> 's \<times> 'e option) \<Rightarrow> 's \<Rightarrow> key \<Rightarrow>
   (nat \<times> 's) \<times> key \<times> 'e insertError option" where
  "attemptOutcome m start n ids taken ins s k =
     (case find (\<lambda>i. \<not> taken (ids i)) [start..<start + n] of
        None \<Rightarrow> ((start + n, s), withKeyID GNil k, Some (ExceedsMaxNumberOfAttempts m))
      | Some i \<Rightarrow>
          (case ins s (withKeyID (ids i) k) of
             (s', r) \<Rightarrow> ((Suc i, s'), withKeyID (ids i) k, map_option InsertFailed r)))"

lemma attemptOutcome_withKeyID [simp]:
  "attemptOutcome m start n ids taken ins s (withKeyID v k) = attemptOutcome m start n ids taken ins s k"
  by (simp add: attemptOutcome_def cong: option.case_cong)

lemma insertAttempts_stream:
  "insertAttempts m n (streamGen ids) (\<lambda>_. None) (takenCheck taken) (innerInsert ins) (start, s) k =
   attemptOutcome m start n ids taken ins s k"
proof (induction n arbitrary: start k)
  case 0
  then show ?case by (simp add: attemptOutcome_def)
next
  case (Suc n)
  have range: "[start..<Suc (start + n)] = start # [Suc start..<Suc (start + n)]"
    by (rule upt_conv_Cons) simp
  show ?case
  proof (cases "taken (ids start)")
    case True
    then show ?thesis
      using Suc.IH [of "Suc start" "withKeyID (ids start) k"]
      by (simp add: streamGen_def takenCheck_def attemptOutcome_def range del: upt_Suc cong: option.case_cong)
  next
    case False
    then show ?thesis
      by (simp add: streamGen_def takenCheck_def innerInsert_def attemptOutcome_def range
          split: prod.split del: upt_Suc)
  qed
qed

section \<open>Properties\<close>

text \<open>C34: \<open>InsertWithIdGenerator\<close> calls the generator at most \<open>maxAttempts\<close> times and inserts once,
  under the first generated identifier that is free; when all of them are taken nothing is inserted,
  the key is left without an identifier, and the error says that the attempts are exceeded. No
  identifier that is taken is ever passed to the insert.\<close>

theorem insert_first_free_id:
  "InsertWithIdGenerator (streamGen ids) maxAttempts (\<lambda>_. None) (takenCheck taken) (innerInsert ins) (0, s) k =
     (case find (\<lambda>i. \<not> taken (ids i)) [0..<nat maxAttempts] of
        None \<Rightarrow> ((nat maxAttempts, s), withKeyID GNil k, Some (ExceedsMaxNumberOfAttempts maxAttempts))
      | Some i \<Rightarrow>
          (case ins s (withKeyID (ids i) k) of
             (s', r) \<Rightarrow> ((Suc i, s'), withKeyID (ids i) k, map_option InsertFailed r)))"
  by (simp add: InsertWithIdGenerator_def insertAttempts_stream attemptOutcome_def cong: option.case_cong)

text \<open>The number of attempts given to a generator option has no effect: with the option
  \<open>WithRandomStringKey\<close> every bound gives the generator without a bound, whereas counting the
  attempts, as \<open>GenerateID\<close> does, would refuse the call after the last.\<close>

theorem generator_attempts_ignored:
  "optIDGenerator (NewInsertOptions [WithRandomStringKey random len maxAttempts]) =
     Some (randomStringGenerator random len) \<and>
   (snd (GenerateID (randomStringGenerator random len) maxAttempts exceeded (s, maxAttempts)) =
     (Inl exceeded :: 'e + goval))"
  by (simp add: NewInsertOptions_def WithRandomStringKey_def NewIDGenerator_def GenerateID_def)

end
