(* ===== verification/MemoryDatabase.thy ===== *)
theory MemoryDatabase
  imports MemoryColumnar DalInsert
begin

text \<open>
  The in-memory database: schema and engine selection (\<open>src/adapters/dalgo2memory/schema.go\<close>),
  storage identifiers, sessions and transactions (\<open>database.go\<close>).

  A database holds one engine per collection name, made on first use. A session is the database and,
  inside a read-write transaction, the transaction's state. Every method runs under the database's
  mutex, so a history of calls is a sequence, and a method is a function from the state to the state
  and its result. What a method writes into the record it is given, its data and its error, is its
  result here.
\<close>

section \<open>Definitions\<close>

subsection \<open>Schema and engines (\<open>schema.go\<close>)\<close>

datatype engineChoice = SerializedStorage | ColumnarStorage columnarConfig

datatype ('d, 'c) engine = SerializedE "'d serializedEngine" | ColumnarE "('d, 'c) columnarEngine"

datatype columnOption =
    WithColumnStrategy string
  | WithDeclaredColumn string goType
  | WithColumnarRefBreaking bool

fun applyColumnOption :: "columnarConfig \<Rightarrow> columnOption \<Rightarrow> columnarConfig" where
  "applyColumnOption cfg (WithColumnStrategy name) = cfg\<lparr>cfgStrategies := name # cfgStrategies cfg\<rparr>"
| "applyColumnOption cfg (WithDeclaredColumn name t) = cfg\<lparr>cfgDeclared := cfgDeclared cfg @ [(name, t)]\<rparr>"
| "applyColumnOption cfg (WithColumnarRefBreaking b) = cfg\<lparr>cfgRefBreakOver := Some b\<rparr>"

definition WithColumnarStorage :: "columnOption list \<Rightarrow> engineChoice" where
  "WithColumnarStorage opts =
     ColumnarStorage (foldl applyColumnOption
       \<lparr>cfgStrategies = [], cfgRefBreakOver = None, cfgDeclared = []\<rparr> opts)"

record 'd collectionDef =
  defName :: string
  defFactory :: "'d goFactory"
  defEngine :: "engineChoice option"

text \<open>\<open>WithCollection\<close>: of several engine options the last one stays.\<close>

definition WithCollection :: "string \<Rightarrow> 'd goFactory \<Rightarrow> engineChoice list \<Rightarrow> 'd collectionDef" where
  "WithCollection name factory opts =
     \<lparr>defName = name, defFactory = factory, defEngine = (if opts = [] then None else Some (last opts))\<rparr>"

record 'd memorySchema =
  msCollections :: "(string, 'd goFactory) gomap"
  msEngines :: "(string, engineChoice) gomap"
  msAllowUndefined :: bool

record ('d, 'c) memoryDB =
  dbCollections :: "(string, ('d, 'c) engine) gomap"
  dbSchema :: "'d memorySchema option"
  dbNoReadsAfterWrites :: bool
  dbSchemaRefBreaking :: bool

datatype 'd dbOption =
    WithNoReadsAfterWritesInTransaction
  | WithSchema bool "'d collectionDef list"
  | WithoutSchemaRefBreaking

definition newSchema :: "bool \<Rightarrow> 'd collectionDef list \<Rightarrow> 'd memorySchema" where
  "newSchema allowUndefined defs =
     \<lparr>msCollections = foldl (\<lambda>m c. putKey (defName c) (defFactory c) m) [] defs,
      msEngines = foldl (\<lambda>m c. case defEngine c of None \<Rightarrow> m | Some e \<Rightarrow> putKey (defName c) e m) [] defs,
      msAllowUndefined = allowUndefined\<rparr>"

fun applyDBOption :: "('d, 'c) memoryDB \<Rightarrow> 'd dbOption \<Rightarrow> ('d, 'c) memoryDB" where
  "applyDBOption db WithNoReadsAfterWritesInTransaction = db\<lparr>dbNoReadsAfterWrites := True\<rparr>"
| "applyDBOption db (WithSchema allow defs) = db\<lparr>dbSchema := Some (newSchema allow defs)\<rparr>"
| "applyDBOption db WithoutSchemaRefBreaking = db\<lparr>dbSchemaRefBreaking := False\<rparr>"

definition NewDB :: "'d dbOption list \<Rightarrow> ('d, 'c) memoryDB" where
  "NewDB opts =
     foldl applyDBOption
       \<lparr>dbCollections = [], dbSchema = None, dbNoReadsAfterWrites = False, dbSchemaRefBreaking = True\<rparr> opts"

definition recordFactory :: "('d, 'c) memoryDB \<Rightarrow> string \<Rightarrow> memError + 'd goFactory option" where
  "recordFactory db collection =
     (case dbSchema db of
        None \<Rightarrow> Inr None
      | Some s \<Rightarrow>
          (case map_of (msCollections s) collection of
             Some f \<Rightarrow> Inr (Some f)
           | None \<Rightarrow> if msAllowUndefined s then Inr None else Inl (CollectionUndefined collection)))"

definition guardCollection :: "('d, 'c) memoryDB \<Rightarrow> string \<Rightarrow> memError option" where
  "guardCollection db collection =
     (case recordFactory db collection of Inl e \<Rightarrow> Some e | Inr _ \<Rightarrow> None)"

definition newEngine :: "('d, 'c) memoryDB \<Rightarrow> string \<Rightarrow> ('d, 'c) engine" where
  "newEngine db collection =
     (let factory = (case recordFactory db collection of Inl _ \<Rightarrow> None | Inr f \<Rightarrow> f);
          choice = (case dbSchema db of
             None \<Rightarrow> SerializedStorage
           | Some s \<Rightarrow> (case map_of (msEngines s) collection of None \<Rightarrow> SerializedStorage | Some c \<Rightarrow> c))
      in case choice of
           SerializedStorage \<Rightarrow> SerializedE (newSerializedEngine collection factory)
         | ColumnarStorage cfg \<Rightarrow> ColumnarE (newColumnarEngine cfg collection factory (dbSchemaRefBreaking db)))"

text \<open>\<open>engine\<close>: the registered engine, or a new one, registered.\<close>

definition engineOf :: "('d, 'c) memoryDB \<Rightarrow> string \<Rightarrow> ('d, 'c) engine" where
  "engineOf db collection =
     (case map_of (dbCollections db) collection of Some e \<Rightarrow> e | None \<Rightarrow> newEngine db collection)"

definition withEngine :: "('d, 'c) memoryDB \<Rightarrow> string \<Rightarrow> ('d, 'c) engine \<Rightarrow> ('d, 'c) memoryDB" where
  "withEngine db collection e = db\<lparr>dbCollections := putKey collection e (dbCollections db)\<rparr>"

definition touch :: "('d, 'c) memoryDB \<Rightarrow> string \<Rightarrow> ('d, 'c) memoryDB" where
  "touch db collection = withEngine db collection (engineOf db collection)"

subsection \<open>Calls through the seam\<close>

fun engExists :: "('d, 'c) engine \<Rightarrow> string \<Rightarrow> bool" where
  "engExists (SerializedE e) rid = serializedExists e rid"
| "engExists (ColumnarE e) rid = columnarExists e rid"

fun engStore ::
  "('d, 'c) columnEnv \<Rightarrow> ('d, 'c) engine \<Rightarrow> string \<Rightarrow> 'd memRecord \<Rightarrow> bool \<Rightarrow> memError + ('d, 'c) engine" where
  "engStore env (SerializedE e) rid r ow = map_sum (\<lambda>x. x) SerializedE (serializedStore (baseEnv env) e rid r ow)"
| "engStore env (ColumnarE e) rid r ow = map_sum (\<lambda>x. x) ColumnarE (columnarStore env e rid r ow)"

fun engLoad :: "('d, 'c) columnEnv \<Rightarrow> ('d, 'c) engine \<Rightarrow> string \<Rightarrow> 'd memRecord \<Rightarrow> memError + 'd" where
  "engLoad env (SerializedE e) rid r = serializedLoad (baseEnv env) e rid r"
| "engLoad env (ColumnarE e) rid r = columnarLoad env e rid r"

fun engDelete :: "('d, 'c) columnEnv \<Rightarrow> ('d, 'c) engine \<Rightarrow> string \<Rightarrow> ('d, 'c) engine" where
  "engDelete env (SerializedE e) rid = SerializedE (serializedDelete e rid)"
| "engDelete env (ColumnarE e) rid = ColumnarE (columnarDelete env e rid)"

fun engUpdate ::
  "('d, 'c) columnEnv \<Rightarrow> ('d, 'c) engine \<Rightarrow> string \<Rightarrow> fieldUpdate list \<Rightarrow> memError + ('d, 'c) engine" where
  "engUpdate env (SerializedE e) rid us = map_sum (\<lambda>x. x) SerializedE (serializedUpdate (baseEnv env) e rid us)"
| "engUpdate env (ColumnarE e) rid us = map_sum (\<lambda>x. x) ColumnarE (columnarUpdate env e rid us)"

fun engRows ::
  "(string list \<Rightarrow> string list) \<Rightarrow> ('d, 'c) columnEnv \<Rightarrow> ('d, 'c) engine \<Rightarrow> memError + 'd engineRow list" where
  "engRows order env (SerializedE e) = serializedRows order (baseEnv env) e"
| "engRows order env (ColumnarE e) = columnarRows env e"

subsection \<open>Storage identifiers (\<open>database.go\<close>)\<close>

definition keyPath :: "(goval \<Rightarrow> string) \<Rightarrow> key \<Rightarrow> string" where
  "keyPath idText k =
     joinWith ''/'' (map (\<lambda>kk. keyCollection kk @ ''/'' @ fmtSprint idText (keyID kk)) (rev (keyChain k)))"

definition keyID_memory :: "(goval \<Rightarrow> string) \<Rightarrow> key \<Rightarrow> string" where
  "keyID_memory idText k =
     (if keyParent k = None then fmtSprint idText (keyID k) else keyPath idText k)"

subsection \<open>Sessions\<close>

record transactionState =
  txNoReadsAfterWrites :: bool
  txHasWritten :: bool

record ('d, 'c) session =
  sDB :: "('d, 'c) memoryDB"
  sTx :: "transactionState option"

record ('d, 'c) sessionEnv =
  colEnv :: "('d, 'c) columnEnv"
  keyText :: "goval \<Rightarrow> string"

definition allowRead :: "('d, 'c) session \<Rightarrow> memError option" where
  "allowRead s =
     (case sTx s of
        None \<Rightarrow> None
      | Some t \<Rightarrow>
          if txNoReadsAfterWrites t \<and> txHasWritten t then Some ReadAfterWriteInTransaction else None)"

definition markWrite :: "('d, 'c) session \<Rightarrow> ('d, 'c) session" where
  "markWrite s = s\<lparr>sTx := map_option (\<lambda>t. t\<lparr>txHasWritten := True\<rparr>) (sTx s)\<rparr>"

definition sessionExists ::
  "('d, 'c) sessionEnv \<Rightarrow> ('d, 'c) session \<Rightarrow> key \<Rightarrow> ('d, 'c) session \<times> (memError + bool)" where
  "sessionExists env s k =
     (case allowRead s of
        Some e \<Rightarrow> (s, Inl e)
      | None \<Rightarrow>
          (s\<lparr>sDB := touch (sDB s) (keyCollection k)\<rparr>,
           Inr (engExists (engineOf (sDB s) (keyCollection k)) (keyID_memory (keyText env) k))))"

definition sessionGet ::
  "('d, 'c) sessionEnv \<Rightarrow> ('d, 'c) session \<Rightarrow> 'd memRecord \<Rightarrow> ('d, 'c) session \<times> (memError + 'd)" where
  "sessionGet env s r =
     (case allowRead s of
        Some e \<Rightarrow> (s, Inl e)
      | None \<Rightarrow>
          let c = keyCollection (recKey r) in
          (case guardCollection (sDB s) c of
             Some e \<Rightarrow> (s, Inl e)
           | None \<Rightarrow>
               (s\<lparr>sDB := touch (sDB s) c\<rparr>,
                engLoad (colEnv env) (engineOf (sDB s) c) (keyID_memory (keyText env) (recKey r)) r)))"

definition IsNotFound :: "memError \<Rightarrow> bool" where
  "IsNotFound e = (case e of RecordNotFound _ \<Rightarrow> True | _ \<Rightarrow> False)"

text \<open>The loop of \<open>GetMulti\<close>: the results of the records it reached, and its error.\<close>

fun getMultiLoop ::
  "('d, 'c) sessionEnv \<Rightarrow> ('d, 'c) session \<Rightarrow> 'd memRecord list \<Rightarrow>
   ('d, 'c) session \<times> (memError + 'd) list \<times> memError option" where
  "getMultiLoop env s [] = (s, [], None)"
| "getMultiLoop env s (r # rs) =
     (case sessionGet env s r of
        (s1, res) \<Rightarrow>
          (case res of
             Inl e \<Rightarrow>
               if IsNotFound e
               then (case getMultiLoop env s1 rs of (s2, out, err) \<Rightarrow> (s2, res # out, err))
               else (s1, [res], Some e)
           | Inr d \<Rightarrow> (case getMultiLoop env s1 rs of (s2, out, err) \<Rightarrow> (s2, res # out, err))))"

definition sessionGetMulti ::
  "('d, 'c) sessionEnv \<Rightarrow> ('d, 'c) session \<Rightarrow> 'd memRecord list \<Rightarrow>
   ('d, 'c) session \<times> (memError + 'd) list \<times> memError option" where
  "sessionGetMulti env s rs =
     (case allowRead s of Some e \<Rightarrow> (s, [], Some e) | None \<Rightarrow> getMultiLoop env s rs)"

definition save ::
  "('d, 'c) sessionEnv \<Rightarrow> ('d, 'c) session \<Rightarrow> 'd memRecord \<Rightarrow> bool \<Rightarrow> ('d, 'c) session \<times> memError option" where
  "save env s r overwrite =
     (let c = keyCollection (recKey r) in
      case guardCollection (sDB s) c of
        Some e \<Rightarrow> (s, Some e)
      | None \<Rightarrow>
          (case engStore (colEnv env) (engineOf (sDB s) c) (keyID_memory (keyText env) (recKey r)) r overwrite of
             Inl e \<Rightarrow> (s\<lparr>sDB := touch (sDB s) c\<rparr>, Some e)
           | Inr eng \<Rightarrow> (s\<lparr>sDB := withEngine (sDB s) c eng\<rparr>, None)))"

definition markIfDone :: "('d, 'c) session \<times> memError option \<Rightarrow> ('d, 'c) session \<times> memError option" where
  "markIfDone r = (case r of (s, None) \<Rightarrow> (markWrite s, None) | (s, Some e) \<Rightarrow> (s, Some e))"

definition sessionSet ::
  "('d, 'c) sessionEnv \<Rightarrow> ('d, 'c) session \<Rightarrow> 'd memRecord \<Rightarrow> ('d, 'c) session \<times> memError option" where
  "sessionSet env s r = markIfDone (save env s r True)"

definition sessionDelete ::
  "('d, 'c) sessionEnv \<Rightarrow> ('d, 'c) session \<Rightarrow> key \<Rightarrow> ('d, 'c) session \<times> memError option" where
  "sessionDelete env s k =
     (let c = keyCollection k;
          eng = engDelete (colEnv env) (engineOf (sDB s) c) (keyID_memory (keyText env) k)
      in (markWrite (s\<lparr>sDB := withEngine (sDB s) c eng\<rparr>), None))"

definition sessionUpdate ::
  "('d, 'c) sessionEnv \<Rightarrow> ('d, 'c) session \<Rightarrow> key \<Rightarrow> fieldUpdate list \<Rightarrow> ('d, 'c) session \<times> memError option" where
  "sessionUpdate env s k updates =
     (let c = keyCollection k in
      case guardCollection (sDB s) c of
        Some e \<Rightarrow> (s, Some e)
      | None \<Rightarrow>
          (case engUpdate (colEnv env) (engineOf (sDB s) c) (keyID_memory (keyText env) k) updates of
             Inl e \<Rightarrow> (s\<lparr>sDB := touch (sDB s) c\<rparr>, Some e)
           | Inr eng \<Rightarrow> (markWrite (s\<lparr>sDB := withEngine (sDB s) c eng\<rparr>), None)))"

text \<open>\<open>SetMulti\<close>, \<open>InsertMulti\<close>, \<open>UpdateMulti\<close> and \<open>DeleteMulti\<close>: one call after the other, up to an error.\<close>

fun multi :: "('s \<Rightarrow> 'x \<Rightarrow> 's \<times> 'e option) \<Rightarrow> 's \<Rightarrow> 'x list \<Rightarrow> 's \<times> 'e option" where
  "multi f s [] = (s, None)"
| "multi f s (x # xs) = (case f s x of (s1, Some e) \<Rightarrow> (s1, Some e) | (s1, None) \<Rightarrow> multi f s1 xs)"

definition sessionSetMulti ::
  "('d, 'c) sessionEnv \<Rightarrow> ('d, 'c) session \<Rightarrow> 'd memRecord list \<Rightarrow> ('d, 'c) session \<times> memError option" where
  "sessionSetMulti env = multi (sessionSet env)"

definition sessionDeleteMulti ::
  "('d, 'c) sessionEnv \<Rightarrow> ('d, 'c) session \<Rightarrow> key list \<Rightarrow> ('d, 'c) session \<times> memError option" where
  "sessionDeleteMulti env = multi (sessionDelete env)"

definition sessionUpdateMulti ::
  "('d, 'c) sessionEnv \<Rightarrow> fieldUpdate list \<Rightarrow> ('d, 'c) session \<Rightarrow> key list \<Rightarrow> ('d, 'c) session \<times> memError option" where
  "sessionUpdateMulti env updates = multi (\<lambda>s k. sessionUpdate env s k updates)"

text \<open>
  \<open>Insert\<close>: with a generator of the options, or the default one when the adapter is to generate, the
  loop of \<open>dal.InsertWithIdGenerator\<close> with at most a hundred attempts; else a plain save. \<open>'g\<close> is the
  state of the generators, \<open>validate\<close> the data's \<open>ValidateWithKey\<close>.
\<close>

definition insertWithGeneratorMaxAttempts :: int where
  "insertWithGeneratorMaxAttempts = 100"

definition checkFree ::
  "('d, 'c) sessionEnv \<Rightarrow> ('d, 'c) session \<times> 'g \<Rightarrow> key \<Rightarrow> (('d, 'c) session \<times> 'g) \<times> memError checkResult" where
  "checkFree env st k =
     (let s = fst st; c = keyCollection k in
      ((s\<lparr>sDB := touch (sDB s) c\<rparr>, snd st),
       if engExists (engineOf (sDB s) c) (keyID_memory (keyText env) k) then KeyTaken else KeyFree))"

definition saveNew ::
  "('d, 'c) sessionEnv \<Rightarrow> 'd \<Rightarrow> ('d, 'c) session \<times> 'g \<Rightarrow> key \<Rightarrow> (('d, 'c) session \<times> 'g) \<times> memError option" where
  "saveNew env d st k =
     (case save env (fst st) \<lparr>recKey = k, recData = d\<rparr> False of (s, e) \<Rightarrow> ((s, snd st), e))"

definition liftGen :: "('g, 'e) IDGenerator \<Rightarrow> ('s \<times> 'g, 'e) IDGenerator" where
  "liftGen g st = (case g (snd st) of (g', r) \<Rightarrow> ((fst st, g'), r))"

definition sessionInsert ::
  "('d, 'c) sessionEnv \<Rightarrow> (int \<Rightarrow> 'g \<Rightarrow> 'g \<times> string) \<Rightarrow> (key \<Rightarrow> memError option) \<Rightarrow>
   ('g, memError) InsertOption list \<Rightarrow> ('d, 'c) session \<times> 'g \<Rightarrow> 'd memRecord \<Rightarrow>
   (('d, 'c) session \<times> 'g) \<times> key \<times> memError insertError option" where
  "sessionInsert env random validate opts st r =
     (let options = NewInsertOptions opts;
          gen = (if optIDGenerator options = None \<and> optPreferAdapterGeneratedID options
                 then optIDGenerator (NewInsertOptions [WithRandomStringKey random 16 5])
                 else optIDGenerator options)
      in case gen of
           Some g \<Rightarrow>
             (case InsertWithIdGenerator (liftGen g) insertWithGeneratorMaxAttempts validate
                     (checkFree env) (saveNew env (recData r)) st (recKey r) of
                (st', k, None) \<Rightarrow> ((markWrite (fst st'), snd st'), k, None)
              | (st', k, Some e) \<Rightarrow> (st', k, Some e))
         | None \<Rightarrow>
             (case markIfDone (save env (fst st) r False) of
                (s', e) \<Rightarrow> ((s', snd st), recKey r, map_option InsertFailed e)))"

subsection \<open>Transactions\<close>

text \<open>
  The worker is a function of the session. Whatever it returns, what it wrote stays: there is no
  rollback. Outside a transaction every method runs on a session without transaction state.
\<close>

definition runReadwrite ::
  "(('d, 'c) session \<Rightarrow> ('d, 'c) session \<times> 'r) \<Rightarrow> ('d, 'c) memoryDB \<Rightarrow> ('d, 'c) memoryDB \<times> 'r" where
  "runReadwrite worker db =
     (case worker \<lparr>sDB = db, sTx = Some \<lparr>txNoReadsAfterWrites = dbNoReadsAfterWrites db, txHasWritten = False\<rparr>\<rparr> of
        (s, r) \<Rightarrow> (sDB s, r))"

definition runReadonly ::
  "(('d, 'c) session \<Rightarrow> ('d, 'c) session \<times> 'r) \<Rightarrow> ('d, 'c) memoryDB \<Rightarrow> ('d, 'c) memoryDB \<times> 'r" where
  "runReadonly worker db = (case worker \<lparr>sDB = db, sTx = None\<rparr> of (s, r) \<Rightarrow> (sDB s, r))"

section \<open>The seam over both engines\<close>

definition memOps :: "('d, 'c) columnEnv \<Rightarrow> (('d, 'c) engine, 'd) engineOps" where
  "memOps env =
     \<lparr>eExists = engExists, eStore = engStore env, eLoad = engLoad env, eDelete = engDelete env,
      eUpdate = engUpdate env\<rparr>"

type_synonym 'd engineConfig = "(string \<times> 'd goFactory option) + columnarShape"
type_synonym 'c stored = "json + 'c list \<times> fields option"

fun engConfig :: "('d, 'c) engine \<Rightarrow> 'd engineConfig" where
  "engConfig (SerializedE e) = Inl (serializedConfig e)"
| "engConfig (ColumnarE e) = Inr (shapeOf e)"

fun engContent :: "('d, 'c) engine \<Rightarrow> 'c stored store_map" where
  "engContent (SerializedE e) = (\<lambda>rid. map_option (map_prod (\<lambda>k. k) Inl) (serializedContent e rid))"
| "engContent (ColumnarE e) = (\<lambda>rid. map_option (map_prod (\<lambda>k. k) Inr) (columnarContent e rid))"

fun engineInv :: "('d, 'c) engine \<Rightarrow> bool" where
  "engineInv (SerializedE e) = serializedInv e"
| "engineInv (ColumnarE e) = columnarInv e"

fun configCollection :: "'d engineConfig \<Rightarrow> string" where
  "configCollection (Inl c) = fst c"
| "configCollection (Inr sh) = shCollection sh"

fun storedOps :: "('d, 'c) columnEnv \<Rightarrow> 'd engineConfig \<Rightarrow> ('c stored, 'd) contentOps" where
  "storedOps env (Inl cfg) =
     (let C = documentOps (baseEnv env) cfg
      in \<lparr>cEncode = (\<lambda>d. map_sum (\<lambda>e. e) Inl (cEncode C d)),
          cDecode = (\<lambda>x d. cDecode C (projl x) d),
          cAmend = (\<lambda>us x. map_sum (\<lambda>e. e) Inl (cAmend C us (projl x)))\<rparr>)"
| "storedOps env (Inr sh) =
     (let C = rowOps env sh
      in \<lparr>cEncode = (\<lambda>d. map_sum (\<lambda>e. e) Inr (cEncode C d)),
          cDecode = (\<lambda>x d. cDecode C (projr x) d),
          cAmend = (\<lambda>us x. map_sum (\<lambda>e. e) Inr (cAmend C us (projr x)))\<rparr>)"

lemma map_sum_eq_Inl: "map_sum (\<lambda>x. x) f r = Inl e \<longleftrightarrow> r = Inl e"
  and map_sum_eq_Inr: "map_sum (\<lambda>x. x) f r = Inr y \<longleftrightarrow> (\<exists>x. r = Inr x \<and> y = f x)"
  by (cases r; auto)+

lemma engineOps_serialized: "eStore (serializedOps env) = serializedStore env"
    "eLoad (serializedOps env) = serializedLoad env" "eUpdate (serializedOps env) = serializedUpdate env"
    "eExists (serializedOps env) = serializedExists" "eDelete (serializedOps env) = serializedDelete"
  by (simp_all add: serializedOps_def)

lemma engineOps_columnar: "eStore (columnarOps env') = columnarStore env'"
    "eLoad (columnarOps env') = columnarLoad env'" "eUpdate (columnarOps env') = columnarUpdate env'"
    "eExists (columnarOps env') = columnarExists" "eDelete (columnarOps env') = columnarDelete env'"
  by (simp_all add: columnarOps_def)

lemmas engine_laws =
  serialized.exists_law [unfolded engineOps_serialized] serialized.store_err [unfolded engineOps_serialized]
  serialized.load_law [unfolded engineOps_serialized] serialized.delete_law [unfolded engineOps_serialized]
  serialized.update_err [unfolded engineOps_serialized]
  columnar.exists_law [unfolded engineOps_columnar] columnar.store_err [unfolded engineOps_columnar]
  columnar.load_law [unfolded engineOps_columnar] columnar.delete_law [unfolded engineOps_columnar]
  columnar.update_err [unfolded engineOps_columnar]

interpretation memory: storage_engine "memOps env" "storedOps env" configCollection engineInv engContent engConfig
  for env :: "('d, 'c) columnEnv"
proof (unfold_locales, goal_cases)
  case (1 e rid)
  then show ?case by (cases e) (simp_all add: memOps_def engine_laws)
next
  case (2 e rid r ow err)
  then show ?case by (cases e) (simp_all add: memOps_def engine_laws Let_def map_sum_eq_Inl)
next
  case (3 e rid r ow e')
  show ?case
  proof (cases e)
    case (SerializedE x)
    then obtain y where y: "serializedStore (baseEnv env) x rid r ow = Inr y" "e' = SerializedE y"
      using 3(2) by (auto simp: memOps_def map_sum_eq_Inr)
    have "serializedInv x" using 3(1) SerializedE by simp
    from serialized.store_ok [unfolded engineOps_serialized, OF this y(1)] show ?thesis
      using SerializedE y(2) by (auto simp: Let_def fun_eq_iff)
  next
    case (ColumnarE x)
    then obtain y where y: "columnarStore env x rid r ow = Inr y" "e' = ColumnarE y"
      using 3(2) by (auto simp: memOps_def map_sum_eq_Inr)
    have "columnarInv x" using 3(1) ColumnarE by simp
    from columnar.store_ok [unfolded engineOps_columnar, OF this y(1)] show ?thesis
      using ColumnarE y(2) by (auto simp: Let_def fun_eq_iff)
  qed
next
  case (4 e rid r)
  then show ?case
    by (cases e) (auto simp: memOps_def engine_laws Let_def split: option.split)
next
  case (5 e rid)
  then show ?case by (cases e) (auto simp: memOps_def engine_laws)
next
  case (6 e rid us err)
  then show ?case
    by (cases e) (auto simp: memOps_def engine_laws Let_def map_sum_eq_Inl split: option.splits)
next
  case (7 e rid us e')
  show ?case
  proof (cases e)
    case (SerializedE x)
    then obtain y where y: "serializedUpdate (baseEnv env) x rid us = Inr y" "e' = SerializedE y"
      using 7(2) by (auto simp: memOps_def map_sum_eq_Inr)
    have "serializedInv x" using 7(1) SerializedE by simp
    from serialized.update_ok [unfolded engineOps_serialized, OF this y(1)] show ?thesis
      using SerializedE y(2) by (auto simp: Let_def fun_eq_iff)
  next
    case (ColumnarE x)
    then obtain y where y: "columnarUpdate env x rid us = Inr y" "e' = ColumnarE y"
      using 7(2) by (auto simp: memOps_def map_sum_eq_Inr)
    have "columnarInv x" using 7(1) ColumnarE by simp
    from columnar.update_ok [unfolded engineOps_columnar, OF this y(1)] show ?thesis
      using ColumnarE y(2) by (auto simp: Let_def fun_eq_iff)
  qed
qed

section \<open>Histories of calls\<close>

datatype 'd sessionCall =
    CExists key
  | CGet "'d memRecord"
  | CSet "'d memRecord"
  | CInsert "'d memRecord"
  | CDelete key
  | CUpdate key "fieldUpdate list"

fun callKey :: "'d sessionCall \<Rightarrow> key" where
  "callKey (CExists k) = k"
| "callKey (CGet r) = recKey r"
| "callKey (CSet r) = recKey r"
| "callKey (CInsert r) = recKey r"
| "callKey (CDelete k) = k"
| "callKey (CUpdate k us) = k"

fun isRead :: "'d sessionCall \<Rightarrow> bool" where
  "isRead (CExists k) = True"
| "isRead (CGet r) = True"
| "isRead _ = False"

fun needsGuard :: "'d sessionCall \<Rightarrow> bool" where
  "needsGuard (CExists k) = False"
| "needsGuard (CDelete k) = False"
| "needsGuard _ = True"

fun callOp :: "string \<Rightarrow> 'd sessionCall \<Rightarrow> 'd engineOp" where
  "callOp rid (CExists k) = OpExists rid"
| "callOp rid (CGet r) = OpLoad rid r"
| "callOp rid (CSet r) = OpStore rid r True"
| "callOp rid (CInsert r) = OpStore rid r False"
| "callOp rid (CDelete k) = OpDelete rid"
| "callOp rid (CUpdate k us) = OpUpdate rid us"

definition doneResult :: "('d, 'c) session \<times> memError option \<Rightarrow> ('d, 'c) session \<times> 'd engineResult" where
  "doneResult r = (fst r, case snd r of None \<Rightarrow> RDone | Some e \<Rightarrow> RError e)"

text \<open>A plain insert is \<open>sessionInsert\<close> without options, see \<open>sessionInsert_plain\<close> below.\<close>

fun sessionStep ::
  "('d, 'c) sessionEnv \<Rightarrow> ('d, 'c) session \<Rightarrow> 'd sessionCall \<Rightarrow> ('d, 'c) session \<times> 'd engineResult" where
  "sessionStep env s (CExists k) =
     (case sessionExists env s k of (s', r) \<Rightarrow> (s', case r of Inl e \<Rightarrow> RError e | Inr b \<Rightarrow> RBool b))"
| "sessionStep env s (CGet r) =
     (case sessionGet env s r of (s', res) \<Rightarrow> (s', case res of Inl e \<Rightarrow> RError e | Inr d \<Rightarrow> RData d))"
| "sessionStep env s (CSet r) = doneResult (sessionSet env s r)"
| "sessionStep env s (CInsert r) = doneResult (markIfDone (save env s r False))"
| "sessionStep env s (CDelete k) = doneResult (sessionDelete env s k)"
| "sessionStep env s (CUpdate k us) = doneResult (sessionUpdate env s k us)"

lemma sessionInsert_plain:
  "sessionInsert env random validate [] st r =
     (case markIfDone (save env (fst st) r False) of
        (s', e) \<Rightarrow> ((s', snd st), recKey r, map_option InsertFailed e))"
  by (simp add: sessionInsert_def NewInsertOptions_def)

text \<open>What is registered under a name was made for it and kept its configuration.\<close>

definition initErrOf :: "('d, 'c) engine \<Rightarrow> memError option" where
  "initErrOf e = (case e of SerializedE _ \<Rightarrow> None | ColumnarE c \<Rightarrow> ceInitErr c)"

definition engineWf :: "('d, 'c) engine \<Rightarrow> ('d, 'c) engine \<Rightarrow> bool" where
  "engineWf fresh e =
     (if initErrOf fresh = None then engineInv e \<and> engConfig e = engConfig fresh else e = fresh)"

definition sameSchema :: "('d, 'c) memoryDB \<Rightarrow> ('d, 'c) memoryDB \<Rightarrow> bool" where
  "sameSchema db db0 =
     (dbSchema db = dbSchema db0 \<and> dbSchemaRefBreaking db = dbSchemaRefBreaking db0 \<and>
      dbNoReadsAfterWrites db = dbNoReadsAfterWrites db0)"

definition dbWf :: "('d, 'c) memoryDB \<Rightarrow> ('d, 'c) memoryDB \<Rightarrow> bool" where
  "dbWf db0 db = (sameSchema db db0 \<and> (\<forall>c. engineWf (newEngine db0 c) (engineOf db c)))"

lemma newEngine_same: "sameSchema db db0 \<Longrightarrow> newEngine db c = newEngine db0 c"
  unfolding sameSchema_def newEngine_def recordFactory_def by (elim conjE) (simp only:)

lemma guardCollection_same: "sameSchema db db0 \<Longrightarrow> guardCollection db c = guardCollection db0 c"
  by (simp add: sameSchema_def guardCollection_def recordFactory_def)

lemma engineOf_withEngine:
  "engineOf (withEngine db c e) c' = (if c' = c then e else engineOf db c')"
proof -
  have "newEngine (withEngine db c e) c' = newEngine db c'"
    by (rule newEngine_same) (simp add: sameSchema_def withEngine_def)
  then show ?thesis by (simp add: engineOf_def withEngine_def cong: option.case_cong)
qed

lemma engineOf_touch [simp]: "engineOf (touch db c) c' = engineOf db c'"
  by (simp add: touch_def engineOf_withEngine)

lemma sameSchema_withEngine [simp]: "sameSchema (withEngine db c e) db0 = sameSchema db db0"
  by (simp add: sameSchema_def withEngine_def)

lemma sameSchema_touch [simp]: "sameSchema (touch db c) db0 = sameSchema db db0"
  by (simp add: touch_def)

lemma newEngine_wf: "engineWf (newEngine db c) (newEngine db c)"
proof -
  have "engineInv (newEngine db c)" if "initErrOf (newEngine db c) = None"
    using that new_columnar_inv
    by (auto simp: newEngine_def Let_def initErrOf_def newSerializedEngine_def serializedInv_def keysOf_def
        split: engineChoice.splits)
  then show ?thesis by (simp add: engineWf_def)
qed

lemma newEngine_content: "engContent (newEngine db c) = (\<lambda>_. None)"
  by (auto simp: newEngine_def Let_def new_columnar_content newSerializedEngine_def serializedContent_def fun_eq_iff
      split: engineChoice.split)

lemma newEngine_collection: "configCollection (engConfig (newEngine db c)) = c"
  by (simp add: newEngine_def Let_def newSerializedEngine_def serializedConfig_def shapeOf_def new_columnar
      split: engineChoice.split)

text \<open>One call on the engine of a collection, whether it could be set up or not.\<close>

lemma engineStep_wf:
  assumes wf: "engineWf fresh e" and step: "engineStep (memOps env) e op = (e', res)"
  shows "engineWf fresh e' \<and>
    (case initErrOf fresh of
       Some err \<Rightarrow> e' = e \<and> res = initErrResult err op
     | None \<Rightarrow>
         mapStep (configCollection (engConfig fresh)) (storedOps env (engConfig fresh)) (engContent e) op =
         (engContent e', res))"
proof (cases "initErrOf fresh")
  case None
  then have "engineInv e" "engConfig e = engConfig fresh" using wf by (simp_all add: engineWf_def)
  then show ?thesis using memory.step_simulation [OF _ step] None by (simp add: engineWf_def)
next
  case (Some err)
  then obtain x where x: "e = ColumnarE x" "ceInitErr x = Some err" "e = fresh"
    using wf by (auto simp: engineWf_def initErrOf_def split: engine.splits)
  have "e' = e \<and> res = initErrResult err op"
    using step x(1,2)
    by (cases op) (auto simp: memOps_def columnarExists_def columnarStore_def columnarLoad_def
        columnarDelete_def columnarUpdate_def settle_def)
  then show ?thesis using Some x(3) wf by simp
qed

text \<open>The abstract database: a map from collections and storage identifiers.\<close>

type_synonym 'c db_map = "string \<Rightarrow> 'c stored store_map"

definition dbMapStep ::
  "('d, 'c) sessionEnv \<Rightarrow> ('d, 'c) memoryDB \<Rightarrow> 'c db_map \<Rightarrow> 'd sessionCall \<Rightarrow> 'c db_map \<times> 'd engineResult" where
  "dbMapStep env db0 m call =
     (let c = keyCollection (callKey call); fresh = newEngine db0 c;
          op = callOp (keyID_memory (keyText env) (callKey call)) call
      in if needsGuard call \<and> guardCollection db0 c \<noteq> None
         then (m, RError (the (guardCollection db0 c)))
         else case initErrOf fresh of
           Some err \<Rightarrow> (m, initErrResult err op)
         | None \<Rightarrow>
             (case mapStep c (storedOps (colEnv env) (engConfig fresh)) (m c) op of
                (mc, res) \<Rightarrow> (m(c := mc), res)))"

definition dbContent :: "('d, 'c) memoryDB \<Rightarrow> 'c db_map" where
  "dbContent db c = engContent (engineOf db c)"

text \<open>How a session call that is not refused acts: the guard, then one call on the collection's engine.\<close>

lemma sessionStep_engine:
  assumes "allowRead s = None \<or> \<not> isRead call"
    and "engineStep (memOps (colEnv env)) (engineOf (sDB s) (keyCollection (callKey call)))
      (callOp (keyID_memory (keyText env) (callKey call)) call) = (e', res)"
  shows "sessionStep env s call =
    (if needsGuard call \<and> guardCollection (sDB s) (keyCollection (callKey call)) \<noteq> None
     then (s, RError (the (guardCollection (sDB s) (keyCollection (callKey call)))))
     else let s' = s\<lparr>sDB := withEngine (sDB s) (keyCollection (callKey call)) e'\<rparr>
          in (if \<not> isRead call \<and> res = RDone then markWrite s' else s', res))"
  using assms
  by (cases call)
    (auto simp: sessionExists_def sessionGet_def sessionSet_def save_def sessionDelete_def sessionUpdate_def
      markIfDone_def doneResult_def memOps_def touch_def settle_def Let_def
      split: option.splits sum.splits)

lemma sessionStep_refused:
  "isRead call \<Longrightarrow> allowRead s = Some e \<Longrightarrow> sessionStep env s call = (s, RError e)"
  by (cases call) (simp_all add: sessionExists_def sessionGet_def)

lemma sDB_markWrite [simp]: "sDB (markWrite s) = sDB s"
  by (simp add: markWrite_def)

lemma dbWf_withEngine:
  "dbWf db0 db \<Longrightarrow> engineWf (newEngine db0 c) e \<Longrightarrow> dbWf db0 (withEngine db c e)"
  by (simp add: dbWf_def engineOf_withEngine)

lemma dbContent_withEngine: "dbContent (withEngine db c e) = (dbContent db)(c := engContent e)"
  by (simp add: dbContent_def engineOf_withEngine fun_eq_iff)

lemma sessionStep_simulation:
  assumes wf: "dbWf db0 (sDB s)" and ok: "allowRead s = None \<or> \<not> isRead call"
    and step: "sessionStep env s call = (s', res)"
  shows "dbWf db0 (sDB s') \<and> dbMapStep env db0 (dbContent (sDB s)) call = (dbContent (sDB s'), res)"
proof -
  define c where "c = keyCollection (callKey call)"
  define op where "op = callOp (keyID_memory (keyText env) (callKey call)) call"
  define eng where "eng = engineOf (sDB s) c"
  obtain e1 r1 where e1: "engineStep (memOps (colEnv env)) eng op = (e1, r1)"
    by (cases "engineStep (memOps (colEnv env)) eng op")
  have guard: "guardCollection (sDB s) c = guardCollection db0 c"
    using wf guardCollection_same [of "sDB s" db0 c] by (simp add: dbWf_def)
  show ?thesis
  proof (cases "needsGuard call \<and> guardCollection db0 c \<noteq> None")
    case True
    then show ?thesis
      using sessionStep_engine [OF ok e1 [unfolded eng_def c_def op_def]] step wf guard
      by (simp add: dbMapStep_def c_def [symmetric] Let_def)
  next
    case False
    have s': "sDB s' = withEngine (sDB s) c e1" "res = r1"
      using sessionStep_engine [OF ok e1 [unfolded eng_def c_def op_def]] step False guard
      by (auto simp: c_def [symmetric] Let_def split: if_splits)
    have "engineWf (newEngine db0 c) eng" using wf by (simp add: dbWf_def eng_def)
    from engineStep_wf [OF this e1] have e: "engineWf (newEngine db0 c) e1"
      "case initErrOf (newEngine db0 c) of
         Some err \<Rightarrow> e1 = eng \<and> r1 = initErrResult err op
       | None \<Rightarrow> mapStep c (storedOps (colEnv env) (engConfig (newEngine db0 c))) (engContent eng) op =
           (engContent e1, r1)"
      by (simp_all add: newEngine_collection cong: option.case_cong)
    have "dbMapStep env db0 (dbContent (sDB s)) call = (dbContent (sDB s'), res)"
    proof (cases "initErrOf (newEngine db0 c)")
      case None
      then show ?thesis
        using e(2) False s'
        by (simp add: dbMapStep_def c_def [symmetric] op_def [symmetric] Let_def dbContent_withEngine)
          (auto simp: dbContent_def eng_def)
    next
      case (Some err)
      then have "dbContent (sDB s') = dbContent (sDB s)"
        using e(2) s' by (simp add: dbContent_withEngine) (simp add: dbContent_def eng_def fun_eq_iff)
      then show ?thesis
        using e(2) False s' Some
        by (auto simp: dbMapStep_def c_def [symmetric] op_def [symmetric] Let_def)
    qed
    then show ?thesis using dbWf_withEngine [OF wf e(1)] s' by simp
  qed
qed

lemma sTx_sessionStep_None:
  assumes "sTx s = None" and "sessionStep env s call = (s', res)"
  shows "sTx s' = None"
proof -
  obtain e1 r1 where e1: "engineStep (memOps (colEnv env)) (engineOf (sDB s) (keyCollection (callKey call)))
      (callOp (keyID_memory (keyText env) (callKey call)) call) = (e1, r1)" by fastforce
  have "allowRead s = None" using assms(1) by (simp add: allowRead_def)
  from sessionStep_engine [OF disjI1 [OF this] e1] assms show ?thesis
    by (auto simp: Let_def markWrite_def split: if_splits)
qed

lemma session_trace:
  assumes "dbWf db0 (sDB s)" and "sTx s = None" and "runEngine (sessionStep env) s calls = (s', rs)"
  shows "dbWf db0 (sDB s') \<and>
    runEngine (dbMapStep env db0) (dbContent (sDB s)) calls = (dbContent (sDB s'), rs)"
  using assms
proof (induction calls arbitrary: s rs)
  case (Cons call calls)
  obtain s1 r where step: "sessionStep env s call = (s1, r)" by (cases "sessionStep env s call")
  obtain s2 rs' where rest: "runEngine (sessionStep env) s1 calls = (s2, rs')"
    by (cases "runEngine (sessionStep env) s1 calls")
  have "allowRead s = None" using Cons.prems(2) by (simp add: allowRead_def)
  then have "dbWf db0 (sDB s1) \<and> dbMapStep env db0 (dbContent (sDB s)) call = (dbContent (sDB s1), r)"
    using sessionStep_simulation [OF Cons.prems(1) _ step] by blast
  moreover have "sTx s1 = None" using sTx_sessionStep_None [OF Cons.prems(2) step] .
  ultimately show ?case using Cons.IH [of s1 rs'] Cons.prems(3) step rest by auto
qed simp

lemma dbCollections_NewDB: "dbCollections (NewDB opts :: ('d, 'c) memoryDB) = []"
proof -
  have "dbCollections (foldl applyDBOption db opts) = dbCollections db" for db :: "('d, 'c) memoryDB"
  proof (induction opts arbitrary: db)
    case (Cons o1 opts)
    then show ?case by (cases o1) simp_all
  qed simp
  then show ?thesis by (simp add: NewDB_def)
qed

lemma engineOf_NewDB: "engineOf (NewDB opts) c = newEngine (NewDB opts) c"
  by (simp add: engineOf_def dbCollections_NewDB)

lemma dbWf_NewDB: "dbWf (NewDB opts) (NewDB opts)"
  by (simp add: dbWf_def engineOf_NewDB newEngine_wf sameSchema_def)

lemma dbContent_NewDB: "dbContent (NewDB opts) = (\<lambda>_ _. None)"
  by (simp add: dbContent_def engineOf_NewDB newEngine_content fun_eq_iff)

section \<open>Properties\<close>

text \<open>C3: A new in-memory database, whatever schema and storage engines its options choose, answers every
  history of calls as one map from collections and storage identifiers to stored records does:
  collections do not interfere, engines may be mixed, undefined collections are refused where the
  schema is closed, and an engine that could not be set up answers with its error.\<close>

theorem memory_database_is_map:
  "map_prod (\<lambda>s. dbContent (sDB s)) (\<lambda>rs. rs)
     (runEngine (sessionStep env) \<lparr>sDB = NewDB opts, sTx = None\<rparr> calls) =
   runEngine (dbMapStep env (NewDB opts)) (\<lambda>_ _. None) calls"
proof -
  obtain s' rs where run: "runEngine (sessionStep env) \<lparr>sDB = NewDB opts, sTx = None\<rparr> calls = (s', rs)"
    by (cases "runEngine (sessionStep env) \<lparr>sDB = NewDB opts, sTx = None\<rparr> calls")
  from session_trace [OF _ _ run, of "NewDB opts"] show ?thesis
    using run by (simp add: dbWf_NewDB dbContent_NewDB)
qed

subsection \<open>Reads after writes\<close>

lemma noReads_fixed: "sTx s = Some t \<Longrightarrow> sessionStep env s call = (s', res) \<Longrightarrow>
    \<exists>t'. sTx s' = Some t' \<and> txNoReadsAfterWrites t' = txNoReadsAfterWrites t \<and>
      (txHasWritten t' \<longleftrightarrow> txHasWritten t \<or> (\<not> isRead call \<and> res = RDone))"
proof -
  assume t: "sTx s = Some t" and step: "sessionStep env s call = (s', res)"
  obtain e1 r1 where e1: "engineStep (memOps (colEnv env)) (engineOf (sDB s) (keyCollection (callKey call)))
      (callOp (keyID_memory (keyText env) (callKey call)) call) = (e1, r1)" by fastforce
  show ?thesis
  proof (cases "allowRead s = None \<or> \<not> isRead call")
    case True
    from sessionStep_engine [OF this e1] step t show ?thesis
      by (auto simp: Let_def markWrite_def split: if_splits)
  next
    case False
    then show ?thesis using sessionStep_refused [of call s _ env] step t by auto
  qed
qed

lemma new_columnar_initErr: "ceInitErr (newColumnarEngine cfg coll f b) \<noteq> Some ReadAfterWriteInTransaction"
  by (simp add: newColumnarEngine_def newMapBackedEngine_def emptyColumnar_def Let_def split: option.split)

lemma load_errors: "engineWf (newEngine db0 c) e \<Longrightarrow> engLoad env e rid r \<noteq> Inl ReadAfterWriteInTransaction"
proof -
  have init: "initErrOf (newEngine db0 c) \<noteq> Some ReadAfterWriteInTransaction"
    by (simp add: newEngine_def initErrOf_def Let_def new_columnar_initErr split: engineChoice.split)
  assume wf: "engineWf (newEngine db0 c) e"
  show ?thesis
  proof (cases e)
    case (SerializedE x)
    then show ?thesis by (simp add: serializedLoad_def split: option.split)
  next
    case (ColumnarE x)
    then have "ceInitErr x \<noteq> Some ReadAfterWriteInTransaction"
      using wf init slotsInvD(1) [of x]
      by (auto simp: engineWf_def initErrOf_def columnarInv_def split: if_splits engine.splits)
    then show ?thesis using ColumnarE
      by (auto simp: columnarLoad_def materializeSlot_def materializeRow_def split: option.splits)
  qed
qed

lemma read_refused_iff:
  assumes "dbWf db0 (sDB s)" and "isRead call" and "sessionStep env s call = (s', res)"
  shows "res = RError ReadAfterWriteInTransaction \<longleftrightarrow> allowRead s \<noteq> None"
proof -
  have "engineWf (newEngine db0 c) (engineOf (sDB s) c)" for c using assms(1) by (simp add: dbWf_def)
  note load = load_errors [OF this]
  have "guardCollection (sDB s) c \<noteq> Some ReadAfterWriteInTransaction" for c
    by (simp add: guardCollection_def recordFactory_def split: option.split)
  moreover have "allowRead s = None \<or> allowRead s = Some ReadAfterWriteInTransaction"
    by (simp add: allowRead_def split: option.split)
  ultimately show ?thesis
    using assms(2,3) load
    by (cases call) (auto simp: sessionExists_def sessionGet_def Let_def split: option.splits sum.splits)
qed

lemma dbWf_sessionStep:
  "dbWf db0 (sDB s) \<Longrightarrow> sessionStep env s call = (s', res) \<Longrightarrow> dbWf db0 (sDB s')"
  using sessionStep_simulation [of db0 s call env s' res] sessionStep_refused [of call s _ env]
  by (cases "allowRead s = None \<or> \<not> isRead call") auto

lemma refused_trace:
  assumes "dbWf db0 (sDB s)" and "sTx s = Some t" and "runEngine (sessionStep env) s calls = (s', rs)"
    and "i < length calls" and "isRead (calls ! i)"
  shows "rs ! i = RError ReadAfterWriteInTransaction \<longleftrightarrow>
    txNoReadsAfterWrites t \<and>
    (txHasWritten t \<or> (\<exists>j < i. \<not> isRead (calls ! j) \<and> rs ! j = RDone))"
  using assms
proof (induction calls arbitrary: s t rs i)
  case (Cons call calls)
  obtain s1 r where step: "sessionStep env s call = (s1, r)" by (cases "sessionStep env s call")
  obtain s2 rs' where rest: "runEngine (sessionStep env) s1 calls = (s2, rs')"
    by (cases "runEngine (sessionStep env) s1 calls")
  have rs: "rs = r # rs'" "s2 = s'" using Cons.prems(3) step rest by auto
  obtain t' where t': "sTx s1 = Some t'" "txNoReadsAfterWrites t' = txNoReadsAfterWrites t"
    "txHasWritten t' \<longleftrightarrow> txHasWritten t \<or> (\<not> isRead call \<and> r = RDone)"
    using noReads_fixed [OF Cons.prems(2) step] by blast
  show ?case
  proof (cases i)
    case 0
    then show ?thesis
      using read_refused_iff [OF Cons.prems(1) _ step] Cons.prems(2,5) rs
      by (simp add: allowRead_def)
  next
    case (Suc j)
    have "rs' ! j = RError ReadAfterWriteInTransaction \<longleftrightarrow>
        txNoReadsAfterWrites t' \<and> (txHasWritten t' \<or> (\<exists>l < j. \<not> isRead (calls ! l) \<and> rs' ! l = RDone))"
      using Cons.IH [OF dbWf_sessionStep [OF Cons.prems(1) step] t'(1) rest [unfolded rs(2)]] Cons.prems(4,5) Suc by simp
    then show ?thesis using t' rs Suc by (auto simp: Ex_less_Suc2)
  qed
qed simp

text \<open>C18: In a read-write transaction of a database made with the option against reads after writes, a
  read is refused exactly when an earlier call of the transaction has written something; without
  the option no read is refused. A write that failed does not count.\<close>

theorem read_after_write_refused:
  fixes env :: "('d, 'c) sessionEnv"
  assumes "runEngine (sessionStep env) \<lparr>sDB = NewDB opts,
      sTx = Some \<lparr>txNoReadsAfterWrites = dbNoReadsAfterWrites (NewDB opts :: ('d, 'c) memoryDB),
        txHasWritten = False\<rparr>\<rparr> calls = (s', rs)"
    and "i < length calls" and "isRead (calls ! i)"
  shows "rs ! i = RError ReadAfterWriteInTransaction \<longleftrightarrow>
    dbNoReadsAfterWrites (NewDB opts :: ('d, 'c) memoryDB) \<and> (\<exists>j < i. \<not> isRead (calls ! j) \<and> rs ! j = RDone)"
  using refused_trace [OF _ _ assms(1), of "NewDB opts", OF _ _ assms(2,3)] by (simp add: dbWf_NewDB)

subsection \<open>Generated identifiers\<close>

lemma dbContent_touch [simp]: "dbContent (touch db c) = dbContent db"
  by (simp add: dbContent_def fun_eq_iff)

lemma dbWf_touch [simp]: "dbWf db0 (touch db c) = dbWf db0 db"
  by (simp add: dbWf_def)

text \<open>What an insert that may not overwrite does to the map.\<close>

definition insertedAt ::
  "('d, 'c) sessionEnv \<Rightarrow> 'c db_map \<Rightarrow> key \<Rightarrow> 'c db_map \<Rightarrow> bool" where
  "insertedAt env m k m' =
     (let c = keyCollection k; rid = keyID_memory (keyText env) k
      in m c rid = None \<and> (\<exists>x. m' = m(c := (m c)(rid \<mapsto> (k, x)))))"

lemma dbMapStep_insert:
  assumes "dbMapStep env db0 m (CInsert r) = (m', res)"
  shows "(if res = RDone then insertedAt env m (recKey r) m' else m' = m)"
  using assms
  by (cases "m (keyCollection (recKey r)) (keyID_memory (keyText env) (recKey r))")
    (auto simp: dbMapStep_def insertedAt_def Let_def split: if_splits option.splits sum.splits)

lemma save_insert:
  assumes wf: "dbWf db0 (sDB s)" and sv: "save env s r False = (s', err)"
  shows "dbWf db0 (sDB s') \<and>
    (if err = None then insertedAt env (dbContent (sDB s)) (recKey r) (dbContent (sDB s'))
     else dbContent (sDB s') = dbContent (sDB s))"
proof -
  obtain s1 res where step: "sessionStep env s (CInsert r) = (s1, res)"
    by (cases "sessionStep env s (CInsert r)")
  have s1: "sDB s1 = sDB s'" "res = RDone \<longleftrightarrow> err = None"
    using step sv by (auto simp: doneResult_def markIfDone_def split: option.splits)
  from sessionStep_simulation [OF wf _ step] have
    "dbWf db0 (sDB s1) \<and> dbMapStep env db0 (dbContent (sDB s)) (CInsert r) = (dbContent (sDB s1), res)"
    by simp
  then show ?thesis
    using dbMapStep_insert [of env db0 "dbContent (sDB s)" r "dbContent (sDB s1)" res] s1 by (auto split: if_splits)
qed

lemma insertAttempts_session:
  assumes "dbWf db0 (sDB (fst st))"
    and "insertAttempts m n (liftGen g) validate (checkFree env) (saveNew env d) st k = (st', k', err)"
  shows "if err = None then insertedAt env (dbContent (sDB (fst st))) k' (dbContent (sDB (fst st')))
    else dbContent (sDB (fst st')) = dbContent (sDB (fst st))"
  using assms
proof (induction n arbitrary: st k)
  case (Suc n)
  obtain s g0 where st: "st = (s, g0)" by (cases st)
  obtain g1 r where g1: "g g0 = (g1, r)" by (cases "g g0")
  show ?case
  proof (cases r)
    case (Inl e)
    then show ?thesis using Suc.prems st g1 by (auto simp: liftGen_def)
  next
    case (Inr v)
    define k1 where "k1 = withKeyID v k"
    define s2 where "s2 = s\<lparr>sDB := touch (sDB s) (keyCollection k1)\<rparr>"
    define taken where "taken = engExists (engineOf (sDB s) (keyCollection k1)) (keyID_memory (keyText env) k1)"
    have check: "checkFree env (s, g1) k1 = ((s2, g1), if taken then KeyTaken else KeyFree)"
      by (simp add: checkFree_def Let_def s2_def taken_def)
    have wf2: "dbWf db0 (sDB s2)" and same: "dbContent (sDB s2) = dbContent (sDB s)"
      using Suc.prems(1) st by (simp_all add: s2_def)
    have unfold: "insertAttempts m (Suc n) (liftGen g) validate (checkFree env) (saveNew env d) st k =
      (case validate k1 of
         Some e \<Rightarrow> ((s, g1), k1, Some (ValidateFailed e))
       | None \<Rightarrow>
           if taken then insertAttempts m n (liftGen g) validate (checkFree env) (saveNew env d) (s2, g1) k1
           else (case saveNew env d (s2, g1) k1 of (s3, r) \<Rightarrow> (s3, k1, map_option InsertFailed r)))"
      using st g1 Inr check by (simp add: liftGen_def k1_def [symmetric] Let_def split: option.split)
    show ?thesis
    proof (cases "validate k1 = None \<and> taken")
      case True
      then show ?thesis
        using Suc.IH [of "(s2, g1)" k1] Suc.prems(2) unfold wf2 same st by (auto split: if_splits)
    next
      case False
      obtain s3 e3 where sv: "save env s2 \<lparr>recKey = k1, recData = d\<rparr> False = (s3, e3)" by fastforce
      show ?thesis
        using False Suc.prems(2) [unfolded unfold] st save_insert [OF wf2 sv] same
        by (auto simp: saveNew_def sv split: option.splits if_splits)
    qed
  qed
qed auto

text \<open>C29: An insert with a generated identifier never overwrites: when it reports success the storage
  identifier of the generated key was free and now holds the record, and nothing else has changed;
  when it reports an error, whether the generator, the validation, the limit of attempts or the
  storage failed, no stored record has changed. This holds whatever the generator produces.\<close>

theorem generated_insert_preserves:
  assumes "runEngine (sessionStep env) \<lparr>sDB = NewDB opts, sTx = None\<rparr> calls = (s, rs)"
    and "sessionInsert env random validate insertOpts (s, g) r = ((s', g'), k, err)"
  shows "if err = None then insertedAt env (dbContent (sDB s)) k (dbContent (sDB s'))
    else dbContent (sDB s') = dbContent (sDB s)"
proof -
  have wf: "dbWf (NewDB opts) (sDB s)"
    using session_trace [OF _ _ assms(1), of "NewDB opts"] by (simp add: dbWf_NewDB)
  define gen where "gen = (if optIDGenerator (NewInsertOptions insertOpts) = None \<and>
      optPreferAdapterGeneratedID (NewInsertOptions insertOpts)
    then optIDGenerator (NewInsertOptions [WithRandomStringKey random 16 5])
    else optIDGenerator (NewInsertOptions insertOpts))"
  show ?thesis
  proof (cases gen)
    case None
    obtain s1 e1 where sv: "save env s r False = (s1, e1)" by fastforce
    have "sDB s' = sDB s1" "k = recKey r" "err = None \<longleftrightarrow> e1 = None"
      using assms(2) None sv
      by (auto simp: sessionInsert_def gen_def [symmetric] Let_def markIfDone_def split: option.splits)
    then show ?thesis using save_insert [OF wf sv] by simp
  next
    case (Some f)
    obtain st1 k1 e1 where ins: "insertAttempts insertWithGeneratorMaxAttempts (nat insertWithGeneratorMaxAttempts)
        (liftGen f) validate (checkFree env) (saveNew env (recData r)) (s, g) (recKey r) = (st1, k1, e1)"
      using prod_cases3 by blast
    have "sDB s' = sDB (fst st1)" "k = k1" "err = None \<longleftrightarrow> e1 = None"
      using assms(2) Some ins
      by (auto simp: sessionInsert_def gen_def [symmetric] Let_def InsertWithIdGenerator_def
          split: option.splits)
    then show ?thesis
      using insertAttempts_session [OF _ ins, of "NewDB opts"] wf by (auto split: if_splits)
  qed
qed

subsection \<open>Storage identifiers\<close>

definition plainKey :: "(goval \<Rightarrow> string) \<Rightarrow> key \<Rightarrow> bool" where
  "plainKey idText k =
     list_all (\<lambda>kk. CHR ''/'' \<notin> set (keyCollection kk) \<and> CHR ''/'' \<notin> set (fmtSprint idText (keyID kk)))
       (keyChain k)"

definition chainTexts :: "(goval \<Rightarrow> string) \<Rightarrow> key \<Rightarrow> (string \<times> string) list" where
  "chainTexts idText k = map (\<lambda>kk. (keyCollection kk, fmtSprint idText (keyID kk))) (keyChain k)"

lemma keyChain_Cons: "keyChain k = k # (case keyParent k of None \<Rightarrow> [] | Some p \<Rightarrow> keyChain p)"
  by (cases k) simp

lemma splitOn_pairs:
  assumes "xs \<noteq> []" and "\<forall>(a, b) \<in> set xs. CHR ''/'' \<notin> set a \<and> CHR ''/'' \<notin> set b"
  shows "splitOn (CHR ''/'') (joinWith ''/'' (map (\<lambda>(a, b). a @ ''/'' @ b) xs)) = concat (map (\<lambda>(a, b). [a, b]) xs)"
  using assms
proof (induction xs rule: induct_list012)
  case (2 p)
  then show ?case by (cases p) (simp add: splitOn_append_sep splitOn_no_sep)
next
  case (3 p q xs)
  obtain a b where p: "p = (a, b)" by (cases p)
  have "splitOn (CHR ''/'') (joinWith ''/'' (map (\<lambda>(a, b). a @ ''/'' @ b) (q # xs))) =
      concat (map (\<lambda>(a, b). [a, b]) (q # xs))"
    using "3.IH"(2) "3.prems" by simp
  then show ?case using "3.prems" p by (simp add: splitOn_append_sep)
qed simp

lemma split_keyPath:
  "plainKey idText k \<Longrightarrow>
   splitOn (CHR ''/'') (keyPath idText k) = concat (map (\<lambda>(a, b). [a, b]) (rev (chainTexts idText k)))"
  using splitOn_pairs [of "rev (chainTexts idText k)"]
  by (auto simp: plainKey_def keyPath_def chainTexts_def list_all_iff rev_map keyChain_Cons [of k] comp_def)

lemma concat_pairs_inj:
  "concat (map (\<lambda>(a, b). [a, b]) xs) = concat (map (\<lambda>(a, b). [a, b]) ys) \<Longrightarrow> xs = ys"
proof (induction xs arbitrary: ys)
  case Nil
  then show ?case by (cases ys) auto
next
  case (Cons x xs)
  then show ?case by (cases ys; cases x) auto
qed

lemma concat_pairs_length: "length (concat (map (\<lambda>(a, b). [a, b]) xs)) = 2 * length xs"
  by (induction xs) auto

text \<open>Within a collection two records share a storage identifier only when their keys read alike: as
  long as no collection name and no identifier text contains a slash, equal storage identifiers mean
  equal chains of collections and identifier texts, so equal leaf identifiers under different parents
  are kept apart.\<close>

theorem storage_id_separates:
  assumes "plainKey idText k" and "plainKey idText k'"
    and "keyCollection k = keyCollection k'" and "keyID_memory idText k = keyID_memory idText k'"
  shows "chainTexts idText k = chainTexts idText k'"
proof -
  have root: "splitOn (CHR ''/'') (keyID_memory idText x) = [fmtSprint idText (keyID x)]"
      "chainTexts idText x = [(keyCollection x, fmtSprint idText (keyID x))]"
    if "keyParent x = None" "plainKey idText x" for x
    using that by (simp_all add: keyID_memory_def plainKey_def chainTexts_def keyChain_Cons [of x] splitOn_no_sep)
  have nested: "splitOn (CHR ''/'') (keyID_memory idText x) = concat (map (\<lambda>(a, b). [a, b]) (rev (chainTexts idText x)))"
    if "keyParent x \<noteq> None" "plainKey idText x" for x
    using that by (auto simp: keyID_memory_def split_keyPath)
  have even: "length (splitOn (CHR ''/'') (keyID_memory idText x)) \<noteq> 1"
    if "keyParent x \<noteq> None" "plainKey idText x" for x
    using nested [OF that] concat_pairs_length [of "rev (chainTexts idText x)"] by simp
  have same: "splitOn (CHR ''/'') (keyID_memory idText k) = splitOn (CHR ''/'') (keyID_memory idText k')"
    using assms(4) by simp
  show ?thesis
  proof (cases "keyParent k = None")
    case True
    then have "keyParent k' = None" using even [OF _ assms(2)] root(1) [OF True assms(1)] same by fastforce
    then show ?thesis using True root [OF _ assms(1)] root [OF _ assms(2)] same assms(3) by simp
  next
    case False
    then have "keyParent k' \<noteq> None" using even [OF _ assms(1)] root(1) [OF _ assms(2)] same by fastforce
    then have "rev (chainTexts idText k) = rev (chainTexts idText k')"
      using nested [OF False assms(1)] nested [OF _ assms(2)] same concat_pairs_inj by metis
    then show ?thesis by simp
  qed
qed

theorem storage_id_separates_witness:
  "let idText = \<lambda>_. [];
       k = Key ''items'' (goStr ''i1'') (Some (Key ''spaces'' (goStr ''A'') None));
       k' = Key ''items'' (GInt ''int'' 1) (Some (Key ''spaces'' (goStr ''A'') None));
       k'' = Key ''items'' (goStr ''1'') (Some (Key ''spaces'' (goStr ''A'') None))
   in chainTexts idText k' = chainTexts idText k'' \<and> keyID_memory idText k \<noteq> keyID_memory idText k'"
proof -
  let ?t = "\<lambda>_. [] :: string"
  let ?k' = "Key ''items'' (GInt ''int'' 1) (Some (Key ''spaces'' (goStr ''A'') None))"
  let ?k'' = "Key ''items'' (goStr ''1'') (Some (Key ''spaces'' (goStr ''A'') None))"
  have plain: "plainKey ?t ?k'" "plainKey ?t ?k''" by code_simp+
  have eq: "keyID_memory ?t ?k' = keyID_memory ?t ?k''" by code_simp
  have "chainTexts ?t ?k' = chainTexts ?t ?k''"
    by (rule storage_id_separates [OF plain _ eq]) simp
  moreover have "keyID_memory ?t (Key ''items'' (goStr ''i1'') (Some (Key ''spaces'' (goStr ''A'') None)))
      \<noteq> keyID_memory ?t ?k'" by code_simp
  ultimately show ?thesis by (simp add: Let_def)
qed

subsection \<open>A sample environment\<close>

text \<open>Maps as record data, values as cells: what \<open>encoding/json\<close> does with \<open>map[string]any\<close> records.\<close>

definition sampleValueEnv :: valueEnv where
  "sampleValueEnv = \<lparr>otherText = (\<lambda>_. ''?''), otherJSON = (\<lambda>_. None)\<rparr>"

definition mapDataEnv :: "fields dataEnv" where
  "mapDataEnv =
     \<lparr>valEnv = sampleValueEnv,
      marshalData = (\<lambda>m. marshal sampleValueEnv (VMap m)),
      unmarshalInto = (\<lambda>j m. case decodeMap j of
         None \<Rightarrow> None | Some None \<Rightarrow> Some m | Some (Some m') \<Rightarrow> Some (copyInto m m'))\<rparr>"

definition stringElem :: "value elemType" where
  "stringElem =
     \<lparr>etZero = VString ''string'' [],
      etDecode = (\<lambda>v. case v of VString t s \<Rightarrow> Some v | VNil \<Rightarrow> Some (VString ''string'' []) | _ \<Rightarrow> None),
      etEncode = marshal sampleValueEnv, etComparable = True, etEquals = (\<lambda>c v. goEq c v = Some True)\<rparr>"

definition anyElem :: "value elemType" where
  "anyElem =
     \<lparr>etZero = VNil, etDecode = Some, etEncode = marshal sampleValueEnv, etComparable = True,
      etEquals = (\<lambda>c v. goEq c v = Some True)\<rparr>"

definition sampleColumnEnv :: "(fields, value) columnEnv" where
  "sampleColumnEnv =
     \<lparr>baseEnv = mapDataEnv, elemOps = (\<lambda>t. if t = TBasic ''string'' then stringElem else anyElem),
      ofAny = (\<lambda>v. v), liveField = (\<lambda>_ _. None)\<rparr>"

definition sampleSessionEnv :: "(fields, value) sessionEnv" where
  "sampleSessionEnv = \<lparr>colEnv = sampleColumnEnv, keyText = (\<lambda>_. ''?'')\<rparr>"

definition sampleRecord :: "string \<Rightarrow> fields memRecord" where
  "sampleRecord s = \<lparr>recKey = Key ''notes'' (goStr ''n1'') None, recData = [(''text'', VString ''string'' s)]\<rparr>"

abbreviation sampleRun ::
  "fields dbOption list \<Rightarrow> transactionState option \<Rightarrow> fields sessionCall list \<Rightarrow>
   (fields, value) session \<times> fields engineResult list" where
  "sampleRun opts tx calls \<equiv> runEngine (sessionStep sampleSessionEnv) \<lparr>sDB = NewDB opts, sTx = tx\<rparr> calls"

theorem read_after_write_refused_witness:
  "snd (sampleRun [WithNoReadsAfterWritesInTransaction]
      (Some \<lparr>txNoReadsAfterWrites = True, txHasWritten = False\<rparr>) [CSet (sampleRecord ''a''), CGet (sampleRecord [])]) ! 1 =
   RError ReadAfterWriteInTransaction"
proof -
  let ?opts = "[WithNoReadsAfterWritesInTransaction] :: fields dbOption list"
  let ?tx = "Some \<lparr>txNoReadsAfterWrites = dbNoReadsAfterWrites (NewDB ?opts :: (fields, value) memoryDB), txHasWritten = False\<rparr>"
  let ?calls = "[CSet (sampleRecord ''a''), CGet (sampleRecord [])]"
  have opt: "dbNoReadsAfterWrites (NewDB ?opts :: (fields, value) memoryDB)" by code_simp
  obtain s' rs where run: "sampleRun ?opts ?tx ?calls = (s', rs)" by fastforce
  have "snd (sampleRun ?opts ?tx ?calls) ! 0 = RDone" by code_simp
  then have "rs ! 0 = RDone" using run by simp
  moreover have "\<not> isRead (?calls ! 0)" by simp
  ultimately have "rs ! 1 = RError ReadAfterWriteInTransaction"
    using read_after_write_refused [OF run, of 1] opt by (auto intro!: exI [of _ 0])
  then show ?thesis using run opt by simp
qed

definition counterIDs :: "nat \<Rightarrow> nat \<times> (memError + goval)" where
  "counterIDs n = (Suc n, Inr (goStr (''n'' @ natDec n)))"

theorem generated_insert_preserves_witness:
  "let (s, rs) = sampleRun [] None [CSet (sampleRecord ''a'')];
       ((s', g'), k, err) = sessionInsert sampleSessionEnv (\<lambda>_ g. (g, [])) (\<lambda>_. None)
         [\<lambda>o1. o1\<lparr>optIDGenerator := Some counterIDs\<rparr>] (s, 1 :: nat) (sampleRecord ''b'')
   in err = None \<and> keyID k = goStr ''n2'' \<and>
      insertedAt sampleSessionEnv (dbContent (sDB s)) k (dbContent (sDB s'))"
proof -
  let ?ins = "\<lambda>s. sessionInsert sampleSessionEnv (\<lambda>_ g. (g, [])) (\<lambda>_. None)
         [\<lambda>o1. o1\<lparr>optIDGenerator := Some counterIDs\<rparr>] (s, 1 :: nat) (sampleRecord ''b'')"
  obtain s rs where run: "sampleRun [] None [CSet (sampleRecord ''a'')] = (s, rs)" by fastforce
  obtain s' g' k err where ins: "?ins s = ((s', g'), k, err)" using prod_cases4 by (metis surj_pair)
  have "(case ?ins (fst (sampleRun [] None [CSet (sampleRecord ''a'')])) of (_, k, e) \<Rightarrow> e = None \<and> keyID k = goStr ''n2'')"
    by code_simp
  then have "err = None \<and> keyID k = goStr ''n2''" using run ins by simp
  then show ?thesis using generated_insert_preserves [OF run ins] run ins by simp
qed

text \<open>Storage identifiers collide beyond that: a record of the root collection whose identifier is the
  path of a nested record of the same collection name takes the nested record's place, and the
  integer 1 that of the text 1. Inserting the second of two different keys reports a duplicate of a
  record that was never stored.\<close>

theorem storage_id_collides:
  "let nested = Key ''items'' (goStr ''i1'') (Some (Key ''spaces'' (goStr ''A'') None));
       root = Key ''items'' (goStr ''spaces/A/items/i1'') None;
       number = Key ''items'' (GInt ''int'' 1) None;
       textual = Key ''items'' (goStr ''1'') None;
       ins = (\<lambda>k. CInsert \<lparr>recKey = k, recData = [] :: fields\<rparr>)
   in snd (sampleRun [] None [ins nested, ins root, ins number, ins textual]) =
      [RDone, RError (RecordAlreadyExists root), RDone, RError (RecordAlreadyExists textual)]"
  by code_simp

end
