(* ===== verification/DalQuery.thy ===== *)
theory DalQuery
  imports MemoryValue
begin

text \<open>
  The query language of package \<open>dal\<close>: expressions and conditions (\<open>src/dal/q_*.go\<close>), structured
  queries and their text (\<open>query_struct.go\<close>), and the builder (\<open>q_builder.go\<close>).

  Interfaces of which the package knows several implementations are datatypes with one constructor
  per implementation. The functions that make a condition from a Go value panic on a value of an
  unsupported type or on an array outside the operator \<open>In\<close>; a panic is \<^const>\<open>None\<close>. Builders are
  values: a builder and its \<open>Clone\<close> that are extended independently share the arrays behind their
  slices, which this model does not represent, so \<open>Clone\<close> is not part of it.
\<close>

section \<open>Definitions\<close>

subsection \<open>Expressions and conditions\<close>

type_synonym operator = string

definition Equal :: operator where "Equal = ''==''"
definition In :: operator where "In = ''In''"
definition GreaterThen :: operator where "GreaterThen = ''>''"
definition GreaterOrEqual :: operator where "GreaterOrEqual = ''>=''"
definition LessThen :: operator where "LessThen = ''<''"
definition LessOrEqual :: operator where "LessOrEqual = ''<=''"
definition And :: operator where "And = ''AND''"
definition Or :: operator where "Or = ''OR''"

lemmas operator_defs =
  Equal_def In_def GreaterThen_def GreaterOrEqual_def LessThen_def LessOrEqual_def And_def Or_def

definition IsGroupOperator :: "operator \<Rightarrow> bool" where
  "IsGroupOperator opr = (opr = In)"

text \<open>\<open>FieldRef source name isID\<close>; \<open>Function\<close> is an aggregate, \<open>Star\<close> the argument of \<open>COUNT(*)\<close>.\<close>

datatype expression =
    FieldRef string string bool
  | Constant "value"
  | Array "value"
  | Function string "expression list"
  | Star
  | OtherExpression string

datatype condition =
    NilCondition
  | Comparison operator expression expression
  | GroupCondition operator "condition list"
  | OtherCondition string

definition NewFieldRef :: "string \<Rightarrow> string \<Rightarrow> expression" where
  "NewFieldRef source name = FieldRef source name False"

definition Field :: "string \<Rightarrow> expression" where
  "Field name = NewFieldRef [] name"

definition IDCondition :: "string \<Rightarrow> value \<Rightarrow> condition" where
  "IDCondition name v = Comparison Equal (FieldRef [] name True) (Constant v)"

definition constantTypes :: "string list" where
  "constantTypes =
     [''<nil>'', ''bool'', ''string'', ''float32'', ''float64'', ''int'', ''int8'', ''int16'', ''int32'',
      ''int64'', ''uint'', ''uint8'', ''uint16'', ''uint32'', ''uint64'', ''time.Time'']"

definition arrayTypes :: "string list" where
  "arrayTypes =
     [''[]string'', ''[]int'', ''[]int8'', ''[]int16'', ''[]int32'', ''[]int64'', ''[]uint'', ''[]uint8'',
      ''[]uint16'', ''[]uint32'', ''[]uint64'', ''[]float32'', ''[]float64'']"

definition newArrayTypes :: "string list" where
  "newArrayTypes =
     [''[]string'', ''[]int'', ''[]int64'', ''[]uint'', ''[]uint8'', ''[]uint16'', ''[]uint32'', ''[]uint64'',
      ''[]float32'', ''[]float64'']"

text \<open>The argument of a condition: a plain Go value or already an expression.\<close>

datatype operand = PlainValue "value" | ExprValue expression

fun NewConstant :: "operand \<Rightarrow> expression option" where
  "NewConstant (PlainValue v) = (if typeText v \<in> set constantTypes then Some (Constant v) else None)"
| "NewConstant (ExprValue (Constant v)) = Some (Constant v)"
| "NewConstant (ExprValue _) = None"

definition NewArray :: "value \<Rightarrow> expression option" where
  "NewArray v = (if typeText v \<in> set newArrayTypes then Some (Array v) else None)"

fun WhereField :: "string \<Rightarrow> operator \<Rightarrow> operand \<Rightarrow> condition option" where
  "WhereField name opr (PlainValue v) =
     (if typeText v \<in> set constantTypes then Some (Comparison opr (Field name) (Constant v))
      else if typeText v \<in> set arrayTypes
      then (if opr \<noteq> In then None else Some (Comparison opr (Field name) (Array v)))
      else None)"
| "WhereField name opr (ExprValue (Constant v)) = Some (Comparison opr (Field name) (Constant v))"
| "WhereField name opr (ExprValue (FieldRef s n i)) = Some (Comparison opr (Field name) (FieldRef s n i))"
| "WhereField name opr (ExprValue (Array v)) =
     (if opr \<noteq> In then None else Some (Comparison opr (Field name) (Array v)))"
| "WhereField name opr (ExprValue _) = None"

text \<open>\<open>FieldRef.EqualTo\<close> passes on the name alone.\<close>

fun EqualTo :: "expression \<Rightarrow> operand \<Rightarrow> condition option" where
  "EqualTo (FieldRef source name isID) v = WhereField name Equal v"
| "EqualTo _ v = None"

record column_dal =
  colAlias :: string
  colExpression :: expression

record orderExpression =
  ordExpression :: expression
  ordDescending :: bool

definition Count :: column_dal where
  "Count = \<lparr>colAlias = [], colExpression = Function ''COUNT'' [Star]\<rparr>"

definition singleArgFunctionAs :: "string \<Rightarrow> string \<Rightarrow> expression \<Rightarrow> column_dal" where
  "singleArgFunctionAs name alias e = \<lparr>colAlias = alias, colExpression = Function name [e]\<rparr>"

subsection \<open>Text\<close>

record textEnv =
  tenvValue :: valueEnv
  constantText :: "value \<Rightarrow> string"

definition wordChar :: "char \<Rightarrow> bool" where
  "wordChar c = (isAlnum c \<or> c = CHR ''_'')"

definition RequiresEscaping :: "string \<Rightarrow> bool" where
  "RequiresEscaping s = (\<not> (s \<noteq> [] \<and> list_all wordChar s))"

text \<open>\<open>Constant.String\<close>: the JSON text of values other than \<open>int\<close> and \<open>string\<close> is an argument.\<close>

fun constantString :: "textEnv \<Rightarrow> value \<Rightarrow> string" where
  "constantString env (VInt t i) = (if t = ''int'' then intDec i else constantText env (VInt t i))"
| "constantString env (VString t s) =
     (if t = ''string'' then [CHR 0x27] @ s @ [CHR 0x27] else constantText env (VString t s))"
| "constantString env v = constantText env v"

fun arrayString :: "textEnv \<Rightarrow> value \<Rightarrow> string" where
  "arrayString env VNil = ''()''"
| "arrayString env (VList t xs) =
     (if t = ''[]string''
      then (if xs = [] then ''()''
            else [CHR ''('', CHR 0x27] @
              joinWith [CHR 0x27, CHR '','', CHR 0x27] (map (sprint (tenvValue env)) xs) @ [CHR 0x27, CHR '')''])
      else ''('' @ joinWith '','' (map (sprint (tenvValue env)) xs) @ '')'')"
| "arrayString env v = constantText env v"

fun exprString :: "textEnv \<Rightarrow> expression \<Rightarrow> string" where
  "exprString env (FieldRef source name isID) =
     (let n = (if RequiresEscaping name then ''['' @ name @ '']'' else name)
      in if source \<noteq> [] then source @ ''.'' @ n else n)"
| "exprString env (Constant v) = constantString env v"
| "exprString env (Array v) = arrayString env v"
| "exprString env (Function name args) = name @ ''('' @ joinWith '', '' (map (exprString env) args) @ '')''"
| "exprString env Star = ''*''"
| "exprString env (OtherExpression s) = s"

text \<open>\<open>GroupCondition.String\<close> from the texts of the conditions.\<close>

definition groupConditionString :: "operator \<Rightarrow> string list \<Rightarrow> string" where
  "groupConditionString opr texts = ''('' @ joinWith ('' '' @ opr @ '' '') texts @ '')''"

text \<open>A group that holds a nil condition has no text, Go panics; the first equation is never reached
  from a query that has one.\<close>

fun condString :: "textEnv \<Rightarrow> condition \<Rightarrow> string" where
  "condString env NilCondition = ''<nil>''"
| "condString env (Comparison opr l r) =
     exprString env l @ '' '' @
     (if opr = Equal then ''='' else if opr = [] then ''{NO_OPERATOR}'' else opr) @ '' '' @ exprString env r"
| "condString env (GroupCondition opr cs) =
     groupConditionString opr (map (condString env) cs)"
| "condString env (OtherCondition s) = s"

definition columnString :: "textEnv \<Rightarrow> column_dal \<Rightarrow> string" where
  "columnString env col =
     (let e = exprString env (colExpression col)
      in if colAlias col = [] then e else e @ '' AS '' @ colAlias col)"

definition orderString :: "textEnv \<Rightarrow> orderExpression \<Rightarrow> string" where
  "orderString env oe =
     (if ordDescending oe then exprString env (ordExpression oe) @ '' DESC'' else exprString env (ordExpression oe))"

subsection \<open>Sources and structured queries\<close>

text \<open>\<open>CollectionRef name alias parent\<close>; its constructor drops an alias equal to the name.\<close>

datatype recordsetSource =
    CollectionRef (sourceName: string) (sourceAlias: string) (sourceParent: "key option")
  | CollectionGroupRef (sourceName: string) (sourceAlias: string)

definition NewCollectionRef :: "string \<Rightarrow> string \<Rightarrow> key option \<Rightarrow> recordsetSource option" where
  "NewCollectionRef name alias parent =
     (if name = [] then None
      else Some (CollectionRef name (if alias = name then [] else alias) parent))"

definition NewCollectionGroupRef :: "string \<Rightarrow> string \<Rightarrow> recordsetSource option" where
  "NewCollectionGroupRef name alias = (if name = [] then None else Some (CollectionGroupRef name alias))"

fun collectionPath :: "(key \<Rightarrow> string) \<Rightarrow> recordsetSource \<Rightarrow> string" where
  "collectionPath keyText (CollectionRef name alias None) = name"
| "collectionPath keyText (CollectionRef name alias (Some p)) = keyText p @ ''/'' @ name"
| "collectionPath keyText (CollectionGroupRef name alias) = name"

record joinedSource =
  jsSource :: recordsetSource
  jsJoinType :: string
  jsOn :: "condition list"

record fromSource =
  fromBase :: recordsetSource
  fromJoins :: "joinedSource list"

definition joinFrom :: "fromSource \<Rightarrow> joinedSource \<Rightarrow> fromSource" where
  "joinFrom f j = f\<lparr>fromJoins := fromJoins f @ [j]\<rparr>"

text \<open>\<open>qIntoRecord\<close> is the data of the record \<open>intoRecord()\<close> makes, \<^const>\<open>None\<close> without the function.\<close>

record 'd structuredQuery =
  qFrom :: fromSource
  qWhere :: condition
  qGroupBy :: "expression list"
  qHaving :: condition
  qOrderBy :: "orderExpression list"
  qColumns :: "column_dal list"
  qIntoRecord :: "'d option"
  qOffset :: int
  qLimit :: int
  qIDKind :: string
  qStartCursor :: string

definition queryString :: "textEnv \<Rightarrow> (key \<Rightarrow> string) \<Rightarrow> 'd structuredQuery \<Rightarrow> string" where
  "queryString env keyText q =
     (let nl = [CHR 0x0A];
          is1liner = (length (qColumns q) \<le> 1 \<and>
            (case qWhere q of NilCondition \<Rightarrow> True | Comparison _ _ _ \<Rightarrow> True | _ \<Rightarrow> False));
          gap = (if is1liner then '' '' else nl)
      in ''SELECT'' @
         (if qLimit q > 0 then '' TOP '' @ intDec (qLimit q) else []) @
         (case qColumns q of
            [] \<Rightarrow> '' *''
          | [col] \<Rightarrow> '' '' @ columnString env col
          | cols \<Rightarrow> joinWith '','' (map (\<lambda>col. nl @ [CHR 0x09] @ columnString env col) cols)) @
         gap @ ''FROM ['' @ collectionPath keyText (fromBase (qFrom q)) @ '']'' @
         (if qWhere q = NilCondition then [] else gap @ ''WHERE '' @ condString env (qWhere q)) @
         (if qGroupBy q = [] then []
          else nl @ ''GROUP BY '' @ joinWith '', '' (map (exprString env) (qGroupBy q))) @
         (if qHaving q = NilCondition then [] else nl @ ''HAVING '' @ condString env (qHaving q)) @
         (if qOrderBy q = [] then []
          else nl @ ''ORDER BY '' @ joinWith '', '' (map (orderString env) (qOrderBy q))) @
         (if qOffset q > 0 then nl @ ''OFFSET '' @ intDec (qOffset q) else []))"

definition newStructuredQuery :: "fromSource \<Rightarrow> 'd structuredQuery" where
  "newStructuredQuery f =
     \<lparr>qFrom = f, qWhere = NilCondition, qGroupBy = [], qHaving = NilCondition, qOrderBy = [], qColumns = [],
      qIntoRecord = None, qOffset = 0, qLimit = 0, qIDKind = [], qStartCursor = []\<rparr>"

definition groupWithConditions ::
  "operator \<Rightarrow> condition list \<Rightarrow> 'd structuredQuery \<Rightarrow> 'd structuredQuery" where
  "groupWithConditions opr cs q =
     (newStructuredQuery (qFrom q))\<lparr>qWhere := GroupCondition opr (qWhere q # cs)\<rparr>"

definition queryAnd :: "condition list \<Rightarrow> 'd structuredQuery \<Rightarrow> 'd structuredQuery" where
  "queryAnd = groupWithConditions And"

definition queryOr :: "condition list \<Rightarrow> 'd structuredQuery \<Rightarrow> 'd structuredQuery" where
  "queryOr = groupWithConditions Or"

subsection \<open>The builder\<close>

record 'd queryBuilder =
  bQuery :: "'d structuredQuery"
  bConditions :: "condition list"
  bHaving :: "condition list"

definition NewQueryBuilder :: "fromSource \<Rightarrow> 'd queryBuilder" where
  "NewQueryBuilder f = \<lparr>bQuery = newStructuredQuery f, bConditions = [], bHaving = []\<rparr>"

datatype builderCall =
    SStartFrom string
  | SOffset int
  | SLimit int
  | SOrderBy "orderExpression list"
  | SWhere "condition list"
  | SGroupBy "expression list"
  | SHaving "condition list"
  | SWhereField string operator operand
  | SWhereInArrayField string "value"
  | SWhereArrayContainsAny string operand

text \<open>One call on the builder; \<^const>\<open>None\<close> is a panic of \<open>WhereField\<close> or \<open>NewArray\<close>.\<close>

fun buildStep :: "builderCall \<Rightarrow> 'd queryBuilder \<Rightarrow> 'd queryBuilder option" where
  "buildStep (SStartFrom c) b = Some (b\<lparr>bQuery := (bQuery b)\<lparr>qStartCursor := c\<rparr>\<rparr>)"
| "buildStep (SOffset i) b = Some (b\<lparr>bQuery := (bQuery b)\<lparr>qOffset := i\<rparr>\<rparr>)"
| "buildStep (SLimit i) b = Some (b\<lparr>bQuery := (bQuery b)\<lparr>qLimit := i\<rparr>\<rparr>)"
| "buildStep (SOrderBy es) b = Some (b\<lparr>bQuery := (bQuery b)\<lparr>qOrderBy := qOrderBy (bQuery b) @ es\<rparr>\<rparr>)"
| "buildStep (SWhere cs) b = Some (b\<lparr>bConditions := bConditions b @ cs\<rparr>)"
| "buildStep (SGroupBy es) b = Some (b\<lparr>bQuery := (bQuery b)\<lparr>qGroupBy := qGroupBy (bQuery b) @ es\<rparr>\<rparr>)"
| "buildStep (SHaving cs) b = Some (b\<lparr>bHaving := bHaving b @ cs\<rparr>)"
| "buildStep (SWhereField name opr v) b =
     map_option (\<lambda>c. b\<lparr>bConditions := bConditions b @ [c]\<rparr>) (WhereField name opr v)"
| "buildStep (SWhereInArrayField name v) b =
     Some (b\<lparr>bConditions := bConditions b @ [Comparison In (Constant v) (Field name)]\<rparr>)"
| "buildStep (SWhereArrayContainsAny name vs) b =
     (let arr = (case vs of ExprValue (Array v) \<Rightarrow> Some (Array v) | PlainValue v \<Rightarrow> NewArray v | _ \<Rightarrow> None)
      in map_option (\<lambda>a. b\<lparr>bConditions := bConditions b @ [Comparison In (Field name) a]\<rparr>) arr)"

definition combine :: "condition list \<Rightarrow> condition \<Rightarrow> condition" where
  "combine cs unset = (case cs of [] \<Rightarrow> unset | [c] \<Rightarrow> c | _ \<Rightarrow> GroupCondition And cs)"

definition newQuery :: "'d queryBuilder \<Rightarrow> 'd structuredQuery" where
  "newQuery b =
     (bQuery b)\<lparr>qWhere := combine (bConditions b) (qWhere (bQuery b)),
               qHaving := combine (bHaving b) (qHaving (bQuery b))\<rparr>"

definition SelectIntoRecord :: "'d \<Rightarrow> 'd queryBuilder \<Rightarrow> 'd structuredQuery" where
  "SelectIntoRecord d b = (newQuery b)\<lparr>qIntoRecord := Some d\<rparr>"

definition SelectKeysOnly :: "string \<Rightarrow> 'd queryBuilder \<Rightarrow> 'd structuredQuery" where
  "SelectKeysOnly kind b = (newQuery b)\<lparr>qIDKind := kind\<rparr>"

definition SelectColumns :: "column_dal list \<Rightarrow> 'd queryBuilder \<Rightarrow> 'd structuredQuery" where
  "SelectColumns cols b = (newQuery b)\<lparr>qColumns := cols\<rparr>"

section \<open>Laws\<close>

fun runBuilder :: "builderCall list \<Rightarrow> 'd queryBuilder \<Rightarrow> 'd queryBuilder option" where
  "runBuilder [] b = Some b"
| "runBuilder (c # cs) b = (case buildStep c b of None \<Rightarrow> None | Some b' \<Rightarrow> runBuilder cs b')"

lemma combine_cases: "combine [] u = u" "combine [c] u = c" "combine (c # d # cs) u = GroupCondition And (c # d # cs)"
  by (simp_all add: combine_def)

definition escapedName :: "string \<Rightarrow> string" where
  "escapedName n = (if RequiresEscaping n then ''['' @ n @ '']'' else n)"

lemma fieldText:
  "exprString env (FieldRef s n i) = (if s \<noteq> [] then s @ CHR ''.'' # escapedName n else escapedName n)"
  by (simp add: escapedName_def Let_def)

lemma not_wordChar: "\<not> wordChar (CHR ''.'')" "\<not> wordChar (CHR ''['')"
  by (simp_all add: wordChar_def isAlnum_def)

lemma escapedName_word: "escapedName n = (if RequiresEscaping n then CHR ''['' # n @ '']'' else n)"
  by (simp add: escapedName_def)

lemma escapedName_inj: "escapedName n = escapedName n' \<longleftrightarrow> n = n'"
  using not_wordChar(2) by (auto simp: escapedName_word RequiresEscaping_def split: if_splits)

lemma dropWhile_fieldText:
  assumes "list_all wordChar s"
  shows "dropWhile wordChar (exprString env (FieldRef s n i)) =
      (if s \<noteq> [] then CHR ''.'' # escapedName n else if RequiresEscaping n then escapedName n else [])"
    and "takeWhile wordChar (exprString env (FieldRef s n i)) =
      (if s \<noteq> [] then s else if RequiresEscaping n then [] else n)"
proof -
  have s: "\<And>c. c \<in> set s \<Longrightarrow> wordChar c" using assms by (simp add: list_all_iff)
  have "dropWhile wordChar (escapedName n) = (if RequiresEscaping n then escapedName n else [])"
    "takeWhile wordChar (escapedName n) = (if RequiresEscaping n then [] else n)"
    using not_wordChar(2) by (auto simp: escapedName_word RequiresEscaping_def list_all_iff)
  then show "dropWhile wordChar (exprString env (FieldRef s n i)) =
      (if s \<noteq> [] then CHR ''.'' # escapedName n else if RequiresEscaping n then escapedName n else [])"
    "takeWhile wordChar (exprString env (FieldRef s n i)) =
      (if s \<noteq> [] then s else if RequiresEscaping n then [] else n)"
    using s not_wordChar(1) by (auto simp: fieldText simp del: exprString.simps)
qed

text \<open>The text of a field reference tells references apart: two references whose sources are made
  of word characters print alike exactly when source and name agree; a name with any other character
  is bracketed. The matching of selected columns with grouping expressions rests on it.\<close>

theorem field_text_injective:
  "exprString env (FieldRef s n i) = exprString env (FieldRef s' n' i') \<and>
     list_all wordChar s \<and> list_all wordChar s' \<longleftrightarrow>
   s = s' \<and> n = n' \<and> list_all wordChar s"
proof
  assume l: "exprString env (FieldRef s n i) = exprString env (FieldRef s' n' i') \<and>
     list_all wordChar s \<and> list_all wordChar s'"
  then have d: "(if s \<noteq> [] then CHR ''.'' # escapedName n else if RequiresEscaping n then escapedName n else []) =
      (if s' \<noteq> [] then CHR ''.'' # escapedName n' else if RequiresEscaping n' then escapedName n' else [])"
    and t: "(if s \<noteq> [] then s else if RequiresEscaping n then [] else n) =
      (if s' \<noteq> [] then s' else if RequiresEscaping n' then [] else n')"
    using dropWhile_fieldText [of s env n i] dropWhile_fieldText [of s' env n' i']
    by (simp_all del: exprString.simps split del: if_split)
  have "s = s' \<and> n = n'"
    using d t not_wordChar by (auto simp: escapedName_inj split: if_splits) (simp_all add: escapedName_word)
  then show "s = s' \<and> n = n' \<and> list_all wordChar s" using l by simp
qed (auto simp: fieldText simp del: exprString.simps)

text \<open>The shorthand \<open>EqualTo\<close> loses the source of a qualified field: the condition it makes compares
  the field of the base source, whatever source the reference names.\<close>

lemma equalTo_drops_source:
  "EqualTo (NewFieldRef source name) (PlainValue (VString ''string'' s)) =
     Some (Comparison Equal (FieldRef [] name False) (Constant (VString ''string'' s)))"
  by (simp add: NewFieldRef_def Field_def constantTypes_def)

end
