(* ===== verification/MemoryQuery.thy ===== *)
theory MemoryQuery
  imports MemoryDatabase DalQuery
begin

text \<open>
  Single-source queries of the in-memory adapter: conditions, ordering, limits and projection
  (\<open>src/adapters/dalgo2memory/database.go\<close>, \<open>join.go\<close>, \<open>project.go\<close>), and the acceleration of
  equality conditions by column strategies (\<open>columnar.go\<close>, \<open>strategy.go\<close>).

  Go panics where two values of one uncomparable type meet \<open>==\<close>; a condition is therefore evaluated
  to an option, \<^const>\<open>None\<close> the panic. \<open>keyString\<close> is the text of a key,
  \<open>(*record.Key).String\<close> of \<open>github.com/dal-go/record\<close>, and \<open>external\<close> what a column strategy of the
  caller answers after the calls it has received.
\<close>

section \<open>Definitions\<close>

datatype queryError =
    StoreError memError
  | NotSupported
  | UnknownOrderSource string string
  | ColumnNotField
  | UnknownColumnSource string string
  | JoinCount nat
  | UnsupportedJoinType string
  | UnknownSource string string
  | UnsupportedExpression
  | UnknownGroupSource string string
  | ColumnNotGrouped
  | UnsupportedGroupedExpression
  | UnsupportedAggregate string
  | UnsupportedHaving
  | QueryPanic

subsection \<open>Conditions\<close>

definition fieldOf :: "fields \<Rightarrow> string \<Rightarrow> value" where
  "fieldOf data name = (case map_of data name of None \<Rightarrow> VNil | Some v \<Rightarrow> v)"

definition compareOp :: "valueEnv \<Rightarrow> operator \<Rightarrow> value \<Rightarrow> value \<Rightarrow> bool" where
  "compareOp env opr l r =
     (let c = compare_value env l r
      in if opr = Equal then c = 0
         else if opr = GreaterThen then c > 0
         else if opr = GreaterOrEqual then c \<ge> 0
         else if opr = LessThen then c < 0
         else if opr = LessOrEqual then c \<le> 0
         else False)"

definition fieldContains :: "value \<Rightarrow> value \<Rightarrow> bool" where
  "fieldContains fieldValue v =
     (case fieldValue of VList t xs \<Rightarrow> list_ex (\<lambda>x. elementEquals x v) xs | _ \<Rightarrow> False)"

definition fieldContainsAny :: "value \<Rightarrow> value \<Rightarrow> bool" where
  "fieldContainsAny fieldValue vs =
     (case vs of VList t xs \<Rightarrow> list_ex (fieldContains fieldValue) xs | _ \<Rightarrow> False)"

definition matchesComparison ::
  "valueEnv \<Rightarrow> fields \<Rightarrow> operator \<Rightarrow> expression \<Rightarrow> expression \<Rightarrow> bool option" where
  "matchesComparison env data opr left right =
     (case left of
        FieldRef source name isID \<Rightarrow>
          (case right of
             Constant v \<Rightarrow>
               let norm = normalizeConstant env v in
               if opr = Equal then goEq (fieldOf data name) norm
               else if opr \<in> {GreaterThen, GreaterOrEqual, LessThen, LessOrEqual}
               then (case map_of data name of
                       None \<Rightarrow> Some False
                     | Some x \<Rightarrow> Some (compareOp env opr x norm))
               else Some False
           | Array vs \<Rightarrow> Some (fieldContainsAny (fieldOf data name) vs)
           | _ \<Rightarrow> Some False)
      | Constant v \<Rightarrow>
          (case right of
             FieldRef source name isID \<Rightarrow>
               if opr = In then Some (fieldContains (fieldOf data name) (normalizeConstant env v))
               else Some False
           | _ \<Rightarrow> Some False)
      | _ \<Rightarrow> Some False)"

text \<open>A conjunction stops at the first condition that does not hold.\<close>

fun allOf :: "bool option list \<Rightarrow> bool option" where
  "allOf [] = Some True"
| "allOf (None # bs) = None"
| "allOf (Some False # bs) = Some False"
| "allOf (Some True # bs) = allOf bs"

fun matchesWhere :: "valueEnv \<Rightarrow> fields \<Rightarrow> condition \<Rightarrow> bool option" where
  "matchesWhere env data NilCondition = Some True"
| "matchesWhere env data (GroupCondition opr cs) =
     (if opr \<noteq> And then Some False else allOf (map (matchesWhere env data) cs))"
| "matchesWhere env data (Comparison opr l r) = matchesComparison env data opr l r"
| "matchesWhere env data (OtherCondition s) = Some False"

subsection \<open>Acceleration (\<open>strategy.go\<close>, \<open>columnar.go\<close>)\<close>

definition valuesEqualForStrategy :: "'c elemType \<Rightarrow> 'c \<Rightarrow> value \<Rightarrow> bool" where
  "valuesEqualForStrategy et stored queried =
     (if queried \<noteq> VNil \<and> \<not> comparable queried then False else etEquals et stored queried)"

type_synonym 'c externalStrategy = "string \<Rightarrow> 'c strategyCall list \<Rightarrow> value \<Rightarrow> nat list option"

text \<open>
  \<open>EqualSlots\<close> of a column's strategy. The built-in one scans the column object it was made for; the
  object of a detached one holds no values.
\<close>

definition equalSlots ::
  "('d, 'c) columnEnv \<Rightarrow> 'c externalStrategy \<Rightarrow> ('d, 'c) columnarEngine \<Rightarrow> 'c column \<Rightarrow> value \<Rightarrow> nat list option" where
  "equalSlots env external e col v =
     (let t = cdElemType (colDesc col); et = elemOps env t;
          scans = (t \<noteq> TInterface \<and> etComparable et)
      in case colStrategy col of
           TypedSlice \<Rightarrow>
             if scans
             then Some (filter (\<lambda>slot. ceLive e ! slot \<and> valuesEqualForStrategy et (colValues col ! slot) v)
                    [0..<length (colValues col)])
             else None
         | DetachedSlice \<Rightarrow> if scans then Some [] else None
         | External calls \<Rightarrow> external (cdName (colDesc col)) calls v)"

definition byName :: "'c column list \<Rightarrow> string \<Rightarrow> 'c column option" where
  "byName cols name = map_of (rev (map (\<lambda>c. (cdName (colDesc c), c)) cols)) name"

definition candidateSlots ::
  "('d, 'c) columnEnv \<Rightarrow> 'c externalStrategy \<Rightarrow> ('d, 'c) columnarEngine \<Rightarrow> condition \<Rightarrow> nat list option" where
  "candidateSlots env external e cond =
     (case cond of
        Comparison opr (FieldRef source name isID) (Constant v) \<Rightarrow>
          if opr \<noteq> Equal then None
          else (case byName (ceColumns e) name of
                  None \<Rightarrow> None
                | Some col \<Rightarrow> equalSlots env external e col v)
      | _ \<Rightarrow> None)"

definition candidateRows ::
  "('d, 'c) columnEnv \<Rightarrow> 'c externalStrategy \<Rightarrow> ('d, 'c) columnarEngine \<Rightarrow> condition \<Rightarrow>
   memError + 'd engineRow list option" where
  "candidateRows env external e cond =
     (case ceInitErr e of
        Some err \<Rightarrow> Inl err
      | None \<Rightarrow>
          (case candidateSlots env external e cond of
             None \<Rightarrow> Inr None
           | Some slots \<Rightarrow>
               let ids = map (\<lambda>slot. ceSlotToID e ! slot)
                     (filter (\<lambda>slot. slot < length (ceLive e) \<and> ceLive e ! slot) (remdups slots))
               in bindE (buildRows env e (sortStrings ids)) (\<lambda>rows. Inr (Some rows))))"

definition loadCandidateRows ::
  "(string list \<Rightarrow> string list) \<Rightarrow> ('d, 'c) columnEnv \<Rightarrow> 'c externalStrategy \<Rightarrow> ('d, 'c) engine \<Rightarrow> condition \<Rightarrow>
   memError + 'd engineRow list" where
  "loadCandidateRows order env external eng cond =
     (case eng of
        SerializedE e \<Rightarrow> engRows order env eng
      | ColumnarE e \<Rightarrow>
          bindE (candidateRows env external e cond) (\<lambda>found.
            case found of Some rows \<Rightarrow> Inr rows | None \<Rightarrow> engRows order env eng))"

subsection \<open>Sources, ordering and projection\<close>

type_synonym rowSources = "(string, fields) gomap"

definition sourceField :: "rowSources \<Rightarrow> string \<Rightarrow> string \<Rightarrow> value" where
  "sourceField srcs source name = (case map_of srcs source of None \<Rightarrow> VNil | Some m \<Rightarrow> fieldOf m name)"

definition baseSources :: "recordsetSource \<Rightarrow> fields \<Rightarrow> rowSources" where
  "baseSources base data =
     (let src = putKey (sourceName base) data (putKey [] data [])
      in if sourceAlias base \<noteq> [] then putKey (sourceAlias base) data src else src)"

fun validateOrderSources :: "orderExpression list \<Rightarrow> string list \<Rightarrow> queryError option" where
  "validateOrderSources [] known = None"
| "validateOrderSources (oe # oes) known =
     (case ordExpression oe of
        FieldRef src name isID \<Rightarrow>
          if src \<noteq> [] \<and> src \<notin> set known then Some (UnknownOrderSource name src)
          else validateOrderSources oes known
      | _ \<Rightarrow> validateOrderSources oes known)"

fun validateColumns :: "column_dal list \<Rightarrow> string list \<Rightarrow> queryError option" where
  "validateColumns [] known = None"
| "validateColumns (col # cols) known =
     (case colExpression col of
        FieldRef src name isID \<Rightarrow>
          if src \<noteq> [] \<and> src \<notin> set known then Some (UnknownColumnSource name src)
          else validateColumns cols known
      | _ \<Rightarrow> Some ColumnNotField)"

fun orderCompare :: "valueEnv \<Rightarrow> orderExpression list \<Rightarrow> rowSources \<Rightarrow> rowSources \<Rightarrow> int" where
  "orderCompare env [] si sj = 0"
| "orderCompare env (oe # oes) si sj =
     (case ordExpression oe of
        FieldRef src name isID \<Rightarrow>
          let c0 = compare_value env (sourceField si src name) (sourceField sj src name);
              c = (if ordDescending oe then - c0 else c0)
          in if c \<noteq> 0 then c else orderCompare env oes si sj
      | _ \<Rightarrow> orderCompare env oes si sj)"

definition orderLess ::
  "valueEnv \<Rightarrow> orderExpression list \<Rightarrow> ('r \<Rightarrow> rowSources) \<Rightarrow> ('r \<Rightarrow> string) \<Rightarrow> 'r \<Rightarrow> 'r \<Rightarrow> bool" where
  "orderLess env orderBy sourcesOf idOf a b =
     (let c = orderCompare env orderBy (sourcesOf a) (sourcesOf b)
      in if c \<noteq> 0 then c < 0 else idOf a < idOf b)"

definition orderBySources ::
  "valueEnv \<Rightarrow> orderExpression list \<Rightarrow> ('r \<Rightarrow> rowSources) \<Rightarrow> ('r \<Rightarrow> string) \<Rightarrow> 'r list \<Rightarrow> 'r list" where
  "orderBySources env orderBy sourcesOf idOf rows = sliceStable (orderLess env orderBy sourcesOf idOf) rows"

definition applyLimit :: "int \<Rightarrow> 'r list \<Rightarrow> 'r list" where
  "applyLimit limit rows = (if limit > 0 \<and> limit < int (length rows) then take (nat limit) rows else rows)"

fun columnKey :: "column_dal \<Rightarrow> string" where
  "columnKey col =
     (if colAlias col \<noteq> [] then colAlias col
      else case colExpression col of FieldRef src name isID \<Rightarrow> name | _ \<Rightarrow> [])"

definition projectRow :: "column_dal list \<Rightarrow> rowSources \<Rightarrow> fields" where
  "projectRow cols srcs =
     foldl (\<lambda>out col. case colExpression col of
        FieldRef src name isID \<Rightarrow> putKey (columnKey col) (sourceField srcs src name) out
      | _ \<Rightarrow> out) [] cols"

subsection \<open>Execution\<close>

definition isChildOf :: "(key \<Rightarrow> string) \<Rightarrow> key option \<Rightarrow> key \<Rightarrow> bool" where
  "isChildOf keyString k parent =
     (case k of
        None \<Rightarrow> False
      | Some k' \<Rightarrow> (case keyParent k' of None \<Rightarrow> False | Some p \<Rightarrow> keyString p = keyString parent))"

definition resultKey :: "string \<Rightarrow> 'd engineRow \<Rightarrow> key" where
  "resultKey collection row =
     (case rowKey row of Some k \<Rightarrow> k | None \<Rightarrow> Key collection (goStr (rowId row)) None)"

definition baseParent :: "recordsetSource \<Rightarrow> key option" where
  "baseParent base = (case base of CollectionRef n a p \<Rightarrow> p | CollectionGroupRef n a \<Rightarrow> None)"

definition keepRow ::
  "valueEnv \<Rightarrow> (key \<Rightarrow> string) \<Rightarrow> 'd structuredQuery \<Rightarrow> 'd engineRow \<Rightarrow> bool option" where
  "keepRow env keyString q row =
     map_option (\<lambda>b. b \<and>
       (case baseParent (fromBase (qFrom q)) of None \<Rightarrow> True | Some p \<Rightarrow> isChildOf keyString (rowKey row) p))
       (matchesWhere env (rowData row) (qWhere q))"

fun filterRows :: "('r \<Rightarrow> bool option) \<Rightarrow> 'r list \<Rightarrow> 'r list option" where
  "filterRows keep [] = Some []"
| "filterRows keep (r # rs) =
     (case keep r of
        None \<Rightarrow> None
      | Some b \<Rightarrow> map_option (\<lambda>out. if b then r # out else out) (filterRows keep rs))"

definition orderAndLimit :: "valueEnv \<Rightarrow> 'd structuredQuery \<Rightarrow> 'd engineRow list \<Rightarrow> 'd engineRow list" where
  "orderAndLimit env q rows =
     applyLimit (qLimit q)
       (orderBySources env (qOrderBy q) (\<lambda>r. baseSources (fromBase (qFrom q)) (rowData r)) rowId rows)"

datatype 'd resultData = KeysOnly | Projected fields | Loaded 'd

fun buildResults ::
  "'d goFactory option \<Rightarrow> 'd structuredQuery \<Rightarrow> 'd engineRow list \<Rightarrow> queryError + (key \<times> 'd resultData) list" where
  "buildResults factory q [] = Inr []"
| "buildResults factory q (row # rows) =
     (let base = fromBase (qFrom q); k = resultKey (sourceName base) row;
          here = (if qColumns q \<noteq> [] then Inr (Projected (projectRow (qColumns q) (baseSources base (rowData row))))
                  else case (qIntoRecord q, factory) of
                    (None, None) \<Rightarrow> Inr KeysOnly
                  | (None, Some f) \<Rightarrow>
                      (case rowMaterialize row (newData f) of None \<Rightarrow> Inl (StoreError UnmarshalFailed) | Some d \<Rightarrow> Inr (Loaded d))
                  | (Some target, _) \<Rightarrow>
                      (case rowMaterialize row target of None \<Rightarrow> Inl (StoreError UnmarshalFailed) | Some d \<Rightarrow> Inr (Loaded d)))
      in bindE here (\<lambda>d. bindE (buildResults factory q rows) (\<lambda>out. Inr ((k, d) # out))))"

definition knownSources :: "recordsetSource \<Rightarrow> string list" where
  "knownSources base = [[], sourceName base] @ (if sourceAlias base \<noteq> [] then [sourceAlias base] else [])"

text \<open>
  The part of \<open>ExecuteQueryToRecordsReader\<close> after the rows are loaded, for a query without joins and
  without grouping. An empty collection answers before the sources are validated.
\<close>

definition executeSingle ::
  "valueEnv \<Rightarrow> (key \<Rightarrow> string) \<Rightarrow> 'd goFactory option \<Rightarrow> 'd structuredQuery \<Rightarrow> 'd engineRow list \<Rightarrow>
   queryError + (key \<times> 'd resultData) list" where
  "executeSingle env keyString factory q allRows =
     (if allRows = [] then Inr []
      else
        case validateOrderSources (qOrderBy q) (knownSources (fromBase (qFrom q))) of
          Some e \<Rightarrow> Inl e
        | None \<Rightarrow>
            (case validateColumns (qColumns q) (knownSources (fromBase (qFrom q))) of
               Some e \<Rightarrow> Inl e
             | None \<Rightarrow>
                 (case filterRows (keepRow env keyString q) allRows of
                    None \<Rightarrow> Inl QueryPanic
                  | Some rows \<Rightarrow> buildResults factory q (orderAndLimit env q rows))))"

section \<open>Laws\<close>

subsection \<open>Three-way comparisons\<close>

text \<open>
  The contract of \<open>compare\<close> as the sort relies on it, on the values that meet in a column: swapping
  the operands negates the result, and being smaller is decided through any third value.
\<close>

locale three_way =
  fixes cmp :: "'a \<Rightarrow> 'a \<Rightarrow> int"
    and A :: "'a set"
  assumes swap: "x \<in> A \<Longrightarrow> y \<in> A \<Longrightarrow> cmp y x = - cmp x y"
    and through: "x \<in> A \<Longrightarrow> y \<in> A \<Longrightarrow> z \<in> A \<Longrightarrow> cmp x z < 0 \<Longrightarrow> cmp x y < 0 \<or> cmp y z < 0"
begin

lemma triangle:
  assumes "x \<in> A" and "y \<in> A" and "z \<in> A"
  shows "cmp x z < 0 \<longrightarrow> cmp x y < 0 \<or> cmp y z < 0" "cmp x z > 0 \<longrightarrow> cmp x y > 0 \<or> cmp y z > 0"
    "cmp y z < 0 \<longrightarrow> cmp x y > 0 \<or> cmp x z < 0" "cmp y z > 0 \<longrightarrow> cmp x y < 0 \<or> cmp x z > 0"
    "cmp x y < 0 \<longrightarrow> cmp x z < 0 \<or> cmp y z > 0" "cmp x y > 0 \<longrightarrow> cmp x z > 0 \<or> cmp y z < 0"
  using assms through [of x z y] through [of z x y] through [of y z x] through [of z y x] through [of x y z]
    through [of y x z] swap [of x y] swap [of y z] swap [of x z]
  by auto

lemma descending: "three_way (\<lambda>x y. - cmp x y) A"
proof
  fix x y z assume "x \<in> A" "y \<in> A" "z \<in> A" "- cmp x z < 0"
  then show "- cmp x y < 0 \<or> - cmp y z < 0" using triangle(2) by simp
next
  fix x y assume "x \<in> A" "y \<in> A"
  then show "- cmp y x = - (- cmp x y)" using swap [of x y] by simp
qed

lemma on_image: "f ` B \<subseteq> A \<Longrightarrow> three_way (\<lambda>x y. cmp (f x) (f y)) B"
proof
  fix x y z assume "f ` B \<subseteq> A" "x \<in> B" "y \<in> B" "z \<in> B" "cmp (f x) (f z) < 0"
  then show "cmp (f x) (f y) < 0 \<or> cmp (f y) (f z) < 0" using through [of "f x" "f y" "f z"] by (simp add: image_subset_iff)
next
  fix x y assume "f ` B \<subseteq> A" "x \<in> B" "y \<in> B"
  then show "cmp (f y) (f x) = - cmp (f x) (f y)" using swap [of "f x" "f y"] by (simp add: image_subset_iff)
qed

lemma then_by:
  assumes "three_way d A"
  shows "three_way (\<lambda>x y. if cmp x y \<noteq> 0 then cmp x y else d x y) A"
proof
  fix x y z assume xyz: "x \<in> A" "y \<in> A" "z \<in> A" and l: "(if cmp x z \<noteq> 0 then cmp x z else d x z) < 0"
  show "(if cmp x y \<noteq> 0 then cmp x y else d x y) < 0 \<or> (if cmp y z \<noteq> 0 then cmp y z else d y z) < 0"
    using triangle [OF xyz] three_way.through [OF assms xyz] l by presburger
next
  fix x y assume "x \<in> A" "y \<in> A"
  then show "(if cmp y x \<noteq> 0 then cmp y x else d y x) = - (if cmp x y \<noteq> 0 then cmp x y else d x y)"
    using swap [of x y] three_way.swap [OF assms, of x y] by simp
qed

text \<open>
  With the identifiers as the last key the order is still one a sort accepts, and total where
  identifiers are distinct.
\<close>

lemma tiebreak:
  fixes key :: "'a \<Rightarrow> 'k :: linorder"
  shows "sort_order (\<lambda>a b. if cmp a b \<noteq> 0 then cmp a b < 0 else key a < key b) A"
proof
  fix x y z assume xyz: "x \<in> A" "y \<in> A" "z \<in> A" and l: "if cmp x z \<noteq> 0 then cmp x z < 0 else key x < key z"
  show "(if cmp x y \<noteq> 0 then cmp x y < 0 else key x < key y) \<or> (if cmp y z \<noteq> 0 then cmp y z < 0 else key y < key z)"
    using triangle [OF xyz] l less_le_trans [of "key x" "key z" "key y"]
    by (smt (verit) not_less)
next
  fix x y assume "x \<in> A" "y \<in> A" "if cmp x y \<noteq> 0 then cmp x y < 0 else key x < key y"
  then show "\<not> (if cmp y x \<noteq> 0 then cmp y x < 0 else key y < key x)" using swap [of x y] by (simp split: if_splits)
qed

lemma total_tiebreak:
  fixes key :: "'a \<Rightarrow> 'k :: linorder"
  assumes "inj_on key A"
  shows "total_sort_order (\<lambda>a b. if cmp a b \<noteq> 0 then cmp a b < 0 else key a < key b) A"
proof (rule total_sort_order.intro [OF tiebreak total_sort_order_axioms.intro])
  fix x y assume xy: "x \<in> A" "y \<in> A" and "\<not> (if cmp x y \<noteq> 0 then cmp x y < 0 else key x < key y)"
    "\<not> (if cmp y x \<noteq> 0 then cmp y x < 0 else key y < key x)"
  then have "key x = key y" using swap [of x y] by (simp split: if_splits)
  then show "x = y" using xy assms by (simp add: inj_on_eq_iff)
qed

end

text \<open>Numbers compare by value, everything else by its text: each kind by itself meets the contract.\<close>

interpretation number_order: three_way "compare_value env" "{v. number v \<noteq> None}" for env
  by unfold_locales (auto simp: compare_value_def split: if_splits)

interpretation text_order: three_way "compare_value env" "{v. number v = None}" for env
  by unfold_locales (auto simp: compare_value_def compareStrings_def split: if_splits)

subsection \<open>Ordering\<close>

definition uniform :: "value list \<Rightarrow> bool" where
  "uniform vs = (list_all (\<lambda>v. number v \<noteq> None) vs \<or> list_all (\<lambda>v. number v = None) vs)"

text \<open>Every column the rows are ordered by holds numbers only or none.\<close>

definition uniformColumns :: "orderExpression list \<Rightarrow> ('r \<Rightarrow> rowSources) \<Rightarrow> 'r list \<Rightarrow> bool" where
  "uniformColumns orderBy sourcesOf rows =
     list_all (\<lambda>oe. case ordExpression oe of
        FieldRef src name isID \<Rightarrow> uniform (map (\<lambda>r. sourceField (sourcesOf r) src name) rows)
      | _ \<Rightarrow> True) orderBy"

lemma uniform_three_way: "uniform (map f rows) \<Longrightarrow> three_way (\<lambda>a b. compare_value env (f a) (f b)) (set rows)"
  using number_order.on_image [of f "set rows" env] text_order.on_image [of f "set rows" env]
  by (auto simp: uniform_def list_all_iff image_subset_iff)

lemma orderCompare_three_way:
  "uniformColumns orderBy sourcesOf rows \<Longrightarrow>
   three_way (\<lambda>a b. orderCompare env orderBy (sourcesOf a) (sourcesOf b)) (set rows)"
proof (induction orderBy)
  case Nil
  show ?case by unfold_locales simp_all
next
  case (Cons oe oes)
  have rest: "three_way (\<lambda>a b. orderCompare env oes (sourcesOf a) (sourcesOf b)) (set rows)"
    using Cons by (simp add: uniformColumns_def)
  show ?case
  proof (cases "ordExpression oe")
    case (FieldRef src name isID)
    let ?c = "\<lambda>a b. compare_value env (sourceField (sourcesOf a) src name) (sourceField (sourcesOf b) src name)"
    have c: "three_way ?c (set rows)"
      using Cons.prems FieldRef by (intro uniform_three_way) (simp add: uniformColumns_def)
    show ?thesis
      using three_way.then_by [OF c rest] three_way.then_by [OF three_way.descending [OF c] rest] FieldRef
      by (cases "ordDescending oe") (simp_all add: Let_def)
  qed (use rest in simp_all)
qed

lemma orderLess_unfold:
  "orderLess env orderBy sourcesOf idOf = (\<lambda>a b.
      if orderCompare env orderBy (sourcesOf a) (sourcesOf b) \<noteq> 0
      then orderCompare env orderBy (sourcesOf a) (sourcesOf b) < 0 else idOf a < idOf b)"
  by (simp add: orderLess_def fun_eq_iff Let_def)

lemma orderLess_order:
  assumes "uniformColumns orderBy sourcesOf rows"
  shows "sort_order (orderLess env orderBy sourcesOf idOf) (set rows)"
  unfolding orderLess_unfold by (rule three_way.tiebreak [OF orderCompare_three_way [OF assms]])

lemma orderLess_total:
  assumes "uniformColumns orderBy sourcesOf rows" and "inj_on idOf (set rows)"
  shows "total_sort_order (orderLess env orderBy sourcesOf idOf) (set rows)"
  unfolding orderLess_unfold by (rule three_way.total_tiebreak [OF orderCompare_three_way [OF assms(1)] assms(2)])

lemma orderBySources_perm:
  assumes "uniformColumns orderBy sourcesOf rows" and "inj_on idOf (set rows)" and "mset rows = mset rows'"
  shows "orderBySources env orderBy sourcesOf idOf rows = orderBySources env orderBy sourcesOf idOf rows'"
  unfolding orderBySources_def
  using total_sort_order.sliceStable_perm [OF orderLess_total [OF assms(1,2)] assms(3)] by simp

lemma uniformColumns_subset:
  "uniformColumns orderBy sourcesOf rows \<Longrightarrow> set rows' \<subseteq> set rows \<Longrightarrow> uniformColumns orderBy sourcesOf rows'"
  by (fastforce simp: uniformColumns_def uniform_def list_all_iff split: expression.splits)

subsection \<open>Selection\<close>

lemma filterRows_eq:
  "filterRows keep rows =
     (if list_ex (\<lambda>r. keep r = None) rows then None else Some (filter (\<lambda>r. keep r = Some True) rows))"
  by (induction rows) (auto split: option.splits)

lemma length_applyLimit: "length (applyLimit limit rows) = (if limit > 0 then min (nat limit) (length rows) else length rows)"
  by (auto simp: applyLimit_def)

text \<open>What a query without joins and grouping selects from the rows of its collection.\<close>

definition selectedRows ::
  "valueEnv \<Rightarrow> (key \<Rightarrow> string) \<Rightarrow> 'd structuredQuery \<Rightarrow> 'd engineRow list \<Rightarrow> 'd engineRow list" where
  "selectedRows env keyString q rows = filter (\<lambda>r. keepRow env keyString q r = Some True) rows"

definition queryOrder :: "valueEnv \<Rightarrow> 'd structuredQuery \<Rightarrow> 'd engineRow \<Rightarrow> 'd engineRow \<Rightarrow> bool" where
  "queryOrder env q = orderLess env (qOrderBy q) (\<lambda>r. baseSources (fromBase (qFrom q)) (rowData r)) rowId"

definition validQuery :: "'d structuredQuery \<Rightarrow> bool" where
  "validQuery q =
     (validateOrderSources (qOrderBy q) (knownSources (fromBase (qFrom q))) = None \<and>
      validateColumns (qColumns q) (knownSources (fromBase (qFrom q))) = None)"

definition uniformRows :: "'d structuredQuery \<Rightarrow> 'd engineRow list \<Rightarrow> bool" where
  "uniformRows q rows = uniformColumns (qOrderBy q) (\<lambda>r. baseSources (fromBase (qFrom q)) (rowData r)) rows"

lemma executeSingle_cases:
  "executeSingle env keyString factory q rows =
     (if rows = [] then Inr []
      else if validQuery q
      then (if list_ex (\<lambda>r. keepRow env keyString q r = None) rows then Inl QueryPanic
            else buildResults factory q (orderAndLimit env q (selectedRows env keyString q rows)))
      else Inl (case validateOrderSources (qOrderBy q) (knownSources (fromBase (qFrom q))) of
           Some e \<Rightarrow> e | None \<Rightarrow> the (validateColumns (qColumns q) (knownSources (fromBase (qFrom q))))))"
  by (auto simp: executeSingle_def validQuery_def filterRows_eq selectedRows_def split: option.splits)

lemma orderAndLimit_perm:
  assumes "uniformRows q rows" and "distinct (map rowId rows)" and "mset rows = mset rows'"
  shows "orderAndLimit env q rows = orderAndLimit env q rows'"
  using assms orderBySources_perm [of "qOrderBy q" "\<lambda>r. baseSources (fromBase (qFrom q)) (rowData r)" rows rowId rows' env]
  by (simp add: orderAndLimit_def uniformRows_def distinct_map)

lemma executeSingle_perm:
  assumes "mset rows = mset rows'" and "distinct (map rowId rows)" and "uniformRows q rows"
  shows "executeSingle env keyString factory q rows = executeSingle env keyString factory q rows'"
proof -
  have m: "mset (selectedRows env keyString q rows) = mset (selectedRows env keyString q rows')"
    using assms(1) by (simp add: selectedRows_def)
  have s: "set rows = set rows'" using assms(1) by (metis set_mset_mset)
  have "uniformRows q (selectedRows env keyString q rows)"
    using assms(3) unfolding uniformRows_def selectedRows_def by (rule uniformColumns_subset) auto
  moreover have "distinct (map rowId (selectedRows env keyString q rows))"
    using assms(2) by (simp add: selectedRows_def distinct_map_filter)
  ultimately have "orderAndLimit env q (selectedRows env keyString q rows) = orderAndLimit env q (selectedRows env keyString q rows')"
    using m by (intro orderAndLimit_perm)
  moreover have "rows = [] \<longleftrightarrow> rows' = []" using s by auto
  ultimately show ?thesis using s by (simp add: executeSingle_cases list_ex_iff del: not_None_eq)
qed

context total_sort_order
begin

lemma strictly_sorted:
  assumes "distinct ys" and "set ys \<subseteq> A" and "mset xs = mset ys"
  shows "sorted_wrt lt xs \<longleftrightarrow> sorted_wrt (\<lambda>a b. \<not> lt b a) xs"
proof -
  have xs: "set xs \<subseteq> A" "distinct xs"
    using assms by (metis set_mset_mset, metis mset_eq_imp_distinct_iff)
  have "lt (xs ! i) (xs ! j) \<longleftrightarrow> \<not> lt (xs ! j) (xs ! i)" if "i < j" "j < length xs" for i j
  proof -
    have "xs ! i \<in> A" "xs ! j \<in> A" "xs ! i \<noteq> xs ! j"
      using that xs by (simp_all add: subset_iff nth_eq_iff_index_eq)
    then show ?thesis using asym total by blast
  qed
  then show ?thesis by (simp add: sorted_wrt_iff_nth_less)
qed

end

text \<open>C6: A query without joins and grouping answers with exactly the rows that satisfy its condition and
  lie under its parent, each once, in the order of its expressions with the identifiers breaking
  ties, cut to its limit. That list is unique, provided each column it is ordered by holds numbers
  only or none; so the answer does not depend on the order in which the rows are loaded.\<close>

theorem single_query_answer:
  assumes "distinct (map rowId rows)" and "uniformRows q rows" and "validQuery q" and "rows \<noteq> []"
    and "list_all (\<lambda>r. keepRow env keyString q r \<noteq> None) rows"
  shows "\<exists>!answer. mset answer = mset (selectedRows env keyString q rows) \<and>
      sorted_wrt (queryOrder env q) answer \<and>
      (\<forall>rows'. mset rows' = mset rows \<longrightarrow>
        executeSingle env keyString factory q rows' = buildResults factory q (applyLimit (qLimit q) answer))"
proof -
  define sel where "sel = selectedRows env keyString q rows"
  have u: "uniformRows q sel"
    using assms(2) unfolding uniformRows_def sel_def selectedRows_def by (rule uniformColumns_subset) auto
  have d: "distinct (map rowId sel)"
    using assms(1) by (simp add: sel_def selectedRows_def distinct_map_filter)
  then have ds: "distinct sel" by (simp add: distinct_map)
  have tot: "total_sort_order (queryOrder env q) (set sel)"
    unfolding queryOrder_def using u d by (intro orderLess_total) (simp_all add: uniformRows_def distinct_map)
  have so: "sort_order (queryOrder env q) (set sel)"
    using tot by (simp add: total_sort_order_def)
  note strict = total_sort_order.strictly_sorted [OF tot ds subset_refl]
  let ?ans = "sliceStable (queryOrder env q) sel"
  have ans: "mset ?ans = mset sel" "sorted_wrt (queryOrder env q) ?ans"
    using strict [of ?ans] sort_order.sorted_sliceStable [OF so, of sel] by simp_all
  have exec: "executeSingle env keyString factory q rows = buildResults factory q (applyLimit (qLimit q) ?ans)"
    using assms(3-5) by (simp add: executeSingle_cases sel_def orderAndLimit_def orderBySources_def queryOrder_def list_ex_iff
        list_all_iff del: not_None_eq)
  show ?thesis
  proof (rule ex1I [of _ ?ans])
    show "mset ?ans = mset (selectedRows env keyString q rows) \<and> sorted_wrt (queryOrder env q) ?ans \<and>
      (\<forall>rows'. mset rows' = mset rows \<longrightarrow>
        executeSingle env keyString factory q rows' = buildResults factory q (applyLimit (qLimit q) ?ans))"
      using ans exec executeSingle_perm [OF _ assms(1,2)] by (metis sel_def)
  next
    fix xs assume "mset xs = mset (selectedRows env keyString q rows) \<and> sorted_wrt (queryOrder env q) xs \<and>
      (\<forall>rows'. mset rows' = mset rows \<longrightarrow>
        executeSingle env keyString factory q rows' = buildResults factory q (applyLimit (qLimit q) xs))"
    then show "xs = ?ans"
      using total_sort_order.sorted_mset_unique [OF tot, of ?ans xs] ans strict [of xs] strict [of ?ans] sel_def by simp
  qed
qed

text \<open>A collection of three rows: the two notes of one author, by number, the last first.\<close>

abbreviation sampleRow :: "string \<Rightarrow> fields \<Rightarrow> fields engineRow" where
  "sampleRow i fs \<equiv> \<lparr>rowId = i, rowData = fs, rowMaterialize = (\<lambda>_. Some fs), rowKey = None\<rparr>"

abbreviation sampleQuery :: "fields structuredQuery" where
  "sampleQuery \<equiv> (newStructuredQuery \<lparr>fromBase = CollectionRef ''notes'' [] None, fromJoins = []\<rparr>)
     \<lparr>qWhere := Comparison Equal (Field ''by'') (Constant (VString ''string'' ''ann'')),
      qOrderBy := [\<lparr>ordExpression = Field ''n'', ordDescending = True\<rparr>], qLimit := 1\<rparr>"

abbreviation sampleRows :: "fields engineRow list" where
  "sampleRows \<equiv>
     [sampleRow ''a'' [(''by'', VString ''string'' ''ann''), (''n'', VFloat ''float64'' 1)],
      sampleRow ''b'' [(''by'', VString ''string'' ''bob''), (''n'', VFloat ''float64'' 2)],
      sampleRow ''c'' [(''by'', VString ''string'' ''ann''), (''n'', VFloat ''float64'' 3)]]"

lemma sampleQuery_meets:
  "distinct (map rowId sampleRows)" "uniformRows sampleQuery sampleRows" "validQuery sampleQuery" "sampleRows \<noteq> []"
  "list_all (\<lambda>r. keepRow sampleValueEnv (\<lambda>_. []) sampleQuery r \<noteq> None) sampleRows"
  by code_simp+

theorem single_query_answer_witness:
  "\<exists>answer. mset answer = mset (selectedRows sampleValueEnv (\<lambda>_. []) sampleQuery sampleRows) \<and>
     sorted_wrt (queryOrder sampleValueEnv sampleQuery) answer \<and>
     executeSingle sampleValueEnv (\<lambda>_. []) None sampleQuery (rev sampleRows) =
       buildResults None sampleQuery (applyLimit (qLimit sampleQuery) answer)"
  using single_query_answer [OF sampleQuery_meets, of None] by (metis mset_rev)

text \<open>Without that proviso there is no such list: where a column mixes numbers and texts the order of a
  query has cycles. A record with the number 2 comes before one with 10, that one before one with
  the text 15, and this one before the first, so where they end up depends on the order in which
  the rows were loaded.\<close>

theorem mixed_column_order_cycles:
  "let row = (\<lambda>i v. sampleRow i [(''n'', v)]);
       less = queryOrder sampleValueEnv (sampleQuery\<lparr>qOrderBy := [\<lparr>ordExpression = Field ''n'', ordDescending = False\<rparr>]\<rparr>);
       two = row ''a'' (VFloat ''float64'' 2); ten = row ''b'' (VFloat ''float64'' 10);
       textual = row ''c'' (VString ''string'' ''15'')
   in less two ten \<and> less ten textual \<and> less textual two"
  by code_simp

subsection \<open>Acceleration\<close>

fun mapE :: "('a \<Rightarrow> 'e + 'b) \<Rightarrow> 'a list \<Rightarrow> 'e + 'b list" where
  "mapE f [] = Inr []"
| "mapE f (x # xs) = bindE (f x) (\<lambda>y. bindE (mapE f xs) (\<lambda>ys. Inr (y # ys)))"

lemma mapE_filter:
  assumes "mapE f xs = Inr ys" and "\<And>x y. f x = Inr y \<Longrightarrow> g y = x"
  shows "mapE f (filter P xs) = Inr (filter (\<lambda>y. P (g y)) ys)" "map g ys = xs"
  using assms by (induction xs arbitrary: ys) (auto simp: bindE_eq_Inr)

definition rowAt :: "('d, 'c) columnEnv \<Rightarrow> ('d, 'c) columnarEngine \<Rightarrow> string \<Rightarrow> memError + 'd engineRow" where
  "rowAt env e rid =
     (let slot = the (map_of (ceIdToSlot e) rid)
      in bindE (rowData_columnar env e slot) (\<lambda>data.
         Inr \<lparr>rowId = rid, rowData = data,
              rowMaterialize = (\<lambda>target. case materializeSlot env e slot target of Inl _ \<Rightarrow> None | Inr d \<Rightarrow> Some d),
              rowKey = slotKey e slot\<rparr>))"

lemma buildRows_mapE: "buildRows env e ids = mapE (rowAt env e) ids"
proof (induction ids)
  case (Cons i ids)
  then show ?case
    by (cases "rowData_columnar env e (the (map_of (ceIdToSlot e) i))") (simp_all add: rowAt_def Let_def)
qed simp

definition slotOf :: "('d, 'c) columnarEngine \<Rightarrow> 'd engineRow \<Rightarrow> nat" where
  "slotOf e r = the (map_of (ceIdToSlot e) (rowId r))"

lemma slot_ids:
  assumes "slotsInv e"
  defines "ids slots \<equiv> map (\<lambda>slot. ceSlotToID e ! slot) (filter (\<lambda>slot. slot < length (ceLive e) \<and> ceLive e ! slot) (remdups slots))"
  shows "sortStrings (ids slots) =
    filter (\<lambda>rid. the (map_of (ceIdToSlot e) rid) \<in> set slots) (keysOf (ceIdToSlot e))"
proof (rule sorted_distinct_set_unique)
  have live: "map_of (ceIdToSlot e) rid = Some s \<longleftrightarrow> s < length (ceLive e) \<and> ceLive e ! s \<and> ceSlotToID e ! s = rid" for rid s
    using slotsInvD(7) [OF assms(1)] by simp
  have ok: "gomapOk (ceIdToSlot e)" using slotsInvD(6) [OF assms(1)] .
  show "sorted (sortStrings (ids slots))" by (rule sortStrings_sorted)
  have "inj_on (\<lambda>slot. ceSlotToID e ! slot) {s. s < length (ceLive e) \<and> ceLive e ! s}"
    using live by (auto simp: inj_on_def) (metis option.inject)
  then have "distinct (ids slots)"
    by (auto simp: ids_def distinct_map intro: inj_on_subset)
  then show "distinct (sortStrings (ids slots))"
    unfolding sortStrings_def by (metis mset_eq_imp_distinct_iff mset_sliceStable)
  show "sorted (filter (\<lambda>rid. the (map_of (ceIdToSlot e) rid) \<in> set slots) (keysOf (ceIdToSlot e)))"
    using sortStrings_sorted [of "keysOf (ceIdToSlot e)"] sortStrings_keysOf [OF ok] by (simp add: sorted_wrt_filter)
  show "distinct (filter (\<lambda>rid. the (map_of (ceIdToSlot e) rid) \<in> set slots) (keysOf (ceIdToSlot e)))"
    using gomapOk_distinct [OF ok] by simp
  show "set (sortStrings (ids slots)) =
      set (filter (\<lambda>rid. the (map_of (ceIdToSlot e) rid) \<in> set slots) (keysOf (ceIdToSlot e)))"
  proof (rule set_eqI)
    fix rid
    have "rid \<in> set (sortStrings (ids slots)) \<longleftrightarrow> (\<exists>s \<in> set slots. map_of (ceIdToSlot e) rid = Some s)"
      unfolding ids_def sortStrings_set live by auto
    also have "\<dots> \<longleftrightarrow> rid \<in> set (filter (\<lambda>rid. the (map_of (ceIdToSlot e) rid) \<in> set slots) (keysOf (ceIdToSlot e)))"
      unfolding set_filter set_keysOf dom_def by auto
    finally show "rid \<in> set (sortStrings (ids slots)) \<longleftrightarrow>
        rid \<in> set (filter (\<lambda>rid. the (map_of (ceIdToSlot e) rid) \<in> set slots) (keysOf (ceIdToSlot e)))" .
  qed
qed

lemma candidateRows_filter:
  assumes "slotsInv e" and "columnarRows env e = Inr all" and "candidateSlots env external e cond = Some slots"
  shows "candidateRows env external e cond = Inr (Some (filter (\<lambda>r. slotOf e r \<in> set slots) all))"
    and "map rowId all = keysOf (ceIdToSlot e)"
proof -
  have ok: "gomapOk (ceIdToSlot e)" using slotsInvD(6) [OF assms(1)] .
  have init: "ceInitErr e = None" using slotsInvD(1) [OF assms(1)] .
  have all: "mapE (rowAt env e) (keysOf (ceIdToSlot e)) = Inr all"
    using assms(2) init sortStrings_keysOf [OF ok] by (simp add: columnarRows_def buildRows_mapE)
  have rid: "rowAt env e x = Inr y \<Longrightarrow> rowId y = x" for x y by (auto simp: rowAt_def Let_def bindE_eq_Inr)
  show "map rowId all = keysOf (ceIdToSlot e)" by (rule mapE_filter(2) [OF all rid])
  show "candidateRows env external e cond = Inr (Some (filter (\<lambda>r. slotOf e r \<in> set slots) all))"
    using init assms(3) mapE_filter(1) [where P = "\<lambda>rid. the (map_of (ceIdToSlot e) rid) \<in> set slots", OF all rid]
    by (simp add: candidateRows_def slot_ids [OF assms(1)] buildRows_mapE slotOf_def Let_def)
qed

lemma columnar_reachable_slots:
  fixes env :: "('d, 'c) columnEnv"
  assumes "ceInitErr (newColumnarEngine cfg collection factory refBreaking :: ('d, 'c) columnarEngine) = None"
  shows "slotsInv (fst (runEngine (engineStep (columnarOps env)) (newColumnarEngine cfg collection factory refBreaking) ops))"
  using columnar.trace_simulation [OF new_columnar_inv [OF assms], of env ops
      "fst (runEngine (engineStep (columnarOps env)) (newColumnarEngine cfg collection factory refBreaking) ops)"
      "snd (runEngine (engineStep (columnarOps env)) (newColumnarEngine cfg collection factory refBreaking) ops)"]
  by (simp add: columnarInv_def)

text \<open>C30: When a column strategy answers an equality condition, the rows considered are the rows of the
  full scan in the slots the strategy names, in the same order, for built-in and supplied strategies
  alike. So the accelerated query selects only rows the full scan selects, and it selects the same
  rows exactly when the strategy names the slot of every row that satisfies the condition.\<close>

theorem acceleration_sound:
  fixes env :: "('d, 'c) columnEnv" and refBreaking :: bool
  assumes "ceInitErr (newColumnarEngine cfg collection factory refBreaking :: ('d, 'c) columnarEngine) = None"
    and "e = fst (runEngine (engineStep (columnarOps env)) (newColumnarEngine cfg collection factory refBreaking) ops)"
    and "columnarRows env e = Inr all" and "candidateSlots env external e (qWhere q) = Some slots"
  shows "\<exists>found. loadCandidateRows order env external (ColumnarE e) (qWhere q) = Inr found \<and>
      selectedRows venv keyString q found = filter (\<lambda>r. slotOf e r \<in> set slots) (selectedRows venv keyString q all) \<and>
      (selectedRows venv keyString q found = selectedRows venv keyString q all \<longleftrightarrow>
       slotOf e ` set (selectedRows venv keyString q all) \<subseteq> set slots)"
proof -
  have inv: "slotsInv e" using columnar_reachable_slots [OF assms(1)] assms(2) by simp
  have "filter P xs = xs \<longleftrightarrow> (\<forall>x \<in> set xs. P x)" for P and xs :: "'d engineRow list"
    by (simp add: filter_id_conv)
  moreover have "loadCandidateRows order env external (ColumnarE e) (qWhere q) =
      Inr (filter (\<lambda>r. slotOf e r \<in> set slots) all)"
    using candidateRows_filter(1) [OF inv assms(3,4)] by (simp add: loadCandidateRows_def)
  moreover have "selectedRows venv keyString q (filter (\<lambda>r. slotOf e r \<in> set slots) all) =
      filter (\<lambda>r. slotOf e r \<in> set slots) (selectedRows venv keyString q all)"
    unfolding selectedRows_def filter_filter by (rule filter_cong) auto
  ultimately show ?thesis by auto
qed

text \<open>A collection of maps with a declared integer column: two stored records.\<close>

definition intElem :: "value elemType" where
  "intElem =
     \<lparr>etZero = VInt ''int'' 0,
      etDecode = (\<lambda>v. case v of
          VInt t i \<Rightarrow> if t = ''int'' then Some v else None
        | VFloat t q \<Rightarrow> if of_int \<lfloor>q\<rfloor> = q then Some (VInt ''int'' \<lfloor>q\<rfloor>) else None
        | _ \<Rightarrow> None),
      etEncode = marshal sampleValueEnv, etComparable = True, etEquals = (\<lambda>c v. goEq c v = Some True)\<rparr>"

definition intColumnEnv :: "(fields, value) columnEnv" where
  "intColumnEnv = sampleColumnEnv\<lparr>elemOps := (\<lambda>t. if t = TBasic ''int'' then intElem else anyElem)\<rparr>"

definition intEngine :: "(fields, value) columnarEngine" where
  "intEngine = newColumnarEngine \<lparr>cfgStrategies = [], cfgRefBreakOver = None, cfgDeclared = [(''n'', TBasic ''int'')]\<rparr>
     ''items'' (Some \<lparr>newData = [], strictDecode = (\<lambda>_. True), factoryType = Some TMapStringAny\<rparr>) True"

definition intHistory :: "fields engineOp list" where
  "intHistory =
     [OpStore ''i1'' \<lparr>recKey = Key ''items'' (goStr ''i1'') None, recData = [(''n'', VInt ''int'' 5)]\<rparr> False,
      OpStore ''i2'' \<lparr>recKey = Key ''items'' (goStr ''i2'') None, recData = [(''n'', VInt ''int'' 6)]\<rparr> False]"

definition intRun :: "(fields, value) columnarEngine" where
  "intRun = fst (runEngine (engineStep (columnarOps intColumnEnv)) intEngine intHistory)"

definition intQuery :: "value \<Rightarrow> fields structuredQuery" where
  "intQuery v = (newStructuredQuery \<lparr>fromBase = CollectionRef ''items'' [] None, fromJoins = []\<rparr>)
     \<lparr>qWhere := Comparison Equal (Field ''n'') (Constant v)\<rparr>"

abbreviation noExternal :: "'c externalStrategy" where
  "noExternal \<equiv> \<lambda>_ _ _. None"

lemma intRun_facts:
  "ceInitErr intEngine = None"
  "isOk (columnarRows intColumnEnv intRun)"
  "candidateSlots intColumnEnv noExternal intRun (qWhere (intQuery (VInt ''int'' 5))) = Some [0]"
  by code_simp+

theorem acceleration_sound_witness:
  "\<exists>all found. columnarRows intColumnEnv intRun = Inr all \<and>
     loadCandidateRows (\<lambda>xs. xs) intColumnEnv noExternal (ColumnarE intRun) (qWhere (intQuery (VInt ''int'' 5))) = Inr found \<and>
     selectedRows sampleValueEnv (\<lambda>_. []) (intQuery (VInt ''int'' 5)) found =
       filter (\<lambda>r. slotOf intRun r \<in> {0}) (selectedRows sampleValueEnv (\<lambda>_. []) (intQuery (VInt ''int'' 5)) all)"
proof -
  obtain all where all: "columnarRows intColumnEnv intRun = Inr all"
    using intRun_facts(2) by (cases "columnarRows intColumnEnv intRun") simp_all
  show ?thesis
    using acceleration_sound [OF intRun_facts(1) [unfolded intEngine_def] intRun_def [unfolded intEngine_def] all intRun_facts(3)]
      all by fastforce
qed

text \<open>The built-in strategy compares the stored value with the constant as it was given, whereas the
  condition compares decoded documents. Where the constant is of another integer type than the
  column, the accelerated query finds nothing although the row satisfies the condition, which the
  full scan, and a serialized collection, would find.\<close>

theorem acceleration_misses_rows:
  "map_sum (\<lambda>x. x) (map rowId)
     (loadCandidateRows (\<lambda>xs. xs) intColumnEnv noExternal (ColumnarE intRun) (qWhere (intQuery (VInt ''int64'' 5)))) = Inr [] \<and>
   map_sum (\<lambda>x. x) (\<lambda>all. map rowId (selectedRows sampleValueEnv (\<lambda>_. []) (intQuery (VInt ''int64'' 5)) all))
     (columnarRows intColumnEnv intRun) = Inr [''i1'']"
  by code_simp

end
