(* ===== verification/MemoryRelational.thy ===== *)
theory MemoryRelational
  imports MemoryQuery
begin

text \<open>
  Joins (\<open>src/adapters/dalgo2memory/join.go\<close>), grouping and aggregation (\<open>group.go\<close>), and the entry
  point \<open>ExecuteQueryToRecordsReader\<close> of a session (\<open>database.go\<close>).

  \<open>queryEnv\<close> holds what a query needs from outside: the iteration order of Go's maps (\<open>mapOrder\<close>, from
  the sorted keys), the text of expressions, the text of keys, and the answers of supplied column
  strategies. Aggregates are computed in \<open>float64\<close>, with one rounding per addition and division;
  infinities are outside the model.
\<close>

section \<open>Definitions\<close>

subsection \<open>Joins (\<open>join.go\<close>)\<close>

definition JoinInner :: string where "JoinInner = ''INNER''"
definition JoinLeft :: string where "JoinLeft = ''LEFT''"

definition sourceKey :: "recordsetSource \<Rightarrow> string" where
  "sourceKey rs = (if sourceAlias rs \<noteq> [] then sourceAlias rs else sourceName rs)"

text \<open>The value an expression has in a row, and whether it is present there.\<close>

fun resolveJoinExpr :: "expression \<Rightarrow> rowSources \<Rightarrow> string list \<Rightarrow> queryError + value \<times> bool" where
  "resolveJoinExpr (FieldRef src name isID) srcs known =
     (if src \<notin> set known then Inl (UnknownSource name src)
      else
        Inr (case map_of srcs src of
               None \<Rightarrow> (VNil, False)
             | Some m \<Rightarrow> (case map_of m name of None \<Rightarrow> (VNil, False) | Some v \<Rightarrow> (v, True))))"
| "resolveJoinExpr (Constant v) srcs known = Inr (v, True)"
| "resolveJoinExpr _ srcs known = Inl UnsupportedExpression"

fun matchesJoinCondition :: "condition \<Rightarrow> rowSources \<Rightarrow> string list \<Rightarrow> queryError + bool" where
  "matchesJoinCondition NilCondition srcs known = Inr True"
| "matchesJoinCondition (Comparison opr l r) srcs known =
     (if opr \<noteq> Equal then Inr False
      else
        bindE (resolveJoinExpr l srcs known) (\<lambda>(lv, lok).
        bindE (resolveJoinExpr r srcs known) (\<lambda>(rv, rok).
          if lok \<and> rok
          then (case valuesEqual lv rv of None \<Rightarrow> Inl QueryPanic | Some b \<Rightarrow> Inr b)
          else Inr False)))"
| "matchesJoinCondition _ srcs known = Inr False"

fun allConditionsMatch :: "condition list \<Rightarrow> rowSources \<Rightarrow> string list \<Rightarrow> queryError + bool" where
  "allConditionsMatch [] srcs known = Inr True"
| "allConditionsMatch (c # cs) srcs known =
     bindE (matchesJoinCondition c srcs known) (\<lambda>ok. if ok then allConditionsMatch cs srcs known else Inr False)"

record joinedRow =
  jrBaseID :: string
  jrSources :: rowSources
  jrMerged :: fields

definition mergeData :: "fields \<Rightarrow> fields \<Rightarrow> fields" where
  "mergeData base join = copyInto (copyInto [] base) join"

text \<open>A row of the join; the joined source of an unmatched row is a nil map, which reads as an empty one.\<close>

definition joinRow :: "string \<Rightarrow> string \<Rightarrow> 'd engineRow \<Rightarrow> fields \<Rightarrow> joinedRow" where
  "joinRow baseKey joinKey br joined =
     \<lparr>jrBaseID = rowId br,
      jrSources = putKey joinKey joined (putKey baseKey (rowData br) (putKey [] (rowData br) [])),
      jrMerged = mergeData (rowData br) joined\<rparr>"

fun joinWithRows ::
  "string \<Rightarrow> string \<Rightarrow> condition list \<Rightarrow> string list \<Rightarrow> 'd engineRow \<Rightarrow> 'd engineRow list \<Rightarrow> queryError + joinedRow list" where
  "joinWithRows baseKey joinKey on known br [] = Inr []"
| "joinWithRows baseKey joinKey on known br (jr # jrs) =
     (let row = joinRow baseKey joinKey br (rowData jr) in
      bindE (allConditionsMatch on (jrSources row) known) (\<lambda>ok.
      bindE (joinWithRows baseKey joinKey on known br jrs) (\<lambda>rest.
        Inr (if ok then row # rest else rest))))"

fun nestedLoop ::
  "bool \<Rightarrow> string \<Rightarrow> string \<Rightarrow> condition list \<Rightarrow> string list \<Rightarrow> 'd engineRow list \<Rightarrow> 'd engineRow list \<Rightarrow>
   queryError + joinedRow list" where
  "nestedLoop isLeft baseKey joinKey on known [] jrs = Inr []"
| "nestedLoop isLeft baseKey joinKey on known (br # brs) jrs =
     bindE (joinWithRows baseKey joinKey on known br jrs) (\<lambda>matched.
     bindE (nestedLoop isLeft baseKey joinKey on known brs jrs) (\<lambda>rest.
       Inr ((if matched = [] \<and> isLeft then [joinRow baseKey joinKey br []] else matched) @ rest)))"

fun filterE :: "('r \<Rightarrow> 'e + bool) \<Rightarrow> 'r list \<Rightarrow> 'e + 'r list" where
  "filterE f [] = Inr []"
| "filterE f (r # rs) =
     bindE (f r) (\<lambda>ok. bindE (filterE f rs) (\<lambda>rest. Inr (if ok then r # rest else rest)))"

definition sortByID :: "'d engineRow list \<Rightarrow> 'd engineRow list" where
  "sortByID rows = sliceStable (\<lambda>a b. rowId a < rowId b) rows"

definition orderJoinedRows :: "valueEnv \<Rightarrow> orderExpression list \<Rightarrow> joinedRow list \<Rightarrow> joinedRow list" where
  "orderJoinedRows env orderBy rows = orderBySources env orderBy jrSources jrBaseID rows"

definition joinResult :: "'d structuredQuery \<Rightarrow> joinedRow \<Rightarrow> key \<times> 'd resultData" where
  "joinResult q row =
     (Key (sourceName (fromBase (qFrom q))) (goStr (jrBaseID row)) None,
      if qColumns q \<noteq> [] then Projected (projectRow (qColumns q) (jrSources row))
      else if qIntoRecord q = None then KeysOnly
      else Projected (jrMerged row))"

subsection \<open>Groups and aggregates (\<open>group.go\<close>)\<close>

text \<open>The members of a group, and its output row once it is projected.\<close>

record aggGroup =
  agRows :: "rowSources list"
  agOut :: "fields option"

definition groupKey :: "valueEnv \<Rightarrow> expression list \<Rightarrow> rowSources \<Rightarrow> string list \<Rightarrow> queryError + string" where
  "groupKey env groupBy r known =
     bindE (mapE (\<lambda>ge. bindE (resolveJoinExpr ge r known) (\<lambda>(v, _). Inr (typeText v @ '':'' @ sprint env v))) groupBy)
       (\<lambda>parts. Inr (joinWith [CHR 0x00] parts))"

text \<open>Partition by key, groups in the order in which they are first seen.\<close>

fun addToGroup :: "string \<Rightarrow> 'r \<Rightarrow> (string \<times> 'r list) list \<Rightarrow> (string \<times> 'r list) list" where
  "addToGroup k r [] = [(k, [r])]"
| "addToGroup k r ((k', rs) # gs) =
     (if k = k' then (k', rs @ [r]) # gs else (k', rs) # addToGroup k r gs)"

fun partitionRows :: "('r \<Rightarrow> 'e + string) \<Rightarrow> (string \<times> 'r list) list \<Rightarrow> 'r list \<Rightarrow> 'e + (string \<times> 'r list) list" where
  "partitionRows key gs [] = Inr gs"
| "partitionRows key gs (r # rs) = bindE (key r) (\<lambda>k. partitionRows key (addToGroup k r gs) rs)"

text \<open>The present, non-nil values of an aggregate's first argument; without arguments Go panics.\<close>

fun argValues :: "expression list \<Rightarrow> rowSources list \<Rightarrow> string list \<Rightarrow> queryError + value list" where
  "argValues args [] known = Inr []"
| "argValues [] (r # rs) known = Inl QueryPanic"
| "argValues (a # args) (r # rs) known =
     bindE (resolveJoinExpr a r known) (\<lambda>(v, present).
     bindE (argValues (a # args) rs known) (\<lambda>vs.
       Inr (if present \<and> v \<noteq> VNil then v # vs else vs)))"

definition sumStep :: "rat \<times> nat \<Rightarrow> value \<Rightarrow> rat \<times> nat" where
  "sumStep acc v =
     (case number v of None \<Rightarrow> acc | Some f \<Rightarrow> (roundF64 (fst acc + f), Suc (snd acc)))"

definition bestStep :: "valueEnv \<Rightarrow> bool \<Rightarrow> value option \<Rightarrow> value \<Rightarrow> value option" where
  "bestStep env isMin best v =
     (case best of
        None \<Rightarrow> Some v
      | Some b \<Rightarrow>
          let c = compare_value env v b in if (isMin \<and> c < 0) \<or> (\<not> isMin \<and> c > 0) then Some v else Some b)"

definition evalAggregate ::
  "valueEnv \<Rightarrow> string \<Rightarrow> expression list \<Rightarrow> rowSources list \<Rightarrow> string list \<Rightarrow> queryError + value" where
  "evalAggregate env name args rows known =
     (if name = ''COUNT'' then
        (if length args = 1 \<and> (case hd args of FieldRef s n i \<Rightarrow> False | _ \<Rightarrow> True)
         then Inr (VInt ''int'' (int (length rows)))
         else bindE (argValues args rows known) (\<lambda>vs. Inr (VInt ''int'' (int (length vs)))))
      else if name = ''SUM'' \<or> name = ''AVG'' then
        bindE (argValues args rows known) (\<lambda>vs.
          let (sum, cnt) = foldl sumStep (0, 0) vs
          in Inr (if cnt = 0 then VNil
                  else VFloat ''float64'' (if name = ''AVG'' then roundF64 (sum / of_nat cnt) else sum)))
      else if name = ''MIN'' \<or> name = ''MAX'' then
        bindE (argValues args rows known) (\<lambda>vs.
          Inr (case foldl (bestStep env (name = ''MIN'')) None vs of None \<Rightarrow> VNil | Some b \<Rightarrow> b))
      else Inl (UnsupportedAggregate name))"

fun resolveGroupValue :: "valueEnv \<Rightarrow> expression \<Rightarrow> aggGroup \<Rightarrow> string list \<Rightarrow> queryError + value" where
  "resolveGroupValue env (Function name args) g known = evalAggregate env name args (agRows g) known"
| "resolveGroupValue env (FieldRef src name isID) g known =
     (case (if src = [] then Option.bind (agOut g) (\<lambda>out. map_of out name) else None) of
        Some v \<Rightarrow> Inr v
      | None \<Rightarrow> bindE (resolveJoinExpr (FieldRef src name isID) (hd (agRows g)) known) (\<lambda>(v, _). Inr v))"
| "resolveGroupValue env (Constant v) g known = Inr (normalizeConstant env v)"
| "resolveGroupValue env _ g known = Inl UnsupportedGroupedExpression"

text \<open>Disjunctions and conjunctions stop at the first condition that decides, or at an error.\<close>

fun anyE :: "('e + bool) list \<Rightarrow> 'e + bool" where
  "anyE [] = Inr False"
| "anyE (b # bs) = bindE b (\<lambda>ok. if ok then Inr True else anyE bs)"

fun allE :: "('e + bool) list \<Rightarrow> 'e + bool" where
  "allE [] = Inr True"
| "allE (b # bs) = bindE b (\<lambda>ok. if ok then allE bs else Inr False)"

fun matchesHaving :: "valueEnv \<Rightarrow> condition \<Rightarrow> aggGroup \<Rightarrow> string list \<Rightarrow> queryError + bool" where
  "matchesHaving env (Comparison opr l r) g known =
     bindE (resolveGroupValue env l g known) (\<lambda>lv.
     bindE (resolveGroupValue env r g known) (\<lambda>rv. Inr (compareOp env opr lv rv)))"
| "matchesHaving env (GroupCondition opr cs) g known =
     (if opr = Or then anyE (map (\<lambda>c. matchesHaving env c g known) cs)
      else allE (map (\<lambda>c. matchesHaving env c g known) cs))"
| "matchesHaving env _ g known = Inl UnsupportedHaving"

definition columnOutKey :: "textEnv \<Rightarrow> column_dal \<Rightarrow> string" where
  "columnOutKey tenv col =
     (if colAlias col \<noteq> [] then colAlias col
      else case colExpression col of FieldRef s name i \<Rightarrow> name | e \<Rightarrow> exprString tenv e)"

fun validateGroupSources :: "expression list \<Rightarrow> string list \<Rightarrow> queryError option" where
  "validateGroupSources [] known = None"
| "validateGroupSources (FieldRef src name isID # ges) known =
     (if src \<noteq> [] \<and> src \<notin> set known then Some (UnknownGroupSource name src) else validateGroupSources ges known)"
| "validateGroupSources (_ # ges) known = validateGroupSources ges known"

definition columnAllowed :: "textEnv \<Rightarrow> expression list \<Rightarrow> column_dal \<Rightarrow> bool" where
  "columnAllowed tenv groupBy col =
     (case colExpression col of
        Function name args \<Rightarrow> True
      | e \<Rightarrow> exprString tenv e \<in> set (map (exprString tenv) groupBy))"

definition projectGroup ::
  "valueEnv \<Rightarrow> textEnv \<Rightarrow> column_dal list \<Rightarrow> string list \<Rightarrow> rowSources list \<Rightarrow> queryError + aggGroup" where
  "projectGroup env tenv cols known rows =
     bindE (mapE (\<lambda>col. bindE (resolveGroupValue env (colExpression col) \<lparr>agRows = rows, agOut = None\<rparr> known)
         (\<lambda>v. Inr (columnOutKey tenv col, v))) cols)
       (\<lambda>entries. Inr \<lparr>agRows = rows, agOut = Some (copyInto [] entries)\<rparr>)"

fun keysCompare :: "valueEnv \<Rightarrow> orderExpression list \<Rightarrow> value list \<Rightarrow> value list \<Rightarrow> int" where
  "keysCompare env [] ki kj = 0"
| "keysCompare env (oe # oes) ki kj =
     (let c0 = compare_value env (hd ki) (hd kj); c = (if ordDescending oe then - c0 else c0)
      in if c \<noteq> 0 then c else keysCompare env oes (tl ki) (tl kj))"

definition orderGroups ::
  "valueEnv \<Rightarrow> orderExpression list \<Rightarrow> string list \<Rightarrow> aggGroup list \<Rightarrow> queryError + aggGroup list" where
  "orderGroups env orderBy known groups =
     bindE (mapE (\<lambda>g. bindE (mapE (\<lambda>oe. resolveGroupValue env (ordExpression oe) g known) orderBy)
         (\<lambda>ks. Inr (ks, g))) groups)
       (\<lambda>keyed. Inr (map snd (sliceStable (\<lambda>a b. keysCompare env orderBy (fst a) (fst b) < 0) keyed)))"

definition applyOffset :: "int \<Rightarrow> 'r list \<Rightarrow> 'r list" where
  "applyOffset offset rows = (if offset > 0 then drop (nat offset) rows else rows)"

definition groupRecords :: "string \<Rightarrow> aggGroup list \<Rightarrow> (key \<times> 'd resultData) list" where
  "groupRecords collection groups =
     map (\<lambda>(i, g). (Key collection (goStr (natDec i)) None, Projected (the (agOut g)))) (enumerate 0 groups)"

definition executeGroupedReader ::
  "valueEnv \<Rightarrow> textEnv \<Rightarrow> 'd structuredQuery \<Rightarrow> rowSources list \<Rightarrow> string \<Rightarrow> string list \<Rightarrow>
   queryError + (key \<times> 'd resultData) list" where
  "executeGroupedReader env tenv q rows collection known =
     (case validateGroupSources (qGroupBy q) known of
        Some e \<Rightarrow> Inl e
      | None \<Rightarrow>
          if \<not> list_all (columnAllowed tenv (qGroupBy q)) (qColumns q) then Inl ColumnNotGrouped
          else
            bindE (partitionRows (\<lambda>r. groupKey env (qGroupBy q) r known) [] rows) (\<lambda>parts.
            bindE (mapE (projectGroup env tenv (qColumns q) known) (map snd parts)) (\<lambda>groups.
            bindE (if qHaving q = NilCondition then Inr groups
                   else filterE (\<lambda>g. matchesHaving env (qHaving q) g known) groups) (\<lambda>kept.
            bindE (if qOrderBy q = [] then Inr kept else orderGroups env (qOrderBy q) known kept) (\<lambda>ordered.
              Inr (groupRecords collection (applyLimit (qLimit q) (applyOffset (qOffset q) ordered))))))))"

subsection \<open>Execution (\<open>database.go\<close>, \<open>join.go\<close>)\<close>

record 'c queryEnv =
  mapOrder :: "string list \<Rightarrow> string list"
  exprText :: textEnv
  keyString :: "key \<Rightarrow> string"
  strategies :: "'c externalStrategy"

definition executeRows ::
  "valueEnv \<Rightarrow> 'c queryEnv \<Rightarrow> 'd goFactory option \<Rightarrow> 'd structuredQuery \<Rightarrow> 'd engineRow list \<Rightarrow>
   queryError + (key \<times> 'd resultData) list" where
  "executeRows env qenv factory q allRows =
     (if qGroupBy q = [] then executeSingle env (keyString qenv) factory q allRows
      else if allRows = [] then Inr []
      else
        let base = fromBase (qFrom q); known = knownSources base in
        case validateOrderSources (qOrderBy q) known of
          Some e \<Rightarrow> Inl e
        | None \<Rightarrow>
            (case filterRows (keepRow env (keyString qenv) q) allRows of
               None \<Rightarrow> Inl QueryPanic
             | Some rows \<Rightarrow>
                 executeGroupedReader env (exprText qenv) q (map (\<lambda>r. baseSources base (rowData r)) rows)
                   (sourceName base) known))"

definition joinLoaded ::
  "valueEnv \<Rightarrow> 'c queryEnv \<Rightarrow> 'd structuredQuery \<Rightarrow> joinedSource \<Rightarrow> 'd engineRow list \<Rightarrow> 'd engineRow list \<Rightarrow>
   queryError + (key \<times> 'd resultData) list" where
  "joinLoaded env qenv q join baseRows joinRows =
     (let base = fromBase (qFrom q); baseKey = sourceKey base; joinKey = sourceKey (jsSource join);
          known = [[], baseKey, joinKey] in
      bindE (nestedLoop (jsJoinType join = JoinLeft) baseKey joinKey (jsOn join) known
               (sortByID baseRows) (sortByID joinRows)) (\<lambda>combined.
      bindE (filterE (\<lambda>row. matchesJoinCondition (qWhere q) (jrSources row) known) combined) (\<lambda>rows.
        if qGroupBy q \<noteq> []
        then executeGroupedReader env (exprText qenv) q (map jrSources rows) (sourceName base) known
        else Inr (map (joinResult q) (applyLimit (qLimit q) (orderJoinedRows env (qOrderBy q) rows))))))"

definition loadRows ::
  "('d, 'c) sessionEnv \<Rightarrow> 'c queryEnv \<Rightarrow> ('d, 'c) memoryDB \<Rightarrow> string \<Rightarrow> queryError + 'd engineRow list" where
  "loadRows env qenv db collection =
     map_sum StoreError (\<lambda>rows. rows) (engRows (mapOrder qenv) (colEnv env) (engineOf db collection))"

definition executeJoinQuery ::
  "('d, 'c) sessionEnv \<Rightarrow> 'c queryEnv \<Rightarrow> ('d, 'c) session \<Rightarrow> 'd structuredQuery \<Rightarrow>
   ('d, 'c) session \<times> (queryError + (key \<times> 'd resultData) list)" where
  "executeJoinQuery env qenv s q =
     (case fromJoins (qFrom q) of
        [join] \<Rightarrow>
          if jsJoinType join \<notin> {JoinInner, JoinLeft} then (s, Inl (UnsupportedJoinType (jsJoinType join)))
          else
            let base = fromBase (qFrom q); known = [[], sourceKey base, sourceKey (jsSource join)] in
            (case validateOrderSources (qOrderBy q) known of
               Some e \<Rightarrow> (s, Inl e)
             | None \<Rightarrow>
                 (case (if qGroupBy q = [] then validateColumns (qColumns q) known else None) of
                    Some e \<Rightarrow> (s, Inl e)
                  | None \<Rightarrow>
                      let db1 = touch (sDB s) (sourceName base) in
                      (case loadRows env qenv (sDB s) (sourceName base) of
                         Inl e \<Rightarrow> (s\<lparr>sDB := db1\<rparr>, Inl e)
                       | Inr baseRows \<Rightarrow>
                           (s\<lparr>sDB := touch db1 (sourceName (jsSource join))\<rparr>,
                            bindE (loadRows env qenv db1 (sourceName (jsSource join)))
                              (joinLoaded (valEnv (baseEnv (colEnv env))) qenv q join baseRows)))))
      | joins \<Rightarrow> (s, Inl (JoinCount (length joins))))"

text \<open>A query that is not a structured one is \<^const>\<open>None\<close>.\<close>

definition ExecuteQueryToRecordsReader ::
  "('d, 'c) sessionEnv \<Rightarrow> 'c queryEnv \<Rightarrow> ('d, 'c) session \<Rightarrow> 'd structuredQuery option \<Rightarrow>
   ('d, 'c) session \<times> (queryError + (key \<times> 'd resultData) list)" where
  "ExecuteQueryToRecordsReader env qenv s query =
     (case allowRead s of
        Some e \<Rightarrow> (s, Inl (StoreError e))
      | None \<Rightarrow>
          (case query of
             None \<Rightarrow> (s, Inl NotSupported)
           | Some q \<Rightarrow>
               if fromJoins (qFrom q) \<noteq> [] then executeJoinQuery env qenv s q
               else
                 let c = sourceName (fromBase (qFrom q)) in
                 (case recordFactory (sDB s) c of
                    Inl e \<Rightarrow> (s, Inl (StoreError e))
                  | Inr factory \<Rightarrow>
                      (s\<lparr>sDB := touch (sDB s) c\<rparr>,
                       bindE (map_sum StoreError (\<lambda>rows. rows)
                           (loadCandidateRows (mapOrder qenv) (colEnv env) (strategies qenv) (engineOf (sDB s) c) (qWhere q)))
                         (executeRows (valEnv (baseEnv (colEnv env))) qenv factory q)))))"

section \<open>Laws\<close>

subsection \<open>Loading rows\<close>

lemma mapE_eq:
  assumes "\<And>x e. f x = Inl e \<Longrightarrow> e = e0"
  shows "mapE f xs = (if list_all (\<lambda>x. isOk (f x)) xs then Inr (map (\<lambda>x. projr (f x)) xs) else Inl e0)"
proof (induction xs)
  case (Cons x xs)
  then show ?case using assms [of x] by (cases "f x") auto
qed simp

definition serializedRowAt :: "'d dataEnv \<Rightarrow> 'd serializedEngine \<Rightarrow> string \<Rightarrow> memError + 'd engineRow" where
  "serializedRowAt env e rid =
     (case decodeMap (the (map_of (seRecords e) rid)) of
        None \<Rightarrow> Inl UnmarshalFailed
      | Some data \<Rightarrow>
          Inr \<lparr>rowId = rid, rowData = (case data of None \<Rightarrow> [] | Some m \<Rightarrow> m),
               rowMaterialize = unmarshalInto env (the (map_of (seRecords e) rid)), rowKey = map_of (seKeys e) rid\<rparr>)"

lemma serializedRowsLoop_mapE: "serializedRowsLoop env e ids = mapE (serializedRowAt env e) ids"
proof (induction ids)
  case (Cons i ids)
  then show ?case
    by (cases "decodeMap (the (map_of (seRecords e) i))") (simp_all add: serializedRowAt_def Let_def)
qed simp

text \<open>The same rows, in any order: what two loads of one collection agree on.\<close>

fun sameLoad :: "'e + 'd engineRow list \<Rightarrow> 'e + 'd engineRow list \<Rightarrow> bool" where
  "sameLoad (Inl e) (Inl e') = (e = e')"
| "sameLoad (Inr rows) (Inr rows') = (mset rows = mset rows' \<and> distinct (map rowId rows))"
| "sameLoad _ _ = False"

definition permutes :: "(string list \<Rightarrow> string list) \<Rightarrow> bool" where
  "permutes order = (\<forall>xs. mset (order xs) = mset xs)"

lemma serializedRows_sameLoad:
  assumes "serializedInv e" and "permutes order" and "permutes order'"
  shows "sameLoad (serializedRows order env e) (serializedRows order' env e)"
proof -
  let ?ids = "keysOf (seRecords e)"
  have err: "serializedRowAt env e x = Inl err \<Longrightarrow> err = UnmarshalFailed" for x err
    by (simp add: serializedRowAt_def split: option.splits)
  have rid: "isOk (serializedRowAt env e x) \<Longrightarrow> rowId (projr (serializedRowAt env e x)) = x" for x
    by (simp add: serializedRowAt_def split: option.splits)
  have m: "mset (order ?ids) = mset ?ids" "mset (order' ?ids) = mset ?ids"
    using assms(2,3) by (simp_all add: permutes_def)
  have sets: "set (order ?ids) = set ?ids" "set (order' ?ids) = set ?ids" using m by (metis set_mset_mset)+
  have d: "distinct (order ?ids)"
    using m(1) assms(1) gomapOk_distinct [of "seRecords e"] mset_eq_imp_distinct_iff [of "order ?ids" ?ids]
    by (simp add: serializedInv_def)
  show ?thesis
  proof (cases "list_all (\<lambda>x. isOk (serializedRowAt env e x)) ?ids")
    case True
    have "map (\<lambda>x. rowId (projr (serializedRowAt env e x))) (order ?ids) = order ?ids"
      using True rid sets by (intro map_idI) (auto simp: list_all_iff)
    then show ?thesis
      using True m d sets by (simp add: serializedRows_def serializedRowsLoop_mapE mapE_eq [OF err] list_all_iff comp_def)
  next
    case False
    then show ?thesis
      using sets by (simp only: serializedRows_def serializedRowsLoop_mapE mapE_eq [OF err] list_all_iff if_False sameLoad.simps)
  qed
qed

lemma columnarRows_distinct:
  assumes "slotsInv e" and "columnarRows env e = Inr rows"
  shows "distinct (map rowId rows)"
proof -
  have ok: "gomapOk (ceIdToSlot e)" using slotsInvD(6) [OF assms(1)] .
  have "mapE (rowAt env e) (keysOf (ceIdToSlot e)) = Inr rows"
    using assms(2) slotsInvD(1) [OF assms(1)] sortStrings_keysOf [OF ok] by (simp add: columnarRows_def buildRows_mapE)
  then have "map rowId rows = keysOf (ceIdToSlot e)"
    by (rule mapE_filter(2)) (auto simp: rowAt_def Let_def bindE_eq_Inr)
  then show ?thesis using gomapOk_distinct [OF ok] by simp
qed

lemma engineWf_cases:
  "engineWf e0 eng \<Longrightarrow>
   (case eng of SerializedE e \<Rightarrow> serializedInv e | ColumnarE e \<Rightarrow> ceInitErr e \<noteq> None \<or> slotsInv e)"
  by (cases e0; cases eng) (auto simp: engineWf_def initErrOf_def columnarInv_def split: if_splits)

lemma engRows_sameLoad:
  assumes "engineWf e0 eng" and "permutes order" and "permutes order'"
  shows "sameLoad (engRows order env eng) (engRows order' env eng)"
proof (cases eng)
  case (SerializedE e)
  then show ?thesis
    using engineWf_cases [OF assms(1)] serializedRows_sameLoad [OF _ assms(2,3)] by simp
next
  case (ColumnarE e)
  then have "ceInitErr e \<noteq> None \<or> slotsInv e" using engineWf_cases [OF assms(1)] by simp
  moreover have "columnarRows env e = Inl err" if "ceInitErr e = Some err" for err
    using that by (simp add: columnarRows_def)
  ultimately show ?thesis
    using ColumnarE columnarRows_distinct [of e env] by (cases "columnarRows env e") auto
qed

lemma loadCandidateRows_sameLoad:
  assumes "engineWf e0 eng" and "permutes order" and "permutes order'"
  shows "sameLoad (loadCandidateRows order env external eng cond) (loadCandidateRows order' env external eng cond)"
proof (cases eng)
  case (SerializedE e)
  then show ?thesis using engRows_sameLoad [OF assms, of env] by (simp add: loadCandidateRows_def)
next
  case (ColumnarE e)
  show ?thesis
  proof (cases "ceInitErr e")
    case None
    then have inv: "slotsInv e" using engineWf_cases [OF assms(1)] ColumnarE by simp
    have "distinct (map rowId rows)" if found: "candidateRows env external e cond = Inr (Some rows)" for rows
    proof -
      obtain slots where slots: "candidateSlots env external e cond = Some slots"
        using found None by (cases "candidateSlots env external e cond") (simp_all add: candidateRows_def)
      let ?keys = "filter (\<lambda>rid. the (map_of (ceIdToSlot e) rid) \<in> set slots) (keysOf (ceIdToSlot e))"
      have "mapE (rowAt env e) ?keys = Inr rows"
        using found None slots by (simp add: candidateRows_def slot_ids [OF inv] buildRows_mapE Let_def bindE_eq_Inr)
      then have "map rowId rows = ?keys"
        by (rule mapE_filter(2)) (auto simp: rowAt_def Let_def bindE_eq_Inr)
      then show ?thesis using gomapOk_distinct [OF slotsInvD(6) [OF inv]] by simp
    qed
    then show ?thesis
      using ColumnarE engRows_sameLoad [OF assms, of env]
      by (cases "candidateRows env external e cond") (auto simp: loadCandidateRows_def split: option.splits)
  qed (use ColumnarE in \<open>simp add: loadCandidateRows_def candidateRows_def\<close>)
qed

subsection \<open>The order of loading does not show\<close>

lemma sortByID_perm:
  assumes "mset rows = mset rows'" and "distinct (map rowId rows)"
  shows "sortByID rows = sortByID rows'"
proof -
  have "total_sort_order (\<lambda>a b. rowId a < rowId b) (set rows)"
    using assms(2) by unfold_locales (auto simp: distinct_map inj_on_def)
  then show ?thesis
    unfolding sortByID_def by (rule total_sort_order.sliceStable_perm) (use assms(1) in simp_all)
qed

lemma joinLoaded_perm:
  assumes "mset bs = mset bs'" "distinct (map rowId bs)" "mset js = mset js'" "distinct (map rowId js)"
  shows "joinLoaded env qenv q join bs js = joinLoaded env (qenv\<lparr>mapOrder := order\<rparr>) q join bs' js'"
  unfolding joinLoaded_def sortByID_perm [OF assms(1,2)] sortByID_perm [OF assms(3,4)] by (simp cong: if_cong)

lemma executeJoinQuery_perm:
  assumes wf: "dbWf db0 (sDB s)" and "permutes (mapOrder qenv)" and "permutes order"
  shows "executeJoinQuery env qenv s q = executeJoinQuery env (qenv\<lparr>mapOrder := order\<rparr>) s q"
proof -
  have load: "sameLoad (loadRows env qenv db c) (loadRows env (qenv\<lparr>mapOrder := order\<rparr>) db c)" if "dbWf db0 db" for db c
  proof -
    have "engineWf (newEngine db0 c) (engineOf db c)" using that by (simp add: dbWf_def)
    from engRows_sameLoad [OF this assms(2,3), of "colEnv env"] show ?thesis
      by (cases "engRows (mapOrder qenv) (colEnv env) (engineOf db c)"; cases "engRows order (colEnv env) (engineOf db c)")
        (simp_all add: loadRows_def)
  qed
  have wf1: "dbWf db0 (touch (sDB s) c)" for c
    using wf by (simp add: touch_def dbWf_withEngine dbWf_def [of db0 "sDB s"])
  have two: "(case loadRows env qenv (sDB s) b of
        Inl e \<Rightarrow> (s\<lparr>sDB := touch (sDB s) b\<rparr>, Inl e)
      | Inr bs \<Rightarrow> (s\<lparr>sDB := touch (touch (sDB s) b) c\<rparr>,
          bindE (loadRows env qenv (touch (sDB s) b) c) (joinLoaded venv qenv q join bs))) =
     (case loadRows env (qenv\<lparr>mapOrder := order\<rparr>) (sDB s) b of
        Inl e \<Rightarrow> (s\<lparr>sDB := touch (sDB s) b\<rparr>, Inl e)
      | Inr bs \<Rightarrow> (s\<lparr>sDB := touch (touch (sDB s) b) c\<rparr>,
          bindE (loadRows env (qenv\<lparr>mapOrder := order\<rparr>) (touch (sDB s) b) c)
            (joinLoaded venv (qenv\<lparr>mapOrder := order\<rparr>) q join bs)))" for venv join b c
    using load [OF wf, of b] load [OF wf1, of b c]
    by (cases "loadRows env qenv (sDB s) b"; cases "loadRows env (qenv\<lparr>mapOrder := order\<rparr>) (sDB s) b";
        cases "loadRows env qenv (touch (sDB s) b) c"; cases "loadRows env (qenv\<lparr>mapOrder := order\<rparr>) (touch (sDB s) b) c")
      (auto intro: joinLoaded_perm)
  show ?thesis unfolding executeJoinQuery_def Let_def two ..
qed

text \<open>What a query without joins and grouping orders by is uniform in the rows it would load.\<close>

definition uniformLoad :: "('d, 'c) sessionEnv \<Rightarrow> 'c queryEnv \<Rightarrow> ('d, 'c) session \<Rightarrow> 'd structuredQuery \<Rightarrow> bool" where
  "uniformLoad env qenv s q =
     (case loadCandidateRows (mapOrder qenv) (colEnv env) (strategies qenv)
         (engineOf (sDB s) (sourceName (fromBase (qFrom q)))) (qWhere q) of
        Inl e \<Rightarrow> True
      | Inr rows \<Rightarrow> uniformRows q rows)"

text \<open>C16: The answer of a query does not depend on the order in which Go iterates over its maps: whatever
  history of calls made the database, any two iteration orders give the same records in the same
  order, or the same error, for every join, grouped or not, and for every query of one collection
  without grouping whose order columns hold numbers only or none.\<close>

theorem query_ignores_map_order:
  assumes "runEngine (sessionStep env) \<lparr>sDB = NewDB opts, sTx = None\<rparr> calls = (s, rs)"
    and "permutes (mapOrder qenv)" and "permutes order"
    and "fromJoins (qFrom q) \<noteq> [] \<or> (qGroupBy q = [] \<and> uniformLoad env qenv s q)"
  shows "ExecuteQueryToRecordsReader env (qenv\<lparr>mapOrder := order\<rparr>) s (Some q) =
    ExecuteQueryToRecordsReader env qenv s (Some q)"
proof (cases "fromJoins (qFrom q) \<noteq> []")
  case True
  have wf: "dbWf (NewDB opts) (sDB s)"
    using session_trace [OF _ _ assms(1), of "NewDB opts"] by (simp add: dbWf_NewDB)
  show ?thesis
    using True executeJoinQuery_perm [OF wf assms(2,3), of env q]
    by (simp add: ExecuteQueryToRecordsReader_def split: option.split)
next
  case False
  define c where "c = sourceName (fromBase (qFrom q))"
  define load where "load ord = loadCandidateRows ord (colEnv env) (strategies qenv) (engineOf (sDB s) c) (qWhere q)" for ord
  have "dbWf (NewDB opts) (sDB s)"
    using session_trace [OF _ _ assms(1), of "NewDB opts"] by (simp add: dbWf_NewDB)
  then have "engineWf (newEngine (NewDB opts) c) (engineOf (sDB s) c)" by (simp add: dbWf_def)
  then have same: "sameLoad (load (mapOrder qenv)) (load order)"
    unfolding load_def using assms(2,3) by (rule loadCandidateRows_sameLoad)
  have g: "qGroupBy q = []" using False assms(4) by simp
  have exec: "bindE (map_sum StoreError (\<lambda>rows. rows) (load (mapOrder qenv))) (executeRows venv qenv factory q) =
      bindE (map_sum StoreError (\<lambda>rows. rows) (load order)) (executeRows venv (qenv\<lparr>mapOrder := order\<rparr>) factory q)" for venv factory
  proof (cases "load (mapOrder qenv)")
    case (Inl e)
    then show ?thesis using same by (cases "load order") simp_all
  next
    case (Inr rows)
    then obtain rows' where rows': "load order = Inr rows'" using same by (cases "load order") simp_all
    have "uniformRows q rows" using False assms(4) Inr by (simp add: uniformLoad_def load_def c_def)
    then show ?thesis
      using same Inr rows' g executeSingle_perm [of rows rows' q venv "keyString qenv" factory] by (simp add: executeRows_def)
  qed
  show ?thesis
    using False exec by (simp add: ExecuteQueryToRecordsReader_def Let_def load_def c_def split: option.split sum.split)
qed

text \<open>One collection with a grouped and an ungrouped query, read in both orders of its map.\<close>

abbreviation sampleQueryEnv :: "value queryEnv" where
  "sampleQueryEnv \<equiv> \<lparr>mapOrder = (\<lambda>xs. xs), exprText = \<lparr>tenvValue = sampleValueEnv, constantText = (\<lambda>_. [])\<rparr>,
     keyString = (\<lambda>_. []), strategies = (\<lambda>_ _ _. None)\<rparr>"

definition noteCall :: "string \<Rightarrow> string \<Rightarrow> string \<Rightarrow> fields sessionCall" where
  "noteCall c i author = CInsert \<lparr>recKey = Key c (goStr i) None, recData = [(''by'', VString ''string'' author)]\<rparr>"

definition notesSession :: "(fields, value) session" where
  "notesSession = fst (sampleRun [] None
     [noteCall ''notes'' ''n1'' ''bob'', noteCall ''notes'' ''n2'' ''ann'', noteCall ''people'' ''p1'' ''ann''])"

definition fromNotes :: "joinedSource list \<Rightarrow> fields structuredQuery" where
  "fromNotes joins = newStructuredQuery \<lparr>fromBase = CollectionRef ''notes'' [] None, fromJoins = joins\<rparr>"

lemma permutes_samples: "permutes (\<lambda>xs. xs)" "permutes rev"
  by (simp_all add: permutes_def)

theorem query_ignores_map_order_witness:
  "ExecuteQueryToRecordsReader sampleSessionEnv (sampleQueryEnv\<lparr>mapOrder := rev\<rparr>) notesSession (Some (fromNotes [])) =
     ExecuteQueryToRecordsReader sampleSessionEnv sampleQueryEnv notesSession (Some (fromNotes [])) \<and>
   map_sum (\<lambda>e. e) (map (keyID \<circ> fst))
     (snd (ExecuteQueryToRecordsReader sampleSessionEnv sampleQueryEnv notesSession (Some (fromNotes [])))) =
     Inr [goStr ''n1'', goStr ''n2'']"
proof -
  obtain s rs where run: "sampleRun [] None
      [noteCall ''notes'' ''n1'' ''bob'', noteCall ''notes'' ''n2'' ''ann'', noteCall ''people'' ''p1'' ''ann''] = (s, rs)"
    by fastforce
  then have s: "s = notesSession" by (simp add: notesSession_def)
  have u: "fromJoins (qFrom (fromNotes [])) \<noteq> [] \<or>
      (qGroupBy (fromNotes []) = [] \<and> uniformLoad sampleSessionEnv sampleQueryEnv notesSession (fromNotes []))"
    by (rule disjI2) code_simp
  have "map_sum (\<lambda>e. e) (map (keyID \<circ> fst))
     (snd (ExecuteQueryToRecordsReader sampleSessionEnv sampleQueryEnv notesSession (Some (fromNotes [])))) =
     Inr [goStr ''n1'', goStr ''n2'']" by code_simp
  then show ?thesis
    using query_ignores_map_order [OF run, of sampleQueryEnv rev "fromNotes []"] permutes_samples u s by simp
qed

lemma grouped_order_follows_map:
  "let q = (fromNotes [])\<lparr>qGroupBy := [Field ''by''], qColumns := [\<lparr>colAlias = [], colExpression = Field ''by''\<rparr>], qLimit := 1\<rparr>
   in snd (ExecuteQueryToRecordsReader sampleSessionEnv sampleQueryEnv notesSession (Some q)) \<noteq>
      snd (ExecuteQueryToRecordsReader sampleSessionEnv (sampleQueryEnv\<lparr>mapOrder := rev\<rparr>) notesSession (Some q))"
  by code_simp

subsection \<open>Joins are relational\<close>

definition onHolds ::
  "string \<Rightarrow> string \<Rightarrow> condition list \<Rightarrow> string list \<Rightarrow> 'd engineRow \<Rightarrow> 'd engineRow \<Rightarrow> queryError + bool" where
  "onHolds baseKey joinKey on known b j =
     allConditionsMatch on (jrSources (joinRow baseKey joinKey b (rowData j))) known"

text \<open>
  The join of two lists of rows: for each base row its pairs with the joined rows that match, and for
  a left join, where there is none, the row alone.
\<close>

definition relationalJoin ::
  "bool \<Rightarrow> ('d engineRow \<Rightarrow> fields \<Rightarrow> joinedRow) \<Rightarrow> ('d engineRow \<Rightarrow> 'd engineRow \<Rightarrow> bool) \<Rightarrow>
   'd engineRow list \<Rightarrow> 'd engineRow list \<Rightarrow> joinedRow list" where
  "relationalJoin isLeft pair on bs js =
     concat (map (\<lambda>b. map (\<lambda>j. pair b (rowData j)) (filter (on b) js) @
       (if isLeft \<and> \<not> list_ex (on b) js then [pair b []] else [])) bs)"

lemma joinWithRows_spec:
  assumes "list_all (\<lambda>j. onHolds bk jk on known b j = Inr (P j)) js"
  shows "joinWithRows bk jk on known b js = Inr (map (\<lambda>j. joinRow bk jk b (rowData j)) (filter P js))"
  using assms by (induction js) (simp_all add: onHolds_def Let_def)

lemma nestedLoop_spec:
  assumes "list_all (\<lambda>b. list_all (\<lambda>j. onHolds bk jk on known b j = Inr (P b j)) js) bs"
  shows "nestedLoop isLeft bk jk on known bs js = Inr (relationalJoin isLeft (joinRow bk jk) P bs js)"
  using assms
proof (induction bs)
  case (Cons b bs)
  then have "joinWithRows bk jk on known b js = Inr (map (\<lambda>j. joinRow bk jk b (rowData j)) (filter (P b) js))"
    by (simp add: joinWithRows_spec)
  moreover have "filter (P b) js = [] \<longleftrightarrow> \<not> list_ex (P b) js"
    by (simp add: filter_empty_conv list_ex_iff)
  ultimately show ?case using Cons by (auto simp: relationalJoin_def)
qed (simp add: relationalJoin_def)

lemma relationalJoin_perm:
  assumes "mset bs = mset bs'" and "mset js = mset js'"
  shows "mset (relationalJoin isLeft pair on bs js) = mset (relationalJoin isLeft pair on bs' js')"
proof -
  have ex: "list_ex P js = list_ex P js'" for P
    using assms(2) by (metis list_ex_iff set_mset_mset)
  have "mset (map (\<lambda>j. pair b (rowData j)) (filter (on b) js)) = mset (map (\<lambda>j. pair b (rowData j)) (filter (on b) js'))" for b
    using assms(2) by (simp add: multiset.map_comp)
  then have "mset (relationalJoin isLeft pair on bs js) = mset (relationalJoin isLeft pair on bs js')"
    by (simp add: relationalJoin_def mset_concat comp_def ex cong: map_cong)
  also have "\<dots> = mset (relationalJoin isLeft pair on bs' js')"
    unfolding relationalJoin_def by (rule mset_concat_map_cong [OF assms(1)])
  finally show ?thesis .
qed

lemma filterE_spec:
  "list_all (\<lambda>r. f r = Inr (P r)) rs \<Longrightarrow> filterE f rs = Inr (filter P rs)"
  by (induction rs) simp_all

text \<open>C7: A join without grouping answers with the relational join of the two collections: the pairs of
  rows that satisfy the \<open>ON\<close> conditions and, for a left join, every base row without a partner, of
  these the ones that satisfy the condition of the query, each as often as the pairing yields it,
  sorted by the order of the query, cut to its limit. The order in which rows were loaded does not
  matter.\<close>

theorem join_is_relational:
  fixes q :: "'d structuredQuery" and join :: joinedSource and bs js :: "'d engineRow list"
  assumes "qGroupBy q = []"
    and "list_all (\<lambda>b. list_all (\<lambda>j. onHolds (sourceKey (fromBase (qFrom q))) (sourceKey (jsSource join)) (jsOn join)
        [[], sourceKey (fromBase (qFrom q)), sourceKey (jsSource join)] b j = Inr (on b j)) js) bs"
    and "list_all (\<lambda>r. matchesJoinCondition (qWhere q) (jrSources r)
        [[], sourceKey (fromBase (qFrom q)), sourceKey (jsSource join)] = Inr (keep r))
        (relationalJoin (jsJoinType join = JoinLeft)
          (joinRow (sourceKey (fromBase (qFrom q))) (sourceKey (jsSource join))) on bs js)"
  shows "\<exists>rows. joinLoaded env qenv q join bs js = Inr (map (joinResult q) (applyLimit (qLimit q) rows)) \<and>
    mset rows = mset (filter keep (relationalJoin (jsJoinType join = JoinLeft)
      (joinRow (sourceKey (fromBase (qFrom q))) (sourceKey (jsSource join))) on bs js)) \<and>
    (uniformColumns (qOrderBy q) jrSources rows \<longrightarrow>
      sorted_wrt (\<lambda>a b. \<not> orderLess env (qOrderBy q) jrSources jrBaseID b a) rows)"
proof -
  define bk jk known pair where "bk = sourceKey (fromBase (qFrom q))" and "jk = sourceKey (jsSource join)"
    and "known = [[], bk, jk]" and "pair = (joinRow bk jk :: 'd engineRow \<Rightarrow> fields \<Rightarrow> joinedRow)"
  define spec where "spec bs js = relationalJoin (jsJoinType join = JoinLeft) pair on bs js" for bs js
  define rows where "rows = filter keep (spec (sortByID bs) (sortByID js))"
  define ordered where "ordered = orderJoinedRows env (qOrderBy q) rows"
  have loop: "nestedLoop (jsJoinType join = JoinLeft) bk jk (jsOn join) known (sortByID bs) (sortByID js) =
      Inr (spec (sortByID bs) (sortByID js))"
    unfolding spec_def pair_def by (rule nestedLoop_spec) (use assms(2) in \<open>simp add: list_all_iff sortByID_def bk_def jk_def known_def\<close>)
  have perm: "mset (spec (sortByID bs) (sortByID js)) = mset (spec bs js)"
    unfolding spec_def by (rule relationalJoin_perm) (simp_all add: sortByID_def)
  have "filterE (\<lambda>row. matchesJoinCondition (qWhere q) (jrSources row) known) (spec (sortByID bs) (sortByID js)) = Inr rows"
    unfolding rows_def using assms(3) mset_eq_setD [OF perm]
    by (intro filterE_spec) (simp add: list_all_iff spec_def pair_def bk_def jk_def known_def)
  then have "joinLoaded env qenv q join bs js = Inr (map (joinResult q) (applyLimit (qLimit q) ordered))"
    using loop assms(1) by (simp add: joinLoaded_def Let_def bk_def jk_def known_def ordered_def)
  moreover have "mset ordered = mset (filter keep (spec bs js))"
    using perm by (simp add: ordered_def orderJoinedRows_def orderBySources_def rows_def)
  moreover have "sorted_wrt (\<lambda>a b. \<not> orderLess env (qOrderBy q) jrSources jrBaseID b a) ordered"
    if "uniformColumns (qOrderBy q) jrSources ordered"
  proof -
    have "set ordered = set rows" by (simp add: ordered_def orderJoinedRows_def orderBySources_def)
    then have "sort_order (orderLess env (qOrderBy q) jrSources jrBaseID) (set rows)"
      using orderLess_order [OF that, of env jrBaseID] by simp
    from sort_order.sorted_sliceStable [OF this, of rows] show ?thesis
      by (simp add: ordered_def orderJoinedRows_def orderBySources_def)
  qed
  ultimately show ?thesis
    unfolding spec_def pair_def bk_def jk_def by blast
qed

definition peopleJoin :: "string \<Rightarrow> joinedSource" where
  "peopleJoin kind = \<lparr>jsSource = CollectionRef ''people'' ''p'' None, jsJoinType = kind,
     jsOn = [Comparison Equal (NewFieldRef [] ''by'') (NewFieldRef ''p'' ''by'')]\<rparr>"

abbreviation noteRows :: "fields engineRow list" where
  "noteRows \<equiv> [sampleRow ''n2'' [(''by'', VString ''string'' ''ann'')], sampleRow ''n1'' [(''by'', VString ''string'' ''bob'')]]"

abbreviation peopleRows :: "fields engineRow list" where
  "peopleRows \<equiv> [sampleRow ''p1'' [(''by'', VString ''string'' ''ann''), (''age'', VFloat ''float64'' 7)]]"

theorem join_is_relational_witness:
  "\<exists>rows. joinLoaded sampleValueEnv sampleQueryEnv (fromNotes [peopleJoin JoinLeft]) (peopleJoin JoinLeft) noteRows peopleRows =
       Inr (map (joinResult (fromNotes [peopleJoin JoinLeft])) rows) \<and>
     mset rows = {#joinRow ''notes'' ''p'' (noteRows ! 0) (rowData (peopleRows ! 0)), joinRow ''notes'' ''p'' (noteRows ! 1) []#}"
proof -
  let ?q = "fromNotes [peopleJoin JoinLeft]" and ?on = "\<lambda>b j. rowId b = ''n2''"
  have "qGroupBy ?q = []" by code_simp
  moreover have "list_all (\<lambda>b. list_all (\<lambda>j. onHolds (sourceKey (fromBase (qFrom ?q))) (sourceKey (jsSource (peopleJoin JoinLeft)))
      (jsOn (peopleJoin JoinLeft)) [[], sourceKey (fromBase (qFrom ?q)), sourceKey (jsSource (peopleJoin JoinLeft))] b j = Inr (?on b j))
      peopleRows) noteRows" by code_simp
  moreover have "list_all (\<lambda>r. matchesJoinCondition (qWhere ?q) (jrSources r)
      [[], sourceKey (fromBase (qFrom ?q)), sourceKey (jsSource (peopleJoin JoinLeft))] = Inr True)
      (relationalJoin (jsJoinType (peopleJoin JoinLeft) = JoinLeft)
        (joinRow (sourceKey (fromBase (qFrom ?q))) (sourceKey (jsSource (peopleJoin JoinLeft)))) ?on noteRows peopleRows)"
    by code_simp
  ultimately obtain rows where rows:
    "joinLoaded sampleValueEnv sampleQueryEnv ?q (peopleJoin JoinLeft) noteRows peopleRows =
       Inr (map (joinResult ?q) (applyLimit (qLimit ?q) rows))"
    "mset rows = mset (filter (\<lambda>_. True) (relationalJoin (jsJoinType (peopleJoin JoinLeft) = JoinLeft)
        (joinRow (sourceKey (fromBase (qFrom ?q))) (sourceKey (jsSource (peopleJoin JoinLeft)))) ?on noteRows peopleRows))"
    using join_is_relational [where q = ?q and bs = noteRows and join = "peopleJoin JoinLeft" and js = peopleRows and on = ?on
      and keep = "\<lambda>_. True" and env = sampleValueEnv and qenv = sampleQueryEnv] by blast
  moreover have "applyLimit (qLimit ?q) rows = rows" by (simp add: applyLimit_def fromNotes_def newStructuredQuery_def)
  moreover have "relationalJoin (jsJoinType (peopleJoin JoinLeft) = JoinLeft)
      (joinRow (sourceKey (fromBase (qFrom ?q))) (sourceKey (jsSource (peopleJoin JoinLeft)))) ?on noteRows peopleRows =
      [joinRow ''notes'' ''p'' (noteRows ! 0) (rowData (peopleRows ! 0)), joinRow ''notes'' ''p'' (noteRows ! 1) []]"
    by (simp add: relationalJoin_def peopleJoin_def JoinLeft_def fromNotes_def newStructuredQuery_def sourceKey_def)
  ultimately show ?thesis by (intro exI [of _ rows]) simp
qed

subsection \<open>Groups\<close>

text \<open>The keys in the order in which they first occur.\<close>

definition firsts :: "'k list \<Rightarrow> 'k list" where
  "firsts ks = rev (remdups (rev ks))"

lemma firsts_snoc: "firsts (ks @ [k]) = (if k \<in> set ks then firsts ks else firsts ks @ [k])"
  by (simp add: firsts_def)

lemma set_firsts [simp]: "set (firsts ks) = set ks"
  by (simp add: firsts_def)

lemma distinct_firsts [simp]: "distinct (firsts ks)"
  by (simp add: firsts_def)

definition groupsOf :: "('r \<Rightarrow> string) \<Rightarrow> 'r list \<Rightarrow> (string \<times> 'r list) list" where
  "groupsOf key rows = map (\<lambda>k. (k, filter (\<lambda>r. key r = k) rows)) (firsts (map key rows))"

lemma addToGroup_map:
  "distinct ks \<Longrightarrow> addToGroup k r (map (\<lambda>k. (k, f k)) ks) =
     (if k \<in> set ks then map (\<lambda>k'. (k', if k' = k then f k @ [r] else f k')) ks else map (\<lambda>k. (k, f k)) ks @ [(k, [r])])"
  by (induction ks) auto

lemma addToGroup_groupsOf: "addToGroup (key r) r (groupsOf key rows) = groupsOf key (rows @ [r])"
proof (cases "key r \<in> set (map key rows)")
  case False
  then have "filter (\<lambda>x. key x = key r) rows = []" by (simp add: filter_empty_conv) (metis imageI)
  then show ?thesis
    using False by (auto simp: groupsOf_def addToGroup_map firsts_snoc)
qed (auto simp: groupsOf_def addToGroup_map firsts_snoc)

lemma partitionRows_spec:
  "list_all (\<lambda>r. key r = Inr (k r)) rows \<Longrightarrow> partitionRows key (groupsOf k seen) rows = Inr (groupsOf k (seen @ rows))"
  by (induction rows arbitrary: seen) (simp_all add: addToGroup_groupsOf)

lemma groupsOf_count: "sum_list (map (length \<circ> snd) (groupsOf key rows)) = length rows"
proof -
  have "sum_list (map (length \<circ> snd) (groupsOf key rows)) =
      (\<Sum>k \<in> set (map key rows). length (filter (\<lambda>r. key r = k) rows))"
    by (simp add: groupsOf_def comp_def sum_list_distinct_conv_sum_set)
  also have "\<dots> = length rows"
    using sum_count_set [of "map key rows" "set (map key rows)"]
    by (simp add: count_list_eq_length_filter filter_map comp_def eq_commute)
  finally show ?thesis .
qed

subsection \<open>Exact sums\<close>

lemma bitLen_bounds: "n > 0 \<Longrightarrow> 2 ^ (bitLen n - 1) \<le> n \<and> n < 2 ^ bitLen n \<and> bitLen n > 0"
proof (induction n rule: bitLen.induct)
  case (1 n)
  show ?case
  proof (cases "n div 2 = 0")
    case True
    then have "n = 1" using 1 by simp
    then show ?thesis by (simp add: bitLen.simps)
  next
    case False
    then have ih: "2 ^ (bitLen (n div 2) - 1) \<le> n div 2" "n div 2 < 2 ^ bitLen (n div 2)" "bitLen (n div 2) > 0"
      using 1 by simp_all
    have len: "bitLen n = Suc (bitLen (n div 2))" using 1 by (simp add: bitLen.simps [of n])
    have "(2::nat) ^ bitLen (n div 2) = 2 * 2 ^ (bitLen (n div 2) - 1)"
      using ih(3) by (metis power_eq_if not_gr0)
    moreover have "2 * (n div 2) \<le> n" "n < 2 * (n div 2) + 2" by simp_all
    ultimately have "2 ^ bitLen (n div 2) \<le> n" "n < 2 * 2 ^ bitLen (n div 2)" using ih(1,2) by linarith+
    then show ?thesis using len by simp
  qed
qed

lemma bitLen_le: "n < 2 ^ k \<Longrightarrow> bitLen n \<le> k"
proof (cases "n = 0")
  case False
  assume "n < 2 ^ k"
  then have "2 ^ (bitLen n - 1) < (2::nat) ^ k" using bitLen_bounds [of n] False by (meson le_less_trans neq0_conv)
  then show ?thesis by (simp add: bitLen_bounds [of n])
qed (simp add: bitLen.simps)

lemma roundHalfEven_int [simp]: "roundHalfEven (of_int i) = i"
  by (simp add: roundHalfEven_def Let_def)

text \<open>An integer of at most 53 bits is a \<open>float64\<close>.\<close>

lemma roundF64_int:
  assumes "\<bar>i\<bar> < 2 ^ 53"
  shows "roundF64 (of_int i) = of_int i"
proof (cases "i = 0")
  case False
  define n where "n = nat \<bar>i\<bar>"
  have n: "n > 0" "int n = \<bar>i\<bar>" "n < 2 ^ 53" using False assms by (simp_all add: n_def)
  have quot: "quotient_of \<bar>of_int i\<bar> = (\<bar>i\<bar>, 1)"
    using quotient_of_rat_of_int [of "\<bar>i\<bar>"] by (simp del: quotient_of_rat_of_int)
  have one: "bitLen 1 = 1" by (simp add: bitLen.simps)
  define k where "k = bitLen n - 1"
  have k: "int (bitLen n) - int (bitLen 1) = int k" "k \<le> 52" "2 ^ k \<le> n"
    using bitLen_bounds [OF n(1)] bitLen_le [OF n(3)] one by (simp_all add: k_def)
  have lead: "pow2 (int k) \<le> \<bar>of_int i\<bar>"
  proof -
    have "(2::int) ^ k \<le> \<bar>i\<bar>" using zle_int [THEN iffD2, OF k(3)] n(2) by simp
    then have "(of_int (2 ^ k) :: rat) \<le> of_int \<bar>i\<bar>" by (simp only: of_int_le_iff)
    then show ?thesis by (simp add: pow2_def)
  qed
  have ulp: "pow2 (max (int k - 52) (- 1074)) = 1 / 2 ^ (52 - k)"
    using k(2) by (auto simp: pow2_def max_def nat_diff_distrib)
  have "\<bar>of_int i :: rat\<bar> / (1 / 2 ^ (52 - k)) = of_int (\<bar>i\<bar> * 2 ^ (52 - k))" by simp
  then have "roundF64 (of_int i) = sgn (of_int i) * of_int (\<bar>i\<bar> * 2 ^ (52 - k)) * (1 / 2 ^ (52 - k))"
    using False quot k(1) lead ulp by (simp add: roundF64_def Let_def n_def [symmetric] del: of_int_mult)
  then show ?thesis by (simp add: sgn_mult_abs)
qed (simp add: roundF64_def)


text \<open>A sum of whole numbers is exact as long as the magnitudes add up to less than \<open>2^53\<close>, whatever
  numeric types hold them; values that are absent, nil or not numeric do not count, and a group
  without any number sums to nil.\<close>

theorem sum_is_exact:
  assumes "argValues args rows known = Inr vs"
    and "map number (filter (\<lambda>v. number v \<noteq> None) vs) = map (Some \<circ> of_int) ns"
    and "sum_list (map abs ns) < 2 ^ 53"
  shows "evalAggregate env ''SUM'' args rows known =
    Inr (if ns = [] then VNil else VFloat ''float64'' (of_int (sum_list ns)))"
proof -
  have "foldl sumStep (of_int s, c) vs = (of_int (s + sum_list ns), c + length ns)"
    if "map number (filter (\<lambda>v. number v \<noteq> None) vs) = map (Some \<circ> of_int) ns"
      and "\<bar>s\<bar> + sum_list (map abs ns) < 2 ^ 53" for s c ns vs
    using that
  proof (induction vs arbitrary: s c ns)
    case (Cons v vs)
    show ?case
    proof (cases "number v")
      case None
      then show ?thesis using Cons by (simp add: sumStep_def)
    next
      case (Some f)
      then obtain n ns' where n: "ns = n # ns'" "f = of_int n" using Cons.prems(1) by (cases ns) auto
      have bound: "\<bar>s + n\<bar> + sum_list (map abs ns') < 2 ^ 53"
        using Cons.prems(2) n(1) abs_triangle_ineq [of s n] by simp
      moreover have "0 \<le> sum_list (map abs ns')" by (intro sum_list_nonneg) auto
      ultimately have "roundF64 (of_int (s + n)) = of_int (s + n)" by (intro roundF64_int) simp
      then have "sumStep (of_int s, c) v = (of_int (s + n), Suc c)"
        using Some n(2) by (simp add: sumStep_def)
      then show ?thesis
        using Cons.IH [OF _ bound, of "Suc c"] Cons.prems(1) Some n by (simp add: add.assoc)
    qed
  qed simp
  from this [of vs ns 0 0] have "foldl sumStep (0, 0) vs = (of_int (sum_list ns), length ns)"
    using assms(2,3) by simp
  then show ?thesis using assms(1) by (simp add: evalAggregate_def)
qed

context three_way
begin

lemma fold_least:
  assumes "set (b # vs) \<subseteq> A"
  shows "foldl (\<lambda>b v. if cmp v b < 0 then v else b) b vs \<in> set (b # vs) \<and>
    (\<forall>v \<in> set (b # vs). cmp (foldl (\<lambda>b v. if cmp v b < 0 then v else b) b vs) v \<le> 0)"
  using assms
proof (induction vs arbitrary: b)
  case Nil
  then show ?case using swap [of b b] by simp
next
  case (Cons v vs)
  define b' where "b' = (if cmp v b < 0 then v else b)"
  define m where "m = foldl (\<lambda>b v. if cmp v b < 0 then v else b) b' vs"
  have A: "b \<in> A" "v \<in> A" "set vs \<subseteq> A" "b' \<in> A" using Cons.prems by (auto simp: b'_def)
  then have m: "m \<in> set (b' # vs)" "\<forall>x \<in> set (b' # vs). cmp m x \<le> 0" using Cons.IH [of b'] by (simp_all add: m_def)
  then have "m \<in> A" using A by auto
  then have "cmp m b \<le> 0 \<and> cmp m v \<le> 0"
    using m(2) A triangle(2) [of m b v] triangle(2) [of m v b] swap [of v b] by (force simp: b'_def split: if_splits)
  moreover have "m \<in> set (b # v # vs)" using m(1) by (auto simp: b'_def split: if_splits)
  ultimately show ?case using m(2) by (simp add: m_def b'_def)
qed

end

lemma foldl_bestStep:
  "foldl (bestStep env isMin) (Some b) vs =
     Some (foldl (\<lambda>b v. if (if isMin then compare_value env v b else - compare_value env v b) < 0 then v else b) b vs)"
  by (induction vs arbitrary: b) (auto simp: bestStep_def Let_def)

text \<open>The aggregates \<open>MIN\<close> and \<open>MAX\<close> of a column that holds numbers only or none are one of its
  values, and no value of the group is smaller, or larger; without any value they are nil.\<close>

theorem extremes_are_extreme:
  assumes "argValues args rows known = Inr vs" and "uniform vs"
  shows "if vs = [] then evalAggregate env ''MIN'' args rows known = Inr VNil \<and> evalAggregate env ''MAX'' args rows known = Inr VNil
    else \<exists>least greatest. evalAggregate env ''MIN'' args rows known = Inr least \<and>
      evalAggregate env ''MAX'' args rows known = Inr greatest \<and> least \<in> set vs \<and> greatest \<in> set vs \<and>
      list_all (\<lambda>v. compare_value env least v \<le> 0 \<and> compare_value env greatest v \<ge> 0) vs"
proof (cases vs)
  case (Cons b vs')
  have tw: "three_way (compare_value env) (set vs)" using uniform_three_way [of "\<lambda>v. v" vs env] assms(2) by simp
  let ?fold = "\<lambda>isMin. foldl (\<lambda>b v. if (if isMin then compare_value env v b else - compare_value env v b) < 0 then v else b) b vs'"
  have "evalAggregate env ''MIN'' args rows known = Inr (?fold True)" "evalAggregate env ''MAX'' args rows known = Inr (?fold False)"
    using assms(1) Cons foldl_bestStep [of env True b vs'] foldl_bestStep [of env False b vs']
    by (simp_all add: evalAggregate_def bestStep_def)
  moreover have "?fold True \<in> set vs \<and> (\<forall>v \<in> set vs. compare_value env (?fold True) v \<le> 0)"
    using three_way.fold_least [OF tw, of b vs'] Cons by simp
  moreover have "?fold False \<in> set vs \<and> (\<forall>v \<in> set vs. compare_value env (?fold False) v \<ge> 0)"
    using three_way.fold_least [OF three_way.descending [OF tw], of b vs'] Cons by simp
  ultimately have "\<exists>least greatest. evalAggregate env ''MIN'' args rows known = Inr least \<and>
      evalAggregate env ''MAX'' args rows known = Inr greatest \<and> least \<in> set vs \<and> greatest \<in> set vs \<and>
      (\<forall>v \<in> set vs. compare_value env least v \<le> 0 \<and> compare_value env greatest v \<ge> 0)" by blast
  then show ?thesis using Cons by (simp add: list_all_iff)
qed (use assms in \<open>simp add: evalAggregate_def\<close>)

abbreviation countColumn :: column_dal where
  "countColumn \<equiv> \<lparr>colAlias = ''n'', colExpression = Function ''COUNT'' [Star]\<rparr>"

abbreviation sampleSources :: "rowSources list" where
  "sampleSources \<equiv> map (\<lambda>(g, v). [([], [(''g'', VString ''string'' g), (''v'', v)])])
     [(''x'', VInt ''int'' 2), (''y'', VFloat ''float64'' 3), (''x'', VNil), (''x'', VInt ''int64'' 40)]"

definition countQuery :: "fields structuredQuery" where
  "countQuery = (fromNotes [])\<lparr>qGroupBy := [Field ''g''], qColumns := [countColumn]\<rparr>"


lemma sampleSources_values:
  "argValues [Field ''v''] sampleSources [[]] = Inr [VInt ''int'' 2, VFloat ''float64'' 3, VInt ''int64'' 40]"
  by code_simp

theorem sum_is_exact_witness:
  "evalAggregate sampleValueEnv ''SUM'' [Field ''v''] sampleSources [[]] = Inr (VFloat ''float64'' 45)"
  using sum_is_exact [OF sampleSources_values, of "[2, 3, 40]" sampleValueEnv] roundF64_int [of 2] roundF64_int [of 40] by simp

theorem extremes_are_extreme_witness:
  "\<exists>least greatest. evalAggregate sampleValueEnv ''MIN'' [Field ''v''] sampleSources [[]] = Inr least \<and>
     evalAggregate sampleValueEnv ''MAX'' [Field ''v''] sampleSources [[]] = Inr greatest \<and>
     compare_value sampleValueEnv least (VFloat ''float64'' 3) \<le> 0 \<and> compare_value sampleValueEnv greatest (VFloat ''float64'' 3) \<ge> 0"
proof -
  have "uniform [VInt ''int'' 2, VFloat ''float64'' 3, VInt ''int64'' 40]" by (simp add: uniform_def)
  from extremes_are_extreme [OF sampleSources_values this, of sampleValueEnv] show ?thesis by auto
qed

subsection \<open>Where the executors differ\<close>

text \<open>A join selects nothing under a condition that combines others: whatever the collections hold, a
  conjunction or a disjunction in its \<open>WHERE\<close> gives no rows, although a query of one collection
  evaluates conjunctions. And a join does not consult the schema: in a database closed to undefined
  collections the query of such a collection is refused, the join of two of them is answered.\<close>

theorem join_where_and_schema_gaps:
  "(case joinLoaded env qenv (q\<lparr>qWhere := GroupCondition opr cs, qGroupBy := []\<rparr>) join bs js of
      Inl err \<Rightarrow> True | Inr records \<Rightarrow> records = []) \<and>
   (let closed = \<lparr>sDB = NewDB [WithSchema False []], sTx = None\<rparr> :: (fields, value) session;
        ask = (\<lambda>joins. snd (ExecuteQueryToRecordsReader sampleSessionEnv sampleQueryEnv closed (Some (fromNotes joins))))
    in ask [] = Inl (StoreError (CollectionUndefined ''notes'')) \<and> ask [peopleJoin JoinInner] = Inr [])"
proof
  have none: "filterE (\<lambda>_. Inr False) rows = (Inr [] :: queryError + joinedRow list)" for rows
    by (induction rows) simp_all
  show "case joinLoaded env qenv (q\<lparr>qWhere := GroupCondition opr cs, qGroupBy := []\<rparr>) join bs js of
      Inl err \<Rightarrow> True | Inr records \<Rightarrow> records = []"
    by (cases "nestedLoop (jsJoinType join = JoinLeft) (sourceKey (fromBase (qFrom q))) (sourceKey (jsSource join)) (jsOn join)
        [[], sourceKey (fromBase (qFrom q)), sourceKey (jsSource join)] (sortByID bs) (sortByID js)")
      (simp_all add: joinLoaded_def Let_def none orderJoinedRows_def orderBySources_def applyLimit_def)
  show "let closed = \<lparr>sDB = NewDB [WithSchema False []], sTx = None\<rparr> :: (fields, value) session;
        ask = (\<lambda>joins. snd (ExecuteQueryToRecordsReader sampleSessionEnv sampleQueryEnv closed (Some (fromNotes joins))))
    in ask [] = Inl (StoreError (CollectionUndefined ''notes'')) \<and> ask [peopleJoin JoinInner] = Inr []"
    by code_simp
qed

text \<open>Two rows with different values can fall into one group: the key of a group joins the texts of
  its values with a zero character that a text may contain itself. The two rows below differ in both
  fields and are counted together.\<close>

theorem group_key_collides:
  "let zero = [CHR 0x00] @ ''string:'';
       row = (\<lambda>a b. [([], [(''a'', VString ''string'' a), (''b'', VString ''string'' b)])] :: rowSources);
       q = countQuery\<lparr>qGroupBy := [Field ''a'', Field ''b'']\<rparr>
   in executeGroupedReader sampleValueEnv (exprText sampleQueryEnv) q
        [row (''x'' @ zero @ ''y'') ''z'', row ''x'' (''y'' @ zero @ ''z'')] ''notes'' [[]] =
      Inr [(Key ''notes'' (goStr ''0'') None, Projected [(''n'', VInt ''int'' 2)])]"
  by code_simp

end
