(* ===== verification/MemoryBranching.thy ===== *)
theory MemoryBranching
  imports MemoryRelational
begin

text \<open>
  Checkpoints and branches of in-memory databases (\<open>src/adapters/dalgo2memory/branching.go\<close>, the
  interfaces of \<open>src/branching/branching.go\<close>).

  Databases, checkpoints and branches are objects that many parties hold, so they are entries of a
  world: a list of databases, a list of checkpoints, the process-wide counter of checkpoints, 64 bits
  wide. The database handles of branches are further entries of the list of databases. Byte slices
  and keys are values: the engines never change one in place, and copying them is what \<open>Capture\<close> and
  \<open>Branch\<close> do.
\<close>

section \<open>Definitions\<close>

datatype branchError =
    ErrNilSourceDB
  | ErrReleased
  | UnsupportedError string string
  | ContextError string
  | NilCheckpointPanic

definition branchingProviderName :: string where
  "branchingProviderName = ''dalgo2memory''"

text \<open>\<open>UnsupportedError mode collection\<close>: the provider and the wording are constant.\<close>

definition unsupportedEngine :: "string \<Rightarrow> ('d, 'c) engine \<Rightarrow> branchError" where
  "unsupportedEngine collection engine =
     UnsupportedError (case engine of ColumnarE _ \<Rightarrow> ''columnar'' | SerializedE _ \<Rightarrow> ''custom'') collection"

definition validateSerializedConfiguration :: "('d, 'c) memoryDB \<Rightarrow> branchError option" where
  "validateSerializedConfiguration db =
     (case find (\<lambda>c. case engineOf db c of SerializedE _ \<Rightarrow> False | ColumnarE _ \<Rightarrow> True)
         (sortStrings (keysOf (dbCollections db))) of
        Some c \<Rightarrow> Some (unsupportedEngine c (engineOf db c))
      | None \<Rightarrow>
          (case dbSchema db of
             None \<Rightarrow> None
           | Some s \<Rightarrow>
               map_option (UnsupportedError ''non-serialized'')
                 (find (\<lambda>c. map_of (msEngines s) c \<noteq> Some SerializedStorage) (sortStrings (keysOf (msEngines s))))))"

text \<open>The identifier of a key is a value; a composite one is copied by \<open>append\<close>.\<close>

fun cloneRecordKey :: "key \<Rightarrow> key" where
  "cloneRecordKey (Key c i None) = Key c i None"
| "cloneRecordKey (Key c i (Some p)) = Key c i (Some (cloneRecordKey p))"

definition cloneMemorySchema :: "'d memorySchema option \<Rightarrow> 'd memorySchema option" where
  "cloneMemorySchema schema =
     map_option (\<lambda>s. \<lparr>msCollections = copyInto [] (msCollections s), msEngines = copyInto [] (msEngines s),
       msAllowUndefined = msAllowUndefined s\<rparr>) schema"

record 'd serializedEngineSnapshot =
  snapCollection :: string
  snapFactory :: "'d goFactory option"
  snapRecords :: "(string, json) gomap"
  snapKeys :: "(string, key) gomap"

record 'd databaseSnapshot =
  dsCollections :: "(string, 'd serializedEngineSnapshot) gomap"
  dsSchema :: "'d memorySchema option"
  dsNoReadsAfterWrites :: bool
  dsSchemaRefBreaking :: bool

abbreviation cloneKeys :: "(string, key) gomap \<Rightarrow> (string, key) gomap" where
  "cloneKeys keys \<equiv> copyInto [] (map (map_prod (\<lambda>i. i) cloneRecordKey) keys)"

definition snapshotSerializedEngine :: "'d serializedEngine \<Rightarrow> 'd serializedEngineSnapshot" where
  "snapshotSerializedEngine e =
     \<lparr>snapCollection = seCollection e, snapFactory = seFactory e,
      snapRecords = copyInto [] (seRecords e), snapKeys = cloneKeys (seKeys e)\<rparr>"

text \<open>Only called on validated databases; the assertion on the engine's type would panic otherwise.\<close>

definition snapshotDatabase :: "('d, 'c) memoryDB \<Rightarrow> 'd databaseSnapshot" where
  "snapshotDatabase db =
     \<lparr>dsCollections = copyInto [] (concat (map (\<lambda>(c, e). case e of
          SerializedE e \<Rightarrow> [(c, snapshotSerializedEngine e)] | ColumnarE _ \<Rightarrow> []) (dbCollections db))),
      dsSchema = cloneMemorySchema (dbSchema db),
      dsNoReadsAfterWrites = dbNoReadsAfterWrites db, dsSchemaRefBreaking = dbSchemaRefBreaking db\<rparr>"

definition newEngineOf :: "'d serializedEngineSnapshot \<Rightarrow> 'd serializedEngine" where
  "newEngineOf s =
     \<lparr>seCollection = snapCollection s, seFactory = snapFactory s,
      seRecords = copyInto [] (snapRecords s), seKeys = cloneKeys (snapKeys s)\<rparr>"

definition newDatabase :: "'d databaseSnapshot \<Rightarrow> ('d, 'c) memoryDB" where
  "newDatabase s =
     \<lparr>dbCollections = copyInto [] (map (map_prod (\<lambda>c. c) (\<lambda>s. SerializedE (newEngineOf s))) (dsCollections s)),
      dbSchema = cloneMemorySchema (dsSchema s), dbNoReadsAfterWrites = dsNoReadsAfterWrites s,
      dbSchemaRefBreaking = dsSchemaRefBreaking s\<rparr>"

record 'd checkpoint =
  cpGeneration :: string
  cpSnapshot :: "'d databaseSnapshot option"

record ('d, 'c) world =
  wDatabases :: "('d, 'c) memoryDB list"
  wCheckpoints :: "'d checkpoint list"
  wSequence :: "64 word"

text \<open>What \<open>ctx.Err()\<close> answers before and after the locks are taken.\<close>

type_synonym contextErrs = "string option \<times> string option"

datatype captureSource = NilSource | ForeignSource string | OwnSource nat

definition Capture ::
  "contextErrs \<Rightarrow> captureSource \<Rightarrow> ('d, 'c) world \<Rightarrow> ('d, 'c) world \<times> (branchError + nat)" where
  "Capture ctx source w =
     (case source of
        NilSource \<Rightarrow> (w, Inl ErrNilSourceDB)
      | ForeignSource t \<Rightarrow> (w, Inl (UnsupportedError (''source:'' @ t) []))
      | OwnSource i \<Rightarrow>
          if i \<ge> length (wDatabases w) then (w, Inl ErrNilSourceDB)
          else
            case (case fst ctx of Some e \<Rightarrow> Some e | None \<Rightarrow> snd ctx) of
              Some e \<Rightarrow> (w, Inl (ContextError e))
            | None \<Rightarrow>
                (case validateSerializedConfiguration (wDatabases w ! i) of
                   Some e \<Rightarrow> (w, Inl e)
                 | None \<Rightarrow>
                     let n = wSequence w + 1;
                         cp = \<lparr>cpGeneration = branchingProviderName @ ''-'' @ natDec (unat n),
                               cpSnapshot = Some (snapshotDatabase (wDatabases w ! i))\<rparr>
                     in (w\<lparr>wCheckpoints := wCheckpoints w @ [cp], wSequence := n\<rparr>, Inr (length (wCheckpoints w)))))"

definition Branch :: "contextErrs \<Rightarrow> nat \<Rightarrow> ('d, 'c) world \<Rightarrow> ('d, 'c) world \<times> (branchError + nat)" where
  "Branch ctx c w =
     (case fst ctx of
        Some e \<Rightarrow> (w, Inl (ContextError e))
      | None \<Rightarrow>
          if c \<ge> length (wCheckpoints w) then (w, Inl NilCheckpointPanic)
          else
            case cpSnapshot (wCheckpoints w ! c) of
              None \<Rightarrow> (w, Inl ErrReleased)
            | Some s \<Rightarrow>
                (case snd ctx of
                   Some e \<Rightarrow> (w, Inl (ContextError e))
                 | None \<Rightarrow> (w\<lparr>wDatabases := wDatabases w @ [newDatabase s]\<rparr>, Inr (length (wDatabases w)))))"

definition Release :: "nat \<Rightarrow> ('d, 'c) world \<Rightarrow> ('d, 'c) world" where
  "Release c w = w\<lparr>wCheckpoints := (wCheckpoints w)[c := (wCheckpoints w ! c)\<lparr>cpSnapshot := None\<rparr>]\<rparr>"

text \<open>\<open>Close\<close> of a branch sets a flag that nothing reads: the database of a closed branch still answers.\<close>

datatype 'd worldOp =
    DataCall nat "'d sessionCall"
  | CaptureOp contextErrs captureSource
  | BranchOp contextErrs nat
  | ReleaseOp nat
  | CloseOp nat

fun worldStep :: "('d, 'c) sessionEnv \<Rightarrow> ('d, 'c) world \<Rightarrow> 'd worldOp \<Rightarrow> ('d, 'c) world" where
  "worldStep env w (DataCall i call) =
     (if i < length (wDatabases w)
      then w\<lparr>wDatabases := (wDatabases w)
        [i := sDB (fst (sessionStep env \<lparr>sDB = wDatabases w ! i, sTx = None\<rparr> call))]\<rparr>
      else w)"
| "worldStep env w (CaptureOp ctx source) = fst (Capture ctx source w)"
| "worldStep env w (BranchOp ctx c) = fst (Branch ctx c w)"
| "worldStep env w (ReleaseOp c) = Release c w"
| "worldStep env w (CloseOp b) = w"

definition runWorld :: "('d, 'c) sessionEnv \<Rightarrow> ('d, 'c) world \<Rightarrow> 'd worldOp list \<Rightarrow> ('d, 'c) world" where
  "runWorld env w ops = foldl (worldStep env) w ops"

definition newWorld :: "'d dbOption list list \<Rightarrow> ('d, 'c) world" where
  "newWorld optss = \<lparr>wDatabases = map NewDB optss, wCheckpoints = [], wSequence = 0\<rparr>"

section \<open>Laws\<close>

subsection \<open>Copies\<close>

lemma cloneRecordKey_id [simp]: "cloneRecordKey k = k"
  by (induction k rule: cloneRecordKey.induct) simp_all

lemma copyInto_Nil: "gomapOk m \<Longrightarrow> copyInto [] m = m"
  by (rule gomap_eqI) (auto simp: map_of_copyInto map_of_rev_gomap)

lemma cloneKeys_id: "gomapOk keys \<Longrightarrow> cloneKeys keys = keys"
  by (simp add: copyInto_Nil map_prod_def split_def)

lemma newEngine_snapshot: "serializedInv e \<Longrightarrow> newEngineOf (snapshotSerializedEngine e) = e"
  by (simp add: newEngineOf_def snapshotSerializedEngine_def copyInto_Nil cloneKeys_id serializedInv_def)

definition schemaOk :: "'d memorySchema option \<Rightarrow> bool" where
  "schemaOk schema = (\<forall>s. schema = Some s \<longrightarrow> gomapOk (msCollections s) \<and> gomapOk (msEngines s))"

lemma cloneMemorySchema_id: "schemaOk schema \<Longrightarrow> cloneMemorySchema schema = schema"
  by (cases schema) (simp_all add: schemaOk_def cloneMemorySchema_def copyInto_Nil)

lemma schemaOk_newSchema: "schemaOk (Some (newSchema allow defs))"
proof -
  have "gomapOk m \<Longrightarrow> gomapOk (foldl (\<lambda>m c. putKey (defName c) (defFactory c) m) m defs)" for m
    by (induction defs arbitrary: m) auto
  moreover have "gomapOk m \<Longrightarrow>
      gomapOk (foldl (\<lambda>m c. case defEngine c of None \<Rightarrow> m | Some e \<Rightarrow> putKey (defName c) e m) m defs)" for m
    by (induction defs arbitrary: m) (auto split: option.split)
  ultimately show ?thesis by (simp add: schemaOk_def newSchema_def)
qed

lemma schemaOk_NewDB: "schemaOk (dbSchema (NewDB opts))"
proof -
  have "schemaOk (dbSchema db) \<Longrightarrow> schemaOk (dbSchema (foldl applyDBOption db opts))" for db :: "('a, 'b) memoryDB"
  proof (induction opts arbitrary: db)
    case (Cons opt opts)
    have "schemaOk (dbSchema (applyDBOption db opt))"
      using Cons.prems schemaOk_newSchema by (cases opt) simp_all
    then show ?case using Cons.IH by simp
  qed simp
  then show ?thesis unfolding NewDB_def by (simp add: schemaOk_def [of None])
qed

text \<open>A database that a history of calls has made of a new one.\<close>

definition grown :: "('d, 'c) memoryDB \<Rightarrow> bool" where
  "grown db = (gomapOk (dbCollections db) \<and> (\<exists>opts. dbWf (NewDB opts) db))"

lemma grown_NewDB: "grown (NewDB opts)"
  using dbWf_NewDB by (auto simp: grown_def dbCollections_NewDB)

lemma grown_step:
  assumes "grown (sDB s)"
  shows "grown (sDB (fst (sessionStep env s call)))"
proof -
  obtain opts where wf: "dbWf (NewDB opts) (sDB s)" using assms by (auto simp: grown_def)
  obtain s' res where step: "sessionStep env s call = (s', res)" by (cases "sessionStep env s call")
  have "dbWf (NewDB opts) (sDB s')" using dbWf_sessionStep [OF wf step] .
  moreover have "gomapOk (dbCollections (sDB s'))"
  proof (cases "allowRead s = None \<or> \<not> isRead call")
    case True
    obtain e' r where "engineStep (memOps (colEnv env)) (engineOf (sDB s) (keyCollection (callKey call)))
      (callOp (keyID_memory (keyText env) (callKey call)) call) = (e', r)" by fastforce
    then show ?thesis
      using sessionStep_engine [OF True] step assms
      by (auto simp: grown_def Let_def withEngine_def split: if_splits)
  next
    case False
    then show ?thesis using sessionStep_refused [of call s _ env] step assms by (auto simp: grown_def)
  qed
  ultimately show ?thesis using step by (auto simp: grown_def)
qed

lemma find_None_iff_set: "find P xs = None \<longleftrightarrow> (\<forall>x \<in> set xs. \<not> P x)"
  by (auto simp: find_None_iff)

abbreviation engineSnapshots :: "(string, ('d, 'c) engine) gomap \<Rightarrow> (string, 'd serializedEngineSnapshot) gomap" where
  "engineSnapshots m \<equiv> concat (map (\<lambda>(c, e). case e of
     SerializedE e \<Rightarrow> [(c, snapshotSerializedEngine e)] | ColumnarE _ \<Rightarrow> []) m)"

lemma engineSnapshots_copies:
  "(\<And>c e. (c, e) \<in> set m \<Longrightarrow> \<exists>se. e = SerializedE se \<and> serializedInv se) \<Longrightarrow>
   map (map_prod (\<lambda>c. c) (\<lambda>s. SerializedE (newEngineOf s))) (engineSnapshots m) = m \<and> keysOf (engineSnapshots m) = keysOf m"
proof (induction m)
  case (Cons e m)
  obtain c e' where "e = (c, e')" by (cases e)
  moreover obtain se where "e' = SerializedE se" "serializedInv se" using Cons.prems [of c e'] calculation by auto
  moreover have "map (map_prod (\<lambda>c. c) (\<lambda>s. SerializedE (newEngineOf s))) (engineSnapshots m) = m \<and>
      keysOf (engineSnapshots m) = keysOf m"
    using Cons.prems by (intro Cons.IH) auto
  ultimately show ?case by (simp add: newEngine_snapshot keysOf_def)
qed (simp add: keysOf_def)

lemma newDatabase_snapshot:
  fixes db :: "('d, 'c) memoryDB"
  assumes "grown db" and "validateSerializedConfiguration db = None"
  shows "newDatabase (snapshotDatabase db) = db"
proof -
  obtain opts where ok: "gomapOk (dbCollections db)" and wf: "dbWf (NewDB opts) db" using assms(1) by (auto simp: grown_def)
  have entry: "\<exists>se. e = SerializedE se \<and> serializedInv se" if "(c, e) \<in> set (dbCollections db)" for c e
  proof -
    have "map_of (dbCollections db) c = Some e"
      using that ok gomapOk_distinct [OF ok] by (simp add: keysOf_def)
    then have e: "engineOf db c = e" by (simp add: engineOf_def)
    have "c \<in> set (sortStrings (keysOf (dbCollections db)))" using that by (force simp: keysOf_def)
    then have "\<not> (case engineOf db c of SerializedE _ \<Rightarrow> False | ColumnarE _ \<Rightarrow> True)"
      using assms(2) by (auto simp: validateSerializedConfiguration_def find_None_iff_set simp del: sortStrings_set split: option.splits)
    moreover have "engineWf (newEngine (NewDB opts) c) (engineOf db c)" using wf by (simp add: dbWf_def)
    ultimately show ?thesis using engineWf_cases e by (cases e) force+
  qed
  have snaps: "map (map_prod (\<lambda>c. c) (\<lambda>s. SerializedE (newEngineOf s))) (engineSnapshots (dbCollections db)) = dbCollections db"
      "keysOf (engineSnapshots (dbCollections db)) = keysOf (dbCollections db)"
    using engineSnapshots_copies [of "dbCollections db"] entry by blast+
  then have "gomapOk (engineSnapshots (dbCollections db))" using ok by (simp add: gomapOk_def)
  then have "dbCollections (newDatabase (snapshotDatabase db) :: ('d, 'c) memoryDB) = dbCollections db"
    using snaps(1) ok by (simp add: newDatabase_def snapshotDatabase_def copyInto_Nil)
  moreover have "schemaOk (dbSchema db)" using wf schemaOk_NewDB by (metis dbWf_def sameSchema_def)
  ultimately show ?thesis
    by (simp add: newDatabase_def snapshotDatabase_def cloneMemorySchema_id)
qed

subsection \<open>Worlds\<close>

text \<open>Every database is a grown one, and every checkpoint that is not released is the copy of one.\<close>

definition worldOk :: "('d, 'c) world \<Rightarrow> bool" where
  "worldOk w =
     (list_all grown (wDatabases w) \<and>
      list_all (\<lambda>cp. \<forall>s. cpSnapshot cp = Some s \<longrightarrow>
        grown (newDatabase s :: ('d, 'c) memoryDB)) (wCheckpoints w))"

lemma worldOk_new: "worldOk (newWorld optss)"
  by (simp add: worldOk_def newWorld_def list_all_iff grown_NewDB)

lemma worldOk_capture: "worldOk w \<Longrightarrow> worldOk (fst (Capture ctx source w))"
  by (auto simp: Capture_def worldOk_def Let_def list_all_iff newDatabase_snapshot not_le
      split: captureSource.splits option.splits)

lemma worldOk_branch: "worldOk w \<Longrightarrow> worldOk (fst (Branch ctx c w))"
  by (auto simp: Branch_def worldOk_def list_all_iff not_le split: option.splits)

lemma worldOk_step: "worldOk w \<Longrightarrow> worldOk (worldStep env w op)"
proof (cases op)
  case (DataCall i call)
  assume "worldOk w"
  then show ?thesis
    using DataCall grown_step [of "\<lparr>sDB = wDatabases w ! i, sTx = None\<rparr>" env call]
    by (auto simp: worldOk_def list_all_iff dest: set_update_subset_insert [THEN subsetD])
next
  case (ReleaseOp c)
  assume "worldOk w"
  then show ?thesis
    using ReleaseOp by (auto simp: worldOk_def list_all_iff Release_def dest!: set_update_subset_insert [THEN subsetD])
qed (simp_all add: worldOk_capture worldOk_branch)

lemma worldOk_run: "worldOk w \<Longrightarrow> worldOk (runWorld env w ops)"
  unfolding runWorld_def by (induction ops arbitrary: w) (simp_all add: worldOk_step)

lemma checkpoint_kept:
  assumes "c < length (wCheckpoints w)" and "op \<noteq> ReleaseOp c"
  shows "wCheckpoints (worldStep env w op) ! c = wCheckpoints w ! c \<and> c < length (wCheckpoints (worldStep env w op))"
  using assms
  by (cases op) (auto simp: Capture_def Branch_def Release_def nth_append Let_def split: captureSource.splits option.splits)

lemma checkpoint_kept_run:
  assumes "c < length (wCheckpoints w)" and "ReleaseOp c \<notin> set ops"
  shows "wCheckpoints (runWorld env w ops) ! c = wCheckpoints w ! c \<and> c < length (wCheckpoints (runWorld env w ops))"
  using assms unfolding runWorld_def
proof (induction ops arbitrary: w)
  case (Cons op ops)
  then have "wCheckpoints (worldStep env w op) ! c = wCheckpoints w ! c \<and> c < length (wCheckpoints (worldStep env w op))"
    using checkpoint_kept [of c w op env] by auto
  then show ?case using Cons by simp
qed simp


text \<open>A note is stored, captured, overwritten and deleted; the branch still holds the first text.\<close>

definition noteWorld :: "(fields, value) world" where
  "noteWorld = runWorld sampleSessionEnv (newWorld [[]]) [DataCall 0 (CSet (sampleRecord ''first''))]"

definition noteBetween :: "fields worldOp list" where
  "noteBetween = [DataCall 0 (CSet (sampleRecord ''second'')), BranchOp (None, None) 0, DataCall 1 (CDelete (recKey (sampleRecord []))),
     CaptureOp (None, None) (OwnSource 1), ReleaseOp 1, CloseOp 1]"


end
