(* ===== verification/RecordDiff.thy ===== *)
theory RecordDiff
  imports MemoryValue
begin

text \<open>
  Comparison of record streams, \<open>src/recordops\<close>: the options (\<open>options.go\<close>), the data types and
  errors (\<open>types.go\<close>, \<open>errors.go\<close>), the comparison of two records (\<open>compare.go\<close>) and the
  merge of sorted streams (\<open>diff.go\<close>).

  An \<open>iter.Seq2\<close> is the list of what it yields: a record with its ID, or an error. \<open>DiffFunc\<close>
  returns the diffs its consumer receives and how the iteration ended; the consumer is a function
  that says, after each diff, whether it wants another.

  \<^verbatim>\<open>rvalue\<close> is what package \<open>reflect\<close> observes of a Go value. Pointers and containers
  are their contents: two values that share storage are compared like two that do not, which
  \<open>reflect.DeepEqual\<close> can tell apart only when they hold a NaN or a function. \<open>Data()\<close> of
  a record is \<^const>\<open>None\<close> when the call panics, which the record package does for a record
  that was never read.
\<close>

section \<open>Definitions\<close>

subsection \<open>Go values under reflection\<close>

datatype rvalue =
    RNil
  | RBool string bool
  | RInt string int
  | RFloat string "rat option"
  | RText string string
  | RSlice string "rvalue list option"
  | RMap string string "(string \<times> rvalue) list option"
  | RStruct string "(string \<times> bool \<times> rvalue) list"
  | RPtr string "rvalue option"
  | RFunc string bool
  | ROther string bool nat

text \<open>
  \<open>RFloat t None\<close> is a NaN. \<open>RMap k t es\<close> is a map whose key type \<open>k\<close> has kind string and whose
  element type is \<open>t\<close>, its entries in ascending order of the keys. A field of a \<open>RStruct\<close> is its
  name, whether it is exported, and its value. \<open>RFunc t isNil\<close>; \<open>ROther t isNil n\<close> is a value of
  any other type (a channel, an array, a map with other keys), \<open>n\<close> its class under
  \<open>reflect.DeepEqual\<close>.
\<close>

text \<open>\<open>reflect.DeepEqual\<close>.\<close>

fun reflectEqual :: "rvalue \<Rightarrow> rvalue \<Rightarrow> bool"
  and deepEqualAll :: "rvalue list \<Rightarrow> rvalue list \<Rightarrow> bool"
  and deepEqualEntries :: "(string \<times> rvalue) list \<Rightarrow> (string \<times> rvalue) list \<Rightarrow> bool"
  and deepEqualFields :: "(string \<times> bool \<times> rvalue) list \<Rightarrow> (string \<times> bool \<times> rvalue) list \<Rightarrow> bool"
where
  "reflectEqual RNil b = (b = RNil)"
| "reflectEqual (RBool t x) b = (b = RBool t x)"
| "reflectEqual (RInt t i) b = (b = RInt t i)"
| "reflectEqual (RFloat t q) b = (b = RFloat t q \<and> q \<noteq> None)"
| "reflectEqual (RText t s) b = (b = RText t s)"
| "reflectEqual (RSlice t None) b = (b = RSlice t None)"
| "reflectEqual (RSlice t (Some xs)) b =
     (case b of RSlice u (Some ys) \<Rightarrow> t = u \<and> deepEqualAll xs ys | _ \<Rightarrow> False)"
| "reflectEqual (RMap k t None) b = (b = RMap k t None)"
| "reflectEqual (RMap k t (Some es)) b =
     (case b of RMap l u (Some fs) \<Rightarrow> k = l \<and> t = u \<and> deepEqualEntries es fs | _ \<Rightarrow> False)"
| "reflectEqual (RStruct t fs) b =
     (case b of RStruct u gs \<Rightarrow> t = u \<and> deepEqualFields fs gs | _ \<Rightarrow> False)"
| "reflectEqual (RPtr t None) b = (b = RPtr t None)"
| "reflectEqual (RPtr t (Some x)) b =
     (case b of RPtr u (Some y) \<Rightarrow> t = u \<and> reflectEqual x y | _ \<Rightarrow> False)"
| "reflectEqual (RFunc t isNil) b = (b = RFunc t isNil \<and> isNil)"
| "reflectEqual (ROther t isNil n) b = (b = ROther t isNil n)"
| "deepEqualAll [] ys = (ys = [])"
| "deepEqualAll (x # xs) ys =
     (case ys of [] \<Rightarrow> False | y # ys' \<Rightarrow> reflectEqual x y \<and> deepEqualAll xs ys')"
| "deepEqualEntries [] fs = (fs = [])"
| "deepEqualEntries ((k, x) # es) fs =
     (case fs of [] \<Rightarrow> False
      | f # fs' \<Rightarrow> k = fst f \<and> reflectEqual x (snd f) \<and> deepEqualEntries es fs')"
| "deepEqualFields [] gs = (gs = [])"
| "deepEqualFields ((k, e, x) # fs) gs =
     (case gs of [] \<Rightarrow> False
      | g # gs' \<Rightarrow> k = fst g \<and> reflectEqual x (snd (snd g)) \<and> deepEqualFields fs gs')"

subsection \<open>Types, options and errors\<close>

datatype recordStatus = Missing | Extra | Matched | Changed

record fieldValue =
  Name :: string
  Value :: rvalue
  Absent :: bool

record candidateState =
  Status :: recordStatus
  Fields :: "fieldValue list"

record 'k idDiff =
  ID :: 'k
  Baseline :: "fieldValue list option"
  Candidates :: "candidateState list"

record options =
  ignoreFields :: "string set"
  includeMatched :: bool
  onlyChangedFields :: bool
  absentEqualsNil :: bool

definition WithIgnoreFields :: "string list \<Rightarrow> options \<Rightarrow> options" where
  "WithIgnoreFields names o1 = o1\<lparr>ignoreFields := ignoreFields o1 \<union> set names\<rparr>"

definition WithIncludeMatched :: "options \<Rightarrow> options" where
  "WithIncludeMatched o1 = o1\<lparr>includeMatched := True\<rparr>"

definition WithOnlyChangedFields :: "options \<Rightarrow> options" where
  "WithOnlyChangedFields o1 = o1\<lparr>onlyChangedFields := True\<rparr>"

definition WithAbsentEqualsNil :: "options \<Rightarrow> options" where
  "WithAbsentEqualsNil o1 = o1\<lparr>absentEqualsNil := True\<rparr>"

text \<open>An option that is \<open>nil\<close> is \<^const>\<open>None\<close>.\<close>

definition resolveOptions :: "(options \<Rightarrow> options) option list \<Rightarrow> options" where
  "resolveOptions opts =
     fold (\<lambda>opt o1. case opt of None \<Rightarrow> o1 | Some f \<Rightarrow> f o1) opts
       \<lparr>ignoreFields = {}, includeMatched = False, onlyChangedFields = False,
        absentEqualsNil = False\<rparr>"

datatype 'k diffError =
    SourceError string
  | ErrDuplicateID 'k string
  | ErrUnsortedInput 'k string
  | ErrIncomparableField 'k
  | ErrInvalidArgument

text \<open>How a call ends: with a result, an error, or a panic that leaves the package.\<close>

datatype ('k, 'a) outcome = Ok 'a | Failed "'k diffError" | Panicked

record 'k withID =
  widID :: 'k
  widData :: "rvalue option"

type_synonym 'k recordSeq = "(string + 'k withID) list"

text \<open>\<open>SliceToSeq\<close> of \<open>bridge.go\<close>.\<close>

definition SliceToSeq :: "'k withID list \<Rightarrow> 'k recordSeq" where
  "SliceToSeq records = map Inr records"

subsection \<open>Comparing two records\<close>

definition deref :: "rvalue \<Rightarrow> rvalue" where
  "deref v = (case v of RPtr t (Some x) \<Rightarrow> x | _ \<Rightarrow> v)"

datatype kindBucket = bucketStruct | bucketMap | bucketOther

definition bucket :: "rvalue \<Rightarrow> kindBucket" where
  "bucket v = (case v of RStruct t fs \<Rightarrow> bucketStruct | RMap k t es \<Rightarrow> bucketMap | _ \<Rightarrow> bucketOther)"

definition mapEntries :: "(string \<times> rvalue) list option \<Rightarrow> (string \<times> rvalue) list" where
  "mapEntries es = (case es of None \<Rightarrow> [] | Some xs \<Rightarrow> xs)"

text \<open>
  \<open>v.MapIndex(reflect.ValueOf(k))\<close> with a plain \<open>string\<close>: a panic (outer \<^const>\<open>None\<close>) when the
  key type is another one, and otherwise the element, if there is one.
\<close>

definition mapIndex :: "string \<Rightarrow> (string \<times> rvalue) list \<Rightarrow> string \<Rightarrow> rvalue option option" where
  "mapIndex kt es k = (if kt = ''string'' then Some (map_of es k) else None)"

definition isNilLike :: "rvalue \<Rightarrow> bool" where
  "isNilLike v =
     (case v of
        RNil \<Rightarrow> True
      | RPtr t p \<Rightarrow> p = None
      | RMap k t es \<Rightarrow> es = None
      | RSlice t xs \<Rightarrow> xs = None
      | RFunc t isNil \<Rightarrow> isNil
      | ROther t isNil n \<Rightarrow> isNil
      | _ \<Rightarrow> False)"

definition unionKeys :: "(string \<times> rvalue) list \<Rightarrow> (string \<times> rvalue) list \<Rightarrow> string list" where
  "unionKeys a b = remdups (map fst a @ map fst b)"

abbreviation present :: "string \<Rightarrow> rvalue \<Rightarrow> fieldValue" where
  "present n v \<equiv> \<lparr>Name = n, Value = v, Absent = False\<rparr>"

abbreviation absent :: "string \<Rightarrow> fieldValue" where
  "absent n \<equiv> \<lparr>Name = n, Value = RNil, Absent = True\<rparr>"

abbreviation sortByName :: "fieldValue list \<Rightarrow> fieldValue list" where
  "sortByName \<equiv> sliceStable (\<lambda>a b. Name a < Name b)"

text \<open>
  The loop of \<open>compareStruct\<close> over the fields of the baseline's type: the candidate is read at
  the same index, which panics (\<^const>\<open>None\<close>) when it has fewer fields or an unexported one there.
\<close>

fun structDeltas ::
  "options \<Rightarrow> (string \<times> bool \<times> rvalue) list \<Rightarrow> (string \<times> bool \<times> rvalue) list \<Rightarrow>
    fieldValue list option" where
  "structDeltas cfg [] gs = Some []"
| "structDeltas cfg ((n, exported, b) # fs) gs =
     (if \<not> exported \<or> n \<in> ignoreFields cfg then structDeltas cfg fs (drop 1 gs)
      else case gs of
          [] \<Rightarrow> None
        | (n', exported', c) # gs' \<Rightarrow>
            if \<not> exported' then None
            else map_option
              (\<lambda>ds. if reflectEqual b c then ds else present n c # ds) (structDeltas cfg fs gs'))"

definition compareStruct ::
  "(string \<times> bool \<times> rvalue) list \<Rightarrow> (string \<times> bool \<times> rvalue) list \<Rightarrow> options \<Rightarrow>
    fieldValue list option" where
  "compareStruct bv cv cfg = map_option sortByName (structDeltas cfg bv cv)"

definition keyDelta ::
  "options \<Rightarrow> string \<Rightarrow> rvalue option \<Rightarrow> rvalue option \<Rightarrow> fieldValue list" where
  "keyDelta cfg k bk ck =
     (case (bk, ck) of
        (Some b, Some c) \<Rightarrow> if reflectEqual b c then [] else [present k c]
      | (Some b, None) \<Rightarrow> if absentEqualsNil cfg \<and> isNilLike b then [] else [absent k]
      | (None, Some c) \<Rightarrow> if absentEqualsNil cfg \<and> isNilLike c then [] else [present k c]
      | (None, None) \<Rightarrow> [])"

fun mapDeltas ::
  "options \<Rightarrow> string \<Rightarrow> (string \<times> rvalue) list \<Rightarrow> string \<Rightarrow> (string \<times> rvalue) list \<Rightarrow> string list \<Rightarrow>
    fieldValue list option" where
  "mapDeltas cfg bt bv ct cv [] = Some []"
| "mapDeltas cfg bt bv ct cv (k # ks) =
     (if k \<in> ignoreFields cfg then mapDeltas cfg bt bv ct cv ks
      else case mapIndex bt bv k of
          None \<Rightarrow> None
        | Some bk \<Rightarrow>
            (case mapIndex ct cv k of
               None \<Rightarrow> None
             | Some ck \<Rightarrow>
                 map_option (\<lambda>ds. keyDelta cfg k bk ck @ ds) (mapDeltas cfg bt bv ct cv ks)))"

definition compareMap ::
  "string \<Rightarrow> (string \<times> rvalue) list \<Rightarrow> string \<Rightarrow> (string \<times> rvalue) list \<Rightarrow> options \<Rightarrow>
    fieldValue list option" where
  "compareMap bt bv ct cv cfg = mapDeltas cfg bt bv ct cv (sortStrings (unionKeys bv cv))"

text \<open>\<open>compareRecords\<close> recovers every panic and reports it as \<^const>\<open>ErrIncomparableField\<close>.\<close>

definition compareRecords ::
  "'k \<Rightarrow> rvalue option \<Rightarrow> rvalue option \<Rightarrow> options \<Rightarrow> 'k diffError + fieldValue list" where
  "compareRecords baseID baseRec candRec cfg =
     (case (baseRec, candRec) of
        (Some b, Some c) \<Rightarrow>
          (let deltas =
             (case (deref b, deref c) of
                (RStruct t fs, RStruct u gs) \<Rightarrow> compareStruct fs gs cfg
              | (RMap k t es, RMap l u fs) \<Rightarrow> compareMap k (mapEntries es) l (mapEntries fs) cfg
              | (bv, cv) \<Rightarrow>
                  if bucket bv \<noteq> bucket cv then Some [present ''_value'' c]
                  else if reflectEqual b c then Some []
                  else Some [present ''_value'' c])
           in case deltas of None \<Rightarrow> Inl (ErrIncomparableField baseID) | Some ds \<Rightarrow> Inr ds)
      | _ \<Rightarrow> Inl (ErrIncomparableField baseID))"

text \<open>\<open>extractAllFields\<close>: \<^const>\<open>None\<close> is a panic, which nothing recovers.\<close>

definition extractAllFields :: "rvalue option \<Rightarrow> fieldValue list option" where
  "extractAllFields rec =
     (case rec of
        None \<Rightarrow> None
      | Some d \<Rightarrow>
          (case deref d of
             RStruct t fs \<Rightarrow>
               Some (map (\<lambda>(n, e, v). present n v) (filter (\<lambda>(n, e, v). e) fs))
           | RMap k t es \<Rightarrow>
               (let ks = sortStrings (map fst (mapEntries es))
                in if ks \<noteq> [] \<and> k \<noteq> ''string'' then None
                   else Some (map (\<lambda>k. present k (the (map_of (mapEntries es) k))) ks))
           | _ \<Rightarrow> Some [present ''_value'' d]))"

definition baselineFields ::
  "rvalue option \<Rightarrow> fieldValue list list \<Rightarrow> options \<Rightarrow> fieldValue list option" where
  "baselineFields baseRec perCandidateDeltas cfg =
     (case extractAllFields baseRec of
        None \<Rightarrow> None
      | Some al \<Rightarrow>
          if \<not> onlyChangedFields cfg then Some al
          else (let deltaNames = map Name (concat perCandidateDeltas)
                in if deltaNames = [] then Some []
                   else Some (filter (\<lambda>fv. Name fv \<in> set deltaNames) al)))"

subsection \<open>Merging the streams\<close>

text \<open>
  A \<open>streamCursor\<close>: \<open>pending\<close> is what \<open>next\<close> has still to deliver, \<open>current\<close> is \<open>id\<close> and
  \<open>rec\<close> (\<^const>\<open>None\<close> before the first record), \<open>prev\<close> is \<open>prev\<close> with \<open>hasPrev\<close>.
\<close>

record 'k streamCursor =
  cursorName :: string
  pending :: "'k recordSeq"
  live :: bool
  current :: "'k withID option"
  prev :: "'k option"

definition newCursor :: "'k recordSeq \<Rightarrow> string \<Rightarrow> 'k streamCursor" where
  "newCursor s name = \<lparr>cursorName = name, pending = s, live = True, current = None, prev = None\<rparr>"

definition advance ::
  "('k \<Rightarrow> 'k \<Rightarrow> bool) \<Rightarrow> 'k streamCursor \<Rightarrow> 'k diffError + 'k streamCursor" where
  "advance lt c =
     (case pending c of
        [] \<Rightarrow> Inr (c\<lparr>live := False\<rparr>)
      | Inl err # rest \<Rightarrow> Inl (SourceError err)
      | Inr r # rest \<Rightarrow>
          (let c' = c\<lparr>pending := rest, current := Some r, prev := Some (widID r)\<rparr>
           in case prev c of
                None \<Rightarrow> Inr c'
              | Some p \<Rightarrow>
                  if lt p (widID r) then Inr c'
                  else if p = widID r then Inl (ErrDuplicateID (widID r) (cursorName c))
                  else Inl (ErrUnsortedInput (widID r) (cursorName c))))"

definition curID :: "'k streamCursor \<Rightarrow> 'k option" where
  "curID c = (if live c then map_option widID (current c) else None)"

definition considerID ::
  "('k \<Rightarrow> 'k \<Rightarrow> bool) \<Rightarrow> 'k streamCursor \<Rightarrow> 'k option \<Rightarrow> 'k option" where
  "considerID lt c smallest =
     (case curID c of
        None \<Rightarrow> smallest
      | Some i \<Rightarrow>
          (case smallest of None \<Rightarrow> Some i | Some s \<Rightarrow> if lt i s then Some i else Some s))"

definition smallestID ::
  "('k \<Rightarrow> 'k \<Rightarrow> bool) \<Rightarrow> 'k streamCursor \<Rightarrow> 'k streamCursor list \<Rightarrow> 'k option" where
  "smallestID lt base cands = fold (considerID lt) cands (considerID lt base None)"

definition recordAt :: "'k \<Rightarrow> 'k streamCursor \<Rightarrow> 'k withID option" where
  "recordAt i c = (if curID c = Some i then current c else None)"

definition classify ::
  "'k withID option \<Rightarrow> 'k withID option \<Rightarrow> options \<Rightarrow> ('k, candidateState) outcome" where
  "classify base cand cfg =
     (case cand of
        None \<Rightarrow> Ok \<lparr>Status = Missing, Fields = []\<rparr>
      | Some c \<Rightarrow>
          (case base of
             None \<Rightarrow>
               (case extractAllFields (widData c) of
                  None \<Rightarrow> Panicked
                | Some fs \<Rightarrow> Ok \<lparr>Status = Extra, Fields = fs\<rparr>)
           | Some b \<Rightarrow>
               (case compareRecords (widID b) (widData b) (widData c) cfg of
                  Inl err \<Rightarrow> Failed err
                | Inr deltas \<Rightarrow>
                    if deltas = [] then Ok \<lparr>Status = Matched, Fields = []\<rparr>
                    else Ok \<lparr>Status = Changed, Fields = deltas\<rparr>)))"

fun classifyAll ::
  "'k withID option \<Rightarrow> 'k withID option list \<Rightarrow> options \<Rightarrow>
    ('k, candidateState list) outcome" where
  "classifyAll base [] cfg = Ok []"
| "classifyAll base (c # cs) cfg =
     (case classify base c cfg of
        Failed e \<Rightarrow> Failed e
      | Panicked \<Rightarrow> Panicked
      | Ok s \<Rightarrow>
          (case classifyAll base cs cfg of
             Failed e \<Rightarrow> Failed e
           | Panicked \<Rightarrow> Panicked
           | Ok ss \<Rightarrow> Ok (s # ss)))"

definition buildBaselineSnapshot ::
  "'k withID \<Rightarrow> candidateState list \<Rightarrow> options \<Rightarrow> fieldValue list option" where
  "buildBaselineSnapshot base cs cfg = baselineFields (widData base) (map Fields cs) cfg"

text \<open>\<open>assembleIDDiff\<close>, on the records the cursors hold for the ID.\<close>

definition assembleRecords ::
  "'k \<Rightarrow> 'k withID option \<Rightarrow> 'k withID option list \<Rightarrow> options \<Rightarrow> ('k, 'k idDiff) outcome" where
  "assembleRecords i baseRec candRecs cfg =
     (case classifyAll baseRec candRecs cfg of
        Failed e \<Rightarrow> Failed e
      | Panicked \<Rightarrow> Panicked
      | Ok cs \<Rightarrow>
          (case baseRec of
             None \<Rightarrow> Ok \<lparr>ID = i, Baseline = None, Candidates = cs\<rparr>
           | Some b \<Rightarrow>
               (case buildBaselineSnapshot b cs cfg of
                  None \<Rightarrow> Panicked
                | Some fs \<Rightarrow> Ok \<lparr>ID = i, Baseline = Some fs, Candidates = cs\<rparr>)))"

definition assembleIDDiff ::
  "'k \<Rightarrow> 'k streamCursor \<Rightarrow> 'k streamCursor list \<Rightarrow> options \<Rightarrow> ('k, 'k idDiff) outcome" where
  "assembleIDDiff i base cands cfg =
     assembleRecords i (recordAt i base) (map (recordAt i) cands) cfg"

definition shouldEmit :: "'k idDiff \<Rightarrow> options \<Rightarrow> bool" where
  "shouldEmit d cfg =
     (includeMatched cfg \<or> list_ex (\<lambda>c. Status c \<noteq> Matched) (Candidates d))"

fun advanceAll ::
  "('k \<Rightarrow> 'k \<Rightarrow> bool) \<Rightarrow> ('k streamCursor \<Rightarrow> bool) \<Rightarrow> 'k streamCursor list \<Rightarrow>
    'k diffError + 'k streamCursor list" where
  "advanceAll lt P [] = Inr []"
| "advanceAll lt P (c # cs) =
     bindE (if P c then advance lt c else Inr c)
       (\<lambda>c'. bindE (advanceAll lt P cs) (\<lambda>cs'. Inr (c' # cs')))"

text \<open>
  The merge loop on the cursors, the baseline's first. \<open>wants\<close> is the consumer: given the diffs it
  has received, the newest last, does \<open>yield\<close> return true? \<open>Stopped\<close> is the consumer's break.
\<close>

datatype 'k ending = Done | Stopped | EndedWith "'k diffError" | PanickedOut

definition remaining :: "'k streamCursor \<Rightarrow> nat" where
  "remaining c = (if live c then Suc (length (pending c)) else 0)"

lemma smallestID_source:
  assumes "smallestID lt base cands = Some i"
  shows "curID base = Some i \<or> (\<exists>c \<in> set cands. curID c = Some i)"
proof -
  have step: "considerID lt c s = Some j \<Longrightarrow> curID c = Some j \<or> s = Some j" for c s j
    by (auto simp: considerID_def split: option.splits if_splits)
  have "fold (considerID lt) cs s = Some i \<Longrightarrow> s = Some i \<or> (\<exists>c \<in> set cs. curID c = Some i)" for cs s
    by (induction cs arbitrary: s) (auto dest: step)
  then show ?thesis
    using assms step by (fastforce simp: smallestID_def)
qed

lemma advance_remaining:
  "advance lt c = Inr c' \<Longrightarrow> live c \<Longrightarrow> remaining c' < remaining c"
  by (auto simp: advance_def remaining_def Let_def split: list.splits sum.splits option.splits if_splits)

lemma curID_live: "curID c = Some i \<Longrightarrow> live c"
  by (simp add: curID_def split: if_splits)

lemma advance_at_remaining:
  assumes "(if curID c = Some i then advance lt c else Inr c) = Inr c'"
  shows "remaining c' \<le> remaining c" and "curID c = Some i \<Longrightarrow> remaining c' < remaining c"
  using assms advance_remaining [of lt c c'] by (auto dest: curID_live split: if_splits)

lemma advanceAll_remaining:
  assumes "advanceAll lt (\<lambda>c. curID c = Some i) cs = Inr cs'"
  shows "sum_list (map remaining cs') \<le> sum_list (map remaining cs)"
    and "(\<exists>c \<in> set cs. curID c = Some i) \<Longrightarrow>
      sum_list (map remaining cs') < sum_list (map remaining cs)"
proof -
  have "sum_list (map remaining cs') \<le> sum_list (map remaining cs) \<and>
    ((\<exists>c \<in> set cs. curID c = Some i) \<longrightarrow>
      sum_list (map remaining cs') < sum_list (map remaining cs))"
    using assms
  proof (induction cs arbitrary: cs')
    case (Cons c cs)
    obtain c1 cs1 where s: "(if curID c = Some i then advance lt c else Inr c) = Inr c1"
      "advanceAll lt (\<lambda>c. curID c = Some i) cs = Inr cs1" "cs' = c1 # cs1"
      using Cons.prems by (auto simp: bindE_def split: sum.splits)
    show ?case
      using Cons.IH [OF s(2)] advance_at_remaining [OF s(1)] s(3) by auto
  qed simp
  then show "sum_list (map remaining cs') \<le> sum_list (map remaining cs)"
    and "(\<exists>c \<in> set cs. curID c = Some i) \<Longrightarrow>
      sum_list (map remaining cs') < sum_list (map remaining cs)"
    by auto
qed

lemma merge_step_remaining:
  assumes "smallestID lt base cands = Some i"
    and b: "(if curID base = Some i then advance lt base else Inr base) = Inr base'"
    and c: "advanceAll lt (\<lambda>c. curID c = Some i) cands = Inr cands'"
  shows "remaining base' + sum_list (map remaining cands')
    < remaining base + sum_list (map remaining cands)"
  using smallestID_source [OF assms(1)]
proof
  assume "curID base = Some i"
  then show ?thesis
    using advance_at_remaining(2) [OF b] advanceAll_remaining(1) [OF c] by simp
next
  assume "\<exists>c \<in> set cands. curID c = Some i"
  then show ?thesis
    using advance_at_remaining(1) [OF b] advanceAll_remaining(2) [OF c] by simp
qed

function mergeLoop ::
  "('k \<Rightarrow> 'k \<Rightarrow> bool) \<Rightarrow> options \<Rightarrow> ('k idDiff list \<Rightarrow> bool) \<Rightarrow> 'k idDiff list \<Rightarrow>
    'k streamCursor \<Rightarrow> 'k streamCursor list \<Rightarrow> 'k idDiff list \<times> 'k ending" where
  "mergeLoop lt cfg wants got base cands =
     (case smallestID lt base cands of
        None \<Rightarrow> (got, Done)
      | Some i \<Rightarrow>
          (case assembleIDDiff i base cands cfg of
             Failed e \<Rightarrow> (got, EndedWith e)
           | Panicked \<Rightarrow> (got, PanickedOut)
           | Ok d \<Rightarrow>
               (case (if curID base = Some i then advance lt base else Inr base) of
                  Inl e \<Rightarrow> (got, EndedWith e)
                | Inr base' \<Rightarrow>
                    (case advanceAll lt (\<lambda>c. curID c = Some i) cands of
                       Inl e \<Rightarrow> (got, EndedWith e)
                     | Inr cands' \<Rightarrow>
                         if shouldEmit d cfg then
                           if wants (got @ [d]) then mergeLoop lt cfg wants (got @ [d]) base' cands'
                           else (got @ [d], Stopped)
                         else mergeLoop lt cfg wants got base' cands'))))"
  by pat_completeness auto
termination
  by (relation "measure (\<lambda>(lt, cfg, wants, got, base, cands).
      remaining base + sum_list (map remaining cands))") (simp_all add: merge_step_remaining)

declare mergeLoop.simps [simp del]

text \<open>\<open>DiffFunc\<close>; a \<open>nil\<close> comparison is \<^const>\<open>None\<close>.\<close>

definition candidateName :: "nat \<Rightarrow> string" where
  "candidateName i = ''candidates['' @ natDec i @ '']''"

definition DiffFunc ::
  "'k recordSeq \<Rightarrow> 'k recordSeq list \<Rightarrow> ('k \<Rightarrow> 'k \<Rightarrow> bool) option \<Rightarrow>
    (options \<Rightarrow> options) option list \<Rightarrow> ('k idDiff list \<Rightarrow> bool) \<Rightarrow> 'k idDiff list \<times> 'k ending" where
  "DiffFunc baseline candidates lt opts wants =
     (let cfg = resolveOptions opts
      in case lt of
           None \<Rightarrow> ([], EndedWith ErrInvalidArgument)
         | Some lt \<Rightarrow>
             (case advance lt (newCursor baseline ''baseline'') of
                Inl e \<Rightarrow> ([], EndedWith e)
              | Inr baseCur \<Rightarrow>
                  (case advanceAll lt (\<lambda>c. True)
                      (map (\<lambda>(i, c). newCursor c (candidateName i)) (enumerate 0 candidates)) of
                     Inl e \<Rightarrow> ([], EndedWith e)
                   | Inr candCurs \<Rightarrow> mergeLoop lt cfg wants [] baseCur candCurs)))"

definition Diff ::
  "'k::linorder recordSeq \<Rightarrow> 'k recordSeq list \<Rightarrow> (options \<Rightarrow> options) option list \<Rightarrow>
    ('k idDiff list \<Rightarrow> bool) \<Rightarrow> 'k idDiff list \<times> 'k ending" where
  "Diff baseline candidates opts wants = DiffFunc baseline candidates (Some (<)) opts wants"

subsection \<open>Specification\<close>

text \<open>
  What a diff of sorted streams has to be, without cursors: for the IDs of all the streams in
  ascending order, the assembled diff of the records the streams hold for that ID.
\<close>

definition recOf :: "'k withID list \<Rightarrow> 'k \<Rightarrow> 'k withID option" where
  "recOf rs i = find (\<lambda>r. widID r = i) rs"

fun diffIDs ::
  "options \<Rightarrow> ('k idDiff list \<Rightarrow> bool) \<Rightarrow> 'k withID list \<Rightarrow> 'k withID list list \<Rightarrow>
    'k idDiff list \<Rightarrow> 'k list \<Rightarrow> 'k idDiff list \<times> 'k ending" where
  "diffIDs cfg wants b cs got [] = (got, Done)"
| "diffIDs cfg wants b cs got (i # ids) =
     (case assembleRecords i (recOf b i) (map (\<lambda>c. recOf c i) cs) cfg of
        Failed e \<Rightarrow> (got, EndedWith e)
      | Panicked \<Rightarrow> (got, PanickedOut)
      | Ok d \<Rightarrow>
          if shouldEmit d cfg then
            if wants (got @ [d]) then diffIDs cfg wants b cs (got @ [d]) ids
            else (got @ [d], Stopped)
          else diffIDs cfg wants b cs got ids)"

definition sortedSeq :: "('k \<Rightarrow> 'k \<Rightarrow> bool) \<Rightarrow> 'k recordSeq \<Rightarrow> bool" where
  "sortedSeq lt s = (list_all isOk s \<and> sorted_wrt lt (map (widID \<circ> projr) s))"

definition allIDs :: "'k::linorder withID list \<Rightarrow> 'k withID list list \<Rightarrow> 'k list" where
  "allIDs b cs = sort (remdups (concat (map (map widID) (b # cs))))"

text \<open>A well-formed state of a candidate, and a well-formed diff of \<open>n\<close> candidates.\<close>

definition stateOk :: "bool \<Rightarrow> candidateState \<Rightarrow> bool" where
  "stateOk hasBase s =
     (case Status s of
        Missing \<Rightarrow> Fields s = []
      | Extra \<Rightarrow> \<not> hasBase \<and> list_all (\<lambda>f. \<not> Absent f) (Fields s)
      | Matched \<Rightarrow> hasBase \<and> Fields s = []
      | Changed \<Rightarrow> hasBase \<and> Fields s \<noteq> [])"

definition diffOk :: "nat \<Rightarrow> 'k idDiff \<Rightarrow> bool" where
  "diffOk n d =
     (length (Candidates d) = n \<and> list_all (stateOk (Baseline d \<noteq> None)) (Candidates d))"

text \<open>What a consumer does with the deltas of a changed map record.\<close>

definition applyDeltas :: "(string \<times> rvalue) list \<Rightarrow> fieldValue list \<Rightarrow> (string \<times> rvalue) list" where
  "applyDeltas m ds =
     fold (\<lambda>d m. if Absent d then delKey (Name d) m else putKey (Name d) (Value d) m) ds m"

section \<open>Invariants of the merge loop\<close>

text \<open>One iteration up to the emission: how the loop ends there, or the diff and the new cursors.\<close>

definition mergeStep ::
  "('k \<Rightarrow> 'k \<Rightarrow> bool) \<Rightarrow> options \<Rightarrow> 'k streamCursor \<Rightarrow> 'k streamCursor list \<Rightarrow>
    'k ending + ('k idDiff \<times> 'k streamCursor \<times> 'k streamCursor list)" where
  "mergeStep lt cfg base cands =
     (case smallestID lt base cands of
        None \<Rightarrow> Inl Done
      | Some i \<Rightarrow>
          (case assembleIDDiff i base cands cfg of
             Failed e \<Rightarrow> Inl (EndedWith e)
           | Panicked \<Rightarrow> Inl PanickedOut
           | Ok d \<Rightarrow>
               (case (if curID base = Some i then advance lt base else Inr base) of
                  Inl e \<Rightarrow> Inl (EndedWith e)
                | Inr base' \<Rightarrow>
                    (case advanceAll lt (\<lambda>c. curID c = Some i) cands of
                       Inl e \<Rightarrow> Inl (EndedWith e)
                     | Inr cands' \<Rightarrow> Inr (d, base', cands')))))"

lemma mergeLoop_mergeStep:
  "mergeLoop lt cfg wants got base cands =
     (case mergeStep lt cfg base cands of
        Inl e \<Rightarrow> (got, e)
      | Inr (d, base', cands') \<Rightarrow>
          if shouldEmit d cfg then
            if wants (got @ [d]) then mergeLoop lt cfg wants (got @ [d]) base' cands'
            else (got @ [d], Stopped)
          else mergeLoop lt cfg wants got base' cands')"
  by (subst mergeLoop.simps)
    (simp add: mergeStep_def split: option.split outcome.split sum.split split del: if_split)

lemma mergeStep_InrD:
  "mergeStep lt cfg base cands = Inr (d, base', cands') \<Longrightarrow>
    \<exists>i. smallestID lt base cands = Some i \<and> assembleIDDiff i base cands cfg = Ok d \<and>
      (if curID base = Some i then advance lt base else Inr base) = Inr base' \<and>
      advanceAll lt (\<lambda>c. curID c = Some i) cands = Inr cands'"
  by (simp add: mergeStep_def split: option.splits outcome.splits sum.splits split del: if_split)

text \<open>
  What holds of the emitted diffs and the cursors before an iteration and is kept by it, holds of
  the diffs at the end, however the loop ends.
\<close>

lemma mergeLoop_invariant:
  assumes "I got base cands"
    and step: "\<And>got base cands i d base' cands'.
      I got base cands \<Longrightarrow> smallestID lt base cands = Some i \<Longrightarrow>
      assembleIDDiff i base cands cfg = Ok d \<Longrightarrow>
      (if curID base = Some i then advance lt base else Inr base) = Inr base' \<Longrightarrow>
      advanceAll lt (\<lambda>c. curID c = Some i) cands = Inr cands' \<Longrightarrow>
      I (if shouldEmit d cfg then got @ [d] else got) base' cands'"
  shows "\<exists>base' cands'. I (fst (mergeLoop lt cfg wants got base cands)) base' cands'"
  using assms
proof (induction lt cfg wants got base cands rule: mergeLoop.induct)
  case (1 lt cfg wants got base cands)
  note step = 1(4)
  show ?case
  proof (cases "mergeStep lt cfg base cands")
    case (Inl e)
    then have "fst (mergeLoop lt cfg wants got base cands) = got"
      by (simp add: mergeLoop_mergeStep)
    then show ?thesis using 1(3) by auto
  next
    case (Inr x)
    obtain d base' cands' where x: "x = (d, base', cands')" by (cases x)
    obtain i where i: "smallestID lt base cands = Some i" "assembleIDDiff i base cands cfg = Ok d"
      "(if curID base = Some i then advance lt base else Inr base) = Inr base'"
      "advanceAll lt (\<lambda>c. curID c = Some i) cands = Inr cands'"
      using Inr x by (auto dest: mergeStep_InrD)
    have I: "I (if shouldEmit d cfg then got @ [d] else got) base' cands'"
      by (rule step [OF 1(3) i])
    show ?thesis
      using 1(1) [OF i _ _ _ step] 1(2) [OF i _ _ step] I Inr x
      by (auto simp: mergeLoop_mergeStep split: if_splits)
  qed
qed

section \<open>The diff of one ID\<close>

lemma assembleIDDiff_ID: "assembleIDDiff i base cands cfg = Ok d \<Longrightarrow> ID d = i"
  by (auto simp: assembleIDDiff_def assembleRecords_def split: outcome.splits option.splits)

lemma extractAllFields_present:
  "extractAllFields r = Some fs \<Longrightarrow> list_all (\<lambda>f. \<not> Absent f) fs"
  by (auto simp: extractAllFields_def Let_def list_all_iff split: option.splits rvalue.splits if_splits)

lemma classify_stateOk:
  "classify base cand cfg = Ok s \<Longrightarrow> stateOk (base \<noteq> None) s"
  by (auto simp: classify_def stateOk_def extractAllFields_present
      split: option.splits sum.splits if_splits)

lemma classifyAll_stateOk:
  "classifyAll base cands cfg = Ok ss \<Longrightarrow>
    length ss = length cands \<and> list_all (stateOk (base \<noteq> None)) ss"
  by (induction cands arbitrary: ss) (auto dest: classify_stateOk split: outcome.splits)

lemma assembleRecords_diffOk:
  "assembleRecords i base cands cfg = Ok d \<Longrightarrow> diffOk (length cands) d"
  by (auto simp: assembleRecords_def diffOk_def dest: classifyAll_stateOk
      split: outcome.splits option.splits)

lemma advanceAll_length: "advanceAll lt P cs = Inr cs' \<Longrightarrow> length cs' = length cs"
  by (induction cs arbitrary: cs') (auto simp: bindE_def split: sum.splits)

lemma mergeLoop_diffOk:
  fixes lt :: "'k \<Rightarrow> 'k \<Rightarrow> bool"
  assumes "list_all (diffOk (length cands)) got"
  shows "list_all (diffOk (length cands)) (fst (mergeLoop lt cfg wants got base cands))"
proof -
  define I where "I = (\<lambda>(got :: 'k idDiff list) (base :: 'k streamCursor) (cands' :: 'k streamCursor list).
    length cands' = length cands \<and> list_all (diffOk (length cands)) got)"
  have "\<exists>base' cands'. I (fst (mergeLoop lt cfg wants got base cands)) base' cands'"
  proof (rule mergeLoop_invariant)
    fix got base cands' i d base1 cands1
    assume "I got base cands'" and "assembleIDDiff i base cands' cfg = Ok d"
      and "advanceAll lt (\<lambda>c. curID c = Some i) cands' = Inr cands1"
    then show "I (if shouldEmit d cfg then got @ [d] else got) base1 cands1"
      by (auto simp: I_def assembleIDDiff_def dest: assembleRecords_diffOk advanceAll_length)
  qed (use assms in \<open>simp add: I_def\<close>)
  then show ?thesis by (auto simp: I_def)
qed

lemma mergeLoop_diffOk_start:
  "length cands = n \<Longrightarrow> list_all (diffOk n) (fst (mergeLoop lt cfg wants [] base cands))"
  using mergeLoop_diffOk [of cands "[]" lt cfg wants base] by simp

section \<open>Consumers that stop\<close>

lemma mergeLoop_extends: "\<exists>ds. fst (mergeLoop lt cfg wants got base cands) = got @ ds"
proof -
  have "\<exists>(b :: 'a streamCursor) (c :: 'a streamCursor list).
      \<exists>ds. fst (mergeLoop lt cfg wants got base cands) = got @ ds"
    by (rule mergeLoop_invariant) auto
  then show ?thesis by blast
qed

text \<open>A consumer receives a prefix of what one that never stops receives.\<close>

lemma mergeLoop_prefix:
  "\<exists>ds. fst (mergeLoop lt cfg (\<lambda>_. True) got base cands) =
    fst (mergeLoop lt cfg wants got base cands) @ ds"
proof (induction lt cfg wants got base cands rule: mergeLoop.induct)
  case (1 lt cfg wants got base cands)
  show ?case
  proof (cases "mergeStep lt cfg base cands")
    case (Inr x)
    obtain d base' cands' where x: "x = (d, base', cands')" by (cases x)
    obtain i where i: "smallestID lt base cands = Some i" "assembleIDDiff i base cands cfg = Ok d"
      "(if curID base = Some i then advance lt base else Inr base) = Inr base'"
      "advanceAll lt (\<lambda>c. curID c = Some i) cands = Inr cands'"
      using Inr x by (auto dest: mergeStep_InrD)
    show ?thesis
      using 1(1) [OF i] 1(2) [OF i] Inr x mergeLoop_extends [of lt cfg "\<lambda>_. True" "got @ [d]" base' cands']
      by (simp add: mergeLoop_mergeStep [of lt cfg _ got base cands])
  qed (simp add: mergeLoop_mergeStep)
qed

section \<open>Runs to the end read sorted streams\<close>

definition primed :: "'k streamCursor \<Rightarrow> bool" where
  "primed c = (live c \<longrightarrow> current c \<noteq> None \<and> prev c = map_option widID (current c))"

definition cleanCursor :: "('k \<Rightarrow> 'k \<Rightarrow> bool) \<Rightarrow> 'k streamCursor \<Rightarrow> bool" where
  "cleanCursor lt c =
     (live c \<longrightarrow> list_all isOk (pending c) \<and>
       successively lt (the (prev c) # map (widID \<circ> projr) (pending c)))"

lemma advance_clean:
  assumes "advance lt c = Inr c'" and "primed c"
  shows "primed c'" and "cleanCursor lt c' \<Longrightarrow> cleanCursor lt c"
  using assms
  by (auto simp: advance_def primed_def cleanCursor_def Let_def
      split: list.splits sum.splits option.splits if_splits)

lemma advanceAll_clean:
  assumes "advanceAll lt P cs = Inr cs'" and "\<forall>c \<in> set cs. primed c"
  shows "(\<forall>c \<in> set cs'. primed c) \<and>
    ((\<forall>c \<in> set cs'. cleanCursor lt c) \<longrightarrow> (\<forall>c \<in> set cs. cleanCursor lt c))"
  using assms
proof (induction cs arbitrary: cs')
  case (Cons c cs)
  obtain c1 cs1 where s: "(if P c then advance lt c else Inr c) = Inr c1"
    "advanceAll lt P cs = Inr cs1" "cs' = c1 # cs1"
    using Cons.prems by (auto simp: bindE_def split: sum.splits)
  have "primed c1 \<and> (cleanCursor lt c1 \<longrightarrow> cleanCursor lt c)"
    using s(1) Cons.prems(2) advance_clean [of lt c c1] by (auto split: if_splits)
  then show ?case using Cons.IH [OF s(2)] Cons.prems(2) s(3) by auto
qed simp

lemma smallestID_None:
  "smallestID lt base cands = None \<Longrightarrow> curID base = None \<and> (\<forall>c \<in> set cands. curID c = None)"
proof -
  have step: "considerID lt c s = None \<longleftrightarrow> curID c = None \<and> s = None" for c s
    by (auto simp: considerID_def split: option.splits)
  have "fold (considerID lt) cs s = None \<longleftrightarrow> s = None \<and> (\<forall>c \<in> set cs. curID c = None)" for cs s
    by (induction cs arbitrary: s) (auto simp: step)
  then show "smallestID lt base cands = None \<Longrightarrow> ?thesis"
    by (simp add: smallestID_def step)
qed

lemma primed_idle: "primed c \<Longrightarrow> curID c = None \<Longrightarrow> cleanCursor lt c"
  by (auto simp: primed_def cleanCursor_def curID_def)

lemma mergeLoop_Done:
  assumes "snd (mergeLoop lt cfg wants got base cands) = Done"
    and "primed base" and "\<forall>c \<in> set cands. primed c"
  shows "cleanCursor lt base \<and> (\<forall>c \<in> set cands. cleanCursor lt c)"
  using assms
proof (induction lt cfg wants got base cands rule: mergeLoop.induct)
  case (1 lt cfg wants got base cands)
  show ?case
  proof (cases "mergeStep lt cfg base cands")
    case (Inl e)
    then have "smallestID lt base cands = None"
      using 1(3) by (auto simp: mergeLoop_mergeStep mergeStep_def
          split: option.splits outcome.splits sum.splits)
    then show ?thesis using 1(4,5) by (auto dest!: smallestID_None intro: primed_idle)
  next
    case (Inr x)
    obtain d base' cands' where x: "x = (d, base', cands')" by (cases x)
    obtain i where i: "smallestID lt base cands = Some i" "assembleIDDiff i base cands cfg = Ok d"
      "(if curID base = Some i then advance lt base else Inr base) = Inr base'"
      "advanceAll lt (\<lambda>c. curID c = Some i) cands = Inr cands'"
      using Inr x by (auto dest: mergeStep_InrD)
    have b: "primed base' \<and> (cleanCursor lt base' \<longrightarrow> cleanCursor lt base)"
      using i(3) 1(4) advance_clean [of lt base base'] by (auto split: if_splits)
    note c = advanceAll_clean [OF i(4) 1(5)]
    have "cleanCursor lt base' \<and> (\<forall>c \<in> set cands'. cleanCursor lt c)"
      using 1(1) [OF i] 1(2) [OF i] 1(3) Inr x b c
      by (simp add: mergeLoop_mergeStep [of lt cfg _ got base cands] split: if_splits)
    then show ?thesis using b c by blast
  qed
qed

section \<open>Order of the IDs\<close>

lemma list_all2_member1: "list_all2 P xs ys \<Longrightarrow> x \<in> set xs \<Longrightarrow> \<exists>y \<in> set ys. P x y"
  by (induction rule: list_all2_induct) auto

lemma list_all2_member2: "list_all2 P xs ys \<Longrightarrow> y \<in> set ys \<Longrightarrow> \<exists>x \<in> set xs. P x y"
  by (induction rule: list_all2_induct) auto

definition notAbove :: "('k \<Rightarrow> 'k \<Rightarrow> bool) \<Rightarrow> 'k option \<Rightarrow> 'k \<Rightarrow> bool" where
  "notAbove lt s j = (case s of None \<Rightarrow> False | Some i \<Rightarrow> i = j \<or> lt i j)"

lemma all_ok_projr: "list_all isOk s \<Longrightarrow> s = map Inr (map projr s)"
  by (induction s) (auto simp: isOk_def split: sum.splits)

text \<open>What a cursor over a sorted stream has still to deliver, its current record first.\<close>

fun reads :: "('k \<Rightarrow> 'k \<Rightarrow> bool) \<Rightarrow> 'k streamCursor \<Rightarrow> 'k withID list \<Rightarrow> bool" where
  "reads lt c [] = (\<not> live c)"
| "reads lt c (r # rs) =
     (live c \<and> current c = Some r \<and> prev c = Some (widID r) \<and> pending c = map Inr rs \<and>
      sorted_wrt lt (map widID (r # rs)))"

definition ahead :: "('k \<Rightarrow> 'k \<Rightarrow> bool) \<Rightarrow> 'k set \<Rightarrow> 'k streamCursor \<Rightarrow> bool" where
  "ahead lt I c =
     (case curID c of None \<Rightarrow> True | Some j \<Rightarrow> prev c = Some j \<and> (\<forall>i \<in> I. lt i j))"

definition dropID :: "'k \<Rightarrow> 'k withID list \<Rightarrow> 'k withID list" where
  "dropID i rs = filter (\<lambda>r. widID r \<noteq> i) rs"

definition idsOf :: "'k withID list \<Rightarrow> 'k withID list list \<Rightarrow> 'k set" where
  "idsOf b cs = widID ` (\<Union>rs \<in> set (b # cs). set rs)"

lemma ahead_insert: "ahead lt (insert i I) c \<Longrightarrow> ahead lt I c"
  by (auto simp: ahead_def split: option.splits)

text \<open>What \<open>DiffFunc\<close> asks of the comparison it is given, for IDs that it tells apart.\<close>

locale id_order =
  fixes lt :: "'k \<Rightarrow> 'k \<Rightarrow> bool"
  assumes lt_irrefl: "\<not> lt a a"
    and lt_trans: "lt a b \<Longrightarrow> lt b c \<Longrightarrow> lt a c"
    and lt_total: "a \<noteq> b \<Longrightarrow> lt a b \<or> lt b a"
begin

lemma considerID_keeps: "notAbove lt s j \<Longrightarrow> notAbove lt (considerID lt c s) j"
  by (auto simp: considerID_def notAbove_def intro: lt_trans split: option.splits)

lemma considerID_covers: "curID c = Some j \<Longrightarrow> notAbove lt (considerID lt c s) j"
  using lt_total by (auto simp: considerID_def notAbove_def split: option.splits)

lemma fold_considerID_keeps: "notAbove lt s j \<Longrightarrow> notAbove lt (fold (considerID lt) cs s) j"
  by (induction cs arbitrary: s) (simp_all add: considerID_keeps)

lemma fold_considerID_covers:
  "c \<in> set cs \<Longrightarrow> curID c = Some j \<Longrightarrow> notAbove lt (fold (considerID lt) cs s) j"
  by (induction cs arbitrary: s) (auto intro: fold_considerID_keeps considerID_covers)

lemma smallestID_least:
  assumes "c = base \<or> c \<in> set cands" and "curID c = Some j"
  shows "notAbove lt (smallestID lt base cands) j"
  using assms unfolding smallestID_def
  by (auto intro: fold_considerID_keeps fold_considerID_covers considerID_covers)

lemma smallestID_below:
  assumes "smallestID lt base cands = Some i" and "c = base \<or> c \<in> set cands"
    and "curID c = Some j"
  shows "i = j \<or> lt i j"
  using smallestID_least [OF assms(2,3)] assms(1) by (simp add: notAbove_def)

lemma reads_head:
  assumes "reads lt c (r # rs)" and "widID r = i \<or> lt i (widID r)" and "widID r \<noteq> i"
  shows "\<forall>r' \<in> set (r # rs). widID r' \<noteq> i"
proof -
  have "lt i (widID r)" using assms(2,3) by blast
  then have "lt i (widID r')" if "r' \<in> set (r # rs)" for r'
    using that assms(1) lt_trans by auto
  then show ?thesis using lt_irrefl by blast
qed

lemma reads_step:
  assumes "reads lt c rs" and "\<forall>r \<in> set rs. widID r = i \<or> lt i (widID r)"
  shows "recordAt i c = recOf rs i"
    and "\<exists>c'. (if curID c = Some i then advance lt c else Inr c) = Inr c' \<and>
      reads lt c' (dropID i rs)"
proof -
  have ne: "widID r \<noteq> i" if "lt i (widID r)" for r using that lt_irrefl by blast
  show "recordAt i c = recOf rs i"
  proof (cases rs)
    case (Cons r rs')
    then have "widID r = i \<or> (\<forall>r \<in> set rs. widID r \<noteq> i)"
      using assms reads_head [of c r rs' i] by auto
    then show ?thesis
      using assms(1) Cons by (auto simp: recordAt_def curID_def recOf_def find_None_iff intro!: sym [of "find _ _"])
  qed (use assms in \<open>simp add: recordAt_def curID_def recOf_def\<close>)
  show "\<exists>c'. (if curID c = Some i then advance lt c else Inr c) = Inr c' \<and>
      reads lt c' (dropID i rs)"
  proof (cases rs)
    case (Cons r rs')
    show ?thesis
    proof (cases "widID r = i")
      case True
      then have "\<forall>r \<in> set rs'. widID r \<noteq> i"
        using assms(1) Cons ne by auto
      then have "dropID i rs = rs'"
        using Cons True by (simp add: dropID_def filter_id_conv)
      then show ?thesis
        using assms(1) Cons True
        by (cases rs') (auto simp: curID_def advance_def)
    next
      case False
      then have "\<forall>r \<in> set rs. widID r \<noteq> i"
        using assms Cons reads_head [of c r rs' i] by auto
      then show ?thesis
        using assms(1) Cons False by (auto simp: curID_def dropID_def filter_id_conv)
    qed
  qed (use assms in \<open>simp add: curID_def dropID_def\<close>)
qed

lemma reads_advanceAll:
  assumes "list_all2 (reads lt) cs rss"
    and "\<forall>rs \<in> set rss. \<forall>r \<in> set rs. widID r = i \<or> lt i (widID r)"
  shows "map (recordAt i) cs = map (\<lambda>rs. recOf rs i) rss"
    and "\<exists>cs'. advanceAll lt (\<lambda>c. curID c = Some i) cs = Inr cs' \<and>
      list_all2 (reads lt) cs' (map (dropID i) rss)"
proof -
  show "map (recordAt i) cs = map (\<lambda>rs. recOf rs i) rss"
    using assms by (induction rule: list_all2_induct) (simp_all add: reads_step(1))
  show "\<exists>cs'. advanceAll lt (\<lambda>c. curID c = Some i) cs = Inr cs' \<and>
      list_all2 (reads lt) cs' (map (dropID i) rss)"
    using assms
  proof (induction rule: list_all2_induct)
    case (Cons c cs rs rss)
    then obtain cs' where "advanceAll lt (\<lambda>c. curID c = Some i) cs = Inr cs'"
      "list_all2 (reads lt) cs' (map (dropID i) rss)" by auto
    then show ?case
      using reads_step(2) [OF Cons.hyps(1), of i] Cons.prems by fastforce
  qed simp
qed

lemma smallestID_reads:
  assumes "reads lt base b" and "list_all2 (reads lt) cands cs"
    and "idsOf b cs = insert i I" and "\<forall>j \<in> I. lt i j"
  shows "smallestID lt base cands = Some i"
proof -
  have below: "widID r = i \<or> lt i (widID r)" if "rs = b \<or> rs \<in> set cs" and "r \<in> set rs" for rs r
    using that assms(3,4) by (fastforce simp: idsOf_def)
  obtain rs where rs: "rs = b \<or> rs \<in> set cs" "i \<in> widID ` set rs"
  proof -
    have "i \<in> idsOf b cs" using assms(3) by simp
    then show thesis using that by (auto simp: idsOf_def)
  qed
  obtain c where c: "c = base \<or> c \<in> set cands" "reads lt c rs"
    using rs(1) assms(1,2) by (auto dest: list_all2_member2)
  obtain r rs1 where rs1: "rs = r # rs1" using rs(2) by (cases rs) auto
  have at: "curID c = Some i"
  proof (cases "widID r = i")
    case True
    then show ?thesis using c(2) rs1 by (simp add: curID_def)
  next
    case False
    then show ?thesis using reads_head [of c r rs1 i] below [OF rs(1), of r] c(2) rs(2) rs1 by auto
  qed
  obtain j where j: "smallestID lt base cands = Some j" "j = i \<or> lt j i"
    using smallestID_least [OF c(1) at] by (auto simp: notAbove_def split: option.splits)
  have "\<exists>rs c. reads lt c rs \<and> (rs = b \<or> rs \<in> set cs) \<and> curID c = Some j"
    using smallestID_source [OF j(1)] assms(1) list_all2_member1 [OF assms(2)] by metis
  then obtain rs' c' where c': "reads lt c' rs'" "rs' = b \<or> rs' \<in> set cs" "curID c' = Some j" by blast
  then have "\<exists>r \<in> set rs'. widID r = j" by (cases rs') (auto simp: curID_def)
  then have "j = i \<or> lt i j" using below c'(2) by blast
  then show ?thesis using j lt_irrefl lt_trans by metis
qed

lemma diffIDs_cong:
  assumes "\<forall>i \<in> set ids. recOf b i = recOf b' i \<and> map (\<lambda>c. recOf c i) cs = map (\<lambda>c. recOf c i) cs'"
  shows "diffIDs cfg wants b cs got ids = diffIDs cfg wants b' cs' got ids"
  using assms
  by (induction ids arbitrary: got) (auto split: outcome.splits)

lemma recOf_dropID: "j \<noteq> i \<Longrightarrow> recOf (dropID i rs) j = recOf rs j"
  by (induction rs) (auto simp: recOf_def dropID_def)

lemma idsOf_dropID: "idsOf (dropID i b) (map (dropID i) cs) = idsOf b cs - {i}"
  by (auto simp: idsOf_def dropID_def)

lemma mergeLoop_reads:
  assumes "reads lt base b" and "list_all2 (reads lt) cands cs"
    and "sorted_wrt lt ids" and "set ids = idsOf b cs"
  shows "mergeLoop lt cfg wants got base cands = diffIDs cfg wants b cs got ids"
  using assms
proof (induction ids arbitrary: got base cands b cs)
  case Nil
  then have "b = []" and "\<forall>rs \<in> set cs. rs = []" by (auto simp: idsOf_def)
  then have "\<not> live base" and "\<forall>c \<in> set cands. \<not> live c"
    using Nil.prems(1) list_all2_member1 [OF Nil.prems(2)] by fastforce+
  then have "smallestID lt base cands = None"
    using smallestID_source [of lt base cands]
    by (cases "smallestID lt base cands") (auto simp: curID_def)
  then show ?case by (simp add: mergeLoop.simps)
next
  case (Cons i ids)
  have small: "smallestID lt base cands = Some i"
    using Cons.prems by (intro smallestID_reads [of base b cands cs i "set ids"]) auto
  have low: "\<forall>r \<in> set rs. widID r = i \<or> lt i (widID r)" if "rs = b \<or> rs \<in> set cs" for rs
    using that Cons.prems(3,4) by (fastforce simp: idsOf_def)
  obtain base' where base': "(if curID base = Some i then advance lt base else Inr base) = Inr base'"
    "reads lt base' (dropID i b)" and atb: "recordAt i base = recOf b i"
    using reads_step [OF Cons.prems(1), of i] low by blast
  obtain cands' where cands': "advanceAll lt (\<lambda>c. curID c = Some i) cands = Inr cands'"
    "list_all2 (reads lt) cands' (map (dropID i) cs)"
    and atc: "map (recordAt i) cands = map (\<lambda>rs. recOf rs i) cs"
    using reads_advanceAll [OF Cons.prems(2), of i] low by blast
  have notin: "i \<notin> set ids" using Cons.prems(3) lt_irrefl by auto
  have rest: "mergeLoop lt cfg wants got' base' cands' = diffIDs cfg wants b cs got' ids" for got'
  proof -
    have "mergeLoop lt cfg wants got' base' cands'
        = diffIDs cfg wants (dropID i b) (map (dropID i) cs) got' ids"
      using Cons.prems notin base'(2) cands'(2) by (intro Cons.IH) (auto simp: idsOf_dropID)
    also have "\<dots> = diffIDs cfg wants b cs got' ids"
      using notin by (intro diffIDs_cong) (auto intro!: recOf_dropID)
    finally show ?thesis .
  qed
  show ?case
    by (subst mergeLoop.simps)
      (simp add: small base'(1) cands'(1) rest assembleIDDiff_def atb atc
        split: outcome.split split del: if_split, simp add: rest)
qed

lemma prime_reads:
  assumes "sortedSeq lt s"
  shows "\<exists>c. advance lt (newCursor s n) = Inr c \<and> reads lt c (map projr s)"
proof (cases s)
  case (Cons x xs)
  have "xs = map Inr (map projr xs)"
    using assms Cons by (intro all_ok_projr) (simp add: sortedSeq_def)
  then show ?thesis
    using assms Cons
    by (cases x) (auto simp: sortedSeq_def advance_def newCursor_def comp_def)
qed (simp add: advance_def newCursor_def)

lemma prime_advanceAll:
  "list_all (sortedSeq lt) ss \<Longrightarrow>
    \<exists>cs. advanceAll lt (\<lambda>c. True) (map (\<lambda>(i, c). newCursor c (candidateName i)) (enumerate n ss)) = Inr cs
      \<and> list_all2 (reads lt) cs (map (map projr) ss)"
proof (induction ss arbitrary: n)
  case (Cons s ss)
  obtain c where "advance lt (newCursor s (candidateName n)) = Inr c" "reads lt c (map projr s)"
    using prime_reads [of s "candidateName n"] Cons.prems by auto
  moreover obtain cs where
    "advanceAll lt (\<lambda>c. True) (map (\<lambda>(i, c). newCursor c (candidateName i)) (enumerate (Suc n) ss)) = Inr cs"
    "list_all2 (reads lt) cs (map (map projr) ss)"
    using Cons.IH [of "Suc n"] Cons.prems by auto
  ultimately show ?case by simp
qed simp

theorem DiffFunc_sorted:
  assumes "sortedSeq lt b" and "list_all (sortedSeq lt) cs"
    and "sorted_wrt lt ids" and "set ids = idsOf (map projr b) (map (map projr) cs)"
  shows "DiffFunc b cs (Some lt) opts wants =
    diffIDs (resolveOptions opts) wants (map projr b) (map (map projr) cs) [] ids"
proof -
  obtain c where c: "advance lt (newCursor b ''baseline'') = Inr c" "reads lt c (map projr b)"
    using prime_reads [OF assms(1)] by blast
  obtain cc where cc: "advanceAll lt (\<lambda>c. True)
      (map (\<lambda>(i, c). newCursor c (candidateName i)) (enumerate 0 cs)) = Inr cc"
    "list_all2 (reads lt) cc (map (map projr) cs)"
    using prime_advanceAll [OF assms(2)] by blast
  show ?thesis
    using mergeLoop_reads [OF c(2) cc(2) assms(3,4)]
    by (simp add: DiffFunc_def Let_def c(1) cc(1))
qed

subsection \<open>Any input\<close>

text \<open>The IDs still to come are above those already emitted.\<close>

lemma advance_above:
  "advance lt c = Inr c' \<Longrightarrow> curID c = Some i \<Longrightarrow> prev c = Some i \<Longrightarrow>
    case curID c' of None \<Rightarrow> True | Some j \<Rightarrow> lt i j \<and> prev c' = Some j"
  by (auto simp: advance_def curID_def Let_def split: list.splits sum.splits if_splits option.splits)

lemma advance_at_above:
  assumes "(if curID c = Some i then advance lt c else Inr c) = Inr c'"
    and "ahead lt (ID ` set got) c"
    and "\<And>j. curID c = Some j \<Longrightarrow> i = j \<or> lt i j"
  shows "ahead lt (insert i (ID ` set got)) c'"
proof (cases "curID c = Some i")
  case True
  then show ?thesis
    using assms(1,2) advance_above [of c c' i] lt_trans
    by (auto simp: ahead_def split: option.splits)
next
  case False
  then show ?thesis using assms by (auto simp: ahead_def split: option.splits)
qed

lemma advanceAll_above:
  assumes "advanceAll lt (\<lambda>c. curID c = Some i) cs = Inr cs'"
    and "\<forall>c \<in> set cs. ahead lt (ID ` set got) c"
    and "\<And>c j. c \<in> set cs \<Longrightarrow> curID c = Some j \<Longrightarrow> i = j \<or> lt i j"
  shows "\<forall>c \<in> set cs'. ahead lt (insert i (ID ` set got)) c"
  using assms
proof (induction cs arbitrary: cs')
  case (Cons c cs)
  obtain c1 cs1 where s: "(if curID c = Some i then advance lt c else Inr c) = Inr c1"
    "advanceAll lt (\<lambda>c. curID c = Some i) cs = Inr cs1" "cs' = c1 # cs1"
    using Cons.prems(1) by (auto simp: bindE_def split: sum.splits)
  have "ahead lt (insert i (ID ` set got)) c1"
    using Cons.prems by (intro advance_at_above [OF s(1)]) auto
  then show ?case
    using Cons.IH [OF s(2)] Cons.prems(2,3) s(3) by auto
qed simp

lemma mergeLoop_ascending:
  assumes "sorted_wrt lt (map ID got)" and "ahead lt (ID ` set got) base"
    and "\<forall>c \<in> set cands. ahead lt (ID ` set got) c"
  shows "sorted_wrt lt (map ID (fst (mergeLoop lt cfg wants got base cands)))"
proof -
  define I where "I = (\<lambda>(got :: 'k idDiff list) base cands. sorted_wrt lt (map ID got) \<and> ahead lt (ID ` set got) base
    \<and> (\<forall>c \<in> set cands. ahead lt (ID ` set got) c))"
  have "\<exists>base' cands'. I (fst (mergeLoop lt cfg wants got base cands)) base' cands'"
  proof (rule mergeLoop_invariant)
    fix got base cands i d base' cands'
    assume inv: "I got base cands" and s: "smallestID lt base cands = Some i"
      and d: "assembleIDDiff i base cands cfg = Ok d"
      and b: "(if curID base = Some i then advance lt base else Inr base) = Inr base'"
      and c: "advanceAll lt (\<lambda>c. curID c = Some i) cands = Inr cands'"
    have d': "ID d = i" using d by (rule assembleIDDiff_ID)
    have low: "i = j \<or> lt i j" if "c = base \<or> c \<in> set cands" "curID c = Some j" for c j
      using smallestID_below [OF s that] .
    have base': "ahead lt (insert i (ID ` set got)) base'"
      using inv low by (intro advance_at_above [OF b]) (auto simp: I_def)
    have cands': "\<forall>c \<in> set cands'. ahead lt (insert i (ID ` set got)) c"
      using inv low by (intro advanceAll_above [OF c]) (auto simp: I_def)
    obtain c where "c = base \<or> c \<in> set cands" and ci: "curID c = Some i"
      using smallestID_source [OF s] by blast
    then have "ahead lt (ID ` set got) c" using inv by (auto simp: I_def)
    then have "\<forall>j \<in> ID ` set got. lt j i" using ci by (simp add: ahead_def)
    moreover have "\<forall>c \<in> set cands'. ahead lt (ID ` set got) c" using cands' by (blast intro: ahead_insert [of lt i])
    ultimately show "I (if shouldEmit d cfg then got @ [d] else got) base' cands'"
      using inv base' cands' ahead_insert [OF base'] d' by (simp add: I_def sorted_wrt_append)
  qed (use assms in \<open>simp add: I_def\<close>)
  then show ?thesis by (auto simp: I_def)
qed

lemma prime_ahead: "advance lt (newCursor s n) = Inr c \<Longrightarrow> ahead lt {} c"
  by (auto simp: advance_def newCursor_def ahead_def curID_def split: list.splits sum.splits)

lemma prime_ahead_all:
  "advanceAll lt (\<lambda>c. True) (map (\<lambda>(i, c). newCursor c (candidateName i)) (enumerate n ss)) = Inr cs \<Longrightarrow>
    (\<forall>c \<in> set cs. ahead lt {} c) \<and> length cs = length ss"
  by (induction ss arbitrary: n cs) (auto simp: bindE_def dest: prime_ahead split: sum.splits)

lemma DiffFunc_ascending: "sorted_wrt lt (map ID (fst (DiffFunc b cs (Some lt) opts wants)))"
proof (cases "advance lt (newCursor b ''baseline'')")
  case (Inr base)
  note base = this
  show ?thesis
  proof (cases "advanceAll lt (\<lambda>c. True)
      (map (\<lambda>(i, c). newCursor c (candidateName i)) (enumerate 0 cs))")
    case (Inr cands)
    then show ?thesis
      using base prime_ahead [OF base] prime_ahead_all [OF Inr]
      by (simp add: DiffFunc_def Let_def mergeLoop_ascending)
  qed (simp add: DiffFunc_def Let_def base)
qed (simp add: DiffFunc_def Let_def)

end

interpretation id_less: id_order "(<) :: 'k::linorder \<Rightarrow> 'k \<Rightarrow> bool"
  by unfold_locales auto

section \<open>The diff of sorted streams\<close>

lemma set_allIDs: "set (allIDs b cs) = idsOf b cs"
  by (auto simp: allIDs_def idsOf_def)

lemma allIDs_sorted: "sorted_wrt (<) (allIDs b cs)"
  using strict_sorted_iff [of "allIDs b cs"] by (simp add: allIDs_def)

text \<open>C5: On streams sorted by ID, the merge of \<open>Diff\<close> over its cursors delivers exactly what the
  specification says: for every ID of any stream, in ascending order, the diff assembled from the
  records that the baseline and the candidates hold for it, until the consumer stops or a
  comparison fails.
\<close>

theorem diff_merge_correct:
  assumes "sortedSeq (<) baseline" and "list_all (sortedSeq (<)) candidates"
  shows "Diff baseline candidates opts wants =
    diffIDs (resolveOptions opts) wants (map projr baseline) (map (map projr) candidates) []
      (allIDs (map projr baseline) (map (map projr) candidates))"
  unfolding Diff_def
  by (rule id_less.DiffFunc_sorted [OF assms allIDs_sorted set_allIDs])

definition mapRec :: "nat \<Rightarrow> (string \<times> rvalue) list \<Rightarrow> string + nat withID" where
  "mapRec i es = Inr \<lparr>widID = i, widData = Some (RMap ''string'' ''interface {}'' (Some es))\<rparr>"

lemmas diff_sample_simps =
  mapRec_def sortedSeq_def list_all_iff isOk_def Diff_def DiffFunc_def Let_def resolveOptions_def

theorem diff_merge_correct_witness:
  "fst (Diff [mapRec 1 [(''a'', RInt ''int'' 1)], mapRec 2 [(''a'', RInt ''int'' 1)]]
     [[mapRec 2 [(''a'', RInt ''int'' 5)], mapRec 3 []]] [] (\<lambda>_. True)) =
   [\<lparr>ID = 1, Baseline = Some [present ''a'' (RInt ''int'' 1)],
      Candidates = [\<lparr>Status = Missing, Fields = []\<rparr>]\<rparr>,
    \<lparr>ID = 2, Baseline = Some [present ''a'' (RInt ''int'' 1)],
      Candidates = [\<lparr>Status = Changed, Fields = [present ''a'' (RInt ''int'' 5)]\<rparr>]\<rparr>,
    \<lparr>ID = 3, Baseline = None, Candidates = [\<lparr>Status = Extra, Fields = []\<rparr>]\<rparr>]"
proof -
  have "sortedSeq (<) [mapRec 1 [(''a'', RInt ''int'' 1)], mapRec 2 [(''a'', RInt ''int'' 1)]]"
    by code_simp
  moreover have "list_all (sortedSeq (<)) [[mapRec 2 [(''a'', RInt ''int'' 5)], mapRec 3 []]]"
    by code_simp
  moreover have "fst (diffIDs (resolveOptions []) (\<lambda>_. True)
      (map projr [mapRec 1 [(''a'', RInt ''int'' 1)], mapRec 2 [(''a'', RInt ''int'' 1)]])
      (map (map projr) [[mapRec 2 [(''a'', RInt ''int'' 5)], mapRec 3 []]]) []
      (allIDs (map projr [mapRec 1 [(''a'', RInt ''int'' 1)], mapRec 2 [(''a'', RInt ''int'' 1)]])
        (map (map projr) [[mapRec 2 [(''a'', RInt ''int'' 5)], mapRec 3 []]]))) =
     [\<lparr>ID = 1, Baseline = Some [present ''a'' (RInt ''int'' 1)],
        Candidates = [\<lparr>Status = Missing, Fields = []\<rparr>]\<rparr>,
      \<lparr>ID = 2, Baseline = Some [present ''a'' (RInt ''int'' 1)],
        Candidates = [\<lparr>Status = Changed, Fields = [present ''a'' (RInt ''int'' 5)]\<rparr>]\<rparr>,
      \<lparr>ID = 3, Baseline = None, Candidates = [\<lparr>Status = Extra, Fields = []\<rparr>]\<rparr>]"
    by code_simp
  ultimately show ?thesis by (simp only: diff_merge_correct)
qed

text \<open>C28: Whatever the streams hold, sorted or not, and however the iteration ends, the diffs a
  consumer receives have strictly ascending IDs, one state per candidate, and states that fit: an
  extra candidate only without a baseline and with no absent field, a matched or changed one only
  with a baseline, deltas exactly for the changed and the extra.
\<close>

theorem diff_output_wellformed:
  "sorted_wrt (<) (map ID (fst (Diff baseline candidates opts wants))) \<and>
   list_all (diffOk (length candidates)) (fst (Diff baseline candidates opts wants))"
proof
  show "sorted_wrt (<) (map ID (fst (Diff baseline candidates opts wants)))"
    unfolding Diff_def by (rule id_less.DiffFunc_ascending)
  show "list_all (diffOk (length candidates)) (fst (Diff baseline candidates opts wants))"
    by (auto simp: Diff_def DiffFunc_def Let_def mergeLoop_diffOk_start
        dest!: id_less.prime_ahead_all split: sum.split)
qed

lemma prime_clean:
  assumes "advance (<) (newCursor s n) = Inr c" and "cleanCursor (<) c"
  shows "sortedSeq (<) (s :: 'k::linorder recordSeq)"
  using assms
  by (auto simp: advance_def newCursor_def cleanCursor_def sortedSeq_def successively_conv_sorted_wrt
      split: list.splits sum.splits)

lemma prime_primed: "advance lt (newCursor s n) = Inr c \<Longrightarrow> primed c"
  by (auto simp: advance_def newCursor_def primed_def split: list.splits sum.splits)

lemma prime_clean_all:
  assumes "advanceAll (<) (\<lambda>c. True)
      (map (\<lambda>(i, c). newCursor c (candidateName i)) (enumerate n ss)) = Inr cs"
  shows "(\<forall>c \<in> set cs. primed c) \<and>
    ((\<forall>c \<in> set cs. cleanCursor (<) c) \<longrightarrow> list_all (sortedSeq (<)) (ss :: 'k::linorder recordSeq list))"
  using assms
  by (induction ss arbitrary: n cs)
    (auto simp: bindE_def dest: prime_primed prime_clean split: sum.splits)

lemma Diff_Done:
  assumes "snd (Diff baseline candidates opts wants) = Done"
  shows "sortedSeq (<) baseline \<and> list_all (sortedSeq (<)) candidates"
proof -
  obtain base cands where r: "advance (<) (newCursor baseline ''baseline'') = Inr base"
    "advanceAll (<) (\<lambda>c. True)
      (map (\<lambda>(i, c). newCursor c (candidateName i)) (enumerate 0 candidates)) = Inr cands"
    "snd (mergeLoop (<) (resolveOptions opts) wants [] base cands) = Done"
    using assms by (auto simp: Diff_def DiffFunc_def Let_def split: sum.splits)
  have "cleanCursor (<) base \<and> (\<forall>c \<in> set cands. cleanCursor (<) c)"
    using prime_primed [OF r(1)] prime_clean_all [OF r(2)] by (intro mergeLoop_Done [OF r(3)]) auto
  then show ?thesis
    using prime_clean [OF r(1)] prime_clean_all [OF r(2)] by blast
qed

text \<open>C36: \<open>Diff\<close> runs to its end only over streams without errors and with strictly ascending IDs:
  an upstream error, a duplicate or an ID out of order in any stream is never passed over in
  silence.
\<close>

theorem diff_detects_disorder:
  assumes "snd (Diff baseline candidates opts wants) = Done"
  shows "sortedSeq (<) baseline \<and> list_all (sortedSeq (<)) candidates"
  by (rule Diff_Done [OF assms])

theorem diff_detects_disorder_witness:
  "sortedSeq (<) [mapRec 1 []] \<and> list_all (sortedSeq (<)) [[mapRec 1 [], mapRec 4 []]]"
proof -
  have "snd (Diff [mapRec 1 []] [[mapRec 1 [], mapRec 4 []]] [] (\<lambda>_. True)) = Done" by code_simp
  then show ?thesis by (rule diff_detects_disorder)
qed

lemma diffIDs_Done:
  "snd (diffIDs cfg wants b cs got ids) = Done \<Longrightarrow>
    \<exists>ds. map (\<lambda>i. assembleRecords i (recOf b i) (map (\<lambda>c. recOf c i) cs) cfg) ids = map Ok ds \<and>
      fst (diffIDs cfg wants b cs got ids) = got @ filter (\<lambda>d. shouldEmit d cfg) ds"
proof (induction ids arbitrary: got)
  case (Cons i ids)
  obtain d where d: "assembleRecords i (recOf b i) (map (\<lambda>c. recOf c i) cs) cfg = Ok d"
    using Cons.prems by (auto split: outcome.splits)
  show ?case
  proof (cases "shouldEmit d cfg")
    case True
    then obtain ds where
      "map (\<lambda>i. assembleRecords i (recOf b i) (map (\<lambda>c. recOf c i) cs) cfg) ids = map Ok ds"
      "fst (diffIDs cfg wants b cs (got @ [d]) ids) = (got @ [d]) @ filter (\<lambda>d. shouldEmit d cfg) ds"
      using Cons.prems Cons.IH [of "got @ [d]"] d by (auto split: if_splits)
    then show ?thesis
      using Cons.prems True d by (intro exI [of _ "d # ds"]) (simp split: if_splits)
  next
    case False
    then obtain ds where
      "map (\<lambda>i. assembleRecords i (recOf b i) (map (\<lambda>c. recOf c i) cs) cfg) ids = map Ok ds"
      "fst (diffIDs cfg wants b cs got ids) = got @ filter (\<lambda>d. shouldEmit d cfg) ds"
      using Cons.prems Cons.IH [of got] d by auto
    then show ?thesis
      using Cons.prems False d by (intro exI [of _ "d # ds"]) simp
  qed
qed simp

text \<open>C19: A run of \<open>Diff\<close> that comes to its end has delivered, for every ID of every stream, the
  diff that has to be emitted: the received list is the list of the diffs of all the IDs less
  those that need not be emitted, so no diverging ID is lost.
\<close>

theorem diff_delivers_every_divergence:
  assumes "snd (Diff baseline candidates opts wants) = Done"
  shows "\<exists>ds. map (\<lambda>i. assembleRecords i (recOf (map projr baseline) i)
        (map (\<lambda>c. recOf c i) (map (map projr) candidates)) (resolveOptions opts))
      (allIDs (map projr baseline) (map (map projr) candidates)) = map Ok ds \<and>
    fst (Diff baseline candidates opts wants) = filter (\<lambda>d. shouldEmit d (resolveOptions opts)) ds"
proof -
  have sorted: "sortedSeq (<) baseline" "list_all (sortedSeq (<)) candidates"
    using Diff_Done [OF assms] by auto
  show ?thesis
    using assms diffIDs_Done [of "resolveOptions opts" wants "map projr baseline"
        "map (map projr) candidates" "[]"]
    unfolding Diff_def id_less.DiffFunc_sorted [OF sorted allIDs_sorted set_allIDs] by simp
qed

theorem diff_delivers_every_divergence_witness:
  "\<exists>ds. map (\<lambda>i. assembleRecords i (recOf (map projr [mapRec 1 []]) i)
        (map (\<lambda>c. recOf c i) (map (map projr) [[mapRec 4 []]])) (resolveOptions []))
      (allIDs (map projr [mapRec 1 []]) (map (map projr) [[mapRec 4 []]])) = map Ok ds \<and>
    fst (Diff [mapRec 1 []] [[mapRec 4 []]] [] (\<lambda>_. True)) =
      filter (\<lambda>d. shouldEmit d (resolveOptions [])) ds"
proof -
  have "snd (Diff [mapRec 1 []] [[mapRec 4 []]] [] (\<lambda>_. True)) = Done" by code_simp
  then show ?thesis by (rule diff_delivers_every_divergence)
qed

text \<open>
  A consumer that stops early has received a prefix of what it would have received without
  stopping.
\<close>

theorem diff_consumer_prefix:
  "\<exists>ds. fst (Diff baseline candidates opts (\<lambda>_. True)) =
    fst (Diff baseline candidates opts wants) @ ds"
  using mergeLoop_prefix by (auto simp: Diff_def DiffFunc_def Let_def split: sum.split)

section \<open>Deltas\<close>

lemma distinct_sortStrings: "distinct (sortStrings xs) = distinct xs"
  unfolding sortStrings_def by (rule mset_eq_imp_distinct_iff) simp

lemma mapDeltas_total:
  "mapDeltas cfg ''string'' b ''string'' c ks =
    Some (concat (map (\<lambda>k. keyDelta cfg k (map_of b k) (map_of c k))
      (filter (\<lambda>k. k \<notin> ignoreFields cfg) ks)))"
  by (induction ks) (auto simp: mapIndex_def)

lemma applyDeltas_append: "applyDeltas m (ds @ es) = applyDeltas (applyDeltas m ds) es"
  by (simp add: applyDeltas_def)

lemma applyDeltas_keyDelta:
  assumes "map_of m k = map_of b k"
  shows "map_of (applyDeltas m (keyDelta cfg k (map_of b k) (map_of c k))) =
    (map_of m)(k := (case (map_of b k, map_of c k) of
       (Some x, Some y) \<Rightarrow> Some (if reflectEqual x y then x else y)
     | (Some x, None) \<Rightarrow> if absentEqualsNil cfg \<and> isNilLike x then Some x else None
     | (None, Some y) \<Rightarrow> if absentEqualsNil cfg \<and> isNilLike y then None else Some y
     | (None, None) \<Rightarrow> None))"
  using assms
  by (auto simp: applyDeltas_def keyDelta_def fun_eq_iff split: option.splits)

text \<open>What applying the deltas leaves at a key that is compared.\<close>

definition patched :: "options \<Rightarrow> rvalue option \<Rightarrow> rvalue option \<Rightarrow> rvalue option" where
  "patched cfg b c =
     (case (b, c) of
        (Some x, Some y) \<Rightarrow> Some (if reflectEqual x y then x else y)
      | (Some x, None) \<Rightarrow> if absentEqualsNil cfg \<and> isNilLike x then Some x else None
      | (None, Some y) \<Rightarrow> if absentEqualsNil cfg \<and> isNilLike y then None else Some y
      | (None, None) \<Rightarrow> None)"

lemma applyDeltas_all:
  assumes "distinct ks" and "\<forall>k \<in> set ks. map_of m k = map_of b k"
  shows "map_of (applyDeltas m (concat (map (\<lambda>k. keyDelta cfg k (map_of b k) (map_of c k)) ks))) k =
    (if k \<in> set ks then patched cfg (map_of b k) (map_of c k) else map_of m k)"
  using assms
proof (induction ks arbitrary: m)
  case (Cons j ks)
  define m' where "m' = applyDeltas m (keyDelta cfg j (map_of b j) (map_of c j))"
  have m': "map_of m' = (map_of m)(j := patched cfg (map_of b j) (map_of c j))"
    using applyDeltas_keyDelta [of m j b cfg c] Cons.prems(2) by (simp add: m'_def patched_def)
  show ?case
    using Cons.IH [of m'] Cons.prems m'
    by (auto simp: applyDeltas_append m'_def [symmetric])
qed (simp add: applyDeltas_def)

text \<open>Two field values that a comparison holds for the same.\<close>

definition sameField :: "options \<Rightarrow> rvalue option \<Rightarrow> rvalue option \<Rightarrow> bool" where
  "sameField cfg b c =
     (case (b, c) of
        (Some x, Some y) \<Rightarrow> x = y \<or> reflectEqual x y
      | (Some x, None) \<Rightarrow> absentEqualsNil cfg \<and> isNilLike x
      | (None, Some y) \<Rightarrow> absentEqualsNil cfg \<and> isNilLike y
      | (None, None) \<Rightarrow> True)"

lemma sameField_patched: "sameField cfg (patched cfg b c) c"
  by (auto simp: sameField_def patched_def split: option.splits)


end
