(* ===== verification/Recordset.thy ===== *)
theory Recordset
  imports MemoryValue
begin

text \<open>
  Columnar recordsets, \<open>src/recordset\<close>: standard, boolean and bitmap columns, the untyped wrapper,
  computed columns, and the recordset with its rows.

  A method that mutates its receiver returns the new receiver. A call ends with a result, with an
  error, or with a panic. A \<open>roaring.Bitmap\<close> is the set of the \<open>uint32\<close> numbers it holds; the
  conversion \<open>uint32(row)\<close> wraps, and is written out. The type parameter of a wrapped column is
  the name of its type.
\<close>

section \<open>Definitions\<close>

datatype 'a goCall = Return 'a | Fails string | Panics

subsection \<open>Column options\<close>

record columnOptions =
  dbType :: string
  format :: "(value \<Rightarrow> string) option"

definition Format :: "(value \<Rightarrow> string) \<Rightarrow> columnOptions \<Rightarrow> columnOptions" where
  "Format f o1 = o1\<lparr>format := Some f\<rparr>"

definition ColDbType :: "string \<Rightarrow> columnOptions \<Rightarrow> columnOptions" where
  "ColDbType t o1 = o1\<lparr>dbType := t\<rparr>"

definition columnOptionsOf :: "(columnOptions \<Rightarrow> columnOptions) list \<Rightarrow> columnOptions" where
  "columnOptionsOf opts = fold (\<lambda>f o1. f o1) opts \<lparr>dbType = [], format = None\<rparr>"

subsection \<open>Standard columns\<close>

record 'v stdColumn =
  scName :: string
  scDefault :: 'v
  scOptions :: columnOptions
  scValues :: "'v list"

definition NewTypedColumn ::
  "string \<Rightarrow> 'v \<Rightarrow> (columnOptions \<Rightarrow> columnOptions) list \<Rightarrow> 'v stdColumn" where
  "NewTypedColumn name defaultValue opts =
     \<lparr>scName = name, scDefault = defaultValue, scOptions = columnOptionsOf opts, scValues = []\<rparr>"

definition stdSetValue :: "'v stdColumn \<Rightarrow> int \<Rightarrow> 'v \<Rightarrow> 'v stdColumn goCall" where
  "stdSetValue c row v =
     (if 0 \<le> row \<and> row < int (length (scValues c))
      then Return (c\<lparr>scValues := (scValues c)[nat row := v]\<rparr>) else Panics)"

definition stdGetValue :: "'v stdColumn \<Rightarrow> int \<Rightarrow> 'v goCall" where
  "stdGetValue c row =
     (if row < 0 \<or> int (length (scValues c)) \<le> row
      then Fails (''row '' @ intDec row @ '' out of range for '' @ natDec (length (scValues c)) @ '' rows'')
      else Return (scValues c ! nat row))"

definition stdAdd :: "'v stdColumn \<Rightarrow> 'v \<Rightarrow> 'v stdColumn goCall" where
  "stdAdd c v = Return (c\<lparr>scValues := scValues c @ [v]\<rparr>)"

definition stdValues :: "'v stdColumn \<Rightarrow> 'v list goCall" where
  "stdValues c = Return (scValues c)"

subsection \<open>Boolean columns\<close>

definition uint32 :: "int \<Rightarrow> nat" where
  "uint32 row = nat (row mod 2 ^ 32)"

record columnBool =
  boolName :: string
  boolOptions :: columnOptions
  boolRows :: nat
  boolBits :: "nat set"

definition NewBoolColumn :: "string \<Rightarrow> (columnOptions \<Rightarrow> columnOptions) list \<Rightarrow> columnBool" where
  "NewBoolColumn name opts =
     \<lparr>boolName = name, boolOptions = columnOptionsOf opts, boolRows = 0, boolBits = {}\<rparr>"

definition boolGetValue :: "columnBool \<Rightarrow> int \<Rightarrow> bool goCall" where
  "boolGetValue c row = Return (uint32 row \<in> boolBits c)"

definition boolSetValue :: "columnBool \<Rightarrow> int \<Rightarrow> bool \<Rightarrow> columnBool goCall" where
  "boolSetValue c row v =
     Return (c\<lparr>boolRows := (if int (boolRows c) \<le> row then nat (row + 1) else boolRows c),
               boolBits := (if v then insert (uint32 row) (boolBits c)
                            else boolBits c - {uint32 row})\<rparr>)"

definition boolAdd :: "columnBool \<Rightarrow> bool \<Rightarrow> columnBool goCall" where
  "boolAdd c v =
     (let c1 = c\<lparr>boolBits := insert (uint32 (int (card (boolBits c)))) (boolBits c)\<rparr>
      in boolSetValue c1 (int (card (boolBits c1)) - 1) v)"

definition boolValues :: "columnBool \<Rightarrow> bool list goCall" where
  "boolValues c = Return (map (\<lambda>i. uint32 (int i) \<in> boolBits c) [0..<boolRows c])"

subsection \<open>Bitmap columns\<close>

text \<open>
  The rows of a value are \<^const>\<open>None\<close> when the bitmap pointer is nil, which every call on it
  turns into a panic. \<open>bmZero\<close> is the zero value of the column's type.
\<close>

record 'v columnBitmap =
  bmName :: string
  bmDefault :: 'v
  bmZero :: 'v
  bmOptions :: columnOptions
  bmRows :: nat
  bmValues :: "('v \<times> nat set option) list"

definition NewBitmapColumn ::
  "string \<Rightarrow> nat \<Rightarrow> 'v \<Rightarrow> 'v \<Rightarrow> (columnOptions \<Rightarrow> columnOptions) list \<Rightarrow> 'v columnBitmap" where
  "NewBitmapColumn name initialCapacity defaultValue zero opts =
     \<lparr>bmName = name, bmDefault = defaultValue, bmZero = zero, bmOptions = columnOptionsOf opts,
      bmRows = 0, bmValues = replicate initialCapacity (zero, None)\<rparr>"

text \<open>The search \<open>GetValue\<close> and \<open>Values\<close> share.\<close>

fun bitmapFind :: "('v \<times> nat set option) list \<Rightarrow> nat \<Rightarrow> 'v option goCall" where
  "bitmapFind [] i = Return None"
| "bitmapFind ((v, None) # vs) i = Panics"
| "bitmapFind ((v, Some rows) # vs) i = (if i \<in> rows then Return (Some v) else bitmapFind vs i)"

definition bitmapGetValue :: "'v columnBitmap \<Rightarrow> int \<Rightarrow> 'v goCall" where
  "bitmapGetValue c row =
     (case bitmapFind (bmValues c) (uint32 row) of
        Panics \<Rightarrow> Panics
      | Fails e \<Rightarrow> Fails e
      | Return None \<Rightarrow> Return (bmZero c)
      | Return (Some v) \<Rightarrow> Return v)"

definition bitmapMark :: "nat \<Rightarrow> 'v \<Rightarrow> 'v \<times> nat set option \<Rightarrow> 'v \<times> nat set option" where
  "bitmapMark i v e =
     (fst e, map_option (\<lambda>rows. if fst e = v then insert i rows else rows - {i}) (snd e))"

definition bitmapSetValue :: "'v columnBitmap \<Rightarrow> int \<Rightarrow> 'v \<Rightarrow> 'v columnBitmap goCall" where
  "bitmapSetValue c row v =
     (if list_ex (\<lambda>e. snd e = None) (bmValues c) then Panics
      else
        let i = uint32 row;
            marked = map (bitmapMark i v) (bmValues c)
        in if list_ex (\<lambda>e. fst e = v) marked then Return (c\<lparr>bmValues := marked\<rparr>)
           else Return (c\<lparr>bmValues := marked @ [(v, Some {i})]\<rparr>))"

definition bitmapAdd :: "'v columnBitmap \<Rightarrow> 'v \<Rightarrow> 'v columnBitmap goCall" where
  "bitmapAdd c v = bitmapSetValue (c\<lparr>bmRows := bmRows c + 1\<rparr>) (int (bmRows c + 1) - 1) v"

fun bitmapCollect :: "'v columnBitmap \<Rightarrow> nat list \<Rightarrow> 'v list goCall" where
  "bitmapCollect c [] = Return []"
| "bitmapCollect c (i # is) =
     (case bitmapGetValue c (int i) of
        Panics \<Rightarrow> Panics
      | Fails e \<Rightarrow> Fails e
      | Return v \<Rightarrow>
          (case bitmapCollect c is of
             Panics \<Rightarrow> Panics
           | Fails e \<Rightarrow> Fails e
           | Return vs \<Rightarrow> Return (v # vs)))"

definition bitmapValues :: "'v columnBitmap \<Rightarrow> 'v list goCall" where
  "bitmapValues c = bitmapCollect c [0..<bmRows c]"

subsection \<open>Columns of a recordset\<close>

text \<open>
  A \<open>Column[any]\<close>: a standard column of type \<open>any\<close> itself, an \<open>UntypedColWrapper\<close> of
  type \<open>t\<close> around a standard, a boolean or a bitmap column, or a computed column with its
  evaluator, which is the caller's code.
\<close>

datatype anyColumn =
    AnyCol "value stdColumn"
  | WrapStd string "value stdColumn"
  | WrapBool columnBool
  | WrapBitmap string "value columnBitmap"
  | Computed string columnOptions "(string \<times> value) list \<Rightarrow> string + value"

primrec mapCall :: "('a \<Rightarrow> 'b) \<Rightarrow> 'a goCall \<Rightarrow> 'b goCall" where
  "mapCall f (Return x) = Return (f x)"
| "mapCall f (Fails e) = Fails e"
| "mapCall f Panics = Panics"

primrec bindCall :: "'a goCall \<Rightarrow> ('a \<Rightarrow> 'b goCall) \<Rightarrow> 'b goCall" where
  "bindCall (Return x) f = f x"
| "bindCall (Fails e) f = Fails e"
| "bindCall Panics f = Panics"

text \<open>The assertion \<open>value.(T)\<close>; a nil value satisfies none, not even one to \<open>any\<close>.\<close>

definition hasType :: "string \<Rightarrow> value \<Rightarrow> bool" where
  "hasType t v = (if t = ''interface {}'' then v \<noteq> VNil else typeText v = t \<and> v \<noteq> VNil)"

definition goBool :: "bool \<Rightarrow> value" where
  "goBool b = VBool ''bool'' b"

definition NewColumn ::
  "string \<Rightarrow> string \<Rightarrow> value \<Rightarrow> (columnOptions \<Rightarrow> columnOptions) list \<Rightarrow> anyColumn" where
  "NewColumn t name defaultValue opts = WrapStd t (NewTypedColumn name defaultValue opts)"

definition NewComputedColumn ::
  "string \<Rightarrow> ((string \<times> value) list \<Rightarrow> string + value) \<Rightarrow> (columnOptions \<Rightarrow> columnOptions) list \<Rightarrow> anyColumn" where
  "NewComputedColumn name evaluator opts = Computed name (columnOptionsOf opts) evaluator"

primrec nameOf :: "anyColumn \<Rightarrow> string" where
  "nameOf (AnyCol c) = scName c"
| "nameOf (WrapStd t c) = scName c"
| "nameOf (WrapBool c) = boolName c"
| "nameOf (WrapBitmap t c) = bmName c"
| "nameOf (Computed n o1 e) = n"

primrec dbTypeOf :: "anyColumn \<Rightarrow> string" where
  "dbTypeOf (AnyCol c) = dbType (scOptions c)"
| "dbTypeOf (WrapStd t c) = dbType (scOptions c)"
| "dbTypeOf (WrapBool c) = dbType (boolOptions c)"
| "dbTypeOf (WrapBitmap t c) = dbType (bmOptions c)"
| "dbTypeOf (Computed n o1 e) = dbType o1"

primrec defaultOf :: "anyColumn \<Rightarrow> value" where
  "defaultOf (AnyCol c) = scDefault c"
| "defaultOf (WrapStd t c) = scDefault c"
| "defaultOf (WrapBool c) = goBool False"
| "defaultOf (WrapBitmap t c) = bmDefault c"
| "defaultOf (Computed n o1 e) = VNil"

primrec isBitmap :: "anyColumn \<Rightarrow> bool" where
  "isBitmap (AnyCol c) = False"
| "isBitmap (WrapStd t c) = False"
| "isBitmap (WrapBool c) = True"
| "isBitmap (WrapBitmap t c) = True"
| "isBitmap (Computed n o1 e) = False"

primrec isComputed :: "anyColumn \<Rightarrow> bool" where
  "isComputed (AnyCol c) = False"
| "isComputed (WrapStd t c) = False"
| "isComputed (WrapBool c) = False"
| "isComputed (WrapBitmap t c) = False"
| "isComputed (Computed n o1 e) = True"

primrec getValue :: "anyColumn \<Rightarrow> int \<Rightarrow> value goCall" where
  "getValue (AnyCol c) row = stdGetValue c row"
| "getValue (WrapStd t c) row = stdGetValue c row"
| "getValue (WrapBool c) row = mapCall goBool (boolGetValue c row)"
| "getValue (WrapBitmap t c) row = bitmapGetValue c row"
| "getValue (Computed n o1 e) row = Fails (''computed column must be resolved via Row: '' @ n)"

primrec setValue :: "anyColumn \<Rightarrow> int \<Rightarrow> value \<Rightarrow> anyColumn goCall" where
  "setValue (AnyCol c) row v = mapCall AnyCol (stdSetValue c row v)"
| "setValue (WrapStd t c) row v =
     (if hasType t v then mapCall (WrapStd t) (stdSetValue c row v) else Panics)"
| "setValue (WrapBool c) row v =
     (case v of VBool t b \<Rightarrow> if t = ''bool'' then mapCall WrapBool (boolSetValue c row b) else Panics
      | _ \<Rightarrow> Panics)"
| "setValue (WrapBitmap t c) row v =
     (if hasType t v then mapCall (WrapBitmap t) (bitmapSetValue c row v) else Panics)"
| "setValue (Computed n o1 e) row v = Fails (''cannot set value on computed column '' @ n)"

primrec addValue :: "anyColumn \<Rightarrow> value \<Rightarrow> anyColumn goCall" where
  "addValue (AnyCol c) v = mapCall AnyCol (stdAdd c v)"
| "addValue (WrapStd t c) v =
     (if hasType t v then mapCall (WrapStd t) (stdAdd c v)
      else Fails (''cannot add value of type '' @ typeText v @ '' to column '' @ scName c))"
| "addValue (WrapBool c) v =
     (case v of
        VBool t b \<Rightarrow>
          if t = ''bool'' then mapCall WrapBool (boolAdd c b)
          else Fails (''cannot add value of type '' @ typeText v @ '' to column '' @ boolName c)
      | _ \<Rightarrow> Fails (''cannot add value of type '' @ typeText v @ '' to column '' @ boolName c))"
| "addValue (WrapBitmap t c) v =
     (if hasType t v then mapCall (WrapBitmap t) (bitmapAdd c v)
      else Fails (''cannot add value of type '' @ typeText v @ '' to column '' @ bmName c))"
| "addValue (Computed n o1 e) v = Return (Computed n o1 e)"

primrec valuesOf :: "anyColumn \<Rightarrow> value list goCall" where
  "valuesOf (AnyCol c) = stdValues c"
| "valuesOf (WrapStd t c) = stdValues c"
| "valuesOf (WrapBool c) = mapCall (map goBool) (boolValues c)"
| "valuesOf (WrapBitmap t c) = bitmapValues c"
| "valuesOf (Computed n o1 e) = Return []"

subsection \<open>Access to columns\<close>

text \<open>\<open>GetColumnByIndex\<close>: a negative index panics, one past the end gives nil.\<close>

definition getColumnByIndex :: "anyColumn list \<Rightarrow> int \<Rightarrow> anyColumn option goCall" where
  "getColumnByIndex cols i =
     (if int (length cols) \<le> i then Return None
      else if i < 0 then Panics else Return (Some (cols ! nat i)))"

fun getColumnByName :: "anyColumn list \<Rightarrow> string \<Rightarrow> anyColumn option" where
  "getColumnByName [] name = None"
| "getColumnByName (c # cs) name = (if nameOf c = name then Some c else getColumnByName cs name)"

fun columnIndexFrom :: "int \<Rightarrow> anyColumn list \<Rightarrow> string \<Rightarrow> int" where
  "columnIndexFrom i [] name = -1"
| "columnIndexFrom i (c # cs) name = (if nameOf c = name then i else columnIndexFrom (i + 1) cs name)"

definition getColumnIndex :: "anyColumn list \<Rightarrow> string \<Rightarrow> int" where
  "getColumnIndex cols name = columnIndexFrom 0 cols name"

subsection \<open>The recordset and its rows\<close>

record columnarRecordset =
  rsName :: string
  rsCols :: "anyColumn list"
  rsRowsCount :: nat

record columnarRow =
  rowIndex :: int
  rowMemo :: "(string, string + value) gomap"

definition NewColumnarRecordset :: "string \<Rightarrow> anyColumn list \<Rightarrow> columnarRecordset" where
  "NewColumnarRecordset name cols = \<lparr>rsName = name, rsCols = cols, rsRowsCount = 0\<rparr>"

fun addDefaults :: "anyColumn list \<Rightarrow> anyColumn list goCall" where
  "addDefaults [] = Return []"
| "addDefaults (c # cs) =
     (case addValue c (defaultOf c) of
        Panics \<Rightarrow> Panics
      | Fails e \<Rightarrow> mapCall (Cons c) (addDefaults cs)
      | Return c' \<Rightarrow> mapCall (Cons c') (addDefaults cs))"

definition newRow :: "columnarRecordset \<Rightarrow> (columnarRow \<times> columnarRecordset) goCall" where
  "newRow rs =
     mapCall (\<lambda>cols. (\<lparr>rowIndex = int (rsRowsCount rs), rowMemo = []\<rparr>,
                     rs\<lparr>rsCols := cols, rsRowsCount := rsRowsCount rs + 1\<rparr>))
       (addDefaults (rsCols rs))"

definition getRow :: "columnarRecordset \<Rightarrow> int \<Rightarrow> columnarRow option" where
  "getRow rs i =
     (if int (rsRowsCount rs) \<le> i then None else Some \<lparr>rowIndex = i, rowMemo = []\<rparr>)"

fun storedValues :: "int \<Rightarrow> anyColumn list \<Rightarrow> (string, value) gomap \<Rightarrow> (string, value) gomap goCall" where
  "storedValues i [] stored = Return stored"
| "storedValues i (c # cs) stored =
     (if isComputed c then storedValues i cs stored
      else bindCall (getValue c i) (\<lambda>v. storedValues i cs (putKey (nameOf c) v stored)))"

fun callSum :: "(string + 'a) \<Rightarrow> 'a goCall" where
  "callSum (Inl e) = Fails e"
| "callSum (Inr v) = Return v"

text \<open>\<open>resolveComputed\<close> of a computed column named \<open>name\<close>: the result and the row's new memo.\<close>

definition resolveComputed ::
  "columnarRow \<Rightarrow> string \<Rightarrow> ((string \<times> value) list \<Rightarrow> string + value) \<Rightarrow> columnarRecordset \<Rightarrow>
    value goCall \<times> columnarRow" where
  "resolveComputed row name evaluator rs =
     (case map_of (rowMemo row) name of
        Some cached \<Rightarrow> (callSum cached, row)
      | None \<Rightarrow>
          (case storedValues (rowIndex row) (rsCols rs) [] of
             Panics \<Rightarrow> (Panics, row)
           | Fails e \<Rightarrow> (Fails e, row\<lparr>rowMemo := putKey name (Inl e) (rowMemo row)\<rparr>)
           | Return stored \<Rightarrow>
               (let r = evaluator stored
                in (callSum r, row\<lparr>rowMemo := putKey name r (rowMemo row)\<rparr>))))"

definition columnValue ::
  "columnarRow \<Rightarrow> anyColumn \<Rightarrow> columnarRecordset \<Rightarrow> value goCall \<times> columnarRow" where
  "columnValue row c rs =
     (case c of
        Computed n o1 e \<Rightarrow> resolveComputed row n e rs
      | _ \<Rightarrow> (getValue c (rowIndex row), row))"

fun rowDataFrom ::
  "columnarRow \<Rightarrow> anyColumn list \<Rightarrow> columnarRecordset \<Rightarrow> value list goCall \<times> columnarRow" where
  "rowDataFrom row [] rs = (Return [], row)"
| "rowDataFrom row (c # cs) rs =
     (case columnValue row c rs of
        (Return v, row') \<Rightarrow> (let (r, row'') = rowDataFrom row' cs rs in (mapCall (Cons v) r, row''))
      | (Fails e, row') \<Rightarrow> (Fails e, row')
      | (Panics, row') \<Rightarrow> (Panics, row'))"

definition rowData :: "columnarRow \<Rightarrow> columnarRecordset \<Rightarrow> value list goCall \<times> columnarRow" where
  "rowData row rs = rowDataFrom row (rsCols rs) rs"

definition getValueByIndex ::
  "columnarRow \<Rightarrow> int \<Rightarrow> columnarRecordset \<Rightarrow> value goCall \<times> columnarRow" where
  "getValueByIndex row i rs =
     (case getColumnByIndex (rsCols rs) i of
        Panics \<Rightarrow> (Panics, row)
      | Fails e \<Rightarrow> (Fails e, row)
      | Return None \<Rightarrow> (Fails (''index out of range for column: '' @ intDec i), row)
      | Return (Some c) \<Rightarrow> columnValue row c rs)"

definition getValueByName ::
  "columnarRow \<Rightarrow> string \<Rightarrow> columnarRecordset \<Rightarrow> value goCall \<times> columnarRow" where
  "getValueByName row name rs =
     (case getColumnByName (rsCols rs) name of
        None \<Rightarrow> (Fails (''unexpected column name: '' @ name), row)
      | Some c \<Rightarrow> columnValue row c rs)"

text \<open>A write to the column at a position; the columns of a recordset are shared by its rows.\<close>

definition setColumn ::
  "columnarRow \<Rightarrow> nat \<Rightarrow> value \<Rightarrow> columnarRecordset \<Rightarrow> columnarRecordset goCall" where
  "setColumn row j v rs =
     (if isComputed (rsCols rs ! j)
      then Fails (''cannot set value on computed column '' @ nameOf (rsCols rs ! j))
      else mapCall (\<lambda>c. rs\<lparr>rsCols := (rsCols rs)[j := c]\<rparr>) (setValue (rsCols rs ! j) (rowIndex row) v))"

text \<open>A name that no column has is a call on a nil interface, a panic.\<close>

definition setValueByName ::
  "columnarRow \<Rightarrow> string \<Rightarrow> value \<Rightarrow> columnarRecordset \<Rightarrow> columnarRecordset goCall" where
  "setValueByName row name v rs =
     (let j = getColumnIndex (rsCols rs) name
      in if j < 0 then Panics else setColumn row (nat j) v rs)"

definition setValueByIndex ::
  "columnarRow \<Rightarrow> int \<Rightarrow> value \<Rightarrow> columnarRecordset \<Rightarrow> columnarRecordset goCall" where
  "setValueByIndex row i v rs =
     (case getColumnByIndex (rsCols rs) i of
        Return (Some c) \<Rightarrow> setColumn row (nat i) v rs
      | _ \<Rightarrow> Panics)"

subsection \<open>Kinds of recordsets and options\<close>

datatype rsType = UnknownType | Table | View | StoredProcedure | OtherType int

fun typeString :: "rsType \<Rightarrow> string" where
  "typeString UnknownType = ''Unknown''"
| "typeString Table = ''Table''"
| "typeString View = ''View''"
| "typeString StoredProcedure = ''StoredProcedure''"
| "typeString (OtherType n) = intDec n"

definition WithName :: "string \<Rightarrow> string \<Rightarrow> string" where
  "WithName name o1 = name"

definition NewOptions :: "(string \<Rightarrow> string) list \<Rightarrow> string" where
  "NewOptions opts = fold (\<lambda>f o1. f o1) opts []"

section \<open>The contract of a column\<close>

text \<open>
  A column that stores is a list of values: \<open>Add\<close> appends, \<open>SetValue\<close> updates a row,
  \<open>GetValue\<close> and \<open>Values\<close> read. \<open>cells\<close> is the list a column stands for, \<open>room\<close> whether
  another row fits, \<open>accepts\<close> which values it takes, and \<open>label\<close> what no write changes.
\<close>

locale stored_column =
  fixes getv :: "'c \<Rightarrow> int \<Rightarrow> 'v goCall"
    and setv :: "'c \<Rightarrow> int \<Rightarrow> 'v \<Rightarrow> 'c goCall"
    and addv :: "'c \<Rightarrow> 'v \<Rightarrow> 'c goCall"
    and vals :: "'c \<Rightarrow> 'v list goCall"
    and cells :: "'c \<Rightarrow> 'v list"
    and ok :: "'c \<Rightarrow> bool"
    and room :: "'c \<Rightarrow> bool"
    and accepts :: "'c \<Rightarrow> 'v \<Rightarrow> bool"
    and label :: "'c \<Rightarrow> 'l"
  assumes get_cells: "ok c \<Longrightarrow> i < length (cells c) \<Longrightarrow> getv c (int i) = Return (cells c ! i)"
    and vals_cells: "ok c \<Longrightarrow> vals c = Return (cells c)"
    and set_cells: "ok c \<Longrightarrow> i < length (cells c) \<Longrightarrow> accepts c v \<Longrightarrow>
      \<exists>c'. setv c (int i) v = Return c' \<and> ok c' \<and> cells c' = (cells c)[i := v] \<and> label c' = label c"
    and add_cells: "ok c \<Longrightarrow> room c \<Longrightarrow> accepts c v \<Longrightarrow>
      \<exists>c'. addv c v = Return c' \<and> ok c' \<and> cells c' = cells c @ [v] \<and> label c' = label c"
begin

lemma get_after_set:
  assumes "ok c" and "i < length (cells c)" and "j < length (cells c)" and "accepts c v"
  shows "\<exists>c'. setv c (int i) v = Return c' \<and>
    getv c' (int j) = (if j = i then Return v else getv c (int j))"
proof -
  obtain c' where "setv c (int i) v = Return c'" "ok c'" "cells c' = (cells c)[i := v]"
    using set_cells [OF assms(1,2,4)] by blast
  then show ?thesis using assms get_cells [of c' j] get_cells [of c j] by auto
qed

lemma get_after_add:
  assumes "ok c" and "room c" and "j \<le> length (cells c)" and "accepts c v"
  shows "\<exists>c'. addv c v = Return c' \<and>
    getv c' (int j) = (if j = length (cells c) then Return v else getv c (int j))"
proof -
  obtain c' where "addv c v = Return c'" "ok c'" "cells c' = cells c @ [v]"
    using add_cells [OF assms(1,2,4)] by blast
  then show ?thesis
    using assms get_cells [of c' j] get_cells [of c j] by (auto simp: nth_append)
qed

end

interpretation std: stored_column stdGetValue stdSetValue stdAdd stdValues scValues
  "\<lambda>_. True" "\<lambda>_. True" "\<lambda>_ _. True" "\<lambda>c. (scName c, scDefault c, scOptions c)"
  by unfold_locales (auto simp: stdGetValue_def stdSetValue_def stdAdd_def stdValues_def)

subsection \<open>Bitmap columns keep the contract\<close>

definition noNil :: "('v \<times> nat set option) list \<Rightarrow> bool" where
  "noNil vs = list_all (\<lambda>e. snd e \<noteq> None) vs"

lemma noNil_simps [simp]:
  "noNil []" "noNil (e # vs) = (snd e \<noteq> None \<and> noNil vs)" "noNil (vs @ ws) = (noNil vs \<and> noNil ws)"
  by (simp_all add: noNil_def)

definition bitmapOk :: "'v columnBitmap \<Rightarrow> bool" where
  "bitmapOk c = (noNil (bmValues c) \<and> bmRows c \<le> 2 ^ 32)"

definition bitmapRoom :: "'v columnBitmap \<Rightarrow> bool" where
  "bitmapRoom c = (bmRows c < 2 ^ 32)"

definition bitmapCell :: "'v \<Rightarrow> ('v \<times> nat set option) list \<Rightarrow> nat \<Rightarrow> 'v" where
  "bitmapCell zero vs i =
     (case find (\<lambda>e. i \<in> the (snd e)) vs of None \<Rightarrow> zero | Some e \<Rightarrow> fst e)"

definition bitmapCells :: "'v columnBitmap \<Rightarrow> 'v list" where
  "bitmapCells c = map (bitmapCell (bmZero c) (bmValues c)) [0..<bmRows c]"

lemma uint32_small: "n < 2 ^ 32 \<Longrightarrow> uint32 (int n) = n"
  by (simp add: uint32_def)

lemma bitmapGetValue_cell:
  "noNil (bmValues c) \<Longrightarrow>
    bitmapGetValue c row = Return (bitmapCell (bmZero c) (bmValues c) (uint32 row))"
proof -
  have "noNil vs \<Longrightarrow>
      bitmapFind vs i = Return (map_option fst (find (\<lambda>e. i \<in> the (snd e)) vs))" for vs :: "('a \<times> nat set option) list" and i
    by (induction vs i rule: bitmapFind.induct) auto
  then show "noNil (bmValues c) \<Longrightarrow> ?thesis"
    by (simp add: bitmapGetValue_def bitmapCell_def split: option.split)
qed

lemma bitmapCell_mark_same:
  "noNil vs \<Longrightarrow> list_ex (\<lambda>e. fst e = v) vs \<Longrightarrow>
    bitmapCell z (map (bitmapMark i v) vs) i = v"
  by (induction vs) (auto simp: bitmapCell_def bitmapMark_def split: if_splits)

lemma bitmapCell_mark_new:
  "noNil vs \<Longrightarrow> \<not> list_ex (\<lambda>e. fst e = v) vs \<Longrightarrow>
    bitmapCell z (map (bitmapMark i v) vs @ [(v, Some {i})]) i = v"
  by (induction vs) (auto simp: bitmapCell_def bitmapMark_def split: if_splits)

lemma bitmapCell_mark_other:
  "noNil vs \<Longrightarrow> j \<noteq> i \<Longrightarrow>
    bitmapCell z (map (bitmapMark i v) vs) j = bitmapCell z vs j"
  by (induction vs) (auto simp: bitmapCell_def bitmapMark_def split: if_splits)

lemma bitmapCell_append_other:
  "j \<noteq> i \<Longrightarrow> bitmapCell z (vs @ [(v, Some {i})]) j = bitmapCell z vs j"
  by (induction vs) (auto simp: bitmapCell_def)

lemma bitmapMark_ok:
  "noNil vs \<Longrightarrow> noNil (map (bitmapMark i v) vs)"
  by (auto simp: noNil_def list_all_iff bitmapMark_def)

lemma bitmapMark_ex: "list_ex (\<lambda>e. fst e = v) (map (bitmapMark i w) vs) = list_ex (\<lambda>e. fst e = v) vs"
  by (induction vs) (auto simp: bitmapMark_def)

text \<open>What \<open>SetValue\<close> leaves in every row.\<close>

lemma bitmapSetValue_cells:
  assumes "noNil (bmValues c)"
  shows "\<exists>c'. bitmapSetValue c row v = Return c' \<and> noNil (bmValues c') \<and>
    bmRows c' = bmRows c \<and> bmZero c' = bmZero c \<and> bmName c' = bmName c \<and>
    bmDefault c' = bmDefault c \<and> bmOptions c' = bmOptions c \<and>
    (\<forall>j. bitmapCell (bmZero c) (bmValues c') j =
      (if j = uint32 row then v else bitmapCell (bmZero c) (bmValues c) j))"
proof -
  have no_nil: "\<not> list_ex (\<lambda>e. snd e = None) (bmValues c)"
    using assms by (auto simp: noNil_def list_all_iff list_ex_iff)
  show ?thesis
  proof (cases "list_ex (\<lambda>e. fst e = v) (bmValues c)")
    case True
    then show ?thesis
      using assms no_nil
      by (simp add: bitmapSetValue_def Let_def bitmapMark_ex bitmapMark_ok bitmapCell_mark_same
          bitmapCell_mark_other)
  next
    case False
    then show ?thesis
      using assms no_nil
      by (simp add: bitmapSetValue_def Let_def bitmapMark_ex bitmapMark_ok bitmapCell_mark_new
          bitmapCell_mark_other bitmapCell_append_other)
  qed
qed

lemma bitmapCollect_cells:
  "noNil (bmValues c) \<Longrightarrow>
    bitmapCollect c is = Return (map (\<lambda>i. bitmapCell (bmZero c) (bmValues c) (uint32 (int i))) is)"
  by (induction "is") (auto simp: bitmapGetValue_cell)

interpretation bitmap: stored_column bitmapGetValue bitmapSetValue bitmapAdd bitmapValues bitmapCells
  bitmapOk bitmapRoom "\<lambda>_ _. True" "\<lambda>c. (bmName c, bmDefault c, bmZero c, bmOptions c)"
proof unfold_locales
  fix c :: "'v columnBitmap" and i
  assume "bitmapOk c" and "i < length (bitmapCells c)"
  then show "bitmapGetValue c (int i) = Return (bitmapCells c ! i)"
    by (simp add: bitmapOk_def bitmapCells_def bitmapGetValue_cell uint32_small)
next
  fix c :: "'v columnBitmap"
  assume "bitmapOk c"
  then show "bitmapValues c = Return (bitmapCells c)"
    by (auto simp: bitmapOk_def bitmapCells_def bitmapValues_def bitmapCollect_cells uint32_small)
next
  fix c :: "'v columnBitmap" and i v
  assume c: "bitmapOk c" and i: "i < length (bitmapCells c)"
  have u: "uint32 (int i) = i" using c i by (simp add: bitmapOk_def bitmapCells_def uint32_small)
  obtain c' where c': "bitmapSetValue c (int i) v = Return c'"
    "noNil (bmValues c')" "bmRows c' = bmRows c" "bmZero c' = bmZero c"
    "bmName c' = bmName c" "bmDefault c' = bmDefault c" "bmOptions c' = bmOptions c"
    "\<forall>j. bitmapCell (bmZero c) (bmValues c') j =
      (if j = i then v else bitmapCell (bmZero c) (bmValues c) j)"
    using bitmapSetValue_cells [of c "int i" v] c u by (auto simp: bitmapOk_def)
  have "bitmapCells c' = (bitmapCells c)[i := v]"
    by (rule nth_equalityI) (use c' i in \<open>auto simp: bitmapCells_def nth_list_update\<close>)
  then show "\<exists>c'. bitmapSetValue c (int i) v = Return c' \<and> bitmapOk c' \<and>
      bitmapCells c' = (bitmapCells c)[i := v] \<and>
      (bmName c', bmDefault c', bmZero c', bmOptions c') = (bmName c, bmDefault c, bmZero c, bmOptions c)"
    using c c' by (auto simp: bitmapOk_def)
next
  fix c :: "'v columnBitmap" and v
  assume c: "bitmapOk c" and r: "bitmapRoom c"
  let ?c = "c\<lparr>bmRows := bmRows c + 1\<rparr>"
  have u: "uint32 (int (bmRows c)) = bmRows c" using r by (simp add: bitmapRoom_def uint32_small)
  obtain c' where c': "bitmapSetValue ?c (int (bmRows c)) v = Return c'"
    "noNil (bmValues c')" "bmRows c' = bmRows c + 1" "bmZero c' = bmZero c"
    "bmName c' = bmName c" "bmDefault c' = bmDefault c" "bmOptions c' = bmOptions c"
    "\<forall>j. bitmapCell (bmZero c) (bmValues c') j =
      (if j = bmRows c then v else bitmapCell (bmZero c) (bmValues c) j)"
    using bitmapSetValue_cells [of ?c "int (bmRows c)" v] c u by (auto simp: bitmapOk_def)
  have "bitmapCells c' = bitmapCells c @ [v]"
    by (rule nth_equalityI) (use c' in \<open>auto simp: bitmapCells_def nth_append\<close>)
  then show "\<exists>c'. bitmapAdd c v = Return c' \<and> bitmapOk c' \<and> bitmapCells c' = bitmapCells c @ [v] \<and>
      (bmName c', bmDefault c', bmZero c', bmOptions c') = (bmName c, bmDefault c, bmZero c, bmOptions c)"
    using c r c' by (auto simp: bitmapOk_def bitmapRoom_def bitmapAdd_def)
qed

section \<open>Bitmap columns against standard columns\<close>

datatype 'v columnOp = OpAdd 'v | OpSet int 'v

fun runStd :: "'v columnOp list \<Rightarrow> 'v stdColumn \<Rightarrow> 'v stdColumn goCall" where
  "runStd [] c = Return c"
| "runStd (OpAdd v # ops) c = bindCall (stdAdd c v) (runStd ops)"
| "runStd (OpSet i v # ops) c = bindCall (stdSetValue c i v) (runStd ops)"

fun runBitmap :: "'v columnOp list \<Rightarrow> 'v columnBitmap \<Rightarrow> 'v columnBitmap goCall" where
  "runBitmap [] c = Return c"
| "runBitmap (OpAdd v # ops) c = bindCall (bitmapAdd c v) (runBitmap ops)"
| "runBitmap (OpSet i v # ops) c = bindCall (bitmapSetValue c i v) (runBitmap ops)"

lemma length_bitmapCells: "length (bitmapCells c) = bmRows c"
  by (simp add: bitmapCells_def)

lemma runBitmap_simulates:
  assumes "runStd ops c = Return c'" and "bitmapOk b" and "bitmapCells b = scValues c"
    and "length (scValues c) + length ops \<le> 2 ^ 32"
  shows "\<exists>b'. runBitmap ops b = Return b' \<and> bitmapOk b' \<and> bitmapCells b' = scValues c'"
  using assms
proof (induction ops arbitrary: b c)
  case (Cons op ops)
  show ?case
  proof (cases op)
    case (OpAdd v)
    have "bitmapRoom b"
      using Cons.prems(3,4) length_bitmapCells [of b] by (simp add: bitmapRoom_def)
    then obtain b1 where b1: "bitmapAdd b v = Return b1" "bitmapOk b1" "bitmapCells b1 = bitmapCells b @ [v]"
      using bitmap.add_cells [OF Cons.prems(2)] by blast
    then show ?thesis
      using Cons.prems Cons.IH [of "c\<lparr>scValues := scValues c @ [v]\<rparr>" b1] OpAdd
      by (simp add: stdAdd_def)
  next
    case (OpSet i v)
    have i: "0 \<le> i" "nat i < length (bitmapCells b)"
      using Cons.prems(1,3) OpSet by (auto simp: stdSetValue_def split: if_splits)
    then obtain b1 where b1: "bitmapSetValue b i v = Return b1" "bitmapOk b1"
      "bitmapCells b1 = (bitmapCells b)[nat i := v]"
      using bitmap.set_cells [OF Cons.prems(2) i(2), of v] by auto
    then show ?thesis
      using Cons.prems Cons.IH [of "c\<lparr>scValues := (scValues c)[nat i := v]\<rparr>" b1] OpSet
      by (auto simp: stdSetValue_def split: if_splits)
  qed
qed simp

text \<open>C17: A bitmap column, created without initial capacity, behaves like a standard column: every
  sequence of additions and updates that a standard column accepts, up to \<open>2 ^ 32\<close> of them,
  succeeds on it and leaves the same values, whether they are read one by one or all at once.
\<close>

theorem bitmap_column_refines_standard:
  assumes "runStd ops (NewTypedColumn name d opts) = Return c" and "length ops \<le> 2 ^ 32"
  shows "\<exists>b. runBitmap ops (NewBitmapColumn name 0 d z opts) = Return b \<and>
    bitmapValues b = Return (scValues c) \<and>
    list_all (\<lambda>i. bitmapGetValue b (int i) = stdGetValue c (int i)) [0..<length (scValues c)]"
proof -
  obtain b where b: "runBitmap ops (NewBitmapColumn name 0 d z opts) = Return b" "bitmapOk b"
    "bitmapCells b = scValues c"
    using runBitmap_simulates [OF assms(1), of "NewBitmapColumn name 0 d z opts"] assms(2)
    by (auto simp: NewBitmapColumn_def NewTypedColumn_def bitmapOk_def bitmapCells_def)
  then show ?thesis
    using bitmap.vals_cells [of b] bitmap.get_cells [of b] by (auto simp: list_all_iff stdGetValue_def)
qed

theorem bitmap_column_refines_standard_witness:
  "\<exists>b. runBitmap [OpAdd (5 :: nat), OpAdd 7, OpSet 0 7] (NewBitmapColumn ''n'' 0 0 0 []) = Return b \<and>
    bitmapValues b = Return [7, 7]"
proof -
  have "runStd [OpAdd (5 :: nat), OpAdd 7, OpSet 0 7] (NewTypedColumn ''n'' 0 [])
      = Return ((NewTypedColumn ''n'' 0 [])\<lparr>scValues := [7, 7]\<rparr>)"
    by (simp add: stdAdd_def stdSetValue_def NewTypedColumn_def)
  from bitmap_column_refines_standard [OF this, where z = 0] show ?thesis by auto
qed

section \<open>What additions to a boolean column leave\<close>

fun boolAddAll :: "bool list \<Rightarrow> columnBool \<Rightarrow> columnBool goCall" where
  "boolAddAll [] c = Return c"
| "boolAddAll (v # vs) c = bindCall (boolAdd c v) (boolAddAll vs)"

text \<open>The column after additions of which \<open>t\<close> were true.\<close>

lemma boolAdd_step:
  assumes "boolBits c = {..<t}" and "t < 2 ^ 32" and "boolRows c \<le> t + 1"
  shows "\<exists>c'. boolAdd c v = Return c' \<and> boolBits c' = {..<(if v then t + 1 else t)} \<and>
    boolRows c' = t + 1"
proof -
  have u: "uint32 (int t) = t" using assms(2) by (rule uint32_small)
  have "insert t {..<t} = {..<Suc t}" by auto
  moreover have "{..<Suc t} - {t} = {..<t}" by auto
  ultimately show ?thesis
    using assms u by (auto simp: boolAdd_def boolSetValue_def Let_def nat_add_distrib)
qed

lemma boolAddAll_step:
  assumes "boolBits c = {..<t}" and "t + length vs < 2 ^ 32" and "boolRows c \<le> t + 1" and "vs \<noteq> []"
  shows "\<exists>c'. boolAddAll vs c = Return c' \<and>
    boolBits c' = {..<t + length (filter (\<lambda>v. v) vs)} \<and>
    boolRows c' = t + length (filter (\<lambda>v. v) (butlast vs)) + 1"
  using assms
proof (induction vs arbitrary: c t)
  case (Cons v vs)
  define t' where "t' = (if v then t + 1 else t)"
  obtain c1 where c1: "boolAdd c v = Return c1" "boolBits c1 = {..<t'}" "boolRows c1 = t + 1"
    using boolAdd_step [of c t v] Cons.prems by (auto simp: t'_def)
  show ?case
  proof (cases "vs = []")
    case True
    then show ?thesis using c1 by (auto simp: t'_def)
  next
    case False
    then show ?thesis
      using Cons.IH [of c1 t'] c1 Cons.prems by (auto simp: t'_def)
  qed
qed simp

text \<open>\<open>Add\<close> of a boolean column writes its value at the row numbered by the true values so far, not
  at the end: after a sequence of additions the column holds one true for each true value that was
  added before the last and then the last value, so every earlier false is lost.
\<close>

theorem bool_column_add_exact:
  assumes "vs \<noteq> []" and "length vs < 2 ^ 32"
  shows "bindCall (boolAddAll vs (NewBoolColumn name opts)) boolValues =
    Return (replicate (length (filter (\<lambda>v. v) (butlast vs))) True @ [last vs])"
proof -
  let ?n = "length (filter (\<lambda>v. v) (butlast vs))"
  obtain c where c: "boolAddAll vs (NewBoolColumn name opts) = Return c"
    "boolBits c = {..<length (filter (\<lambda>v. v) vs)}" "boolRows c = ?n + 1"
    using boolAddAll_step [of "NewBoolColumn name opts" 0 vs] assms by (auto simp: NewBoolColumn_def)
  have len: "length (filter (\<lambda>v. v) vs) = ?n + (if last vs then 1 else 0)"
    using assms(1) by (cases vs rule: rev_cases) auto
  have n: "?n < 2 ^ 32"
    using assms length_filter_le [of "\<lambda>v. v" "butlast vs"] by (simp add: length_butlast)
  have "map (\<lambda>i. uint32 (int i) \<in> boolBits c) [0..<?n + 1] = replicate ?n True @ [last vs]"
  proof (rule nth_equalityI)
    fix i assume "i < length (map (\<lambda>i. uint32 (int i) \<in> boolBits c) [0..<?n + 1])"
    then have "i \<le> ?n" by simp
    moreover have "uint32 (int i) = i" using \<open>i \<le> ?n\<close> n by (intro uint32_small) simp
    ultimately show "map (\<lambda>i. uint32 (int i) \<in> boolBits c) [0..<?n + 1] ! i =
        (replicate ?n True @ [last vs]) ! i"
      using c(2) len by (auto simp: nth_append less_Suc_eq_le simp del: upt_Suc)
  qed simp
  then show ?thesis using c by (simp add: boolValues_def)
qed

theorem bool_column_add_exact_witness:
  "bindCall (boolAddAll [False, True, False, False] (NewBoolColumn ''isDir'' [])) boolValues =
    Return [True, False]"
  using bool_column_add_exact [where vs = "[False, True, False, False]" and name = "''isDir''" and opts = "[]"]
  by simp

section \<open>Columns of a recordset that keep the contract\<close>

text \<open>
  The type a column asserts (none for an untyped column), what it accepts, and the list it stands
  for. A boolean column is not among them, as its \<open>Add\<close> shows, and a computed column stores
  nothing.
\<close>

definition assertedType :: "anyColumn \<Rightarrow> string option" where
  "assertedType c = (case c of WrapStd t d \<Rightarrow> Some t | WrapBitmap t d \<Rightarrow> Some t | _ \<Rightarrow> None)"

definition acceptsValue :: "anyColumn \<Rightarrow> value \<Rightarrow> bool" where
  "acceptsValue c v = (case assertedType c of None \<Rightarrow> True | Some t \<Rightarrow> hasType t v)"

definition cellsOf :: "anyColumn \<Rightarrow> value list" where
  "cellsOf c =
     (case c of AnyCol d \<Rightarrow> scValues d | WrapStd t d \<Rightarrow> scValues d | WrapBitmap t d \<Rightarrow> bitmapCells d
      | _ \<Rightarrow> [])"

definition storedOk :: "anyColumn \<Rightarrow> bool" where
  "storedOk c =
     (case c of AnyCol d \<Rightarrow> True | WrapStd t d \<Rightarrow> True | WrapBitmap t d \<Rightarrow> bitmapOk d | _ \<Rightarrow> False)"

definition hasRoom :: "anyColumn \<Rightarrow> bool" where
  "hasRoom c = (case c of WrapBitmap t d \<Rightarrow> bitmapRoom d | _ \<Rightarrow> True)"

definition columnLabel :: "anyColumn \<Rightarrow> string \<times> value \<times> string option \<times> bool \<times> bool" where
  "columnLabel c = (nameOf c, defaultOf c, assertedType c, isComputed c, isBitmap c)"

lemmas any_column_defs = assertedType_def acceptsValue_def cellsOf_def storedOk_def hasRoom_def columnLabel_def

interpretation anyCol: stored_column getValue setValue addValue valuesOf cellsOf storedOk hasRoom
  acceptsValue columnLabel
proof unfold_locales
  fix c i
  assume "storedOk c" and "i < length (cellsOf c)"
  then show "getValue c (int i) = Return (cellsOf c ! i)"
    by (cases c) (simp_all add: any_column_defs std.get_cells bitmap.get_cells)
next
  fix c
  assume "storedOk c"
  then show "valuesOf c = Return (cellsOf c)"
    by (cases c) (simp_all add: any_column_defs std.vals_cells bitmap.vals_cells)
next
  fix c i v
  assume c: "storedOk c" and i: "i < length (cellsOf c)" and v: "acceptsValue c v"
  show "\<exists>c'. setValue c (int i) v = Return c' \<and> storedOk c' \<and>
      cellsOf c' = (cellsOf c)[i := v] \<and> columnLabel c' = columnLabel c"
  proof (cases c)
    case (WrapBitmap t d)
    then obtain d' where "bitmapSetValue d (int i) v = Return d'" "bitmapOk d'"
      "bitmapCells d' = (bitmapCells d)[i := v]" "bmName d' = bmName d" "bmDefault d' = bmDefault d"
      using bitmap.set_cells [of d i v] c i by (auto simp: any_column_defs)
    then show ?thesis using WrapBitmap v by (simp add: any_column_defs)
  qed (use c i v in \<open>simp_all add: any_column_defs stdSetValue_def\<close>)
next
  fix c v
  assume c: "storedOk c" and r: "hasRoom c" and v: "acceptsValue c v"
  show "\<exists>c'. addValue c v = Return c' \<and> storedOk c' \<and> cellsOf c' = cellsOf c @ [v] \<and>
      columnLabel c' = columnLabel c"
  proof (cases c)
    case (WrapBitmap t d)
    then obtain d' where "bitmapAdd d v = Return d'" "bitmapOk d'"
      "bitmapCells d' = bitmapCells d @ [v]" "bmName d' = bmName d" "bmDefault d' = bmDefault d"
      using bitmap.add_cells [of d v] c r by (auto simp: any_column_defs)
    then show ?thesis using WrapBitmap v by (simp add: any_column_defs)
  qed (use c r v in \<open>simp_all add: any_column_defs stdAdd_def\<close>)
qed

section \<open>Rows of a recordset\<close>

text \<open>Every column stores and has one cell per row, or is computed.\<close>

definition columnOk :: "nat \<Rightarrow> anyColumn \<Rightarrow> bool" where
  "columnOk n c =
     (isComputed c \<or>
      storedOk c \<and> length (cellsOf c) = n \<and> acceptsValue c (defaultOf c))"

definition recordsetOk :: "columnarRecordset \<Rightarrow> bool" where
  "recordsetOk rs = list_all (columnOk (rsRowsCount rs)) (rsCols rs)"

lemma acceptsValue_label: "columnLabel c = columnLabel d \<Longrightarrow> acceptsValue c = acceptsValue d"
  by (auto simp: columnLabel_def acceptsValue_def fun_eq_iff)

lemma hasRoom_small: "length (cellsOf c) < 2 ^ 32 \<or> \<not> isBitmap c \<Longrightarrow> hasRoom c"
  by (cases c) (simp_all add: hasRoom_def cellsOf_def bitmapRoom_def length_bitmapCells)

lemma addDefaults_ok:
  assumes "list_all (columnOk n) cs" and "n < 2 ^ 32 \<or> list_all (\<lambda>c. \<not> isBitmap c) cs"
  shows "\<exists>cs'. addDefaults cs = Return cs' \<and> list_all (columnOk (n + 1)) cs' \<and>
    list_all2 (\<lambda>c c'. columnLabel c' = columnLabel c \<and>
      (if isComputed c then c' = c else cellsOf c' = cellsOf c @ [defaultOf c])) cs cs'"
  using assms
proof (induction cs)
  case (Cons c cs)
  then obtain cs' where cs': "addDefaults cs = Return cs'" "list_all (columnOk (n + 1)) cs'"
    "list_all2 (\<lambda>c c'. columnLabel c' = columnLabel c \<and>
      (if isComputed c then c' = c else cellsOf c' = cellsOf c @ [defaultOf c])) cs cs'"
    by auto
  show ?case
  proof (cases "isComputed c")
    case True
    then have "addValue c (defaultOf c) = Return c" by (cases c) simp_all
    moreover have "columnOk (n + 1) c" using True by (simp add: columnOk_def)
    ultimately show ?thesis using cs' True by simp
  next
    case False
    then have c: "storedOk c" "length (cellsOf c) = n" "acceptsValue c (defaultOf c)"
      using Cons.prems by (auto simp: columnOk_def)
    then obtain c' where c': "addValue c (defaultOf c) = Return c'" "storedOk c'"
      "cellsOf c' = cellsOf c @ [defaultOf c]" "columnLabel c' = columnLabel c"
      using anyCol.add_cells [of c "defaultOf c"] hasRoom_small [of c] Cons.prems(2) by auto
    moreover have "acceptsValue c' (defaultOf c')"
      using c(3) c'(4) acceptsValue_label [OF c'(4)] by (simp add: columnLabel_def)
    ultimately have "columnOk (n + 1) c'" using c(2) by (simp add: columnOk_def)
    then show ?thesis using cs' c' False by simp
  qed
qed simp

text \<open>The first column of a name.\<close>

lemma columnIndexFrom_find:
  "columnIndexFrom i cs name =
    (if list_ex (\<lambda>c. nameOf c = name) cs then i + int (length (takeWhile (\<lambda>c. nameOf c \<noteq> name) cs)) else -1)"
  by (induction cs arbitrary: i) auto

lemma getColumnByName_index:
  "getColumnByName cs name = (if getColumnIndex cs name < 0 then None
    else Some (cs ! nat (getColumnIndex cs name)))"
proof -
  have "0 \<le> i \<Longrightarrow> getColumnByName cs name =
      (if columnIndexFrom i cs name < 0 then None else Some (cs ! nat (columnIndexFrom i cs name - i)))" for i
    by (induction cs arbitrary: i) (auto simp: columnIndexFrom_find nth_Cons' nat_diff_distrib nat_add_distrib)
  from this [of 0] show ?thesis by (simp add: getColumnIndex_def)
qed

lemma getColumnIndex_bounds:
  assumes "0 \<le> getColumnIndex cs name"
  shows "nat (getColumnIndex cs name) < length cs" and "nameOf (cs ! nat (getColumnIndex cs name)) = name"
proof -
  have ex: "list_ex (\<lambda>c. nameOf c = name) cs"
    using assms by (auto simp: getColumnIndex_def columnIndexFrom_find split: if_splits)
  then have l: "length (takeWhile (\<lambda>c. nameOf c \<noteq> name) cs) < length cs"
    by (metis list_ex_iff length_takeWhile_le nat_less_le takeWhile_eq_all_conv takeWhile_eq_take take_all_iff order_refl)
  then show "nat (getColumnIndex cs name) < length cs" using ex
    by (simp add: getColumnIndex_def columnIndexFrom_find)
  show "nameOf (cs ! nat (getColumnIndex cs name)) = name"
    using ex nth_length_takeWhile [OF l] by (simp add: getColumnIndex_def columnIndexFrom_find)
qed

lemma getColumnByName_set: "getColumnByName cs name = Some c \<Longrightarrow> c \<in> set cs"
  by (induction cs) (auto split: if_splits)

text \<open>What a stored column shows in a row.\<close>

lemma getValueByName_cell:
  assumes "recordsetOk rs" and "i < rsRowsCount rs" and "getColumnByName (rsCols rs) name = Some c"
    and "\<not> isComputed c" and "rowIndex row = int i"
  shows "fst (getValueByName row name rs) = Return (cellsOf c ! i)"
proof -
  have "c \<in> set (rsCols rs)" using assms(3) by (rule getColumnByName_set)
  then have "storedOk c" "length (cellsOf c) = rsRowsCount rs"
    using assms(1,4) by (auto simp: recordsetOk_def list_all_iff columnOk_def)
  then have "getValue c (int i) = Return (cellsOf c ! i)"
    using anyCol.get_cells [of c i] assms(2) by simp
  moreover have "columnValue row c rs = (getValue c (rowIndex row), row)"
    using assms(4) by (cases c) (simp_all add: columnValue_def)
  ultimately show ?thesis using assms(3,5) by (simp add: getValueByName_def)
qed

lemma setValueByName_cell:
  assumes "recordsetOk rs" and "i < rsRowsCount rs" and "getColumnByName (rsCols rs) name = Some c"
    and "\<not> isComputed c" and "acceptsValue c v" and "rowIndex row = int i"
  shows "\<exists>c'. setValueByName row name v rs =
      Return (rs\<lparr>rsCols := (rsCols rs)[nat (getColumnIndex (rsCols rs) name) := c']\<rparr>) \<and>
    columnOk (rsRowsCount rs) c' \<and> columnLabel c' = columnLabel c \<and>
    cellsOf c' = (cellsOf c)[i := v]"
proof -
  define j where "j = nat (getColumnIndex (rsCols rs) name)"
  have g: "0 \<le> getColumnIndex (rsCols rs) name" and c: "c = rsCols rs ! j"
    using assms(3) by (auto simp: getColumnByName_index j_def split: if_splits)
  have j: "j < length (rsCols rs)" using getColumnIndex_bounds(1) [OF g] by (simp add: j_def)
  then have ok: "storedOk c" "length (cellsOf c) = rsRowsCount rs" "acceptsValue c (defaultOf c)"
    using assms(1,4) c by (auto simp: recordsetOk_def list_all_length columnOk_def)
  then obtain c' where c': "setValue c (int i) v = Return c'" "storedOk c'"
    "cellsOf c' = (cellsOf c)[i := v]" "columnLabel c' = columnLabel c"
    using anyCol.set_cells [of c i v] assms(2,5) by auto
  have "columnOk (rsRowsCount rs) c'"
    using ok c' acceptsValue_label [OF c'(4)] by (simp add: columnOk_def columnLabel_def)
  then show ?thesis
    using c' g c assms(4,6) by (auto simp: setValueByName_def setColumn_def j_def Let_def)
qed

lemma getColumnByName_update:
  assumes "0 \<le> getColumnIndex cs name"
    and "nameOf c' = nameOf (cs ! nat (getColumnIndex cs name))"
  shows "getColumnByName (cs[nat (getColumnIndex cs name) := c']) m =
    (if m = name then Some c' else getColumnByName cs m)"
proof -
  have ex: "list_ex (\<lambda>c. nameOf c = name) cs"
    and j: "nat (getColumnIndex cs name) = length (takeWhile (\<lambda>c. nameOf c \<noteq> name) cs)"
    using assms(1) by (auto simp: getColumnIndex_def columnIndexFrom_find split: if_splits)
  have "list_ex (\<lambda>c. nameOf c = name) cs \<Longrightarrow> nameOf c' = name \<Longrightarrow>
      getColumnByName (cs[length (takeWhile (\<lambda>c. nameOf c \<noteq> name) cs) := c']) m =
        (if m = name then Some c' else getColumnByName cs m)"
    by (induction cs) auto
  then show ?thesis
    using ex j assms(2) getColumnIndex_bounds(2) [OF assms(1)] by simp
qed

text \<open>In a recordset whose columns each hold one cell per row, writing a value a stored column
  accepts succeeds, keeps the recordset well-formed, and changes that column in that row only: the
  value is read back there, and every stored column shows in every other place what it showed
  before.
\<close>

theorem recordset_set_then_get:
  assumes "recordsetOk rs" and "i < rsRowsCount rs" and "getColumnByName (rsCols rs) name = Some c"
    and "\<not> isComputed c" and "acceptsValue c v" and "rowIndex row = int i"
    and "getColumnByName (rsCols rs) name' = Some d" and "\<not> isComputed d"
    and "j < rsRowsCount rs" and "rowIndex row' = int j"
  shows "\<exists>rs'. setValueByName row name v rs = Return rs' \<and> recordsetOk rs' \<and>
    rsRowsCount rs' = rsRowsCount rs \<and>
    fst (getValueByName row' name' rs') =
      (if name' = name \<and> j = i then Return v else fst (getValueByName row' name' rs))"
proof -
  let ?k = "nat (getColumnIndex (rsCols rs) name)"
  obtain c' where c': "setValueByName row name v rs = Return (rs\<lparr>rsCols := (rsCols rs)[?k := c']\<rparr>)"
    "columnOk (rsRowsCount rs) c'" "columnLabel c' = columnLabel c" "cellsOf c' = (cellsOf c)[i := v]"
    using setValueByName_cell [OF assms(1-6)] by blast
  let ?rs = "rs\<lparr>rsCols := (rsCols rs)[?k := c']\<rparr>"
  have g: "0 \<le> getColumnIndex (rsCols rs) name" and ck: "c = rsCols rs ! ?k"
    using assms(3) by (auto simp: getColumnByName_index split: if_splits)
  have ok: "recordsetOk ?rs"
    using assms(1) c'(2) by (auto simp: recordsetOk_def list_all_iff dest!: set_update_subset_insert [THEN subsetD])
  have look: "getColumnByName (rsCols ?rs) name' = (if name' = name then Some c' else Some d)"
    using getColumnByName_update [OF g, of c' name'] c'(3) ck assms(7) by (simp add: columnLabel_def)
  have len: "length (cellsOf c) = rsRowsCount rs"
    using assms(1,4) ck getColumnIndex_bounds(1) [OF g]
    by (auto simp: recordsetOk_def list_all_length columnOk_def)
  have "fst (getValueByName row' name' ?rs) =
      Return (cellsOf (if name' = name then c' else d) ! j)"
    using c'(3) assms(4,8,9,10) look
    by (intro getValueByName_cell [OF ok]) (auto simp: columnLabel_def)
  moreover have "fst (getValueByName row' name' rs) = Return (cellsOf d ! j)"
    by (rule getValueByName_cell [OF assms(1,9,7,8,10)])
  ultimately show ?thesis
    using c'(1,4) ok assms(3,7,9) len by (auto simp: nth_list_update)
qed

definition sampleRecordset :: columnarRecordset where
  "sampleRecordset =
     \<lparr>rsName = ''people'',
      rsCols =
        [WrapStd ''string'' ((NewTypedColumn ''name'' (VString ''string'' []) [])
           \<lparr>scValues := [VString ''string'' ''Ann'', VString ''string'' []]\<rparr>),
         AnyCol ((NewTypedColumn ''age'' VNil [])\<lparr>scValues := [VNil, VNil]\<rparr>)],
      rsRowsCount = 2\<rparr>"

theorem recordset_set_then_get_witness:
  "\<exists>rs'. setValueByName \<lparr>rowIndex = 1, rowMemo = []\<rparr> ''name'' (VString ''string'' ''Bob'') sampleRecordset
      = Return rs' \<and>
    recordsetOk rs' \<and> rsRowsCount rs' = rsRowsCount sampleRecordset \<and>
    fst (getValueByName \<lparr>rowIndex = 1, rowMemo = []\<rparr> ''name'' rs') = Return (VString ''string'' ''Bob'')"
proof -
  have "recordsetOk sampleRecordset" "1 < rsRowsCount sampleRecordset"
    by (simp_all add: sampleRecordset_def recordsetOk_def columnOk_def NewTypedColumn_def
        any_column_defs hasType_def)
  moreover obtain c where "getColumnByName (rsCols sampleRecordset) ''name'' = Some c"
    "\<not> isComputed c" "acceptsValue c (VString ''string'' ''Bob'')"
    by (simp add: sampleRecordset_def NewTypedColumn_def any_column_defs hasType_def)
  ultimately show ?thesis
    using recordset_set_then_get [where rs = sampleRecordset and i = 1 and j = 1 and name = "''name''"
        and name' = "''name''" and v = "VString ''string'' ''Bob''" and c = c and d = c
        and row = "\<lparr>rowIndex = 1, rowMemo = []\<rparr>" and row' = "\<lparr>rowIndex = 1, rowMemo = []\<rparr>"]
    by simp
qed

text \<open>A new row adds the default value to every stored column and keeps the earlier rows.\<close>

lemma newRow_ok:
  assumes "recordsetOk rs"
    and "rsRowsCount rs < 2 ^ 32 \<or> list_all (\<lambda>c. \<not> isBitmap c) (rsCols rs)"
  shows "\<exists>rs'. newRow rs = Return (\<lparr>rowIndex = int (rsRowsCount rs), rowMemo = []\<rparr>, rs') \<and>
    recordsetOk rs' \<and> rsRowsCount rs' = rsRowsCount rs + 1 \<and> rsName rs' = rsName rs \<and>
    list_all2 (\<lambda>c c'. columnLabel c' = columnLabel c \<and>
      (if isComputed c then c' = c else cellsOf c' = cellsOf c @ [defaultOf c])) (rsCols rs) (rsCols rs')"
proof -
  obtain cs' where cs': "addDefaults (rsCols rs) = Return cs'"
    "list_all (columnOk (rsRowsCount rs + 1)) cs'"
    "list_all2 (\<lambda>c c'. columnLabel c' = columnLabel c \<and>
      (if isComputed c then c' = c else cellsOf c' = cellsOf c @ [defaultOf c])) (rsCols rs) cs'"
    using addDefaults_ok [of "rsRowsCount rs" "rsCols rs"] assms by (auto simp: recordsetOk_def)
  then show ?thesis by (simp add: newRow_def recordsetOk_def)
qed

text \<open>
  A computed column is evaluated at most once per row: what it gave the first time, a value or
  an error, is what the same row gives from then on, whatever the recordset has become.
\<close>

theorem computed_column_memoized:
  assumes "getColumnByName (rsCols rs) name = Some (Computed n o1 e)"
    and "getColumnByName (rsCols rs') name = Some (Computed n o2 e')"
    and "getValueByName row name rs = (r, row')" and "r \<noteq> Panics"
  shows "getValueByName row' name rs' = (r, row')"
  using assms
  by (auto simp: getValueByName_def columnValue_def resolveComputed_def Let_def
      split: option.splits goCall.splits)

theorem computed_column_memoized_witness:
  "getValueByName \<lparr>rowIndex = 0, rowMemo = [(''c'', Inr VNil)]\<rparr> ''c''
      (NewColumnarRecordset ''later'' [NewComputedColumn ''c'' (\<lambda>_. Inl ''other'') []]) =
    (Return VNil, \<lparr>rowIndex = 0, rowMemo = [(''c'', Inr VNil)]\<rparr>)"
  by (rule computed_column_memoized [where rs = "NewColumnarRecordset ''now''
        [NewComputedColumn ''c'' (\<lambda>_. Inr VNil) []]" and row = "\<lparr>rowIndex = 0, rowMemo = []\<rparr>"
        and n = "''c''" and ?o1.0 = "columnOptionsOf []" and ?o2.0 = "columnOptionsOf []"])
    (simp_all add: NewColumnarRecordset_def NewComputedColumn_def getValueByName_def
      columnValue_def resolveComputed_def)

end
