(* ===== verification/DalReader.thy ===== *)
theory DalReader
  imports RecordDiff Recordset
begin

text \<open>
  Readers of query results, \<open>src/dal/reader.go\<close>, \<open>reader_empty.go\<close>, \<open>reader_slice_records.go\<close>,
  \<open>reader_read_all.go\<close>, \<open>query_select_funcs.go\<close>, with the sentinel errors of
  \<open>errors.go\<close>, and the bridge \<open>ReaderToSeq\<close> of \<open>src/recordops/bridge.go\<close>.

  A reader is any implementation of the interface: a state with the operations \<open>readerOps\<close>.
  \<open>SelectAll\<close> may not end on a reader that never reports its end, so its unlimited loop is
  partial: not returning is \<^const>\<open>None\<close>. A context is the function that gives the error of its
  \<open>n\<close>-th check; a nil context never has one. The reader itself is not nil, which panics at once.
\<close>

section \<open>Definitions\<close>

subsection \<open>Errors\<close>

datatype readErr =
    EOF
  | ErrNoMoreRecords
  | ErrLimitReached
  | ErrNotSupported
  | ErrReaderClosed
  | ErrReaderNotStarted
  | OtherErr string
  | Wrapped string readErr

text \<open>What an error wraps; \<open>errors.Is\<close> follows the chain.\<close>

fun unwrap :: "readErr \<Rightarrow> readErr option" where
  "unwrap ErrNoMoreRecords = Some EOF"
| "unwrap ErrLimitReached = Some ErrNoMoreRecords"
| "unwrap (Wrapped m e) = Some e"
| "unwrap _ = None"

fun errorsIs :: "readErr \<Rightarrow> readErr \<Rightarrow> bool" where
  "errorsIs (Wrapped m e) target = (Wrapped m e = target \<or> errorsIs e target)"
| "errorsIs ErrLimitReached target = (target \<in> {ErrLimitReached, ErrNoMoreRecords, EOF})"
| "errorsIs ErrNoMoreRecords target = (target \<in> {ErrNoMoreRecords, EOF})"
| "errorsIs e target = (e = target)"

subsection \<open>Readers\<close>

record ('s, 'r) readerOps =
  rNext :: "'s \<Rightarrow> (readErr + 'r) \<times> 's"
  rCursor :: "'s \<Rightarrow> readErr + string"
  rClose :: "'s \<Rightarrow> readErr option \<times> 's"

definition EmptyReader :: "(unit, 'r) readerOps" where
  "EmptyReader =
     \<lparr>rNext = (\<lambda>s. (Inl ErrNoMoreRecords, s)), rCursor = (\<lambda>s. Inl ErrNotSupported),
      rClose = (\<lambda>s. (None, s))\<rparr>"

text \<open>\<open>recordsReader\<close>; a nil slice is \<^const>\<open>None\<close>.\<close>

record 'r recordsReader =
  rdCurrent :: int
  rdRecords :: "'r list option"

definition NewRecordsReader :: "'r list option \<Rightarrow> 'r recordsReader" where
  "NewRecordsReader records = \<lparr>rdCurrent = -1, rdRecords = records\<rparr>"

definition rdLength :: "'r recordsReader \<Rightarrow> int" where
  "rdLength r = (case rdRecords r of None \<Rightarrow> 0 | Some rs \<Rightarrow> int (length rs))"

definition sliceNext :: "'r recordsReader \<Rightarrow> (readErr + 'r) \<times> 'r recordsReader" where
  "sliceNext r =
     (case rdRecords r of
        None \<Rightarrow> (Inl (OtherErr ''if no records use EmptyReader''), r)
      | Some rs \<Rightarrow>
          (let r' = r\<lparr>rdCurrent := rdCurrent r + 1\<rparr>
           in if rdCurrent r' \<ge> int (length rs) then (Inl ErrNoMoreRecords, r')
              else (Inr (rs ! nat (rdCurrent r')), r')))"

definition sliceCursor :: "'r recordsReader \<Rightarrow> readErr + string" where
  "sliceCursor r =
     (if rdCurrent r \<ge> rdLength r then Inl ErrReaderClosed
      else if rdCurrent r < 0 then Inl ErrReaderNotStarted
      else Inr (intDec (rdCurrent r)))"

definition sliceClose :: "'r recordsReader \<Rightarrow> readErr option \<times> 'r recordsReader" where
  "sliceClose r = (None, r\<lparr>rdRecords := None\<rparr>)"

definition sliceReader :: "('r recordsReader, 'r) readerOps" where
  "sliceReader = \<lparr>rNext = sliceNext, rCursor = sliceCursor, rClose = sliceClose\<rparr>"

subsection \<open>Reader options\<close>

record readerOptions =
  roOffset :: int
  roLimit :: int

definition WithLimit :: "int \<Rightarrow> readerOptions \<Rightarrow> readerOptions" where
  "WithLimit limit ro = ro\<lparr>roLimit := limit\<rparr>"

definition WithOffset :: "int \<Rightarrow> readerOptions \<Rightarrow> readerOptions" where
  "WithOffset offset ro = ro\<lparr>roOffset := offset\<rparr>"

definition newReaderOptions :: "(readerOptions \<Rightarrow> readerOptions) list \<Rightarrow> readerOptions" where
  "newReaderOptions opts = fold (\<lambda>f ro. f ro) opts \<lparr>roOffset = 0, roLimit = 0\<rparr>"

subsection \<open>SelectAll\<close>

type_synonym ctx = "nat \<Rightarrow> readErr option"

text \<open>
  How a loop ends: with \<open>return e\<close>, or with a panic of the callback. \<open>add\<close> is the callback:
  the new accumulator, or a panic.
\<close>

datatype selEnd = Returns "readErr option" | CallbackPanics

text \<open>The skipping loop: an early return (the error, if any), or the number of checks so far.\<close>

primrec skipOffset ::
  "('s, 'r) readerOps \<Rightarrow> ctx \<Rightarrow> nat \<Rightarrow> nat \<Rightarrow> 's \<Rightarrow> (readErr option + nat) \<times> 's" where
  "skipOffset ops ctx 0 k s = (Inr k, s)"
| "skipOffset ops ctx (Suc offset) k s =
     (case ctx k of
        Some e \<Rightarrow> (Inl (Some e), s)
      | None \<Rightarrow>
          (case rNext ops s of
             (Inl e, s') \<Rightarrow> (if errorsIs e ErrNoMoreRecords then Inl None else Inl (Some e), s')
           | (Inr r, s') \<Rightarrow> skipOffset ops ctx offset (Suc k) s'))"

primrec readLimited ::
  "('s, 'r) readerOps \<Rightarrow> ctx \<Rightarrow> ('r \<Rightarrow> 'a \<Rightarrow> 'a option) \<Rightarrow> nat \<Rightarrow> nat \<Rightarrow> 's \<Rightarrow> 'a \<Rightarrow>
    selEnd \<times> 'a \<times> 's" where
  "readLimited ops ctx add 0 k s acc = (Returns None, acc, s)"
| "readLimited ops ctx add (Suc n) k s acc =
     (case ctx k of
        Some e \<Rightarrow> (Returns (Some e), acc, s)
      | None \<Rightarrow>
          (case rNext ops s of
             (Inl e, s') \<Rightarrow>
               (Returns (if errorsIs e ErrNoMoreRecords then None else Some e), acc, s')
           | (Inr r, s') \<Rightarrow>
               (case add r acc of
                  None \<Rightarrow> (CallbackPanics, acc, s')
                | Some acc' \<Rightarrow> readLimited ops ctx add n (Suc k) s' acc')))"

partial_function (option) readUnlimited ::
  "('s, 'r) readerOps \<Rightarrow> ctx \<Rightarrow> ('r \<Rightarrow> 'a \<Rightarrow> 'a option) \<Rightarrow> nat \<Rightarrow> 's \<Rightarrow> 'a \<Rightarrow>
    (selEnd \<times> 'a \<times> 's) option" where
  "readUnlimited ops ctx add k s acc =
     (case ctx k of
        Some e \<Rightarrow> Some (Returns (Some e), acc, s)
      | None \<Rightarrow>
          (case rNext ops s of
             (Inl e, s') \<Rightarrow>
               Some (Returns (if errorsIs e EOF then None else Some e), acc, s')
           | (Inr r, s') \<Rightarrow>
               (case add r acc of
                  None \<Rightarrow> Some (CallbackPanics, acc, s')
                | Some acc' \<Rightarrow> readUnlimited ops ctx add (Suc k) s' acc')))"

text \<open>The deferred call of \<open>Close\<close>, which a panic does not skip.\<close>

definition closing ::
  "('s, 'r) readerOps \<Rightarrow> selEnd \<times> 'a \<times> 's \<Rightarrow> (readErr option \<times> 'a) goCall \<times> 's" where
  "closing ops res =
     (case res of (end, acc, s) \<Rightarrow>
        (case rClose ops s of (closeErr, s') \<Rightarrow>
           ((case end of
               CallbackPanics \<Rightarrow> Panics
             | Returns (Some e) \<Rightarrow> Return (Some e, acc)
             | Returns None \<Rightarrow>
                 Return (map_option (Wrapped ''failed to close reader'') closeErr, acc)), s')))"

definition SelectAll ::
  "('s, 'r) readerOps \<Rightarrow> ctx \<Rightarrow> ('r \<Rightarrow> 'a \<Rightarrow> 'a option) \<Rightarrow>
    (readerOptions \<Rightarrow> readerOptions) list \<Rightarrow> 's \<Rightarrow> 'a \<Rightarrow>
    ((readErr option \<times> 'a) goCall \<times> 's) option" where
  "SelectAll ops ctx add opts s acc =
     (let ro = newReaderOptions opts
      in map_option (closing ops)
        (case skipOffset ops ctx (nat (roOffset ro)) 0 s of
           (Inl e, s') \<Rightarrow> Some (Returns e, acc, s')
         | (Inr k, s') \<Rightarrow>
             if roLimit ro \<le> 0 then readUnlimited ops ctx add k s' acc
             else Some (readLimited ops ctx add (nat (roLimit ro)) k s' acc)))"

text \<open>\<open>ReadAllToRecords\<close> and \<open>SelectAllIDs\<close>, whose assertion on the ID may panic.\<close>

definition ReadAllToRecords ::
  "('s, 'r) readerOps \<Rightarrow> ctx \<Rightarrow> (readerOptions \<Rightarrow> readerOptions) list \<Rightarrow> 's \<Rightarrow>
    ((readErr option \<times> 'r list) goCall \<times> 's) option" where
  "ReadAllToRecords ops ctx opts s = SelectAll ops ctx (\<lambda>r acc. Some (acc @ [r])) opts s []"

definition SelectAllIDs ::
  "('r \<Rightarrow> 'i option) \<Rightarrow> ('s, 'r) readerOps \<Rightarrow> ctx \<Rightarrow> (readerOptions \<Rightarrow> readerOptions) list \<Rightarrow> 's \<Rightarrow>
    ((readErr option \<times> 'i list) goCall \<times> 's) option" where
  "SelectAllIDs idAs ops ctx opts s =
     SelectAll ops ctx (\<lambda>r acc. map_option (\<lambda>i. acc @ [i]) (idAs r)) opts s []"

definition ExecuteQueryAndReadAllToRecords ::
  "(readErr + 's) \<Rightarrow> ('s, 'r) readerOps \<Rightarrow> ctx \<Rightarrow> (readerOptions \<Rightarrow> readerOptions) list \<Rightarrow>
    ((readErr option \<times> 'r list) goCall) option" where
  "ExecuteQueryAndReadAllToRecords executed ops ctx opts =
     (case executed of
        Inl err \<Rightarrow> Some (Return (Some err, []))
      | Inr reader \<Rightarrow> map_option fst (ReadAllToRecords ops ctx opts reader))"

subsection \<open>Recordset readers\<close>

text \<open>
  \<open>ExecuteQueryAndReadAllToRecordset\<close>: the recordset is a pointer the reader may still fill, so
  what is returned is read from the reader's last state. \<open>recordsetOf\<close> is \<open>Recordset()\<close>.
\<close>

definition endOfRows :: "readErr \<Rightarrow> readErr option" where
  "endOfRows e =
     (if errorsIs e ErrNoMoreRecords \<or> errorsIs e EOF then None
      else Some (Wrapped ''failed to get next record'' e))"

primrec readRowsLimited ::
  "('s, 'r) readerOps \<Rightarrow> ctx \<Rightarrow> nat \<Rightarrow> nat \<Rightarrow> 's \<Rightarrow> readErr option \<times> 's" where
  "readRowsLimited ops ctx 0 k s = (Some ErrLimitReached, s)"
| "readRowsLimited ops ctx (Suc n) k s =
     (case ctx k of
        Some e \<Rightarrow> (Some e, s)
      | None \<Rightarrow>
          (case rNext ops s of
             (Inl e, s') \<Rightarrow> (endOfRows e, s')
           | (Inr r, s') \<Rightarrow> readRowsLimited ops ctx n (Suc k) s'))"

partial_function (option) readRowsUnlimited ::
  "('s, 'r) readerOps \<Rightarrow> ctx \<Rightarrow> nat \<Rightarrow> 's \<Rightarrow> (readErr option \<times> 's) option" where
  "readRowsUnlimited ops ctx k s =
     (case ctx k of
        Some e \<Rightarrow> Some (Some e, s)
      | None \<Rightarrow>
          (case rNext ops s of
             (Inl e, s') \<Rightarrow> Some (endOfRows e, s')
           | (Inr r, s') \<Rightarrow> readRowsUnlimited ops ctx (Suc k) s'))"

primrec skipRows ::
  "('s, 'r) readerOps \<Rightarrow> ctx \<Rightarrow> nat \<Rightarrow> nat \<Rightarrow> 's \<Rightarrow> (readErr option + nat) \<times> 's" where
  "skipRows ops ctx 0 k s = (Inr k, s)"
| "skipRows ops ctx (Suc offset) k s =
     (case ctx k of
        Some e \<Rightarrow> (Inl (Some e), s)
      | None \<Rightarrow>
          (case rNext ops s of
             (Inl e, s') \<Rightarrow>
               (if errorsIs e ErrNoMoreRecords then Inl None
                else Inl (Some (Wrapped ''failed to skip a record'' e)), s')
           | (Inr r, s') \<Rightarrow> skipRows ops ctx offset (Suc k) s'))"

definition closingRows ::
  "('s, 'r) readerOps \<Rightarrow> ('s \<Rightarrow> 'rs) \<Rightarrow> readErr option \<times> 's \<Rightarrow> readErr option \<times> 'rs option" where
  "closingRows ops recordsetOf res =
     (case res of (err, s) \<Rightarrow>
        (case rClose ops s of (closeErr, s') \<Rightarrow>
           (case err of
              Some e \<Rightarrow> Some e
            | None \<Rightarrow> map_option (Wrapped ''failed to close reader'') closeErr,
            Some (recordsetOf s'))))"

definition ExecuteQueryAndReadAllToRecordset ::
  "(readErr + 's) \<Rightarrow> ('s, 'r) readerOps \<Rightarrow> ('s \<Rightarrow> 'rs) \<Rightarrow> ctx \<Rightarrow>
    (readerOptions \<Rightarrow> readerOptions) list \<Rightarrow> (readErr option \<times> 'rs option) option" where
  "ExecuteQueryAndReadAllToRecordset executed ops recordsetOf ctx opts =
     (case executed of
        Inl err \<Rightarrow> Some (Some (Wrapped ''failed to get the recordset reader'' err), None)
      | Inr s \<Rightarrow>
          (let ro = newReaderOptions opts
           in map_option (closingRows ops recordsetOf)
             (case skipRows ops ctx (nat (roOffset ro)) 0 s of
                (Inl e, s') \<Rightarrow> Some (e, s')
              | (Inr k, s') \<Rightarrow>
                  if roLimit ro \<le> 0 then readRowsUnlimited ops ctx k s'
                  else Some (readRowsLimited ops ctx (nat (roLimit ro)) k s'))))"

subsection \<open>Readers as streams\<close>

fun errText :: "readErr \<Rightarrow> string" where
  "errText EOF = ''EOF''"
| "errText ErrNoMoreRecords = ''EOF: no more errors''"
| "errText ErrLimitReached = ''EOF: no more errors: limit reached''"
| "errText ErrNotSupported = ''not supported''"
| "errText ErrReaderClosed = ''reader closed''"
| "errText ErrReaderNotStarted = ''reader not started''"
| "errText (OtherErr m) = m"
| "errText (Wrapped m e) = m @ '': '' @ errText e"

text \<open>
  \<open>ReaderToSeq\<close> for a consumer that takes everything: what it yields and the reader's state after
  the deferred \<open>Close\<close>. \<open>dataOf\<close> is the record's \<open>Data()\<close>.
\<close>

partial_function (option) drainReader ::
  "('s, 'r) readerOps \<Rightarrow> ('r \<Rightarrow> readErr + 'k) \<Rightarrow> ('r \<Rightarrow> rvalue option) \<Rightarrow> 'k recordSeq \<Rightarrow> 's \<Rightarrow>
    ('k recordSeq \<times> 's) option" where
  "drainReader ops idOf dataOf items s =
     (case rNext ops s of
        (Inl e, s') \<Rightarrow>
          Some (if errorsIs e ErrNoMoreRecords then items else items @ [Inl (errText e)], s')
      | (Inr r, s') \<Rightarrow>
          (case idOf r of
             Inl e \<Rightarrow> Some (items @ [Inl (errText e)], s')
           | Inr i \<Rightarrow>
               drainReader ops idOf dataOf (items @ [Inr \<lparr>widID = i, widData = dataOf r\<rparr>]) s'))"

definition ReaderToSeq ::
  "('s, 'r) readerOps \<Rightarrow> ('r \<Rightarrow> readErr + 'k) \<Rightarrow> ('r \<Rightarrow> rvalue option) \<Rightarrow> 's \<Rightarrow>
    ('k recordSeq \<times> 's) option" where
  "ReaderToSeq ops idOf dataOf s =
     map_option (\<lambda>(items, s'). (items, snd (rClose ops s'))) (drainReader ops idOf dataOf [] s)"

section \<open>Readers that end\<close>

text \<open>The part of the remaining records that the options select.\<close>

definition selected :: "readerOptions \<Rightarrow> 'r list \<Rightarrow> 'r list" where
  "selected ro rs =
     (let d = drop (nat (roOffset ro)) rs in if roLimit ro \<le> 0 then d else take (nat (roLimit ro)) d)"

text \<open>
  The contract of a reader over finitely many records: it delivers what is left, one at a time,
  and then reports \<^const>\<open>ErrNoMoreRecords\<close> again and again; closing it succeeds.
\<close>

locale finite_reader =
  fixes ops :: "('s, 'r) readerOps"
    and rest :: "'s \<Rightarrow> 'r list"
    and ok :: "'s \<Rightarrow> bool"
  assumes next_end: "ok s \<Longrightarrow> rest s = [] \<Longrightarrow>
      \<exists>s'. rNext ops s = (Inl ErrNoMoreRecords, s') \<and> ok s' \<and> rest s' = []"
    and next_record: "ok s \<Longrightarrow> rest s = r # rs \<Longrightarrow>
      \<exists>s'. rNext ops s = (Inr r, s') \<and> ok s' \<and> rest s' = rs"
    and close_ok: "ok s \<Longrightarrow> fst (rClose ops s) = None"
begin

lemma skipOffset_rest:
  assumes "ok s"
  shows "\<exists>s'. ok s' \<and> rest s' = drop n (rest s) \<and>
    (skipOffset ops (\<lambda>_. None) n k s = (Inr (k + n), s') \<or>
     rest s' = [] \<and> skipOffset ops (\<lambda>_. None) n k s = (Inl None, s'))"
  using assms
proof (induction n arbitrary: k s)
  case (Suc n)
  show ?case
  proof (cases "rest s")
    case Nil
    then show ?thesis using next_end [OF Suc.prems Nil] by auto
  next
    case (Cons r rs)
    then obtain s1 where s1: "rNext ops s = (Inr r, s1)" "ok s1" "rest s1 = rs"
      using next_record [OF Suc.prems Cons] by blast
    then show ?thesis using Suc.IH [of s1 "Suc k"] Cons by simp
  qed
qed auto

lemma readUnlimited_rest:
  assumes "ok s"
  shows "\<exists>s'. ok s' \<and> readUnlimited ops (\<lambda>_. None) (\<lambda>r acc. Some (f r acc)) k s acc =
    Some (Returns None, fold f (rest s) acc, s')"
  using assms
proof (induction "rest s" arbitrary: k s acc)
  case Nil
  then show ?case
    using next_end [OF Nil.prems Nil.hyps [symmetric]] by (subst readUnlimited.simps) auto
next
  case (Cons r rs)
  then obtain s1 where s1: "rNext ops s = (Inr r, s1)" "ok s1" "rest s1 = rs"
    using next_record by metis
  then show ?case
    using Cons.hyps(1) [of s1 "Suc k" "f r acc"] Cons.hyps(2) [symmetric]
    by (subst readUnlimited.simps) simp
qed

lemma readLimited_rest:
  assumes "ok s"
  shows "\<exists>s'. ok s' \<and> readLimited ops (\<lambda>_. None) (\<lambda>r acc. Some (f r acc)) n k s acc =
    (Returns None, fold f (take n (rest s)) acc, s') \<and> rest s' = drop n (rest s)"
  using assms
proof (induction n arbitrary: k s acc)
  case (Suc n)
  show ?case
  proof (cases "rest s")
    case Nil
    then show ?thesis using next_end [OF Suc.prems Nil] by auto
  next
    case (Cons r rs)
    then obtain s1 where s1: "rNext ops s = (Inr r, s1)" "ok s1" "rest s1 = rs"
      using next_record [OF Suc.prems Cons] by blast
    then show ?thesis using Suc.IH [of s1 "Suc k" "f r acc"] Cons by simp
  qed
qed simp

lemma closing_ok: "ok s \<Longrightarrow> closing ops (Returns None, acc, s) = (Return (None, acc), snd (rClose ops s))"
  using close_ok [of s] by (auto simp: closing_def split: prod.splits)

theorem SelectAll_selected:
  assumes "ok s"
  shows "\<exists>s'. SelectAll ops (\<lambda>_. None) (\<lambda>r acc. Some (f r acc)) opts s acc =
    Some (Return (None, fold f (selected (newReaderOptions opts) (rest s)) acc), s')"
proof -
  define ro where "ro = newReaderOptions opts"
  obtain s1 where s1: "ok s1" "rest s1 = drop (nat (roOffset ro)) (rest s)"
    "skipOffset ops (\<lambda>_. None) (nat (roOffset ro)) 0 s = (Inr (nat (roOffset ro)), s1) \<or>
     rest s1 = [] \<and> skipOffset ops (\<lambda>_. None) (nat (roOffset ro)) 0 s = (Inl None, s1)"
    using skipOffset_rest [OF assms, of "nat (roOffset ro)" 0] by auto
  obtain s2 where s2: "ok s2" "readUnlimited ops (\<lambda>_. None) (\<lambda>r acc. Some (f r acc)) (nat (roOffset ro)) s1 acc =
      Some (Returns None, fold f (rest s1) acc, s2)"
    using readUnlimited_rest [OF s1(1), of f "nat (roOffset ro)" acc] by blast
  obtain s3 where s3: "ok s3" "readLimited ops (\<lambda>_. None) (\<lambda>r acc. Some (f r acc)) (nat (roLimit ro))
      (nat (roOffset ro)) s1 acc = (Returns None, fold f (take (nat (roLimit ro)) (rest s1)) acc, s3)"
    using readLimited_rest [OF s1(1), of f "nat (roLimit ro)" "nat (roOffset ro)" acc] by blast
  show ?thesis
    using s1(3)
  proof
    assume "skipOffset ops (\<lambda>_. None) (nat (roOffset ro)) 0 s = (Inr (nat (roOffset ro)), s1)"
    then show ?thesis
      using s1(1,2) s2 s3
      by (simp add: SelectAll_def Let_def ro_def [symmetric] selected_def closing_ok)
  next
    assume "rest s1 = [] \<and> skipOffset ops (\<lambda>_. None) (nat (roOffset ro)) 0 s = (Inl None, s1)"
    then show ?thesis
      using s1(1,2) by (simp add: SelectAll_def Let_def ro_def [symmetric] selected_def closing_ok)
  qed
qed

lemma skipRows_rest:
  assumes "ok s"
  shows "\<exists>s'. ok s' \<and> rest s' = drop n (rest s) \<and>
    (skipRows ops (\<lambda>_. None) n k s = (Inr (k + n), s') \<or>
     rest s' = [] \<and> skipRows ops (\<lambda>_. None) n k s = (Inl None, s'))"
  using assms
proof (induction n arbitrary: k s)
  case (Suc n)
  show ?case
  proof (cases "rest s")
    case Nil
    then show ?thesis using next_end [OF Suc.prems Nil] by auto
  next
    case (Cons r rs)
    then obtain s1 where s1: "rNext ops s = (Inr r, s1)" "ok s1" "rest s1 = rs"
      using next_record [OF Suc.prems Cons] by blast
    then show ?thesis using Suc.IH [of s1 "Suc k"] Cons by simp
  qed
qed auto

lemma readRowsLimited_rest:
  assumes "ok s"
  shows "\<exists>s'. ok s' \<and> rest s' = drop n (rest s) \<and> readRowsLimited ops (\<lambda>_. None) n k s =
    (if n \<le> length (rest s) then Some ErrLimitReached else None, s')"
  using assms
proof (induction n arbitrary: k s)
  case (Suc n)
  show ?case
  proof (cases "rest s")
    case Nil
    then show ?thesis using next_end [OF Suc.prems Nil] by (auto simp: endOfRows_def)
  next
    case (Cons r rs)
    then obtain s1 where s1: "rNext ops s = (Inr r, s1)" "ok s1" "rest s1 = rs"
      using next_record [OF Suc.prems Cons] by blast
    then show ?thesis using Suc.IH [of s1 "Suc k"] Cons by simp
  qed
qed auto

lemma readRowsUnlimited_rest:
  assumes "ok s"
  shows "\<exists>s'. ok s' \<and> rest s' = [] \<and> readRowsUnlimited ops (\<lambda>_. None) k s = Some (None, s')"
  using assms
proof (induction "rest s" arbitrary: k s)
  case Nil
  then show ?case
    using next_end [OF Nil.prems Nil.hyps [symmetric]]
    by (subst readRowsUnlimited.simps) (auto simp: endOfRows_def)
next
  case (Cons r rs)
  then obtain s1 where s1: "rNext ops s = (Inr r, s1)" "ok s1" "rest s1 = rs"
    using next_record by metis
  then show ?case
    using Cons.hyps(1) [of s1 "Suc k"] by (subst readRowsUnlimited.simps) simp
qed

theorem read_rows_result:
  assumes "ok s"
  shows "\<exists>s'. ok s' \<and>
    rest s' = (if roLimit (newReaderOptions opts) \<le> 0 then []
      else drop (nat (roLimit (newReaderOptions opts))) (drop (nat (roOffset (newReaderOptions opts))) (rest s))) \<and>
    ExecuteQueryAndReadAllToRecordset (Inr s) ops recordsetOf (\<lambda>_. None) opts =
      Some (if 0 < roLimit (newReaderOptions opts) \<and>
          nat (roOffset (newReaderOptions opts)) + nat (roLimit (newReaderOptions opts)) \<le> length (rest s)
        then Some ErrLimitReached else None, Some (recordsetOf (snd (rClose ops s'))))"
proof -
  define ro where "ro = newReaderOptions opts"
  let ?n = "nat (roOffset ro)"
  obtain s1 where s1: "ok s1" "rest s1 = drop ?n (rest s)"
    "skipRows ops (\<lambda>_. None) ?n 0 s = (Inr ?n, s1) \<or>
     rest s1 = [] \<and> skipRows ops (\<lambda>_. None) ?n 0 s = (Inl None, s1)"
    using skipRows_rest [OF assms, of ?n 0] by auto
  obtain s2 where s2: "ok s2" "rest s2 = []" "readRowsUnlimited ops (\<lambda>_. None) ?n s1 = Some (None, s2)"
    using readRowsUnlimited_rest [OF s1(1), of ?n] by blast
  obtain s3 where s3: "ok s3" "rest s3 = drop (nat (roLimit ro)) (rest s1)"
    "readRowsLimited ops (\<lambda>_. None) (nat (roLimit ro)) ?n s1 =
      (if nat (roLimit ro) \<le> length (rest s1) then Some ErrLimitReached else None, s3)"
    using readRowsLimited_rest [OF s1(1), of "nat (roLimit ro)" ?n] by blast
  have close: "closingRows ops recordsetOf (e, t) = (e, Some (recordsetOf (snd (rClose ops t))))"
    if "ok t" for e t
    using close_ok [OF that] by (auto simp: closingRows_def split: prod.splits option.splits)
  have long: "0 < roLimit ro \<Longrightarrow> rest s1 \<noteq> [] \<or> \<not> ?n + nat (roLimit ro) \<le> length (rest s)"
    using s1(2) by auto
  show ?thesis
  proof (cases "skipRows ops (\<lambda>_. None) ?n 0 s = (Inr ?n, s1)")
    case True
    have "0 < roLimit ro \<Longrightarrow> nat (roLimit ro) \<le> length (rest s1) \<longleftrightarrow> ?n + nat (roLimit ro) \<le> length (rest s)"
      using s1(2) by auto
    then show ?thesis
      using True s1(2) s2 s3 close
      by (cases "roLimit ro \<le> 0")
        (auto simp: ExecuteQueryAndReadAllToRecordset_def Let_def ro_def [symmetric])
  next
    case False
    then show ?thesis
      using s1 long close
      by (auto simp: ExecuteQueryAndReadAllToRecordset_def Let_def ro_def [symmetric])
  qed
qed

lemma drainReader_rest:
  assumes "ok s"
  shows "\<exists>s'. drainReader ops (\<lambda>r. Inr (idOf r)) dataOf items s =
    Some (items @ map (\<lambda>r. Inr \<lparr>widID = idOf r, widData = dataOf r\<rparr>) (rest s), s')"
  using assms
proof (induction "rest s" arbitrary: items s)
  case Nil
  then show ?case
    using next_end [OF Nil.prems Nil.hyps [symmetric]] by (subst drainReader.simps) auto
next
  case (Cons r rs)
  then obtain s1 where s1: "rNext ops s = (Inr r, s1)" "ok s1" "rest s1 = rs"
    using next_record by metis
  then show ?case
    using Cons.hyps(1) [of s1 "items @ [Inr \<lparr>widID = idOf r, widData = dataOf r\<rparr>]"] Cons.hyps(2) [symmetric]
    by (subst drainReader.simps) simp
qed

theorem ReaderToSeq_rest:
  assumes "ok s"
  shows "\<exists>s'. ReaderToSeq ops (\<lambda>r. Inr (idOf r)) dataOf s =
    Some (SliceToSeq (map (\<lambda>r. \<lparr>widID = idOf r, widData = dataOf r\<rparr>) (rest s)), s')"
  using drainReader_rest [OF assms, of idOf dataOf "[]"]
  by (auto simp: ReaderToSeq_def SliceToSeq_def comp_def)

end

definition sliceRest :: "'r recordsReader \<Rightarrow> 'r list" where
  "sliceRest r = (case rdRecords r of None \<Rightarrow> [] | Some rs \<Rightarrow> drop (nat (rdCurrent r + 1)) rs)"

definition sliceOpen :: "'r recordsReader \<Rightarrow> bool" where
  "sliceOpen r = (rdRecords r \<noteq> None \<and> - 1 \<le> rdCurrent r)"

interpretation slice: finite_reader sliceReader sliceRest sliceOpen
proof unfold_locales
  fix s :: "'r recordsReader"
  assume "sliceOpen s" and "sliceRest s = []"
  then show "\<exists>s'. rNext sliceReader s = (Inl ErrNoMoreRecords, s') \<and> sliceOpen s' \<and> sliceRest s' = []"
    by (auto simp: sliceReader_def sliceNext_def sliceOpen_def sliceRest_def Let_def)
next
  fix s :: "'r recordsReader" and r rs
  assume o: "sliceOpen s" and c: "sliceRest s = r # rs"
  obtain xs where xs: "rdRecords s = Some xs" using o by (auto simp: sliceOpen_def)
  define i where "i = nat (rdCurrent s + 1)"
  have i: "rdCurrent s + 1 = int i" using o by (simp add: i_def sliceOpen_def)
  have d: "drop i xs = r # rs" using c xs by (simp add: sliceRest_def i_def)
  then have "i < length xs" by (metis drop_all list.distinct(1) not_le)
  moreover have "xs ! i = r" using d \<open>i < length xs\<close> by (metis hd_drop_conv_nth list.sel(1))
  moreover have "drop (Suc i) xs = rs" using d by (metis drop_Suc list.sel(3) tl_drop)
  ultimately show "\<exists>s'. rNext sliceReader s = (Inr r, s') \<and> sliceOpen s' \<and> sliceRest s' = rs"
    using xs i by (auto simp: sliceReader_def sliceNext_def sliceOpen_def sliceRest_def Let_def nat_add_distrib)
next
  fix s :: "'r recordsReader"
  show "fst (rClose sliceReader s) = None" by (simp add: sliceReader_def sliceClose_def)
qed

interpretation noRecords: finite_reader EmptyReader "\<lambda>_. []" "\<lambda>_. True"
  by unfold_locales (auto simp: EmptyReader_def)

lemma fold_snoc: "fold (\<lambda>r acc. acc @ [r]) rs acc = acc @ rs"
  by (induction rs arbitrary: acc) simp_all

lemma sliceReader_read_all:
  "\<exists>s'. ReadAllToRecords sliceReader (\<lambda>_. None) opts (NewRecordsReader (Some rs)) =
    Some (Return (None, selected (newReaderOptions opts) rs), s')"
proof -
  have "sliceOpen (NewRecordsReader (Some rs))" "sliceRest (NewRecordsReader (Some rs)) = rs"
    by (simp_all add: sliceOpen_def sliceRest_def NewRecordsReader_def)
  then show ?thesis
    using slice.SelectAll_selected [of "NewRecordsReader (Some rs)" "\<lambda>r acc. acc @ [r]" opts "[]"]
    by (simp add: ReadAllToRecords_def fold_snoc)
qed

text \<open>
  Reading all of a slice reader always returns, without an error, exactly the records the
  options select: the offset many first ones are left out, and with a positive limit at most that
  many of the rest are kept.
\<close>

theorem read_all_selected:
  "\<exists>s'. ReadAllToRecords sliceReader (\<lambda>_. None) opts (NewRecordsReader (Some rs)) =
    Some (Return (None, selected (newReaderOptions opts) rs), s')"
  by (rule sliceReader_read_all)

end
