(* ===== verification/MemoryRecordset.thy ===== *)
theory MemoryRecordset
  imports MemoryRelational DalReader
begin

text \<open>
  Query results as recordsets, \<open>src/adapters/dalgo2memory/recordset.go\<close>: the records of a query
  are read, turned into rows of fields and pivoted into the columns of a
  \<^verbatim>\<open>ColumnarRecordset\<close>, which \<open>columnarReader\<close> walks row by row.

  Two things are arguments, in \<open>pivotEnv\<close>: what the type switch on a record's data finds
  (\<open>asMap\<close>: the map of a \<open>map[string]any\<close> or of a pointer to one, \<^const>\<open>None\<close> for any other
  type), and the kind of a declared type (\<open>underlying\<close>).
\<close>

section \<open>Definitions\<close>

record 'd pivotEnv =
  asMap :: "'d \<Rightarrow> fields option"
  underlying :: "string \<Rightarrow> string"

datatype pivotError =
    QueryFailed queryError
  | ReadFailed readErr
  | ConversionFailed
  | PivotPanic

subsection \<open>Rows\<close>

text \<open>\<open>recordToMap\<close>: \<^const>\<open>None\<close> is an error of the JSON conversion.\<close>

definition recordToMap ::
  "('d, 'c) sessionEnv \<Rightarrow> 'd pivotEnv \<Rightarrow> key \<times> 'd resultData \<Rightarrow> fields option" where
  "recordToMap env penv rec =
     (case snd rec of
        Projected m \<Rightarrow> Some m
      | KeysOnly \<Rightarrow> Some [(''ID'', VString ''string'' (fmtSprint (keyText env) (keyID (fst rec))))]
      | Loaded d \<Rightarrow>
          (case asMap penv d of
             Some m \<Rightarrow> Some m
           | None \<Rightarrow>
               (case marshalData (baseEnv (colEnv env)) d of
                  None \<Rightarrow> None
                | Some j \<Rightarrow>
                    (case decodeMap j of
                       None \<Rightarrow> None
                     | Some None \<Rightarrow> Some []
                     | Some (Some m) \<Rightarrow> Some m))))"

fun recordsToMaps ::
  "('d, 'c) sessionEnv \<Rightarrow> 'd pivotEnv \<Rightarrow> (key \<times> 'd resultData) list \<Rightarrow> fields list option" where
  "recordsToMaps env penv [] = Some []"
| "recordsToMaps env penv (r # rs) =
     (case recordToMap env penv r of
        None \<Rightarrow> None
      | Some m \<Rightarrow> map_option (Cons m) (recordsToMaps env penv rs))"

subsection \<open>Columns\<close>

definition recordsetColumnNames :: "textEnv \<Rightarrow> 'd structuredQuery \<Rightarrow> fields list \<Rightarrow> string list" where
  "recordsetColumnNames tenv q rows =
     (if qColumns q \<noteq> [] then map (columnOutKey tenv) (qColumns q)
      else sortStrings (remdups (concat (map keysOf rows))))"

text \<open>\<open>reflect.TypeOf(v).Kind()\<close>, as the name of the predeclared type of that kind.\<close>

definition kindOf :: "(string \<Rightarrow> string) \<Rightarrow> value \<Rightarrow> string" where
  "kindOf und v =
     (if typeText v \<in> {''float64'', ''string'', ''bool'', ''int''} then typeText v
      else und (typeText v))"

text \<open>
  The loop of \<open>inferColumn\<close> over the rows: the type all the values have, \<^const>\<open>None\<close> as soon as
  one is absent, nil or of another type.
\<close>

fun commonType :: "string \<Rightarrow> fields list \<Rightarrow> value option \<Rightarrow> value option option" where
  "commonType name [] t = Some t"
| "commonType name (m # ms) t =
     (case map_of m name of
        None \<Rightarrow> None
      | Some v \<Rightarrow>
          if v = VNil then None
          else case t of
              None \<Rightarrow> commonType name ms (Some v)
            | Some u \<Rightarrow> if typeText u \<noteq> typeText v then None else commonType name ms (Some u))"

definition inferColumn :: "(string \<Rightarrow> string) \<Rightarrow> string \<Rightarrow> fields list \<Rightarrow> anyColumn" where
  "inferColumn und name rows =
     (let untyped = AnyCol (NewTypedColumn name VNil [])
      in case commonType name rows None of
           None \<Rightarrow> untyped
         | Some None \<Rightarrow> untyped
         | Some (Some v) \<Rightarrow>
             (let k = kindOf und v
              in if k = ''float64'' then NewColumn ''float64'' name (VFloat ''float64'' 0) []
                 else if k = ''string'' then NewColumn ''string'' name (VString ''string'' []) []
                 else if k = ''bool'' then NewColumn ''bool'' name (VBool ''bool'' False) []
                 else if k = ''int'' then NewColumn ''int'' name (VInt ''int'' 0) []
                 else untyped))"

subsection \<open>Filling the recordset\<close>

text \<open>The inner loop: the error of \<open>SetValueByName\<close> is dropped, a panic is not.\<close>

fun fillRow ::
  "columnarRow \<Rightarrow> fields \<Rightarrow> string list \<Rightarrow> columnarRecordset \<Rightarrow> columnarRecordset goCall" where
  "fillRow row m [] rs = Return rs"
| "fillRow row m (name # names) rs =
     (case map_of m name of
        None \<Rightarrow> fillRow row m names rs
      | Some v \<Rightarrow>
          (case setValueByName row name v rs of
             Panics \<Rightarrow> Panics
           | Fails e \<Rightarrow> fillRow row m names rs
           | Return rs' \<Rightarrow> fillRow row m names rs'))"

fun fillRows :: "fields list \<Rightarrow> string list \<Rightarrow> columnarRecordset \<Rightarrow> columnarRecordset goCall" where
  "fillRows [] names rs = Return rs"
| "fillRows (m # ms) names rs =
     bindCall (newRow rs) (\<lambda>(row, rs'). bindCall (fillRow row m names rs') (fillRows ms names))"

definition recordsetName :: "'d structuredQuery \<Rightarrow> (string \<Rightarrow> string) list \<Rightarrow> string" where
  "recordsetName q opts =
     (if NewOptions opts \<noteq> [] then NewOptions opts else sourceName (fromBase (qFrom q)))"

definition pivot ::
  "(string \<Rightarrow> string) \<Rightarrow> string \<Rightarrow> string list \<Rightarrow> fields list \<Rightarrow> columnarRecordset goCall" where
  "pivot und rsName1 colNames rows =
     fillRows rows colNames
       (NewColumnarRecordset rsName1 (map (\<lambda>name. inferColumn und name rows) colNames))"

subsection \<open>The reader\<close>

record columnarReader =
  crRecordset :: columnarRecordset
  crPos :: nat

text \<open>
  \<open>Next\<close>: the row, with the recordset. \<open>GetRow\<close> is called in range and is never nil.
\<close>

definition columnarNext :: "columnarReader \<Rightarrow> (readErr + columnarRow option) \<times> columnarReader" where
  "columnarNext r =
     (if crPos r \<ge> rsRowsCount (crRecordset r) then (Inl ErrNoMoreRecords, r)
      else (Inr (getRow (crRecordset r) (int (crPos r))), r\<lparr>crPos := crPos r + 1\<rparr>))"

definition columnarReaderOps :: "(columnarReader, columnarRow option) readerOps" where
  "columnarReaderOps =
     \<lparr>rNext = columnarNext, rCursor = (\<lambda>r. Inr []), rClose = (\<lambda>r. (None, r))\<rparr>"

definition buildRecordsetReader ::
  "('d, 'c) sessionEnv \<Rightarrow> 'd pivotEnv \<Rightarrow> textEnv \<Rightarrow> 'd structuredQuery \<Rightarrow>
    ('s, key \<times> 'd resultData) readerOps \<Rightarrow> ctx \<Rightarrow> 's \<Rightarrow> (string \<Rightarrow> string) list \<Rightarrow>
    (pivotError + columnarReader) option" where
  "buildRecordsetReader env penv tenv q ops ctx reader opts =
     (case ReadAllToRecords ops ctx [] reader of
        None \<Rightarrow> None
      | Some (Panics, s) \<Rightarrow> Some (Inl PivotPanic)
      | Some (Fails e, s) \<Rightarrow> Some (Inl PivotPanic)
      | Some (Return (Some err, records), s) \<Rightarrow> Some (Inl (ReadFailed err))
      | Some (Return (None, records), s) \<Rightarrow>
          (case recordsToMaps env penv records of
             None \<Rightarrow> Some (Inl ConversionFailed)
           | Some rows \<Rightarrow>
               (case pivot (underlying penv) (recordsetName q opts)
                   (recordsetColumnNames tenv q rows) rows of
                  Return rs \<Rightarrow> Some (Inr \<lparr>crRecordset = rs, crPos = 0\<rparr>)
                | _ \<Rightarrow> Some (Inl PivotPanic))))"

definition ExecuteQueryToRecordsetReader ::
  "('d, 'c) sessionEnv \<Rightarrow> 'c queryEnv \<Rightarrow> 'd pivotEnv \<Rightarrow> ctx \<Rightarrow> ('d, 'c) session \<Rightarrow>
    'd structuredQuery option \<Rightarrow> (string \<Rightarrow> string) list \<Rightarrow>
    ('d, 'c) session \<times> (pivotError + columnarReader) option" where
  "ExecuteQueryToRecordsetReader env qenv penv ctx s query opts =
     (case allowRead s of
        Some e \<Rightarrow> (s, Some (Inl (QueryFailed (StoreError e))))
      | None \<Rightarrow>
          (case query of
             None \<Rightarrow> (s, Some (Inl (QueryFailed NotSupported)))
           | Some q \<Rightarrow>
               (case ExecuteQueryToRecordsReader env qenv s (Some q) of
                  (s', Inl err) \<Rightarrow> (s', Some (Inl (QueryFailed err)))
                | (s', Inr records) \<Rightarrow>
                    (s', buildRecordsetReader env penv (exprText qenv) q sliceReader ctx
                           (NewRecordsReader (Some records)) opts))))"

section \<open>Filling rows\<close>

text \<open>What the first column of a name holds: its label and its cells.\<close>

definition lookupColumn ::
  "columnarRecordset \<Rightarrow> string \<Rightarrow> ((string \<times> value \<times> string option \<times> bool \<times> bool) \<times> value list) option" where
  "lookupColumn rs name = map_option (\<lambda>c. (columnLabel c, cellsOf c)) (getColumnByName (rsCols rs) name)"

lemma map_label_update:
  "j < length cs \<Longrightarrow> columnLabel c = columnLabel (cs ! j) \<Longrightarrow>
    map columnLabel (cs[j := c]) = map columnLabel cs"
  by (metis list_update_id map_update)

text \<open>A column that takes what the row holds under its name.\<close>

definition takes :: "columnarRecordset \<Rightarrow> fields \<Rightarrow> string \<Rightarrow> bool" where
  "takes rs m name =
     (case getColumnByName (rsCols rs) name of
        None \<Rightarrow> False
      | Some c \<Rightarrow> \<not> isComputed c \<and> (case map_of m name of None \<Rightarrow> True | Some v \<Rightarrow> acceptsValue c v))"

lemma setValueByName_lookup:
  assumes "recordsetOk rs" and "i < rsRowsCount rs" and "rowIndex row = int i"
    and "takes rs m name" and "map_of m name = Some v"
  shows "\<exists>rs'. setValueByName row name v rs = Return rs' \<and> recordsetOk rs' \<and>
    rsRowsCount rs' = rsRowsCount rs \<and> map columnLabel (rsCols rs') = map columnLabel (rsCols rs) \<and>
    lookupColumn rs' = (\<lambda>n. map_option (\<lambda>(l, cs). (l, if n = name then cs[i := v] else cs)) (lookupColumn rs n))"
proof -
  let ?k = "nat (getColumnIndex (rsCols rs) name)"
  obtain c where c: "getColumnByName (rsCols rs) name = Some c" "\<not> isComputed c" "acceptsValue c v"
    using assms(4,5) by (auto simp: takes_def split: option.splits)
  obtain c' where c': "setValueByName row name v rs = Return (rs\<lparr>rsCols := (rsCols rs)[?k := c']\<rparr>)"
    "columnOk (rsRowsCount rs) c'" "columnLabel c' = columnLabel c" "cellsOf c' = (cellsOf c)[i := v]"
    using setValueByName_cell [OF assms(1,2) c assms(3)] by blast
  have g: "0 \<le> getColumnIndex (rsCols rs) name" and ck: "c = rsCols rs ! ?k"
    using c(1) by (auto simp: getColumnByName_index split: if_splits)
  have "recordsetOk (rs\<lparr>rsCols := (rsCols rs)[?k := c']\<rparr>)"
    using assms(1) c'(2) by (auto simp: recordsetOk_def list_all_iff dest!: set_update_subset_insert [THEN subsetD])
  moreover have "map columnLabel ((rsCols rs)[?k := c']) = map columnLabel (rsCols rs)"
    using getColumnIndex_bounds(1) [OF g] c'(3) ck by (intro map_label_update) simp_all
  moreover have "lookupColumn (rs\<lparr>rsCols := (rsCols rs)[?k := c']\<rparr>) n =
      map_option (\<lambda>(l, cs). (l, if n = name then cs[i := v] else cs)) (lookupColumn rs n)" for n
    using getColumnByName_update [OF g, of c' n] c' c(1) ck
    by (auto simp: lookupColumn_def columnLabel_def option.map_comp comp_def map_option_case split: option.splits)
  ultimately show ?thesis using c'(1) by auto
qed

lemma takes_label:
  assumes "lookupColumn rs' name = map_option (\<lambda>(l, cs). (l, f cs)) (lookupColumn rs name)" and "takes rs m name"
  shows "takes rs' m name"
proof -
  obtain c where c: "getColumnByName (rsCols rs) name = Some c" "\<not> isComputed c"
    "case map_of m name of None \<Rightarrow> True | Some v \<Rightarrow> acceptsValue c v"
    using assms(2) by (auto simp: takes_def split: option.splits)
  then obtain c' where c': "getColumnByName (rsCols rs') name = Some c'" "columnLabel c' = columnLabel c"
    using assms(1) by (auto simp: lookupColumn_def)
  then show ?thesis
    using c acceptsValue_label [OF c'(2)] by (auto simp: takes_def columnLabel_def split: option.splits)
qed

lemma fillRow_lookup:
  assumes "recordsetOk rs" and "i < rsRowsCount rs" and "rowIndex row = int i"
    and "list_all (takes rs m) names"
  shows "\<exists>rs'. fillRow row m names rs = Return rs' \<and> recordsetOk rs' \<and>
    rsRowsCount rs' = rsRowsCount rs \<and> map columnLabel (rsCols rs') = map columnLabel (rsCols rs) \<and>
    lookupColumn rs' = (\<lambda>n. map_option (\<lambda>(l, cs).
      (l, if n \<in> set names then (case map_of m n of None \<Rightarrow> cs | Some v \<Rightarrow> cs[i := v]) else cs)) (lookupColumn rs n))"
  using assms
proof (induction names arbitrary: rs)
  case Nil
  then show ?case by (simp add: fun_eq_iff option.map_ident case_prod_beta)
next
  case (Cons name names)
  show ?case
  proof (cases "map_of m name")
    case None
    then show ?thesis
      using Cons.IH [of rs] Cons.prems by (fastforce simp: fun_eq_iff intro: option.map_cong)
  next
    case (Some v)
    obtain rs1 where rs1: "setValueByName row name v rs = Return rs1" "recordsetOk rs1"
      "rsRowsCount rs1 = rsRowsCount rs" "map columnLabel (rsCols rs1) = map columnLabel (rsCols rs)"
      "lookupColumn rs1 = (\<lambda>n. map_option (\<lambda>(l, cs). (l, if n = name then cs[i := v] else cs)) (lookupColumn rs n))"
      using setValueByName_lookup [OF Cons.prems(1-3) _ Some] Cons.prems(4) by auto
    have "list_all (takes rs1 m) names"
      using Cons.prems(4) rs1(5) takes_label [of rs1 _ _ rs m] by (fastforce simp: list_all_iff)
    then obtain rs2 where "fillRow row m names rs1 = Return rs2" "recordsetOk rs2"
      "rsRowsCount rs2 = rsRowsCount rs1" "map columnLabel (rsCols rs2) = map columnLabel (rsCols rs1)"
      "lookupColumn rs2 = (\<lambda>n. map_option (\<lambda>(l, cs).
        (l, if n \<in> set names then (case map_of m n of None \<Rightarrow> cs | Some v \<Rightarrow> cs[i := v]) else cs)) (lookupColumn rs1 n))"
      using Cons.IH [of rs1] rs1 Cons.prems(2,3) by auto
    then show ?thesis
      using rs1 Some by (auto simp: fun_eq_iff option.map_comp comp_def case_prod_beta intro!: option.map_cong)
  qed
qed

lemma getColumnByName_rel:
  assumes "list_all2 (\<lambda>c c'. columnLabel c' = columnLabel c \<and> R c c') cs cs'"
  shows "rel_option (\<lambda>c c'. columnLabel c' = columnLabel c \<and> R c c') (getColumnByName cs name) (getColumnByName cs' name)"
  using assms by (induction rule: list_all2_induct) (auto simp: columnLabel_def)

lemma newRow_lookup:
  assumes "recordsetOk rs" and "list_all (\<lambda>c. \<not> isBitmap c) (rsCols rs)"
  shows "\<exists>rs'. newRow rs = Return (\<lparr>rowIndex = int (rsRowsCount rs), rowMemo = []\<rparr>, rs') \<and>
    recordsetOk rs' \<and> rsRowsCount rs' = rsRowsCount rs + 1 \<and>
    map columnLabel (rsCols rs') = map columnLabel (rsCols rs) \<and>
    (\<forall>n c. getColumnByName (rsCols rs) n = Some c \<and> \<not> isComputed c \<longrightarrow>
      lookupColumn rs' n = Some (columnLabel c, cellsOf c @ [defaultOf c]))"
proof -
  define R where "R = (\<lambda>c c'. if isComputed c then c' = c else cellsOf c' = cellsOf c @ [defaultOf c])"
  obtain rs' where rs': "newRow rs = Return (\<lparr>rowIndex = int (rsRowsCount rs), rowMemo = []\<rparr>, rs')"
    "recordsetOk rs'" "rsRowsCount rs' = rsRowsCount rs + 1"
    "list_all2 (\<lambda>c c'. columnLabel c' = columnLabel c \<and> R c c') (rsCols rs) (rsCols rs')"
    using newRow_ok [OF assms(1)] assms(2) unfolding R_def by blast
  have "map columnLabel (rsCols rs') = map columnLabel (rsCols rs)"
    using rs'(4) by (induction rule: list_all2_induct) simp_all
  moreover have "lookupColumn rs' n = Some (columnLabel c, cellsOf c @ [defaultOf c])"
    if "getColumnByName (rsCols rs) n = Some c" "\<not> isComputed c" for n c
    using getColumnByName_rel [OF rs'(4), of n] that
    by (auto simp: lookupColumn_def option_rel_Some1 R_def)
  ultimately show ?thesis using rs' by blast
qed

text \<open>The value a row shows under a name: its own, or nil.\<close>

definition cellAt :: "string \<Rightarrow> fields \<Rightarrow> value" where
  "cellAt name m = (case map_of m name of None \<Rightarrow> VNil | Some v \<Rightarrow> v)"

text \<open>A column fit for all the rows: it takes their values, and its default stands for their gaps.\<close>

definition fits :: "fields list \<Rightarrow> string \<Rightarrow> anyColumn \<Rightarrow> bool" where
  "fits ms name c =
     (\<not> isComputed c \<and>
      list_all (\<lambda>m. case map_of m name of None \<Rightarrow> defaultOf c = VNil | Some v \<Rightarrow> acceptsValue c v) ms)"

lemma fits_label:
  assumes "columnLabel c' = columnLabel c"
  shows "fits ms name c' = fits ms name c"
proof -
  have eq: "isComputed c' = isComputed c" "defaultOf c' = defaultOf c"
    using assms by (simp_all add: columnLabel_def)
  show ?thesis unfolding fits_def acceptsValue_label [OF assms] eq ..
qed

lemma fillRows_lookup:
  assumes "recordsetOk rs" and "list_all (\<lambda>c. \<not> isBitmap c) (rsCols rs)"
    and "\<forall>name \<in> set names. \<exists>c. getColumnByName (rsCols rs) name = Some c \<and> fits ms name c"
  shows "\<exists>rs'. fillRows ms names rs = Return rs' \<and> recordsetOk rs' \<and>
    rsRowsCount rs' = rsRowsCount rs + length ms \<and>
    map columnLabel (rsCols rs') = map columnLabel (rsCols rs) \<and>
    (\<forall>name \<in> set names. \<forall>c. getColumnByName (rsCols rs) name = Some c \<longrightarrow>
      lookupColumn rs' name = Some (columnLabel c, cellsOf c @ map (cellAt name) ms))"
  using assms
proof (induction ms arbitrary: rs)
  case Nil
  then show ?case by (auto simp: lookupColumn_def)
next
  case (Cons m ms)
  let ?n = "rsRowsCount rs" and ?row = "\<lparr>rowIndex = int (rsRowsCount rs), rowMemo = []\<rparr>"
  obtain rs1 where rs1: "newRow rs = Return (?row, rs1)" "recordsetOk rs1" "rsRowsCount rs1 = ?n + 1"
    "map columnLabel (rsCols rs1) = map columnLabel (rsCols rs)"
    "\<And>n c. getColumnByName (rsCols rs) n = Some c \<Longrightarrow> \<not> isComputed c \<Longrightarrow>
      lookupColumn rs1 n = Some (columnLabel c, cellsOf c @ [defaultOf c])"
    using newRow_lookup [OF Cons.prems(1,2)] by metis
  have look1: "\<exists>c c1. getColumnByName (rsCols rs) name = Some c \<and> fits (m # ms) name c \<and>
      getColumnByName (rsCols rs1) name = Some c1 \<and> columnLabel c1 = columnLabel c \<and>
      cellsOf c1 = cellsOf c @ [defaultOf c] \<and> length (cellsOf c) = ?n" if nm: "name \<in> set names" for name
  proof -
    obtain c where c: "getColumnByName (rsCols rs) name = Some c" "fits (m # ms) name c"
      using Cons.prems(3) nm by blast
    then have "storedOk c \<and> length (cellsOf c) = ?n"
      using Cons.prems(1) getColumnByName_set [OF c(1)]
      by (auto simp: recordsetOk_def list_all_iff columnOk_def fits_def)
    then show ?thesis using c rs1(5) [OF c(1)] by (auto simp: lookupColumn_def fits_def)
  qed
  have "list_all (takes rs1 m) names"
    unfolding list_all_iff
  proof
    fix name assume "name \<in> set names"
    then obtain c c1 where "fits (m # ms) name c" "getColumnByName (rsCols rs1) name = Some c1"
      "columnLabel c1 = columnLabel c" using look1 by blast
    then show "takes rs1 m name"
      using acceptsValue_label [of c1 c] by (auto simp: takes_def fits_def columnLabel_def split: option.splits)
  qed
  then obtain rs2 where rs2: "fillRow ?row m names rs1 = Return rs2" "recordsetOk rs2"
    "rsRowsCount rs2 = ?n + 1" "map columnLabel (rsCols rs2) = map columnLabel (rsCols rs1)"
    "lookupColumn rs2 = (\<lambda>n. map_option (\<lambda>(l, cs).
      (l, if n \<in> set names then (case map_of m n of None \<Rightarrow> cs | Some v \<Rightarrow> cs[?n := v]) else cs)) (lookupColumn rs1 n))"
    using fillRow_lookup [OF rs1(2), of ?n ?row m names] rs1(3) by auto
  have look2: "\<exists>c c2. getColumnByName (rsCols rs) name = Some c \<and> fits (m # ms) name c \<and>
      getColumnByName (rsCols rs2) name = Some c2 \<and> columnLabel c2 = columnLabel c \<and>
      cellsOf c2 = cellsOf c @ [cellAt name m]" if name: "name \<in> set names" for name
  proof -
    obtain c c1 where c: "getColumnByName (rsCols rs) name = Some c" "fits (m # ms) name c"
      "getColumnByName (rsCols rs1) name = Some c1" "columnLabel c1 = columnLabel c"
      "cellsOf c1 = cellsOf c @ [defaultOf c]" "length (cellsOf c) = ?n"
      using look1 [OF name] by blast
    have "lookupColumn rs2 name = Some (columnLabel c, cellsOf c @ [cellAt name m])"
      using rs2(5) c name by (auto simp: lookupColumn_def cellAt_def fits_def list_update_append split: option.splits)
    then show ?thesis using c(1,2) by (auto simp: lookupColumn_def)
  qed
  have "list_all (\<lambda>c. \<not> isBitmap c) (rsCols rs2)"
  proof -
    have b: "map isBitmap (rsCols rs2) = map isBitmap (rsCols rs)"
      using arg_cong [OF trans [OF rs2(4) rs1(4)], of "map (\<lambda>(n, d, t, c, b). b)"]
      by (simp add: columnLabel_def comp_def)
    have "list_all Not (map isBitmap (rsCols rs2))"
      unfolding b using Cons.prems(2) by (simp add: list.pred_map comp_def)
    then show ?thesis by (simp add: list.pred_map comp_def)
  qed
  moreover have "\<forall>name \<in> set names. \<exists>c. getColumnByName (rsCols rs2) name = Some c \<and> fits ms name c"
  proof
    fix name assume "name \<in> set names"
    then obtain c c2 where c: "fits (m # ms) name c" "getColumnByName (rsCols rs2) name = Some c2"
      "columnLabel c2 = columnLabel c" using look2 by blast
    have "fits ms name c2" using c(1) fits_label [OF c(3), of ms name] by (simp add: fits_def)
    then show "\<exists>c. getColumnByName (rsCols rs2) name = Some c \<and> fits ms name c" using c(2) by blast
  qed
  ultimately obtain rs3 where rs3: "fillRows ms names rs2 = Return rs3" "recordsetOk rs3"
    "rsRowsCount rs3 = rsRowsCount rs2 + length ms" "map columnLabel (rsCols rs3) = map columnLabel (rsCols rs2)"
    "\<And>name c. name \<in> set names \<Longrightarrow> getColumnByName (rsCols rs2) name = Some c \<Longrightarrow>
      lookupColumn rs3 name = Some (columnLabel c, cellsOf c @ map (cellAt name) ms)"
    using Cons.IH [OF rs2(2)] by blast
  have "lookupColumn rs3 name = Some (columnLabel c, cellsOf c @ map (cellAt name) (m # ms))"
    if "name \<in> set names" "getColumnByName (rsCols rs) name = Some c" for name c
    using look2 [OF that(1)] rs3(5) [OF that(1)] that(2) by auto
  then show ?case
    using rs1 rs2 rs3 by auto
qed

section \<open>The inferred columns\<close>

definition typedAs :: "string \<Rightarrow> value \<Rightarrow> fields \<Rightarrow> bool" where
  "typedAs name v m =
     (case map_of m name of None \<Rightarrow> False | Some w \<Rightarrow> w \<noteq> VNil \<and> typeText w = typeText v)"

lemma commonType_Some:
  "commonType name ms t = Some (Some v) \<Longrightarrow>
    (case t of None \<Rightarrow> True | Some u \<Rightarrow> typeText u = typeText v) \<and> list_all (typedAs name v) ms"
  by (induction name ms t rule: commonType.induct)
    (auto simp: typedAs_def split: option.splits if_splits)

text \<open>A value of one of the four kinds that get a typed column is of the predeclared type itself.\<close>

definition plainKind :: "(string \<Rightarrow> string) \<Rightarrow> value \<Rightarrow> bool" where
  "plainKind und v =
     (typeText v \<in> {''float64'', ''string'', ''bool'', ''int''} \<or>
      und (typeText v) \<notin> {''float64'', ''string'', ''bool'', ''int''})"

definition plainRows :: "(string \<Rightarrow> string) \<Rightarrow> fields list \<Rightarrow> bool" where
  "plainRows und ms = list_all (list_all (\<lambda>(k, v). plainKind und v)) ms"

lemma commonType_source:
  "commonType name ms t = Some (Some v) \<Longrightarrow> t = Some v \<or> (\<exists>m \<in> set ms. map_of m name = Some v)"
  by (induction name ms t rule: commonType.induct) (auto split: option.splits if_splits)

lemma fits_untyped: "fits ms name (AnyCol (NewTypedColumn name VNil []))"
  by (auto simp: fits_def NewTypedColumn_def acceptsValue_def assertedType_def list_all_iff split: option.split)

lemma fits_typed:
  assumes "commonType name ms None = Some (Some v)" and "typeText v = t" and "t \<noteq> ''interface {}''"
  shows "fits ms name (NewColumn t name d [])"
  using commonType_Some [OF assms(1)] assms(2,3)
  by (auto simp: fits_def typedAs_def NewColumn_def NewTypedColumn_def acceptsValue_def assertedType_def
      hasType_def list_all_iff split: option.splits)

lemma inferColumn_fits:
  assumes "plainRows und ms"
  shows "fits ms name (inferColumn und name ms)"
proof (cases "commonType name ms None")
  case (Some t)
  show ?thesis
  proof (cases t)
    case (Some v)
    then have v: "commonType name ms None = Some (Some v)" using \<open>commonType name ms None = Some t\<close> by simp
    then obtain m where "m \<in> set ms" "map_of m name = Some v" using commonType_source [OF v] by auto
    then have "plainKind und v"
      using assms by (fastforce simp: plainRows_def list_all_iff dest: map_of_SomeD)
    then have "kindOf und v \<in> {''float64'', ''string'', ''bool'', ''int''} \<Longrightarrow> typeText v = kindOf und v"
      by (auto simp: plainKind_def kindOf_def)
    then show ?thesis
      using v fits_typed [OF v] fits_untyped by (auto simp: inferColumn_def Let_def)
  qed (use \<open>commonType name ms None = Some t\<close> fits_untyped in \<open>simp add: inferColumn_def Let_def\<close>)
qed (simp add: inferColumn_def Let_def fits_untyped)

lemma inferColumn_start:
  "nameOf (inferColumn und name ms) = name \<and> \<not> isBitmap (inferColumn und name ms) \<and>
    columnOk 0 (inferColumn und name ms) \<and> cellsOf (inferColumn und name ms) = []"
  by (simp add: inferColumn_def Let_def NewColumn_def NewTypedColumn_def columnOk_def any_column_defs hasType_def
      split: option.split)

lemma getColumnByName_infer:
  "name \<in> set names \<Longrightarrow>
    getColumnByName (map (\<lambda>n. inferColumn und n ms) names) name = Some (inferColumn und name ms)"
  by (induction names) (auto simp: inferColumn_start)

text \<open>
  Pivoting rows never panics and loses nothing, when no value is of a declared type whose kind is a
  float, string, bool or int.
\<close>

lemma pivot_cells:
  assumes "plainRows und rows"
  shows "\<exists>rs. pivot und name colNames rows = Return rs \<and> recordsetOk rs \<and>
    rsRowsCount rs = length rows \<and> map nameOf (rsCols rs) = colNames \<and>
    list_all (\<lambda>i. list_all (\<lambda>n.
      fst (getValueByName \<lparr>rowIndex = int i, rowMemo = []\<rparr> n rs) = Return (cellAt n (rows ! i))) colNames)
      [0..<length rows]"
proof -
  let ?rs0 = "NewColumnarRecordset name (map (\<lambda>n. inferColumn und n rows) colNames)"
  have ok: "recordsetOk ?rs0" and nb: "list_all (\<lambda>c. \<not> isBitmap c) (rsCols ?rs0)"
    by (auto simp: NewColumnarRecordset_def recordsetOk_def list_all_iff inferColumn_start)
  have col: "getColumnByName (rsCols ?rs0) n = Some (inferColumn und n rows)" if "n \<in> set colNames" for n
    using getColumnByName_infer [OF that] by (simp add: NewColumnarRecordset_def)
  have "\<exists>rs'. fillRows rows colNames ?rs0 = Return rs' \<and> recordsetOk rs' \<and>
    rsRowsCount rs' = rsRowsCount ?rs0 + length rows \<and>
    map columnLabel (rsCols rs') = map columnLabel (rsCols ?rs0) \<and>
    (\<forall>n \<in> set colNames. \<forall>c. getColumnByName (rsCols ?rs0) n = Some c \<longrightarrow>
      lookupColumn rs' n = Some (columnLabel c, cellsOf c @ map (cellAt n) rows))"
    using col inferColumn_fits [OF assms] by (intro fillRows_lookup [OF ok nb]) auto
  then obtain rs where rs: "fillRows rows colNames ?rs0 = Return rs" "recordsetOk rs"
    "rsRowsCount rs = rsRowsCount ?rs0 + length rows"
    "map columnLabel (rsCols rs) = map columnLabel (rsCols ?rs0)"
    "\<forall>n \<in> set colNames. \<forall>c. getColumnByName (rsCols ?rs0) n = Some c \<longrightarrow>
      lookupColumn rs n = Some (columnLabel c, cellsOf c @ map (cellAt n) rows)"
    by (elim exE conjE) (rule that)
  have names: "map nameOf (rsCols rs) = colNames"
    using arg_cong [OF rs(4), of "map fst"]
    by (simp add: columnLabel_def comp_def NewColumnarRecordset_def inferColumn_start)
  have count: "rsRowsCount rs = length rows" using rs(3) by (simp add: NewColumnarRecordset_def)
  have "fst (getValueByName \<lparr>rowIndex = int i, rowMemo = []\<rparr> n rs) = Return (cellAt n (rows ! i))"
    if n: "n \<in> set colNames" and i: "i < length rows" for n i
  proof -
    obtain c where c: "getColumnByName (rsCols rs) n = Some c"
      "columnLabel c = columnLabel (inferColumn und n rows)" "cellsOf c = map (cellAt n) rows"
      using rs(5) [rule_format, OF n col [OF n]] inferColumn_start [of und n rows]
      by (auto simp: lookupColumn_def)
    have "\<not> isComputed c"
      using c(2) inferColumn_fits [OF assms, of n] by (simp add: columnLabel_def fits_def)
    then show ?thesis
      using getValueByName_cell [OF rs(2) _ c(1)] c(3) i count by simp
  qed
  then show ?thesis
    using rs(1,2) count names by (simp add: pivot_def list_all_iff)
qed

section \<open>Queries as recordsets\<close>

lemma recordsToMaps_length: "recordsToMaps env penv rs = Some rows \<Longrightarrow> length rows = length rs"
  by (induction rs arbitrary: rows) (auto split: option.splits)

lemma selected_all: "selected (newReaderOptions []) rs = rs"
  by (simp add: selected_def newReaderOptions_def)

text \<open>C10: A structured query answered as a recordset shows exactly the records the same query gives as
  records: one row for each record, in their order, a column for each column name, and in every
  cell the value the record has under that name, or nil where it has none. It holds for results
  without values of a declared type whose kind is a float, string, bool or int; such a value makes
  the pivot panic.
\<close>

theorem query_recordset_cells:
  assumes "ExecuteQueryToRecordsReader env qenv s (Some q) = (s', Inr records)"
    and "recordsToMaps env penv records = Some rows"
    and "plainRows (underlying penv) rows"
  shows "\<exists>rs. ExecuteQueryToRecordsetReader env qenv penv (\<lambda>_. None) s (Some q) opts =
      (s', Some (Inr \<lparr>crRecordset = rs, crPos = 0\<rparr>)) \<and>
    rsRowsCount rs = length records \<and>
    map nameOf (rsCols rs) = recordsetColumnNames (exprText qenv) q rows \<and>
    list_all (\<lambda>i. list_all (\<lambda>n.
      fst (getValueByName \<lparr>rowIndex = int i, rowMemo = []\<rparr> n rs) = Return (cellAt n (rows ! i)))
        (recordsetColumnNames (exprText qenv) q rows)) [0..<length records]"
proof -
  obtain t where "ReadAllToRecords sliceReader (\<lambda>_. None) [] (NewRecordsReader (Some records)) =
      Some (Return (None, records), t)"
    using sliceReader_read_all [of "[]" records] by (auto simp: selected_all)
  moreover have "allowRead s = None"
    using assms(1) by (auto simp: ExecuteQueryToRecordsReader_def split: option.splits)
  ultimately show ?thesis
    using pivot_cells [OF assms(3), of "recordsetName q opts" "recordsetColumnNames (exprText qenv) q rows"]
      recordsToMaps_length [OF assms(2)] assms(1,2)
    by (auto simp: ExecuteQueryToRecordsetReader_def buildRecordsetReader_def)
qed

definition byQuery :: "fields structuredQuery" where
  "byQuery = (fromNotes [])\<lparr>qColumns := [\<lparr>colAlias = [], colExpression = Field ''by''\<rparr>]\<rparr>"

abbreviation samplePivotEnv :: "fields pivotEnv" where
  "samplePivotEnv \<equiv> \<lparr>asMap = Some, underlying = (\<lambda>t. ''struct'')\<rparr>"

theorem query_recordset_cells_witness:
  "\<exists>rs s'. ExecuteQueryToRecordsetReader sampleSessionEnv sampleQueryEnv samplePivotEnv (\<lambda>_. None)
      notesSession (Some byQuery) [] = (s', Some (Inr \<lparr>crRecordset = rs, crPos = 0\<rparr>)) \<and>
    rsRowsCount rs = 2 \<and> map nameOf (rsCols rs) = [''by''] \<and>
    fst (getValueByName \<lparr>rowIndex = 1, rowMemo = []\<rparr> ''by'' rs) = Return (VString ''string'' ''ann'')"
proof -
  define out where "out = ExecuteQueryToRecordsReader sampleSessionEnv sampleQueryEnv notesSession (Some byQuery)"
  have "snd out = Inr
      [(Key ''notes'' (goStr ''n1'') None, Projected [(''by'', VString ''string'' ''bob'')]),
       (Key ''notes'' (goStr ''n2'') None, Projected [(''by'', VString ''string'' ''ann'')])]"
    unfolding out_def by code_simp
  then have r: "ExecuteQueryToRecordsReader sampleSessionEnv sampleQueryEnv notesSession (Some byQuery) =
      (fst out, Inr
      [(Key ''notes'' (goStr ''n1'') None, Projected [(''by'', VString ''string'' ''bob'')]),
       (Key ''notes'' (goStr ''n2'') None, Projected [(''by'', VString ''string'' ''ann'')])])"
    by (metis out_def prod.collapse)
  have m: "recordsToMaps sampleSessionEnv samplePivotEnv
      [(Key ''notes'' (goStr ''n1'') None, Projected [(''by'', VString ''string'' ''bob'')]),
       (Key ''notes'' (goStr ''n2'') None, Projected [(''by'', VString ''string'' ''ann'')])] =
      Some [[(''by'', VString ''string'' ''bob'')], [(''by'', VString ''string'' ''ann'')]]"
    by (simp add: recordToMap_def)
  have p: "plainRows (underlying samplePivotEnv)
      [[(''by'', VString ''string'' ''bob'')], [(''by'', VString ''string'' ''ann'')]]"
    by (simp add: plainRows_def plainKind_def)
  have n: "recordsetColumnNames (exprText sampleQueryEnv) byQuery
      [[(''by'', VString ''string'' ''bob'')], [(''by'', VString ''string'' ''ann'')]] = [''by'']"
    by code_simp
  show ?thesis
    using query_recordset_cells [OF r m p, where opts = "[]"] n
    by (auto simp: cellAt_def list_all_iff)
qed

section \<open>Walking the rows\<close>

definition columnarRest :: "columnarReader \<Rightarrow> columnarRow option list" where
  "columnarRest r =
     map (\<lambda>i. Some \<lparr>rowIndex = int i, rowMemo = []\<rparr>) [crPos r..<rsRowsCount (crRecordset r)]"

interpretation rows: finite_reader columnarReaderOps columnarRest "\<lambda>r. crRecordset r = rs" for rs
proof unfold_locales
  fix s
  assume "crRecordset s = rs" and "columnarRest s = []"
  then show "\<exists>s'. rNext columnarReaderOps s = (Inl ErrNoMoreRecords, s') \<and> crRecordset s' = rs \<and> columnarRest s' = []"
    by (auto simp: columnarReaderOps_def columnarNext_def columnarRest_def)
next
  fix s r rest
  assume s: "crRecordset s = rs" and r: "columnarRest s = r # rest"
  have lt: "crPos s < rsRowsCount rs"
    using s r by (cases "crPos s < rsRowsCount rs") (simp_all add: columnarRest_def)
  then have "r = Some \<lparr>rowIndex = int (crPos s), rowMemo = []\<rparr>"
    "rest = map (\<lambda>i. Some \<lparr>rowIndex = int i, rowMemo = []\<rparr>) [Suc (crPos s)..<rsRowsCount rs]"
    using s r by (auto simp: columnarRest_def upt_conv_Cons)
  then show "\<exists>s'. rNext columnarReaderOps s = (Inr r, s') \<and> crRecordset s' = rs \<and> columnarRest s' = rest"
    using s lt by (auto simp: columnarReaderOps_def columnarNext_def columnarRest_def getRow_def)
next
  fix s
  show "fst (rClose columnarReaderOps s) = None" by (simp add: columnarReaderOps_def)
qed

text \<open>Reading a recordset of this adapter to its end always returns the whole recordset: offset and
  limit do not narrow it, they only decide the error. It is \<^const>\<open>ErrLimitReached\<close> exactly when
  a positive limit is reached within the rows that follow the offset, and none otherwise.
\<close>

theorem recordset_read_all:
  "ExecuteQueryAndReadAllToRecordset (Inr \<lparr>crRecordset = rs, crPos = 0\<rparr>) columnarReaderOps crRecordset (\<lambda>_. None) opts =
    Some (if 0 < roLimit (newReaderOptions opts) \<and>
        nat (roOffset (newReaderOptions opts)) + nat (roLimit (newReaderOptions opts)) \<le> rsRowsCount rs
      then Some ErrLimitReached else None, Some rs)"
proof -
  have "length (columnarRest \<lparr>crRecordset = rs, crPos = 0\<rparr>) = rsRowsCount rs"
    by (simp add: columnarRest_def)
  then show ?thesis
    using rows.read_rows_result [where s = "\<lparr>crRecordset = rs, crPos = 0\<rparr>" and rs = rs and recordsetOf = crRecordset and opts = opts]
    by (auto simp: columnarReaderOps_def)
qed

text \<open>A value of a declared string type makes the pivot panic.\<close>

lemma pivot_panics_on_declared_type:
  "pivot (\<lambda>t. ''string'') ''rs'' [''c''] [[(''c'', VString ''main.Color'' ''red'')]] = Panics"
proof -
  have "case pivot (\<lambda>t. ''string'') ''rs'' [''c''] [[(''c'', VString ''main.Color'' ''red'')]] of
      Panics \<Rightarrow> True | _ \<Rightarrow> False"
    by code_simp
  then show ?thesis by (simp split: goCall.splits)
qed

end
