(* ===== verification/MemoryHandle.thy ===== *)
theory MemoryHandle
  imports MemoryRecordset
begin

text \<open>
  The in-memory database as the handle an application holds (\<open>database.go\<close> of
  \<open>src/adapters/dalgo2memory\<close>): each method takes the mutex, runs the method of a session without
  transaction state, and releases the mutex. A method is a function from the database to the
  database and its result.
\<close>

section \<open>Definitions\<close>

definition locked ::
  "(('d, 'c) session \<Rightarrow> ('d, 'c) session \<times> 'r) \<Rightarrow> ('d, 'c) memoryDB \<Rightarrow> ('d, 'c) memoryDB \<times> 'r" where
  "locked method db = (case method \<lparr>sDB = db, sTx = None\<rparr> of (s, r) \<Rightarrow> (sDB s, r))"

definition dbID :: string where
  "dbID = ''dalgo2memory''"

definition dbExists :: "('d, 'c) sessionEnv \<Rightarrow> key \<Rightarrow> ('d, 'c) memoryDB \<Rightarrow> ('d, 'c) memoryDB \<times> (memError + bool)" where
  "dbExists env k = locked (\<lambda>s. sessionExists env s k)"

definition dbGet :: "('d, 'c) sessionEnv \<Rightarrow> 'd memRecord \<Rightarrow> ('d, 'c) memoryDB \<Rightarrow> ('d, 'c) memoryDB \<times> (memError + 'd)" where
  "dbGet env r = locked (\<lambda>s. sessionGet env s r)"

definition dbGetMulti ::
  "('d, 'c) sessionEnv \<Rightarrow> 'd memRecord list \<Rightarrow> ('d, 'c) memoryDB \<Rightarrow>
   ('d, 'c) memoryDB \<times> (memError + 'd) list \<times> memError option" where
  "dbGetMulti env rs = locked (\<lambda>s. sessionGetMulti env s rs)"

definition dbRecordsReader ::
  "('d, 'c) sessionEnv \<Rightarrow> 'c queryEnv \<Rightarrow> 'd structuredQuery option \<Rightarrow> ('d, 'c) memoryDB \<Rightarrow>
   ('d, 'c) memoryDB \<times> (queryError + (key \<times> 'd resultData) list)" where
  "dbRecordsReader env qenv query = locked (\<lambda>s. ExecuteQueryToRecordsReader env qenv s query)"

definition dbRecordsetReader ::
  "('d, 'c) sessionEnv \<Rightarrow> 'c queryEnv \<Rightarrow> 'd pivotEnv \<Rightarrow> ctx \<Rightarrow> 'd structuredQuery option \<Rightarrow>
   (string \<Rightarrow> string) list \<Rightarrow> ('d, 'c) memoryDB \<Rightarrow> ('d, 'c) memoryDB \<times> (pivotError + columnarReader) option" where
  "dbRecordsetReader env qenv penv ctx query opts =
     locked (\<lambda>s. ExecuteQueryToRecordsetReader env qenv penv ctx s query opts)"

definition dbSet :: "('d, 'c) sessionEnv \<Rightarrow> 'd memRecord \<Rightarrow> ('d, 'c) memoryDB \<Rightarrow> ('d, 'c) memoryDB \<times> memError option" where
  "dbSet env r = locked (\<lambda>s. sessionSet env s r)"

definition dbSetMulti ::
  "('d, 'c) sessionEnv \<Rightarrow> 'd memRecord list \<Rightarrow> ('d, 'c) memoryDB \<Rightarrow> ('d, 'c) memoryDB \<times> memError option" where
  "dbSetMulti env rs = locked (\<lambda>s. sessionSetMulti env s rs)"

text \<open>\<open>Insert\<close> also steps the state \<open>g\<close> of the generators and completes the key of the record.\<close>

definition dbInsert ::
  "('d, 'c) sessionEnv \<Rightarrow> (int \<Rightarrow> 'g \<Rightarrow> 'g \<times> string) \<Rightarrow> (key \<Rightarrow> memError option) \<Rightarrow>
   ('g, memError) InsertOption list \<Rightarrow> 'd memRecord \<Rightarrow> 'g \<Rightarrow> ('d, 'c) memoryDB \<Rightarrow>
   ('d, 'c) memoryDB \<times> 'g \<times> key \<times> memError insertError option" where
  "dbInsert env random validate opts r g =
     locked (\<lambda>s. case sessionInsert env random validate opts (s, g) r of ((s', g'), k, e) \<Rightarrow> (s', g', k, e))"

text \<open>\<open>validate r\<close> is the \<open>ValidateWithKey\<close> of the data of \<open>r\<close>.\<close>

fun sessionInsertMulti ::
  "('d, 'c) sessionEnv \<Rightarrow> (int \<Rightarrow> 'g \<Rightarrow> 'g \<times> string) \<Rightarrow> ('d memRecord \<Rightarrow> key \<Rightarrow> memError option) \<Rightarrow>
   ('g, memError) InsertOption list \<Rightarrow> ('d, 'c) session \<times> 'g \<Rightarrow> 'd memRecord list \<Rightarrow>
   (('d, 'c) session \<times> 'g) \<times> key list \<times> memError insertError option" where
  "sessionInsertMulti env random validate opts st [] = (st, [], None)"
| "sessionInsertMulti env random validate opts st (r # rs) =
     (case sessionInsert env random (validate r) opts st r of
        (st1, k, Some e) \<Rightarrow> (st1, [k], Some e)
      | (st1, k, None) \<Rightarrow>
          (case sessionInsertMulti env random validate opts st1 rs of (st2, ks, e) \<Rightarrow> (st2, k # ks, e)))"

definition dbInsertMulti ::
  "('d, 'c) sessionEnv \<Rightarrow> (int \<Rightarrow> 'g \<Rightarrow> 'g \<times> string) \<Rightarrow> ('d memRecord \<Rightarrow> key \<Rightarrow> memError option) \<Rightarrow>
   ('g, memError) InsertOption list \<Rightarrow> 'd memRecord list \<Rightarrow> 'g \<Rightarrow> ('d, 'c) memoryDB \<Rightarrow>
   ('d, 'c) memoryDB \<times> 'g \<times> key list \<times> memError insertError option" where
  "dbInsertMulti env random validate opts rs g =
     locked (\<lambda>s. case sessionInsertMulti env random validate opts (s, g) rs of ((s', g'), ks, e) \<Rightarrow> (s', g', ks, e))"

definition dbDelete :: "('d, 'c) sessionEnv \<Rightarrow> key \<Rightarrow> ('d, 'c) memoryDB \<Rightarrow> ('d, 'c) memoryDB \<times> memError option" where
  "dbDelete env k = locked (\<lambda>s. sessionDelete env s k)"

definition dbDeleteMulti :: "('d, 'c) sessionEnv \<Rightarrow> key list \<Rightarrow> ('d, 'c) memoryDB \<Rightarrow> ('d, 'c) memoryDB \<times> memError option" where
  "dbDeleteMulti env ks = locked (\<lambda>s. sessionDeleteMulti env s ks)"

definition dbUpdate ::
  "('d, 'c) sessionEnv \<Rightarrow> key \<Rightarrow> fieldUpdate list \<Rightarrow> ('d, 'c) memoryDB \<Rightarrow> ('d, 'c) memoryDB \<times> memError option" where
  "dbUpdate env k updates = locked (\<lambda>s. sessionUpdate env s k updates)"

text \<open>\<open>UpdateRecord\<close> uses the key of the record only.\<close>

definition dbUpdateRecord ::
  "('d, 'c) sessionEnv \<Rightarrow> 'd memRecord \<Rightarrow> fieldUpdate list \<Rightarrow> ('d, 'c) memoryDB \<Rightarrow> ('d, 'c) memoryDB \<times> memError option" where
  "dbUpdateRecord env r updates = locked (\<lambda>s. sessionUpdate env s (recKey r) updates)"

definition dbUpdateMulti ::
  "('d, 'c) sessionEnv \<Rightarrow> key list \<Rightarrow> fieldUpdate list \<Rightarrow> ('d, 'c) memoryDB \<Rightarrow> ('d, 'c) memoryDB \<times> memError option" where
  "dbUpdateMulti env ks updates = locked (\<lambda>s. sessionUpdateMulti env updates s ks)"

text \<open>The single-record methods behind one function, with \<open>Insert\<close> without options.\<close>

fun databaseStep ::
  "('d, 'c) sessionEnv \<Rightarrow> ('d, 'c) memoryDB \<Rightarrow> 'd sessionCall \<Rightarrow> ('d, 'c) memoryDB \<times> 'd engineResult" where
  "databaseStep env db (CExists k) =
     (case dbExists env k db of (db', r) \<Rightarrow> (db', case r of Inl e \<Rightarrow> RError e | Inr b \<Rightarrow> engineResult.RBool b))"
| "databaseStep env db (CGet r) =
     (case dbGet env r db of (db', res) \<Rightarrow> (db', case res of Inl e \<Rightarrow> RError e | Inr d \<Rightarrow> RData d))"
| "databaseStep env db (CSet r) =
     (case dbSet env r db of (db', e) \<Rightarrow> (db', case e of None \<Rightarrow> RDone | Some e \<Rightarrow> RError e))"
| "databaseStep env db (CInsert r) =
     (case dbInsert env (\<lambda>n g. (g, [])) (\<lambda>_. None) [] r () db of
        (db', g, k, e) \<Rightarrow>
          (db', case e of None \<Rightarrow> RDone | Some (InsertFailed e) \<Rightarrow> RError e | Some _ \<Rightarrow> RDone))"
| "databaseStep env db (CDelete k) =
     (case dbDelete env k db of (db', e) \<Rightarrow> (db', case e of None \<Rightarrow> RDone | Some e \<Rightarrow> RError e))"
| "databaseStep env db (CUpdate k us) =
     (case dbUpdate env k us db of (db', e) \<Rightarrow> (db', case e of None \<Rightarrow> RDone | Some e \<Rightarrow> RError e))"

section \<open>Laws\<close>

lemma databaseStep_session:
  "databaseStep env db call =
    (sDB (fst (sessionStep env \<lparr>sDB = db, sTx = None\<rparr> call)), snd (sessionStep env \<lparr>sDB = db, sTx = None\<rparr> call))"
  by (cases call)
    (auto simp: dbExists_def dbGet_def dbSet_def dbInsert_def dbDelete_def dbUpdate_def locked_def
      sessionInsert_plain doneResult_def split: prod.splits option.splits)

lemma session_None: "sTx s = None \<Longrightarrow> s = \<lparr>sDB = sDB s, sTx = None\<rparr>"
  by (rule session.equality) simp_all

lemma database_trace:
  "runEngine (databaseStep env) db calls =
    (sDB (fst (runEngine (sessionStep env) \<lparr>sDB = db, sTx = None\<rparr> calls)),
     snd (runEngine (sessionStep env) \<lparr>sDB = db, sTx = None\<rparr> calls))"
proof (induction calls arbitrary: db)
  case (Cons call calls)
  obtain s r where step: "sessionStep env \<lparr>sDB = db, sTx = None\<rparr> call = (s, r)" by fastforce
  then have "sTx s = None" using sTx_sessionStep_None [of "\<lparr>sDB = db, sTx = None\<rparr>" env call s r] by simp
  then have s: "\<lparr>sDB = sDB s, sTx = None\<rparr> = s" by (simp add: session_None [symmetric])
  show ?case
    using Cons.IH [of "sDB s"] step
    by (simp add: databaseStep_session s split: prod.split)
qed simp

text \<open>A method of the handle is a transaction of one call.\<close>

lemma database_is_transaction:
  "databaseStep env db call = runReadwrite (\<lambda>s. sessionStep env s call) db"
proof -
  define s where "s = \<lparr>sDB = db, sTx = Some \<lparr>txNoReadsAfterWrites = dbNoReadsAfterWrites db, txHasWritten = False\<rparr>\<rparr>"
  obtain e r where e: "engineStep (memOps (colEnv env)) (engineOf db (keyCollection (callKey call)))
      (callOp (keyID_memory (keyText env) (callKey call)) call) = (e, r)" by fastforce
  have "allowRead s = None" "allowRead \<lparr>sDB = db, sTx = None\<rparr> = None" by (simp_all add: s_def allowRead_def)
  then show ?thesis
    using sessionStep_engine [of s call env e r] sessionStep_engine [of "\<lparr>sDB = db, sTx = None\<rparr>" call env e r] e
    by (auto simp: databaseStep_session runReadwrite_def s_def [symmetric] Let_def)
      (simp_all add: s_def)
qed

text \<open>\<open>GetMulti\<close> passes over absent records: it stops at the first other error, and reaches every record
  when there is none.\<close>

lemma getMultiLoop_gets:
  assumes "sTx s = None" and "getMultiLoop env s rs = (s', out, err)"
  shows "length out \<le> length rs \<and> (err = None \<longrightarrow> length out = length rs) \<and>
    (\<forall>x \<in> set (butlast out). \<forall>e. x = Inl e \<longrightarrow> IsNotFound e)"
  using assms
proof (induction rs arbitrary: s s' out err)
  case (Cons r rs)
  obtain s1 res where g: "sessionGet env s r = (s1, res)" by fastforce
  have t: "sTx s1 = None"
    using g Cons.prems(1) by (auto simp: sessionGet_def allowRead_def Let_def split: option.splits)
  obtain s2 o2 e2 where rest: "getMultiLoop env s1 rs = (s2, o2, e2)" by (cases "getMultiLoop env s1 rs") auto
  note ih = Cons.IH [OF t rest]
  show ?case
    using Cons.prems(2) g rest ih by (auto split: sum.splits if_splits)
qed simp

end
