(* ===== verification/BranchConformance.thy ===== *)
theory BranchConformance
  imports MemoryBranching MemoryHandle
begin

text \<open>
  The conformance suite for branching providers (\<open>src/branchingtest/conformance.go\<close>) as a program
  over the interfaces of \<open>src/branching/branching.go\<close>, and the proof that the in-memory provider
  passes it.

  A test is a function of the world. \<open>t.Fatal\<close> ends the goroutine of the test, deferred calls still
  run, and \<open>t.Run\<close> goes on with the next subtest. What a provider promises is the locale
  \<open>branching_provider\<close>; that a provider with these laws passes is proved in it once, and the
  interpretation shows the laws for the in-memory provider.
\<close>

section \<open>Definitions\<close>

subsection \<open>Tests\<close>

datatype 'e fatal =
    CallbacksRequired
  | NilSourceOrProvider
  | CaptureFailed 'e
  | NilCheckpoint
  | EmptyGeneration
  | BranchFailed 'e
  | NilBranch
  | LiveHandle
  | SeedFailed 'e
  | MutateFailed 'e
  | DigestFailed 'e
  | CloseFailed 'e
  | ReleaseFailed 'e
  | DigestDiffers string string
  | MutationUnseen string
  | SameHandle
  | NotReleased "'e option"

type_synonym ('w, 'e, 'a) test = "'w \<Rightarrow> ('e fatal + 'a) \<times> 'w"

definition passT :: "'a \<Rightarrow> ('w, 'e, 'a) test" where
  "passT a w = (Inr a, w)"

definition fatalT :: "'e fatal \<Rightarrow> ('w, 'e, 'a) test" where
  "fatalT e w = (Inl e, w)"

definition bindT :: "('w, 'e, 'a) test \<Rightarrow> ('a \<Rightarrow> ('w, 'e, 'b) test) \<Rightarrow> ('w, 'e, 'b) test" where
  "bindT m f w = (case m w of (Inl e, w') \<Rightarrow> (Inl e, w') | (Inr a, w') \<Rightarrow> f a w')"

definition deferT :: "('w, 'e, unit) test \<Rightarrow> ('w, 'e, 'a) test \<Rightarrow> ('w, 'e, 'a) test" where
  "deferT cleanup body w =
     (case body w of (r, w1) \<Rightarrow>
        (case cleanup w1 of (r', w2) \<Rightarrow>
           (case r of Inl e \<Rightarrow> Inl e | Inr a \<Rightarrow> (case r' of Inl e \<Rightarrow> Inl e | Inr _ \<Rightarrow> Inr a), w2)))"

subsection \<open>The interfaces\<close>

text \<open>
  \<open>'h\<close> are the handles \<open>dal.DB\<close>, \<open>'c\<close> checkpoints, \<open>'b\<close> branches, with nil as \<^const>\<open>None\<close>. Every
  call of the suite uses \<open>context.Background()\<close>, which is never cancelled.
\<close>

record ('w, 'h, 'c, 'b, 'e) branchingOps =
  opCapture :: "'h \<Rightarrow> 'w \<Rightarrow> ('e + 'c option) \<times> 'w"
  opGeneration :: "'c \<Rightarrow> 'w \<Rightarrow> string"
  opBranch :: "'c \<Rightarrow> 'w \<Rightarrow> ('e + 'b option) \<times> 'w"
  opRelease :: "'c \<Rightarrow> 'w \<Rightarrow> 'e option \<times> 'w"
  opDB :: "'b \<Rightarrow> 'h option"
  opClose :: "'b \<Rightarrow> 'w \<Rightarrow> 'e option \<times> 'w"
  opIsReleased :: "'e \<Rightarrow> bool"

type_synonym ('w, 'h, 'c, 'b, 'e) newFn = "'w \<Rightarrow> ('h option \<times> ('w, 'h, 'c, 'b, 'e) branchingOps option) \<times> 'w"
type_synonym ('w, 'h, 'e) changeFn = "'h option \<Rightarrow> 'w \<Rightarrow> 'e option \<times> 'w"
type_synonym ('w, 'h, 'e) digestFn = "'h option \<Rightarrow> 'w \<Rightarrow> ('e + string) \<times> 'w"

record ('w, 'h, 'c, 'b, 'e) callbacks =
  cbNew :: "('w, 'h, 'c, 'b, 'e) newFn option"
  cbSeed :: "('w, 'h, 'e) changeFn option"
  cbMutate :: "('w, 'h, 'e) changeFn option"
  cbDigest :: "('w, 'h, 'e) digestFn option"

subsection \<open>The helpers\<close>

definition newT ::
  "('w, 'h, 'c, 'b, 'e) newFn \<Rightarrow> ('w, 'e, 'h option \<times> ('w, 'h, 'c, 'b, 'e) branchingOps option) test" where
  "newT new w = (case new w of (r, w') \<Rightarrow> (Inr r, w'))"

definition captureT ::
  "('w, 'h, 'c, 'b, 'e) branchingOps option \<Rightarrow> 'h option \<Rightarrow>
   ('w, 'e, ('w, 'h, 'c, 'b, 'e) branchingOps \<times> 'c) test" where
  "captureT provider source w =
     (case (source, provider) of
        (Some h, Some p) \<Rightarrow>
          (case opCapture p h w of
             (Inl e, w') \<Rightarrow> (Inl (CaptureFailed e), w')
           | (Inr None, w') \<Rightarrow> (Inl NilCheckpoint, w')
           | (Inr (Some c), w') \<Rightarrow> (if opGeneration p c w' = [] then Inl EmptyGeneration else Inr (p, c), w'))
      | _ \<Rightarrow> (Inl NilSourceOrProvider, w))"

definition startBranch ::
  "('w, 'h, 'c, 'b, 'e) branchingOps \<Rightarrow> 'c \<Rightarrow> 'h option \<Rightarrow> ('w, 'e, 'b) test" where
  "startBranch p c source w =
     (case opBranch p c w of
        (Inl e, w') \<Rightarrow> (Inl (BranchFailed e), w')
      | (Inr None, w') \<Rightarrow> (Inl NilBranch, w')
      | (Inr (Some b), w') \<Rightarrow>
          (if opDB p b = None then Inl NilBranch
           else if opDB p b = source then Inl LiveHandle
           else Inr b, w'))"

definition seedT :: "('w, 'h, 'e) changeFn \<Rightarrow> 'h option \<Rightarrow> ('w, 'e, unit) test" where
  "seedT seed h w = (case seed h w of (Some e, w') \<Rightarrow> (Inl (SeedFailed e), w') | (None, w') \<Rightarrow> (Inr (), w'))"

definition mutateT :: "('w, 'h, 'e) changeFn \<Rightarrow> 'h option \<Rightarrow> ('w, 'e, unit) test" where
  "mutateT mutate h w = (case mutate h w of (Some e, w') \<Rightarrow> (Inl (MutateFailed e), w') | (None, w') \<Rightarrow> (Inr (), w'))"

definition digestT :: "('w, 'h, 'e) digestFn \<Rightarrow> 'h option \<Rightarrow> ('w, 'e, string) test" where
  "digestT digest h w = (case digest h w of (Inl e, w') \<Rightarrow> (Inl (DigestFailed e), w') | (Inr d, w') \<Rightarrow> (Inr d, w'))"

definition closeBranch :: "('w, 'h, 'c, 'b, 'e) branchingOps \<Rightarrow> 'b \<Rightarrow> ('w, 'e, unit) test" where
  "closeBranch p b w = (case opClose p b w of (Some e, w') \<Rightarrow> (Inl (CloseFailed e), w') | (None, w') \<Rightarrow> (Inr (), w'))"

definition releaseT :: "('w, 'h, 'c, 'b, 'e) branchingOps \<Rightarrow> 'c \<Rightarrow> ('w, 'e, unit) test" where
  "releaseT p c w = (case opRelease p c w of (Some e, w') \<Rightarrow> (Inl (ReleaseFailed e), w') | (None, w') \<Rightarrow> (Inr (), w'))"

definition wantDigest :: "string \<Rightarrow> string \<Rightarrow> ('w, 'e, unit) test" where
  "wantDigest got baseline = (if got \<noteq> baseline then fatalT (DigestDiffers got baseline) else passT ())"

subsection \<open>The subtests\<close>

definition emptyDatabase ::
  "('w, 'h, 'c, 'b, 'e) newFn \<Rightarrow> ('w, 'h, 'e) digestFn \<Rightarrow> ('w, 'e, unit) test" where
  "emptyDatabase new digest =
     bindT (newT new) (\<lambda>(source, provider).
     bindT (captureT provider source) (\<lambda>(p, checkpoint).
     deferT (releaseT p checkpoint) (
     bindT (digestT digest source) (\<lambda>baseline.
     bindT (startBranch p checkpoint source) (\<lambda>branch.
     bindT (digestT digest (opDB p branch)) (\<lambda>got.
     bindT (wantDigest got baseline) (\<lambda>_.
     bindT (closeBranch p branch) (\<lambda>_.
     closeBranch p branch))))))))"

definition seedFidelity ::
  "('w, 'h, 'c, 'b, 'e) newFn \<Rightarrow> ('w, 'h, 'e) changeFn \<Rightarrow> ('w, 'h, 'e) digestFn \<Rightarrow> ('w, 'e, unit) test" where
  "seedFidelity new seed digest =
     bindT (newT new) (\<lambda>(source, provider).
     bindT (seedT seed source) (\<lambda>_.
     bindT (digestT digest source) (\<lambda>baseline.
     bindT (captureT provider source) (\<lambda>(p, checkpoint).
     deferT (releaseT p checkpoint) (
     bindT (startBranch p checkpoint source) (\<lambda>branch.
     deferT (closeBranch p branch) (
     bindT (digestT digest (opDB p branch)) (\<lambda>got.
     wantDigest got baseline))))))))"

definition sourceMutation ::
  "('w, 'h, 'c, 'b, 'e) newFn \<Rightarrow> ('w, 'h, 'e) changeFn \<Rightarrow> ('w, 'h, 'e) changeFn \<Rightarrow> ('w, 'h, 'e) digestFn \<Rightarrow>
   ('w, 'e, unit) test" where
  "sourceMutation new seed mutate digest =
     bindT (newT new) (\<lambda>(source, provider).
     bindT (seedT seed source) (\<lambda>_.
     bindT (digestT digest source) (\<lambda>baseline.
     bindT (captureT provider source) (\<lambda>(p, checkpoint).
     deferT (releaseT p checkpoint) (
     bindT (mutateT mutate source) (\<lambda>_.
     bindT (digestT digest source) (\<lambda>changed.
     if changed = baseline then fatalT (MutationUnseen baseline) else
     bindT (startBranch p checkpoint source) (\<lambda>branch.
     deferT (closeBranch p branch) (
     bindT (digestT digest (opDB p branch)) (\<lambda>got.
     wantDigest got baseline))))))))))"

definition siblingIsolation ::
  "('w, 'h, 'c, 'b, 'e) newFn \<Rightarrow> ('w, 'h, 'e) changeFn \<Rightarrow> ('w, 'h, 'e) changeFn \<Rightarrow> ('w, 'h, 'e) digestFn \<Rightarrow>
   ('w, 'e, unit) test" where
  "siblingIsolation new seed mutate digest =
     bindT (newT new) (\<lambda>(source, provider).
     bindT (seedT seed source) (\<lambda>_.
     bindT (digestT digest source) (\<lambda>baseline.
     bindT (captureT provider source) (\<lambda>(p, checkpoint).
     deferT (releaseT p checkpoint) (
     bindT (startBranch p checkpoint source) (\<lambda>first.
     bindT (mutateT mutate (opDB p first)) (\<lambda>_.
     bindT (digestT digest (opDB p first)) (\<lambda>firstDigest.
     if firstDigest = baseline then fatalT (MutationUnseen baseline) else
     bindT (closeBranch p first) (\<lambda>_.
     bindT (startBranch p checkpoint source) (\<lambda>second.
     if opDB p second = opDB p first then fatalT SameHandle else
     bindT (digestT digest (opDB p second)) (\<lambda>got.
     bindT (wantDigest got baseline) (\<lambda>_.
     bindT (closeBranch p second) (\<lambda>_.
     bindT (startBranch p checkpoint source) (\<lambda>third.
     bindT (digestT digest (opDB p third)) (\<lambda>got.
     bindT (wantDigest got baseline) (\<lambda>_.
     closeBranch p third))))))))))))))))"

definition releaseIdempotent :: "('w, 'h, 'c, 'b, 'e) newFn \<Rightarrow> ('w, 'e, unit) test" where
  "releaseIdempotent new =
     bindT (newT new) (\<lambda>(source, provider).
     bindT (captureT provider source) (\<lambda>(p, checkpoint).
     bindT (releaseT p checkpoint) (\<lambda>_.
     bindT (releaseT p checkpoint) (\<lambda>_ w.
     case opBranch p checkpoint w of
       (Inl e, w') \<Rightarrow> (if opIsReleased p e then Inr () else Inl (NotReleased (Some e)), w')
     | (Inr _, w') \<Rightarrow> (Inl (NotReleased None), w')))))"

text \<open>\<open>t.Run\<close> of each subtest in turn: its name and what it failed with.\<close>

fun runSubtests :: "(string \<times> ('w, 'e, unit) test) list \<Rightarrow> 'w \<Rightarrow> (string \<times> 'e fatal option) list \<times> 'w" where
  "runSubtests [] w = ([], w)"
| "runSubtests ((name, body) # tests) w =
     (case body w of (r, w1) \<Rightarrow>
        (case runSubtests tests w1 of (rs, w2) \<Rightarrow>
           ((name, case r of Inl e \<Rightarrow> Some e | Inr _ \<Rightarrow> None) # rs, w2)))"

definition RunConformance ::
  "('w, 'h, 'c, 'b, 'e) callbacks \<Rightarrow> 'w \<Rightarrow> ('e fatal + (string \<times> 'e fatal option) list) \<times> 'w" where
  "RunConformance cb w =
     (case (cbNew cb, cbSeed cb, cbMutate cb, cbDigest cb) of
        (Some new, Some seed, Some mutate, Some digest) \<Rightarrow>
          (case runSubtests
             [(''empty database'', emptyDatabase new digest),
              (''seed fidelity and fresh handle'', seedFidelity new seed digest),
              (''source mutation does not change checkpoint'', sourceMutation new seed mutate digest),
              (''sibling isolation'', siblingIsolation new seed mutate digest),
              (''release is idempotent'', releaseIdempotent new)] w of
             (rs, w') \<Rightarrow> (Inr rs, w'))
      | _ \<Rightarrow> (Inl CallbacksRequired, w))"

section \<open>What a provider promises\<close>

text \<open>
  The state behind each handle and each checkpoint: \<open>stateOf w h\<close> is \<^const>\<open>None\<close> for a handle that is not
  in use, \<open>cpOf w c\<close> is \<open>Some None\<close> for a released checkpoint.
\<close>

definition onlyAt ::
  "('w \<Rightarrow> bool) \<Rightarrow> ('w \<Rightarrow> 'h \<Rightarrow> 's option) \<Rightarrow> ('w \<Rightarrow> 'c \<Rightarrow> 's option option) \<Rightarrow> 'w \<Rightarrow> 'h \<Rightarrow> 's \<Rightarrow> 'w \<Rightarrow> bool" where
  "onlyAt ok stateOf cpOf w h s w' =
     (ok w' \<and> stateOf w' = (stateOf w)(h \<mapsto> s) \<and> cpOf w' = cpOf w)"

text \<open>A callback that acts on the database behind its handle as \<open>g\<close>, and on nothing else.\<close>

definition actsAs ::
  "('w \<Rightarrow> bool) \<Rightarrow> ('w \<Rightarrow> 'h \<Rightarrow> 's option) \<Rightarrow> ('w \<Rightarrow> 'c \<Rightarrow> 's option option) \<Rightarrow>
   ('h option \<Rightarrow> 'w \<Rightarrow> 'r \<times> 'w) \<Rightarrow> ('s \<Rightarrow> 'r \<times> 's) \<Rightarrow> bool" where
  "actsAs ok stateOf cpOf f g =
     (\<forall>w h s. ok w \<longrightarrow> stateOf w h = Some s \<longrightarrow>
        (\<exists>w'. f (Some h) w = (fst (g s), w') \<and> onlyAt ok stateOf cpOf w h (snd (g s)) w'))"

definition makesNew ::
  "('w \<Rightarrow> bool) \<Rightarrow> ('w \<Rightarrow> 'h \<Rightarrow> 's option) \<Rightarrow> ('w \<Rightarrow> 'c \<Rightarrow> 's option option) \<Rightarrow>
   ('w, 'h, 'c, 'b, 'e) branchingOps \<Rightarrow> ('w, 'h, 'c, 'b, 'e) newFn \<Rightarrow> 's \<Rightarrow> bool" where
  "makesNew ok stateOf cpOf ops new s0 =
     (\<forall>w. ok w \<longrightarrow> (\<exists>h w'. new w = ((Some h, Some ops), w') \<and> stateOf w h = None \<and>
        onlyAt ok stateOf cpOf w h s0 w'))"

locale branching_provider =
  fixes ops :: "('w, 'h, 'c, 'b, 'e) branchingOps"
    and ok :: "'w \<Rightarrow> bool"
    and stateOf :: "'w \<Rightarrow> 'h \<Rightarrow> 's option"
    and cpOf :: "'w \<Rightarrow> 'c \<Rightarrow> 's option option"
    and capturable :: "'s \<Rightarrow> bool"
  assumes capture_ok: "ok w \<Longrightarrow> stateOf w h = Some s \<Longrightarrow> capturable s \<Longrightarrow>
      \<exists>c w'. opCapture ops h w = (Inr (Some c), w') \<and> ok w' \<and> stateOf w' = stateOf w \<and>
        cpOf w' = (cpOf w)(c \<mapsto> Some s) \<and> opGeneration ops c w' \<noteq> []"
    and branch_ok: "ok w \<Longrightarrow> cpOf w c = Some (Some s) \<Longrightarrow>
      \<exists>b h w'. opBranch ops c w = (Inr (Some b), w') \<and> opDB ops b = Some h \<and> stateOf w h = None \<and>
        onlyAt ok stateOf cpOf w h s w'"
    and branch_released: "ok w \<Longrightarrow> cpOf w c = Some None \<Longrightarrow> \<exists>e. opBranch ops c w = (Inl e, w) \<and> opIsReleased ops e"
    and release_ok: "ok w \<Longrightarrow> cpOf w c = Some r \<Longrightarrow>
      \<exists>w'. opRelease ops c w = (None, w') \<and> ok w' \<and> stateOf w' = stateOf w \<and> cpOf w' = (cpOf w)(c \<mapsto> None)"
    and close_ok: "opClose ops b w = (None, w)"
begin

lemma new_step:
  assumes "makesNew ok stateOf cpOf ops new s0" and "ok w"
  obtains h w' where "newT new w = (Inr (Some h, Some ops), w')" "ok w'" "stateOf w' h = Some s0"
  using assms by (force simp: makesNew_def onlyAt_def newT_def)

lemma change_step:
  assumes "actsAs ok stateOf cpOf f g" and "ok w" and "stateOf w h = Some s" and "g s = (None, s')"
  obtains w' where "seedT f (Some h) w = (Inr (), w')" "mutateT f (Some h) w = (Inr (), w')" "ok w'"
    "stateOf w' = (stateOf w)(h \<mapsto> s')" "cpOf w' = cpOf w"
  using assms by (force simp: actsAs_def onlyAt_def seedT_def mutateT_def)

lemma digest_step:
  assumes "actsAs ok stateOf cpOf f g" and "ok w" and "stateOf w h = Some s" and "g s = (Inr d, s')"
  obtains w' where "digestT f (Some h) w = (Inr d, w')" "ok w'" "stateOf w' = (stateOf w)(h \<mapsto> s')" "cpOf w' = cpOf w"
  using assms by (force simp: actsAs_def onlyAt_def digestT_def)

lemma capture_step:
  assumes "ok w" and "stateOf w h = Some s" and "capturable s"
  obtains c w' where "captureT (Some ops) (Some h) w = (Inr (ops, c), w')" "ok w'" "stateOf w' = stateOf w"
    "cpOf w' = (cpOf w)(c \<mapsto> Some s)"
  using capture_ok [OF assms] by (force simp: captureT_def)

lemma branch_step:
  assumes "ok w" and "cpOf w c = Some (Some s)" and "stateOf w src \<noteq> None"
  obtains b h w' where "startBranch ops c (Some src) w = (Inr b, w')" "opDB ops b = Some h" "stateOf w h = None" "h \<noteq> src"
    "ok w'" "stateOf w' = (stateOf w)(h \<mapsto> s)" "cpOf w' = cpOf w"
proof -
  obtain b h w' where b: "opBranch ops c w = (Inr (Some b), w')" "opDB ops b = Some h" "stateOf w h = None"
    "onlyAt ok stateOf cpOf w h s w'"
    using branch_ok [OF assms(1,2)] by blast
  then have "h \<noteq> src" using assms(3) by auto
  then show ?thesis using that [of b w' h] b by (simp add: startBranch_def onlyAt_def)
qed

lemma release_step:
  assumes "ok w" and "cpOf w c = Some r"
  obtains w' where "releaseT ops c w = (Inr (), w')" "ok w'" "stateOf w' = stateOf w" "cpOf w' = (cpOf w)(c \<mapsto> None)"
  using release_ok [OF assms] by (force simp: releaseT_def)

lemma close_step [simp]: "closeBranch ops b w = (Inr (), w)"
  by (simp add: closeBranch_def close_ok)

lemma empty_passes:
  assumes "makesNew ok stateOf cpOf ops new s0" and "actsAs ok stateOf cpOf digest dg" and "ok w"
    and "capturable s0" and "dg s0 = (Inr d0, s0')"
  shows "\<exists>w'. emptyDatabase new digest w = (Inr (), w') \<and> ok w'"
proof -
  obtain h w1 where 1: "newT new w = (Inr (Some h, Some ops), w1)" "ok w1" "stateOf w1 h = Some s0"
    using new_step [OF assms(1,3)] .
  obtain c w2 where 2: "captureT (Some ops) (Some h) w1 = (Inr (ops, c), w2)" "ok w2" "stateOf w2 = stateOf w1"
    "cpOf w2 = (cpOf w1)(c \<mapsto> Some s0)"
    using capture_step [OF 1(2,3) assms(4)] .
  obtain w3 where 3: "digestT digest (Some h) w2 = (Inr d0, w3)" "ok w3" "stateOf w3 = (stateOf w2)(h \<mapsto> s0')" "cpOf w3 = cpOf w2"
    using digest_step [OF assms(2) 2(2) _ assms(5), of h] 1(3) 2(3) by metis
  obtain b hb w4 where 4: "startBranch ops c (Some h) w3 = (Inr b, w4)" "opDB ops b = Some hb" "ok w4"
    "stateOf w4 = (stateOf w3)(hb \<mapsto> s0)" "cpOf w4 = cpOf w3"
    using branch_step [OF 3(2), of c s0 h] 2(4) 3(3,4) by (metis fun_upd_same option.distinct(1))
  obtain w5 where 5: "digestT digest (Some hb) w4 = (Inr d0, w5)" "ok w5" "cpOf w5 = cpOf w4"
    using digest_step [OF assms(2) 4(3) _ assms(5), of hb] 4(4) by (metis fun_upd_same)
  obtain w6 where "releaseT ops c w5 = (Inr (), w6)" "ok w6"
    using release_step [OF 5(2), of c "Some s0"] 5(3) 4(5) 3(4) 2(4) by (metis fun_upd_same)
  then show ?thesis using 1 2 3 4 5 by (auto simp: emptyDatabase_def bindT_def deferT_def passT_def wantDigest_def)
qed

lemma seeded:
  assumes "makesNew ok stateOf cpOf ops new s0" and "actsAs ok stateOf cpOf seed sd"
    and "actsAs ok stateOf cpOf digest dg" and "ok w"
    and "sd s0 = (None, s1)" and "dg s1 = (Inr base, s2)" and "capturable s2"
  obtains h c w1 w2 w3 w4 where "newT new w = (Inr (Some h, Some ops), w1)" "seedT seed (Some h) w1 = (Inr (), w2)"
    "digestT digest (Some h) w2 = (Inr base, w3)" "captureT (Some ops) (Some h) w3 = (Inr (ops, c), w4)"
    "ok w4" "stateOf w4 h = Some s2" "cpOf w4 c = Some (Some s2)"
proof -
  obtain h w1 where 1: "newT new w = (Inr (Some h, Some ops), w1)" "ok w1" "stateOf w1 h = Some s0"
    using new_step [OF assms(1,4)] .
  obtain w2 where 2: "seedT seed (Some h) w1 = (Inr (), w2)" "ok w2" "stateOf w2 = (stateOf w1)(h \<mapsto> s1)"
    using change_step [OF assms(2) 1(2,3) assms(5)] .
  obtain w3 where 3: "digestT digest (Some h) w2 = (Inr base, w3)" "ok w3" "stateOf w3 = (stateOf w2)(h \<mapsto> s2)"
    using digest_step [OF assms(3) 2(2) _ assms(6), of h] 2(3) by (metis fun_upd_same)
  obtain c w4 where 4: "captureT (Some ops) (Some h) w3 = (Inr (ops, c), w4)" "ok w4" "stateOf w4 = stateOf w3"
    "cpOf w4 = (cpOf w3)(c \<mapsto> Some s2)"
    using capture_step [OF 3(2) _ assms(7), of h] 3(3) by (metis fun_upd_same)
  show ?thesis using that [OF 1(1) 2(1) 3(1) 4(1) 4(2)] 3(3) 4(3,4) by simp
qed

text \<open>A branch of the seeded checkpoint has the digest of the seeded source.\<close>

lemma branch_digest:
  assumes "actsAs ok stateOf cpOf digest dg" and "ok w" and "cpOf w c = Some (Some s)" and "stateOf w src \<noteq> None"
    and "dg s = (Inr base, s')"
  obtains b h w1 w2 where "startBranch ops c (Some src) w = (Inr b, w1)" "opDB ops b = Some h"
    "digestT digest (Some h) w1 = (Inr base, w2)" "stateOf w h = None" "ok w2"
    "\<forall>k. stateOf w k \<noteq> None \<longrightarrow> stateOf w2 k \<noteq> None" "cpOf w2 = cpOf w"
proof -
  obtain b h w1 where 1: "startBranch ops c (Some src) w = (Inr b, w1)" "opDB ops b = Some h" "stateOf w h = None"
    "ok w1" "stateOf w1 = (stateOf w)(h \<mapsto> s)" "cpOf w1 = cpOf w"
    using branch_step [OF assms(2,3,4)] .
  obtain w2 where 2: "digestT digest (Some h) w1 = (Inr base, w2)" "ok w2" "stateOf w2 = (stateOf w1)(h \<mapsto> s')" "cpOf w2 = cpOf w1"
    using digest_step [OF assms(1) 1(4) _ assms(5), of h] 1(5) by (metis fun_upd_same)
  show ?thesis using that [OF 1(1,2) 2(1) 1(3) 2(2)] 1(5,6) 2(3,4) by (simp add: fun_upd_apply)
qed

lemma seed_passes:
  assumes "makesNew ok stateOf cpOf ops new s0" and "actsAs ok stateOf cpOf seed sd"
    and "actsAs ok stateOf cpOf digest dg" and "ok w"
    and "sd s0 = (None, s1)" and "dg s1 = (Inr base, s2)" and "capturable s2" and "dg s2 = (Inr base, s2')"
  shows "\<exists>w'. seedFidelity new seed digest w = (Inr (), w') \<and> ok w'"
proof -
  obtain h c w1 w2 w3 w4 where 1: "newT new w = (Inr (Some h, Some ops), w1)" "seedT seed (Some h) w1 = (Inr (), w2)"
    "digestT digest (Some h) w2 = (Inr base, w3)" "captureT (Some ops) (Some h) w3 = (Inr (ops, c), w4)"
    "ok w4" "stateOf w4 h = Some s2" "cpOf w4 c = Some (Some s2)"
    using seeded [OF assms(1-7)] .
  obtain b hb w5 w6 where 2: "startBranch ops c (Some h) w4 = (Inr b, w5)" "opDB ops b = Some hb"
    "digestT digest (Some hb) w5 = (Inr base, w6)" "ok w6" "cpOf w6 = cpOf w4"
    using branch_digest [OF assms(3) 1(5,7) _ assms(8), of h] 1(6) by (metis option.distinct(1))
  obtain w7 where "releaseT ops c w6 = (Inr (), w7)" "ok w7"
    using release_step [OF 2(4), of c "Some s2"] 2(5) 1(7) by metis
  then show ?thesis using 1 2 by (auto simp: seedFidelity_def bindT_def deferT_def passT_def wantDigest_def)
qed

lemma mutation_passes:
  assumes "makesNew ok stateOf cpOf ops new s0" and "actsAs ok stateOf cpOf seed sd"
    and "actsAs ok stateOf cpOf digest dg" and "ok w"
    and "sd s0 = (None, s1)" and "dg s1 = (Inr base, s2)" and "capturable s2" and "dg s2 = (Inr base, s2')"
    and "actsAs ok stateOf cpOf mutate mt" and "mt s2 = (None, s3)" and "dg s3 = (Inr d3, s3')" and "d3 \<noteq> base"
  shows "\<exists>w'. sourceMutation new seed mutate digest w = (Inr (), w') \<and> ok w'"
proof -
  obtain h c w1 w2 w3 w4 where 1: "newT new w = (Inr (Some h, Some ops), w1)" "seedT seed (Some h) w1 = (Inr (), w2)"
    "digestT digest (Some h) w2 = (Inr base, w3)" "captureT (Some ops) (Some h) w3 = (Inr (ops, c), w4)"
    "ok w4" "stateOf w4 h = Some s2" "cpOf w4 c = Some (Some s2)"
    using seeded [OF assms(1-7)] .
  obtain w5 where 2: "mutateT mutate (Some h) w4 = (Inr (), w5)" "ok w5" "stateOf w5 = (stateOf w4)(h \<mapsto> s3)" "cpOf w5 = cpOf w4"
    using change_step [OF assms(9) 1(5,6) assms(10)] .
  obtain w6 where 3: "digestT digest (Some h) w5 = (Inr d3, w6)" "ok w6" "stateOf w6 = (stateOf w5)(h \<mapsto> s3')" "cpOf w6 = cpOf w5"
    using digest_step [OF assms(3) 2(2) _ assms(11), of h] 2(3) by (metis fun_upd_same)
  obtain b hb w7 w8 where 4: "startBranch ops c (Some h) w6 = (Inr b, w7)" "opDB ops b = Some hb"
    "digestT digest (Some hb) w7 = (Inr base, w8)" "ok w8" "cpOf w8 = cpOf w6"
    using branch_digest [OF assms(3) 3(2) _ _ assms(8), of c h] 1(7) 2(4) 3(3,4) by (metis fun_upd_same option.distinct(1))
  obtain w9 where "releaseT ops c w8 = (Inr (), w9)" "ok w9"
    using release_step [OF 4(4), of c "Some s2"] 4(5) 3(4) 2(4) 1(7) by metis
  then show ?thesis using 1 2 3 4 assms(12)
    by (auto simp: sourceMutation_def bindT_def deferT_def passT_def wantDigest_def)
qed

lemma sibling_passes:
  assumes "makesNew ok stateOf cpOf ops new s0" and "actsAs ok stateOf cpOf seed sd"
    and "actsAs ok stateOf cpOf digest dg" and "ok w"
    and "sd s0 = (None, s1)" and "dg s1 = (Inr base, s2)" and "capturable s2" and "dg s2 = (Inr base, s2')"
    and "actsAs ok stateOf cpOf mutate mt" and "mt s2 = (None, s3)" and "dg s3 = (Inr d3, s3')" and "d3 \<noteq> base"
  shows "\<exists>w'. siblingIsolation new seed mutate digest w = (Inr (), w') \<and> ok w'"
proof -
  obtain h c w1 w2 w3 w4 where 1: "newT new w = (Inr (Some h, Some ops), w1)" "seedT seed (Some h) w1 = (Inr (), w2)"
    "digestT digest (Some h) w2 = (Inr base, w3)" "captureT (Some ops) (Some h) w3 = (Inr (ops, c), w4)"
    "ok w4" "stateOf w4 h = Some s2" "cpOf w4 c = Some (Some s2)"
    using seeded [OF assms(1-7)] .
  obtain b hb w5 where 2: "startBranch ops c (Some h) w4 = (Inr b, w5)" "opDB ops b = Some hb" "hb \<noteq> h"
    "ok w5" "stateOf w5 = (stateOf w4)(hb \<mapsto> s2)" "cpOf w5 = cpOf w4"
    using branch_step [OF 1(5,7), of h] 1(6) by (metis option.distinct(1))
  obtain w6 where 3: "mutateT mutate (Some hb) w5 = (Inr (), w6)" "ok w6" "stateOf w6 = (stateOf w5)(hb \<mapsto> s3)" "cpOf w6 = cpOf w5"
    using change_step [OF assms(9) 2(4) _ assms(10), of hb] 2(5) by (metis fun_upd_same)
  obtain w7 where 4: "digestT digest (Some hb) w6 = (Inr d3, w7)" "ok w7" "stateOf w7 = (stateOf w6)(hb \<mapsto> s3')" "cpOf w7 = cpOf w6"
    using digest_step [OF assms(3) 3(2) _ assms(11), of hb] 3(3) by (metis fun_upd_same)
  have src: "stateOf w7 h \<noteq> None" "stateOf w7 hb \<noteq> None" and cp: "cpOf w7 c = Some (Some s2)"
    using 1(6,7) 2(3,5,6) 3(3,4) 4(3,4) by auto
  obtain b2 h2 w8 w9 where 5: "startBranch ops c (Some h) w7 = (Inr b2, w8)" "opDB ops b2 = Some h2"
    "digestT digest (Some h2) w8 = (Inr base, w9)" "stateOf w7 h2 = None" "ok w9"
    "\<forall>k. stateOf w7 k \<noteq> None \<longrightarrow> stateOf w9 k \<noteq> None" "cpOf w9 = cpOf w7"
    using branch_digest [OF assms(3) 4(2) cp src(1) assms(8)] by metis
  have fresh: "h2 \<noteq> hb" using 5(4) src(2) by auto
  obtain b3 h3 w10 w11 where 6: "startBranch ops c (Some h) w9 = (Inr b3, w10)" "opDB ops b3 = Some h3"
    "digestT digest (Some h3) w10 = (Inr base, w11)" "ok w11" "cpOf w11 = cpOf w9"
    using branch_digest [OF assms(3) 5(5) _ _ assms(8), of c h] cp 5(6,7) src(1) by metis
  obtain w12 where "releaseT ops c w11 = (Inr (), w12)" "ok w12"
    using release_step [OF 6(4), of c "Some s2"] 6(5) 5(7) cp by metis
  then show ?thesis using 1 2 3 4 5 6 assms(12) fresh
    by (auto simp: siblingIsolation_def bindT_def deferT_def passT_def wantDigest_def)
qed

lemma release_passes:
  assumes "makesNew ok stateOf cpOf ops new s0" and "ok w" and "capturable s0"
  shows "\<exists>w'. releaseIdempotent new w = (Inr (), w') \<and> ok w'"
proof -
  obtain h w1 where 1: "newT new w = (Inr (Some h, Some ops), w1)" "ok w1" "stateOf w1 h = Some s0"
    using new_step [OF assms(1,2)] .
  obtain c w2 where 2: "captureT (Some ops) (Some h) w1 = (Inr (ops, c), w2)" "ok w2" "cpOf w2 = (cpOf w1)(c \<mapsto> Some s0)"
    using capture_step [OF 1(2,3) assms(3)] .
  obtain w3 where 3: "releaseT ops c w2 = (Inr (), w3)" "ok w3" "cpOf w3 = (cpOf w2)(c \<mapsto> None)"
    using release_step [OF 2(2), of c "Some s0"] 2(3) by (metis fun_upd_same)
  obtain w4 where 4: "releaseT ops c w3 = (Inr (), w4)" "ok w4" "cpOf w4 = (cpOf w3)(c \<mapsto> None)"
    using release_step [OF 3(2), of c None] 3(3) by (metis fun_upd_same)
  obtain e where "opBranch ops c w4 = (Inl e, w4)" "opIsReleased ops e"
    using branch_released [OF 4(2), of c] 4(3) by (metis fun_upd_same)
  then show ?thesis using 1 2 3 4 by (auto simp: releaseIdempotent_def bindT_def)
qed

lemma conforms:
  assumes "makesNew ok stateOf cpOf ops new s0" and "actsAs ok stateOf cpOf seed sd"
    and "actsAs ok stateOf cpOf digest dg" and "ok w"
    and "sd s0 = (None, s1)" and "dg s1 = (Inr base, s2)" and "capturable s2" and "dg s2 = (Inr base, s2')"
    and "actsAs ok stateOf cpOf mutate mt" and "mt s2 = (None, s3)" and "dg s3 = (Inr d3, s3')" and "d3 \<noteq> base"
    and "capturable s0" and "dg s0 = (Inr d0, s0')"
  shows "\<exists>rs. fst (RunConformance \<lparr>cbNew = Some new, cbSeed = Some seed, cbMutate = Some mutate, cbDigest = Some digest\<rparr> w) =
      Inr rs \<and> length rs = 5 \<and> (\<forall>(name, failure) \<in> set rs. failure = None)"
proof -
  obtain w1 where 1: "emptyDatabase new digest w = (Inr (), w1)" "ok w1"
    using empty_passes [OF assms(1,3,4,13,14)] by blast
  obtain w2 where 2: "seedFidelity new seed digest w1 = (Inr (), w2)" "ok w2"
    using seed_passes [OF assms(1-3) 1(2) assms(5-8)] by blast
  obtain w3 where 3: "sourceMutation new seed mutate digest w2 = (Inr (), w3)" "ok w3"
    using mutation_passes [OF assms(1-3) 2(2) assms(5-12)] by blast
  obtain w4 where 4: "siblingIsolation new seed mutate digest w3 = (Inr (), w4)" "ok w4"
    using sibling_passes [OF assms(1-3) 3(2) assms(5-12)] by blast
  obtain w5 where "releaseIdempotent new w4 = (Inr (), w5)"
    using release_passes [OF assms(1) 4(2) assms(13)] by blast
  then show ?thesis using 1 2 3 4 by (simp add: RunConformance_def)
qed

end

section \<open>The in-memory provider\<close>

subsection \<open>Its laws\<close>

datatype suiteError = BranchingError branchError | StoreFailed memError | NilDB

definition memoryProvider :: "(('d, 'c) world, nat, nat, nat, suiteError) branchingOps" where
  "memoryProvider =
     \<lparr>opCapture = (\<lambda>h w. case Capture (None, None) (OwnSource h) w of (w', r) \<Rightarrow> (map_sum BranchingError Some r, w')),
      opGeneration = (\<lambda>c w. cpGeneration (wCheckpoints w ! c)),
      opBranch = (\<lambda>c w. case Branch (None, None) c w of (w', r) \<Rightarrow> (map_sum BranchingError Some r, w')),
      opRelease = (\<lambda>c w. (None, Release c w)),
      opDB = Some,
      opClose = (\<lambda>b w. (None, w)),
      opIsReleased = (\<lambda>e. e = BranchingError ErrReleased)\<rparr>"

definition worldState :: "('d, 'c) world \<Rightarrow> nat \<Rightarrow> ('d, 'c) memoryDB option" where
  "worldState w h = (if h < length (wDatabases w) then Some (wDatabases w ! h) else None)"

definition worldCheckpoint :: "('d, 'c) world \<Rightarrow> nat \<Rightarrow> ('d, 'c) memoryDB option option" where
  "worldCheckpoint w c =
     (if c < length (wCheckpoints w) then Some (map_option newDatabase (cpSnapshot (wCheckpoints w ! c))) else None)"

abbreviation serializedOnly :: "('d, 'c) memoryDB \<Rightarrow> bool" where
  "serializedOnly db \<equiv> validateSerializedConfiguration db = None"

lemma worldOk_grown: "worldOk w \<Longrightarrow> h < length (wDatabases w) \<Longrightarrow> grown (wDatabases w ! h)"
  by (simp add: worldOk_def list_all_iff)

interpretation mem: branching_provider memoryProvider worldOk worldState worldCheckpoint serializedOnly
proof unfold_locales
  fix w :: "('d, 'c) world" and h s
  assume w: "worldOk w" and h: "worldState w h = Some s" and s: "serializedOnly s"
  then have len: "h < length (wDatabases w)" "s = wDatabases w ! h" by (auto simp: worldState_def split: if_splits)
  have new: "newDatabase (snapshotDatabase s) = s"
    using newDatabase_snapshot [OF worldOk_grown [OF w len(1)]] s len(2) by simp
  let ?w' = "fst (Capture (None, None) (OwnSource h) w)"
  have "worldCheckpoint ?w' = (worldCheckpoint w)(length (wCheckpoints w) \<mapsto> Some s)"
    using len s new by (auto simp: Capture_def Let_def worldCheckpoint_def nth_append fun_eq_iff not_le)
  moreover have "worldState ?w' = worldState w" "cpGeneration (wCheckpoints ?w' ! length (wCheckpoints w)) \<noteq> []"
    "snd (Capture (None, None) (OwnSource h) w) = Inr (length (wCheckpoints w))"
    using len s by (auto simp: Capture_def Let_def worldState_def fun_eq_iff branchingProviderName_def)
  ultimately show "\<exists>c w'. opCapture memoryProvider h w = (Inr (Some c), w') \<and> worldOk w' \<and> worldState w' = worldState w \<and>
      worldCheckpoint w' = (worldCheckpoint w)(c \<mapsto> Some s) \<and> opGeneration memoryProvider c w' \<noteq> []"
    using worldOk_capture [OF w, of "(None, None)" "OwnSource h"]
    by (intro exI [of _ "length (wCheckpoints w)"] exI [of _ ?w']) (simp add: memoryProvider_def split_def)
next
  fix w :: "('d, 'c) world" and c s
  assume w: "worldOk w" and c: "worldCheckpoint w c = Some (Some s)"
  let ?n = "length (wDatabases w)" and ?w' = "fst (Branch (None, None) c w)"
  have "?w' = w\<lparr>wDatabases := wDatabases w @ [s]\<rparr>" "snd (Branch (None, None) c w) = Inr ?n"
    using c by (auto simp: worldCheckpoint_def Branch_def split: if_splits)
  then show "\<exists>b h w'. opBranch memoryProvider c w = (Inr (Some b), w') \<and> opDB memoryProvider b = Some h \<and>
      worldState w h = None \<and> onlyAt worldOk worldState worldCheckpoint w h s w'"
    using worldOk_branch [OF w, of "(None, None)" c]
    by (intro exI [of _ ?n] exI [of _ ?w'])
      (auto simp: memoryProvider_def split_def onlyAt_def worldState_def worldCheckpoint_def fun_eq_iff nth_append)
next
  fix w :: "('d, 'c) world" and c
  assume "worldOk w" and "worldCheckpoint w c = Some None"
  then show "\<exists>e. opBranch memoryProvider c w = (Inl e, w) \<and> opIsReleased memoryProvider e"
    by (auto simp: memoryProvider_def worldCheckpoint_def Branch_def split: if_splits)
next
  fix w :: "('d, 'c) world" and c r
  assume w: "worldOk w" and c: "worldCheckpoint w c = Some r"
  have "worldOk (Release c w)" using worldOk_step [OF w, of undefined "ReleaseOp c"] by simp
  then show "\<exists>w'. opRelease memoryProvider c w = (None, w') \<and> worldOk w' \<and> worldState w' = worldState w \<and>
      worldCheckpoint w' = (worldCheckpoint w)(c \<mapsto> None)"
    using c by (auto simp: memoryProvider_def Release_def worldState_def worldCheckpoint_def fun_eq_iff split: if_splits)
next
  fix b and w :: "('d, 'c) world"
  show "opClose memoryProvider b w = (None, w)" by (simp add: memoryProvider_def)
qed

subsection \<open>Fixtures\<close>

text \<open>
  A fixture of calls: \<open>New\<close> makes a database with given options, \<open>Seed\<close> and \<open>Mutate\<close> make calls up to the
  first error, \<open>Digest\<close> renders the answers to reads.
\<close>

definition onHandle :: "(('d, 'c) memoryDB \<Rightarrow> 'r \<times> ('d, 'c) memoryDB) \<Rightarrow> 'r \<Rightarrow> nat option \<Rightarrow> ('d, 'c) world \<Rightarrow> 'r \<times> ('d, 'c) world" where
  "onHandle f onNil h w =
     (case h of
        None \<Rightarrow> (onNil, w)
      | Some i \<Rightarrow>
          (if i < length (wDatabases w)
           then (case f (wDatabases w ! i) of (r, db) \<Rightarrow> (r, w\<lparr>wDatabases := (wDatabases w)[i := db]\<rparr>))
           else (onNil, w)))"

fun callsUntilError ::
  "('d, 'c) sessionEnv \<Rightarrow> 'd sessionCall list \<Rightarrow> ('d, 'c) memoryDB \<Rightarrow> suiteError option \<times> ('d, 'c) memoryDB" where
  "callsUntilError env [] db = (None, db)"
| "callsUntilError env (call # calls) db =
     (case databaseStep env db call of
        (db', RError e) \<Rightarrow> (Some (StoreFailed e), db')
      | (db', _) \<Rightarrow> callsUntilError env calls db')"

definition digestReads ::
  "('d, 'c) sessionEnv \<Rightarrow> 'd sessionCall list \<Rightarrow> ('d engineResult list \<Rightarrow> string) \<Rightarrow> ('d, 'c) memoryDB \<Rightarrow>
   (suiteError + string) \<times> ('d, 'c) memoryDB" where
  "digestReads env queries render db =
     (case runEngine (databaseStep env) db queries of (db', rs) \<Rightarrow> (Inr (render rs), db'))"

definition newHandle ::
  "'d dbOption list \<Rightarrow> (('d, 'c) world, nat, nat, nat, suiteError) newFn" where
  "newHandle opts w =
     ((Some (length (wDatabases w)), Some memoryProvider), w\<lparr>wDatabases := wDatabases w @ [NewDB opts]\<rparr>)"

definition callFixture ::
  "('d, 'c) sessionEnv \<Rightarrow> 'd dbOption list \<Rightarrow> 'd sessionCall list \<Rightarrow> 'd sessionCall list \<Rightarrow> 'd sessionCall list \<Rightarrow>
   ('d engineResult list \<Rightarrow> string) \<Rightarrow> (('d, 'c) world, nat, nat, nat, suiteError) callbacks" where
  "callFixture env opts seed mutate queries render =
     \<lparr>cbNew = Some (newHandle opts),
      cbSeed = Some (onHandle (callsUntilError env seed) (Some NilDB)),
      cbMutate = Some (onHandle (callsUntilError env mutate) (Some NilDB)),
      cbDigest = Some (onHandle (digestReads env queries render) (Inl NilDB))\<rparr>"

lemma makesNew_handle: "makesNew worldOk worldState worldCheckpoint memoryProvider (newHandle opts) (NewDB opts)"
  by (auto simp: makesNew_def newHandle_def onlyAt_def worldState_def worldCheckpoint_def worldOk_def grown_NewDB
      nth_append fun_eq_iff)

lemma actsAs_onHandle:
  assumes "\<And>db. grown db \<Longrightarrow> grown (snd (f db))"
  shows "actsAs worldOk worldState worldCheckpoint (onHandle f onNil) f"
proof -
  have "\<exists>w'. onHandle f onNil (Some h) w = (fst (f s), w') \<and> onlyAt worldOk worldState worldCheckpoint w h (snd (f s)) w'"
    if w: "worldOk w" and h: "worldState w h = Some s" for w h s
  proof -
    have len: "h < length (wDatabases w)" "s = wDatabases w ! h" using h by (auto simp: worldState_def split: if_splits)
    let ?w' = "w\<lparr>wDatabases := (wDatabases w)[h := snd (f s)]\<rparr>"
    have "worldOk ?w'"
      using w assms [OF worldOk_grown [OF w len(1)]] len(2)
      by (auto simp: worldOk_def list_all_iff dest: set_update_subset_insert [THEN subsetD])
    then show ?thesis
      using len by (intro exI [of _ ?w'])
        (auto simp: onHandle_def onlyAt_def worldState_def worldCheckpoint_def fun_eq_iff split_def nth_list_update)
  qed
  then show ?thesis by (simp add: actsAs_def)
qed

lemma serializedOnly_wf:
  fixes db :: "('d, 'c) memoryDB"
  assumes "serializedOnly (NewDB opts :: ('d, 'c) memoryDB)" and wf: "dbWf (NewDB opts) db"
  shows "serializedOnly db"
proof -
  have schema: "dbSchema db = dbSchema (NewDB opts :: ('d, 'c) memoryDB)" using wf by (simp add: dbWf_def sameSchema_def)
  have engines: "map_of (msEngines s) c = Some SerializedStorage"
    if "dbSchema db = Some s" "map_of (msEngines s) c \<noteq> None" for s c
  proof -
    have "c \<in> set (sortStrings (keysOf (msEngines s)))" using that(2) by (simp add: keysOf_def map_of_eq_None_iff)
    then show ?thesis
      using assms(1) that(1) schema
      by (auto simp: validateSerializedConfiguration_def dbCollections_NewDB find_None_iff_set keysOf_def
          simp del: sortStrings_set split: option.splits)
  qed
  have "\<exists>se. engineOf db c = SerializedE se" for c
  proof -
    have "\<exists>se. newEngine (NewDB opts :: ('d, 'c) memoryDB) c = SerializedE se"
      using engines [of _ c] schema by (fastforce simp: newEngine_def Let_def split: option.splits engineChoice.splits)
    moreover have "engineWf (newEngine (NewDB opts) c) (engineOf db c)" using wf by (simp add: dbWf_def)
    ultimately show ?thesis by (cases "engineOf db c") (auto simp: engineWf_def initErrOf_def)
  qed
  then have "find (\<lambda>c. case engineOf db c of SerializedE _ \<Rightarrow> False | ColumnarE _ \<Rightarrow> True)
      (sortStrings (keysOf (dbCollections db))) = None"
    by (auto simp: find_None_iff_set split: engine.split) (metis engine.distinct(1))
  moreover have "find (\<lambda>c. map_of (msEngines s) c \<noteq> Some SerializedStorage) (sortStrings (keysOf (msEngines s))) = None"
    if "dbSchema db = Some s" for s
  proof -
    have "map_of (msEngines s) c = Some SerializedStorage" if "c \<in> set (keysOf (msEngines s))" for c
      using engines [OF \<open>dbSchema db = Some s\<close>, of c] that by (simp add: keysOf_def map_of_eq_None_iff)
    then show ?thesis by (simp add: find_None_iff_set)
  qed
  ultimately show ?thesis by (simp add: validateSerializedConfiguration_def split: option.split)
qed

text \<open>Databases with the same content answer alike, and reads keep the content.\<close>

definition alike :: "('d, 'c) memoryDB \<Rightarrow> ('d, 'c) memoryDB \<Rightarrow> ('d, 'c) memoryDB \<Rightarrow> bool" where
  "alike db0 a b = (dbWf db0 a \<and> dbWf db0 b \<and> dbContent a = dbContent b)"

lemma database_simulation:
  assumes "dbWf db0 db"
  shows "dbWf db0 (fst (databaseStep env db call)) \<and>
    dbMapStep env db0 (dbContent db) call = (dbContent (fst (databaseStep env db call)), snd (databaseStep env db call))"
  using sessionStep_simulation [of db0 "\<lparr>sDB = db, sTx = None\<rparr>" call env] assms
  by (cases "sessionStep env \<lparr>sDB = db, sTx = None\<rparr> call") (simp add: databaseStep_session allowRead_def)

lemma alike_step:
  assumes "alike db0 a b"
  shows "alike db0 (fst (databaseStep env a call)) (fst (databaseStep env b call)) \<and>
    snd (databaseStep env a call) = snd (databaseStep env b call)"
  using database_simulation [of db0 a env call] database_simulation [of db0 b env call] assms
  by (simp add: alike_def)

lemma read_keeps:
  assumes "dbWf db0 db" and "isRead call"
  shows "alike db0 db (fst (databaseStep env db call))"
proof -
  have "fst (dbMapStep env db0 (dbContent db) call) = dbContent db"
    using assms(2) by (cases call) (simp_all add: dbMapStep_def Let_def split: option.split)
  then show ?thesis using database_simulation [OF assms(1), of env call] assms(1) by (simp add: alike_def)
qed

lemma alike_calls:
  assumes "alike db0 a b"
  shows "alike db0 (snd (callsUntilError env calls a)) (snd (callsUntilError env calls b)) \<and>
    fst (callsUntilError env calls a) = fst (callsUntilError env calls b)"
  using assms
proof (induction calls arbitrary: a b)
  case (Cons call calls)
  then show ?case
    using alike_step [OF Cons.prems, of env call] by (auto split: prod.splits engineResult.splits)
qed simp

lemma alike_trace:
  assumes "alike db0 a b"
  shows "alike db0 (fst (runEngine (databaseStep env) a calls)) (fst (runEngine (databaseStep env) b calls)) \<and>
    snd (runEngine (databaseStep env) a calls) = snd (runEngine (databaseStep env) b calls)"
  using assms
proof (induction calls arbitrary: a b)
  case (Cons call calls)
  then show ?case
    using alike_step [OF Cons.prems, of env call] by (simp add: split_def Let_def)
qed simp

lemma reads_keep:
  assumes "dbWf db0 db" and "list_all isRead calls"
  shows "alike db0 db (fst (runEngine (databaseStep env) db calls))"
  using assms
proof (induction calls arbitrary: db)
  case (Cons call calls)
  have step: "alike db0 db (fst (databaseStep env db call))" using read_keeps [of db0 db call env] Cons.prems by simp
  then have "alike db0 (fst (databaseStep env db call)) (fst (runEngine (databaseStep env) (fst (databaseStep env db call)) calls))"
    using Cons by (simp add: alike_def)
  then show ?case using step by (simp add: alike_def split_def Let_def)
qed (simp add: alike_def)

lemma grown_handle: "grown db \<Longrightarrow> grown (fst (databaseStep env db call))"
  using grown_step [of "\<lparr>sDB = db, sTx = None\<rparr>" env call] by (simp add: databaseStep_session)

lemma grown_calls: "grown db \<Longrightarrow> grown (snd (callsUntilError env calls db))"
proof (induction calls arbitrary: db)
  case (Cons call calls)
  then show ?case using grown_handle [OF Cons.prems, of env call] by (auto split: prod.split engineResult.split)
qed simp

lemma grown_trace: "grown db \<Longrightarrow> grown (fst (runEngine (databaseStep env) db calls))"
proof (induction calls arbitrary: db)
  case (Cons call calls)
  then show ?case using grown_handle [OF Cons.prems, of env call] by (simp add: split_def Let_def)
qed simp

lemma grown_digest: "grown db \<Longrightarrow> grown (snd (digestReads env queries render db))"
  using grown_trace by (simp add: digestReads_def split_def)


text \<open>One note, overwritten by the mutation; the digest tells whether its text is the first one.\<close>

definition noteDigest :: "fields engineResult list \<Rightarrow> string" where
  "noteDigest rs = (case rs of [RData d] \<Rightarrow> if d = recData (sampleRecord ''first'') then ''first'' else ''other'' | _ \<Rightarrow> ''none'')"


end
