(* ===== verification/RecordRender.thy ===== *)
theory RecordRender
  imports RecordDiff
begin

text \<open>
  The renderers of a diff stream, \<open>src/recordops/render_yaml_gitstyle.go\<close>,
  \<open>render_yaml_byid.go\<close>, \<open>render_yaml.go\<close> and \<open>render_json.go\<close>.

  A stream is the list of what it yields, a diff or an error. Package \<open>yaml.v3\<close> is not part of the
  repository: what it and \<open>json\<close> make of a value is an argument, \<open>renderEnv\<close>, as is the text
  \<open>fmt\<close> gives with the verb v for an ID and for a field value.
\<close>

section \<open>Definitions\<close>

text \<open>
  A \<open>yaml.Node\<close>: a scalar with its value, tag and whether it is double-quoted, or a mapping with its
  flow style and its content, keys and values in turn.
\<close>

datatype yamlNode =
    Scalar string string bool
  | Mapping bool "yamlNode list"

record 'k renderEnv =
  showID :: "'k \<Rightarrow> string"
  showValue :: "rvalue \<Rightarrow> string"
  encodeNode :: "rvalue \<Rightarrow> yamlNode option"
  marshalNode :: "yamlNode \<Rightarrow> string"
  marshalYAML :: "string \<Rightarrow> 'k idDiff list \<Rightarrow> string + string"
  marshalJSON :: "string \<Rightarrow> 'k idDiff list \<Rightarrow> string + string"

subsection \<open>Collecting the stream\<close>

fun collectDiffs :: "('e + 'd) list \<Rightarrow> 'e + 'd list" where
  "collectDiffs [] = Inr []"
| "collectDiffs (Inl e # xs) = Inl e"
| "collectDiffs (Inr d # xs) = bindE (collectDiffs xs) (\<lambda>ds. Inr (d # ds))"

text \<open>
  \<open>RenderYAML\<close> and \<open>RenderJSON\<close>: the two differ in the marshaller, whose error is the other
  alternative of the result.
\<close>

definition RenderYAML ::
  "'k renderEnv \<Rightarrow> ('e + 'k idDiff) list \<Rightarrow> string \<Rightarrow> ('e + string) + string" where
  "RenderYAML env stream collectionName =
     bindE (mapErr Inl (collectDiffs stream))
       (\<lambda>collected. mapErr Inr (marshalYAML env collectionName collected))"

definition RenderJSON ::
  "'k renderEnv \<Rightarrow> ('e + 'k idDiff) list \<Rightarrow> string \<Rightarrow> ('e + string) + string" where
  "RenderJSON env stream collectionName =
     bindE (mapErr Inl (collectDiffs stream))
       (\<lambda>collected. mapErr Inr (marshalJSON env collectionName collected))"

subsection \<open>Git style\<close>

definition sortedFields :: "fieldValue list \<Rightarrow> fieldValue list" where
  "sortedFields fs = sortByName fs"

definition nl :: string where "nl = [CHR 0x0A]"

definition baselineByName :: "'k idDiff \<Rightarrow> string \<rightharpoonup> fieldValue" where
  "baselineByName d =
     (case Baseline d of
        None \<Rightarrow> Map.empty
      | Some fs \<Rightarrow> fold (\<lambda>bf m. m(Name bf \<mapsto> bf)) fs Map.empty)"

definition changedLines :: "'k renderEnv \<Rightarrow> (string \<rightharpoonup> fieldValue) \<Rightarrow> fieldValue \<Rightarrow> string" where
  "changedLines env byName f =
     (case byName (Name f) of
        None \<Rightarrow> []
      | Some bf \<Rightarrow> ''-   '' @ Name f @ '': '' @ showValue env (Value bf) @ nl) @
     (if Absent f then [] else ''+   '' @ Name f @ '': '' @ showValue env (Value f) @ nl)"

definition diffText :: "'k renderEnv \<Rightarrow> int \<Rightarrow> 'k idDiff \<Rightarrow> string" where
  "diffText env candidateIndex d =
     (if candidateIndex < 0 \<or> int (length (Candidates d)) \<le> candidateIndex then []
      else
        let cand = Candidates d ! nat candidateIndex
        in case Status cand of
             Matched \<Rightarrow> []
           | Missing \<Rightarrow> ''- '' @ showID env (ID d) @ nl
           | Extra \<Rightarrow>
               ''+ '' @ showID env (ID d) @ '':'' @ nl @
               concat (map (\<lambda>f. ''    '' @ Name f @ '': '' @ showValue env (Value f) @ nl)
                 (sortedFields (Fields cand)))
           | Changed \<Rightarrow>
               showID env (ID d) @ '':'' @ nl @
               concat (map (changedLines env (baselineByName d)) (sortedFields (Fields cand))))"

fun gitBody :: "'k renderEnv \<Rightarrow> int \<Rightarrow> string \<Rightarrow> ('e + 'k idDiff) list \<Rightarrow> 'e + string" where
  "gitBody env idx body [] = Inr body"
| "gitBody env idx body (Inl e # ds) = Inl e"
| "gitBody env idx body (Inr d # ds) = gitBody env idx (body @ diffText env idx d) ds"

definition RenderYAMLGitStyle ::
  "'k renderEnv \<Rightarrow> ('e + 'k idDiff) list \<Rightarrow> int \<Rightarrow> string \<Rightarrow> 'e + string" where
  "RenderYAMLGitStyle env stream candidateIndex collectionName =
     bindE (gitBody env candidateIndex [] stream)
       (\<lambda>body. if body = [] then Inr (collectionName @ '': {}'' @ nl)
               else Inr (collectionName @ '':'' @ nl @ body))"

subsection \<open>By ID\<close>

abbreviation plain :: "string \<Rightarrow> yamlNode" where
  "plain s \<equiv> Scalar s [] False"

fun statusName :: "recordStatus \<Rightarrow> string" where
  "statusName Missing = ''missing''"
| "statusName Extra = ''extra''"
| "statusName Matched = ''matched''"
| "statusName Changed = ''changed''"

definition valueNode :: "'k renderEnv \<Rightarrow> rvalue \<Rightarrow> yamlNode" where
  "valueNode env v =
     (if v = RNil then Scalar ''null'' ''!!null'' False
      else case encodeNode env v of
          None \<Rightarrow> Scalar ''null'' ''!!null'' False
        | Some n \<Rightarrow> n)"

definition buildFieldsNode :: "'k renderEnv \<Rightarrow> fieldValue list \<Rightarrow> yamlNode" where
  "buildFieldsNode env fvs =
     Mapping False (concat (map (\<lambda>fv.
       [plain (Name fv),
        Mapping False
          (if Absent fv then [plain ''absent'', Scalar ''true'' ''!!bool'' False]
           else [plain ''new'', valueNode env (Value fv)])]) fvs))"

definition buildCandidateStateNode :: "'k renderEnv \<Rightarrow> candidateState \<Rightarrow> yamlNode" where
  "buildCandidateStateNode env c =
     Mapping False
       ([plain ''status'', plain (statusName (Status c))] @
        (if Fields c \<noteq> [] then [plain ''fields'', buildFieldsNode env (Fields c)] else []))"

definition buildCandidatesNode :: "'k renderEnv \<Rightarrow> candidateState list \<Rightarrow> yamlNode" where
  "buildCandidatesNode env cs =
     (if cs = [] then Mapping True []
      else Mapping False (concat (map (\<lambda>(i, c).
        [Scalar (natDec i) ''!!str'' True, buildCandidateStateNode env c]) (enumerate 0 cs))))"

definition buildBaselineNode :: "'k renderEnv \<Rightarrow> fieldValue list \<Rightarrow> yamlNode" where
  "buildBaselineNode env fs =
     (if fs = [] then Mapping True []
      else Mapping False (concat (map (\<lambda>fv. [plain (Name fv), valueNode env (Value fv)]) fs)))"

definition buildIDDiffNode :: "'k renderEnv \<Rightarrow> 'k idDiff \<Rightarrow> yamlNode" where
  "buildIDDiffNode env d =
     Mapping False
       ((case Baseline d of
           None \<Rightarrow> []
         | Some fs \<Rightarrow> [plain ''baseline'', buildBaselineNode env fs]) @
        [plain ''candidates'', buildCandidatesNode env (Candidates d)])"

definition byIDRoot :: "'k renderEnv \<Rightarrow> string \<Rightarrow> 'k idDiff list \<Rightarrow> yamlNode" where
  "byIDRoot env collectionName collected =
     Mapping False
       [plain collectionName,
        if collected = [] then Mapping True []
        else Mapping False
          (concat (map (\<lambda>d. [plain (showID env (ID d)), buildIDDiffNode env d]) collected))]"

definition RenderYAMLByID ::
  "'k renderEnv \<Rightarrow> ('e + 'k idDiff) list \<Rightarrow> string \<Rightarrow> 'e + string" where
  "RenderYAMLByID env stream collectionName =
     bindE (collectDiffs stream)
       (\<lambda>collected. Inr (marshalNode env (byIDRoot env collectionName collected)))"

subsection \<open>Reading a rendered document\<close>

text \<open>What a reader of the by-ID document finds in it: entries of a mapping, states, fields.\<close>

fun entries :: "yamlNode list \<Rightarrow> (string \<times> yamlNode) list" where
  "entries (Scalar k t q # v # ns) = (k, v) # entries ns"
| "entries _ = []"

fun entriesOf :: "yamlNode \<Rightarrow> (string \<times> yamlNode) list" where
  "entriesOf (Mapping f ns) = entries ns"
| "entriesOf (Scalar v t q) = []"

definition readStatus :: "string \<Rightarrow> recordStatus" where
  "readStatus s =
     (if s = ''missing'' then Missing else if s = ''extra'' then Extra
      else if s = ''matched'' then Matched else Changed)"

fun scalarValue :: "yamlNode \<Rightarrow> string" where
  "scalarValue (Scalar v t q) = v"
| "scalarValue (Mapping f ns) = []"

definition readField :: "string \<times> yamlNode \<Rightarrow> string \<times> yamlNode option" where
  "readField e = (fst e, map_of (entriesOf (snd e)) ''new'')"

definition readState :: "yamlNode \<Rightarrow> recordStatus \<times> (string \<times> yamlNode option) list" where
  "readState n =
     (let es = entriesOf n
      in (readStatus (scalarValue (the (map_of es ''status''))),
          case map_of es ''fields'' of None \<Rightarrow> [] | Some fs \<Rightarrow> map readField (entriesOf fs)))"

definition readDiff ::
  "yamlNode \<Rightarrow> (string \<times> yamlNode) list option \<times> (recordStatus \<times> (string \<times> yamlNode option) list) list" where
  "readDiff n =
     (let es = entriesOf n
      in (map_option entriesOf (map_of es ''baseline''),
          map (readState \<circ> snd) (entriesOf (the (map_of es ''candidates'')))))"

definition readRoot where
  "readRoot n = map (\<lambda>(k, b). (k, map (\<lambda>(i, d). (i, readDiff d)) (entriesOf b))) (entriesOf n)"

section \<open>Lemmas\<close>

lemma collectDiffs_ok: "collectDiffs (map Inr ds) = Inr ds"
  by (induction ds) simp_all

lemma entries_pairs:
  "entries (concat (map (\<lambda>x. [Scalar (k x) (t x) (q x), v x]) xs)) = map (\<lambda>x. (k x, v x)) xs"
  by (induction xs) auto

lemma map_snd_enumerate: "map (\<lambda>x. g (snd x)) (enumerate n xs) = map g xs"
  by (induction xs arbitrary: n) auto

lemma readStatus_statusName [simp]: "readStatus (statusName s) = s"
  by (cases s) (simp_all add: readStatus_def)

lemma read_fields:
  "map readField (entriesOf (buildFieldsNode env fs)) =
    map (\<lambda>f. (Name f, if Absent f then None else Some (valueNode env (Value f)))) fs"
  by (simp add: buildFieldsNode_def entries_pairs readField_def)

lemma read_state:
  "readState (buildCandidateStateNode env c) =
    (Status c, map (\<lambda>f. (Name f, if Absent f then None else Some (valueNode env (Value f)))) (Fields c))"
  by (simp add: readState_def buildCandidateStateNode_def Let_def read_fields)

lemma read_candidates:
  "map (readState \<circ> snd) (entriesOf (buildCandidatesNode env cs)) =
    map (\<lambda>c. (Status c,
      map (\<lambda>f. (Name f, if Absent f then None else Some (valueNode env (Value f)))) (Fields c))) cs"
  by (simp add: buildCandidatesNode_def case_prod_unfold entries_pairs comp_def read_state
      map_snd_enumerate [where g = "\<lambda>c. (Status c,
        map (\<lambda>f. (Name f, if Absent f then None else Some (valueNode env (Value f)))) (Fields c))"])

text \<open>What a diff says, with the values in the form they are rendered in.\<close>

definition shown ::
  "'k renderEnv \<Rightarrow> 'k idDiff \<Rightarrow>
    (string \<times> yamlNode) list option \<times> (recordStatus \<times> (string \<times> yamlNode option) list) list" where
  "shown env d =
     (map_option (map (\<lambda>f. (Name f, valueNode env (Value f)))) (Baseline d),
      map (\<lambda>c. (Status c,
        map (\<lambda>f. (Name f, if Absent f then None else Some (valueNode env (Value f)))) (Fields c)))
        (Candidates d))"

lemma read_baseline:
  "entriesOf (buildBaselineNode env fs) = map (\<lambda>f. (Name f, valueNode env (Value f))) fs"
  by (simp add: buildBaselineNode_def entries_pairs)

lemma read_diff: "readDiff (buildIDDiffNode env d) = shown env d"
  using read_candidates [of env "Candidates d"]
  by (simp add: readDiff_def buildIDDiffNode_def Let_def shown_def read_baseline split: option.split)

text \<open>The document \<open>RenderYAMLByID\<close> builds for a stream without errors can be read back: under
  the collection's name it holds, in stream order, every ID with the baseline's fields (where there
  is a baseline), and every candidate's status and deltas, an absent field told apart from one whose
  new value is null.
\<close>

theorem byid_document_readable:
  "\<exists>root. RenderYAMLByID env (map Inr ds) collectionName = Inr (marshalNode env root) \<and>
    readRoot root = [(collectionName, map (\<lambda>d. (showID env (ID d), shown env d)) ds)]"
proof -
  have "readRoot (byIDRoot env collectionName ds) =
      [(collectionName, map (\<lambda>d. (showID env (ID d), shown env d)) ds)]"
    by (simp add: readRoot_def byIDRoot_def entries_pairs read_diff)
  then show ?thesis
    by (intro exI [of _ "byIDRoot env collectionName ds"]) (simp add: RenderYAMLByID_def collectDiffs_ok)
qed

lemma gitBody_text:
  "gitBody env idx body (map Inr ds) = Inr (body @ concat (map (diffText env idx) ds))"
  by (induction ds arbitrary: body) simp_all

lemma gitBody_error:
  "gitBody env idx body (map Inr ds @ Inl e # rest) = Inl e"
  by (induction ds arbitrary: body) simp_all

lemma diffText_empty:
  "diffText env idx d = [] \<longleftrightarrow>
    idx < 0 \<or> int (length (Candidates d)) \<le> idx \<or> Status (Candidates d ! nat idx) = Matched"
  by (auto simp: diffText_def Let_def nl_def split: recordStatus.splits)

text \<open>
  The git-style view of a candidate is the explicit empty collection exactly when every diff
  of the stream leaves that candidate matched or has no such candidate; an error of the stream is
  returned instead of any text, whatever was rendered before it.
\<close>

theorem gitstyle_empty_iff_matched:
  "(RenderYAMLGitStyle env (map Inr stream) idx name = Inr (name @ '': {}'' @ nl) \<longleftrightarrow>
     list_all (\<lambda>d. idx < 0 \<or> int (length (Candidates d)) \<le> idx \<or>
       Status (Candidates d ! nat idx) = Matched) stream) \<and>
   RenderYAMLGitStyle env (map Inr stream @ Inl e # rest) idx name = Inl e"
proof -
  have "concat (map (diffText env idx) stream) = [] \<longleftrightarrow>
      list_all (\<lambda>d. idx < 0 \<or> int (length (Candidates d)) \<le> idx \<or>
        Status (Candidates d ! nat idx) = Matched) stream"
    by (simp add: concat_eq_Nil_conv diffText_empty list_all_iff)
  then show ?thesis
    by (auto simp: RenderYAMLGitStyle_def gitBody_text gitBody_error nl_def)
qed

end
