(* ===== verification/DalTransaction.thy ===== *)
theory DalTransaction
  imports MemoryDatabase
begin

text \<open>
  What package \<open>dal\<close> keeps around a transaction: the transactional context and the options
  (\<open>src/dal/transaction.go\<close>), preconditions (\<open>precondition.go\<close>), tracked and applied changes
  (\<open>changes.go\<close>) and hooks before a save (\<open>hooks.go\<close>, \<open>data_wrapper.go\<close>).

  A panic is \<^const>\<open>None\<close>. The type \<open>record.Changes\<close> belongs to another module: what its
  accessors return and what \<open>Reset\<close> leaves is an argument, \<open>changesOps\<close>, and so is
  \<open>record.EqualKeys\<close>.
\<close>

section \<open>Definitions\<close>

subsection \<open>Transactional contexts\<close>

text \<open>
  A context is the chain of values put into it: a transaction, the context a transaction was
  started from, or anything else.
\<close>

datatype ('x, 't) txContext =
    Plain 'x
  | WithTransaction 't "('x, 't) txContext"
  | WithOriginal "('x, 't) txContext" "('x, 't) txContext"
  | WithOther 'x "('x, 't) txContext"

primrec GetTransaction :: "('x, 't) txContext \<Rightarrow> 't option" where
  "GetTransaction (Plain x) = None"
| "GetTransaction (WithTransaction t c) = Some t"
| "GetTransaction (WithOriginal orig c) = GetTransaction c"
| "GetTransaction (WithOther x c) = GetTransaction c"

primrec originalOf :: "('x, 't) txContext \<Rightarrow> ('x, 't) txContext option" where
  "originalOf (Plain x) = None"
| "originalOf (WithTransaction t c) = originalOf c"
| "originalOf (WithOriginal orig c) = Some orig"
| "originalOf (WithOther x c) = originalOf c"

text \<open>The assertion on a missing value panics.\<close>

definition GetNonTransactionalContext :: "('x, 't) txContext \<Rightarrow> ('x, 't) txContext option" where
  "GetNonTransactionalContext ctx = originalOf ctx"

definition NewContextWithTransaction :: "('x, 't) txContext \<Rightarrow> 't \<Rightarrow> ('x, 't) txContext" where
  "NewContextWithTransaction ctx tx =
     (let originalContext =
        (case GetTransaction ctx of
           None \<Rightarrow> ctx
         | Some existing \<Rightarrow> (case originalOf ctx of None \<Rightarrow> ctx | Some original \<Rightarrow> original))
      in WithTransaction tx (WithOriginal originalContext ctx))"

subsection \<open>Transaction options\<close>

type_synonym isolationLevel = int

abbreviation TxUnspecified :: isolationLevel where "TxUnspecified \<equiv> 0"

record txOptions =
  txMessage :: string
  txIsolationLevel :: isolationLevel
  txIsReadonly :: bool
  txIsCrossGroup :: bool
  txAttempts :: int
  txPassword :: string

type_synonym txOption = "txOptions \<Rightarrow> txOptions option"

definition TxWithIsolationLevel :: "isolationLevel \<Rightarrow> txOption option" where
  "TxWithIsolationLevel level =
     (if level = TxUnspecified then None
      else Some (\<lambda>o1. if txIsolationLevel o1 \<noteq> TxUnspecified then None
                      else Some (o1\<lparr>txIsolationLevel := level\<rparr>)))"

definition TxWithMessage :: "string \<Rightarrow> txOption" where
  "TxWithMessage message o1 = Some (o1\<lparr>txMessage := message\<rparr>)"

definition TxWithAttempts :: "int \<Rightarrow> txOption" where
  "TxWithAttempts attempts o1 = Some (o1\<lparr>txAttempts := attempts\<rparr>)"

definition TxWithReadonly :: txOption where
  "TxWithReadonly o1 = Some (o1\<lparr>txIsReadonly := True\<rparr>)"

definition TxWithCrossGroup :: txOption where
  "TxWithCrossGroup o1 = Some (o1\<lparr>txIsCrossGroup := True\<rparr>)"

definition SetMessage :: "string \<Rightarrow> txOptions \<Rightarrow> txOptions" where
  "SetMessage message v = v\<lparr>txMessage := message\<rparr>"

definition noTxOptions :: txOptions where
  "noTxOptions =
     \<lparr>txMessage = [], txIsolationLevel = TxUnspecified, txIsReadonly = False,
      txIsCrossGroup = False, txAttempts = 0, txPassword = []\<rparr>"

definition NewTransactionOptions :: "txOption list \<Rightarrow> txOptions option" where
  "NewTransactionOptions opts = fold (\<lambda>opt r. Option.bind r opt) opts (Some noTxOptions)"

subsection \<open>Preconditions\<close>

record 'time preConditions =
  pcExists :: bool
  pcLastUpdateTime :: 'time

definition WithExistsPrecondition :: "'time preConditions \<Rightarrow> 'time preConditions" where
  "WithExistsPrecondition p = p\<lparr>pcExists := True\<rparr>"

definition WithLastUpdateTimePrecondition :: "'time \<Rightarrow> 'time preConditions \<Rightarrow> 'time preConditions" where
  "WithLastUpdateTimePrecondition t p = p\<lparr>pcLastUpdateTime := t\<rparr>"

definition GetPreconditions ::
  "'time \<Rightarrow> ('time preConditions \<Rightarrow> 'time preConditions) list \<Rightarrow> 'time preConditions" where
  "GetPreconditions zeroTime items =
     fold (\<lambda>p r. p r) items \<lparr>pcExists = False, pcLastUpdateTime = zeroTime\<rparr>"

subsection \<open>Tracked changes\<close>

text \<open>
  A record is an object: its identity and its key. \<open>eqKeys\<close> is \<open>record.EqualKeys\<close>. A nil record
  is \<^const>\<open>None\<close>. The state is the list of tracked records, which \<open>Records\<close> copies.
\<close>

record trackedRecord =
  trIdentity :: nat
  trKey :: key

definition IsChanged :: "(key \<Rightarrow> key \<Rightarrow> bool) \<Rightarrow> trackedRecord list \<Rightarrow> trackedRecord option \<Rightarrow> bool" where
  "IsChanged eqKeys changes rec =
     (case rec of
        None \<Rightarrow> False
      | Some r \<Rightarrow> list_ex (\<lambda>changed. trIdentity changed = trIdentity r \<or> eqKeys (trKey changed) (trKey r)) changes)"

text \<open>
  \<open>mark\<close> is what \<open>MarkAsChanged\<close> does to the record of an identity, in a world of records. A nil
  record panics before anything is done.
\<close>

definition FlagAsChanged ::
  "(nat \<Rightarrow> 'w \<Rightarrow> 'w) \<Rightarrow> (key \<Rightarrow> key \<Rightarrow> bool) \<Rightarrow> 'w \<Rightarrow> trackedRecord list \<Rightarrow> trackedRecord option \<Rightarrow>
    ('w \<times> trackedRecord list) option" where
  "FlagAsChanged mark eqKeys w changes rec =
     (case rec of
        None \<Rightarrow> None
      | Some r \<Rightarrow>
          Some (mark (trIdentity r) w, if \<not> IsChanged eqKeys changes rec then changes @ [r] else changes))"

definition HasChanges :: "trackedRecord list \<Rightarrow> bool" where
  "HasChanges changes = (0 < length changes)"

subsection \<open>Applying changes\<close>

text \<open>
  A change set that is not nil; a nil one panics. The key of a record and of an exclusion is a pointer and the key it points to; \<open>excludeRecords\<close>
  compares the pointers.
\<close>

type_synonym keyRef = "nat \<times> key"

record ('ch, 'd) changesOps =
  chInserts :: "'ch \<Rightarrow> (keyRef \<times> 'd) list"
  chUpdates :: "'ch \<Rightarrow> (keyRef \<times> fieldUpdate list) list"
  chDeletes :: "'ch \<Rightarrow> keyRef list"
  chReset :: "'ch \<Rightarrow> 'ch"

record ('s, 'd, 'e) txOps =
  opInsertMulti :: "'s \<Rightarrow> (key \<times> 'd) list \<Rightarrow> 's \<times> 'e option"
  opUpdate :: "'s \<Rightarrow> key \<Rightarrow> fieldUpdate list \<Rightarrow> 's \<times> 'e option"
  opDeleteMulti :: "'s \<Rightarrow> key list \<Rightarrow> 's \<times> 'e option"

datatype 'e applyError = InsertFailedWith 'e | UpdateFailedWith key 'e | DeleteFailedWith 'e

definition excludeRecords :: "(keyRef \<times> 'd) list \<Rightarrow> keyRef list \<Rightarrow> (keyRef \<times> 'd) list" where
  "excludeRecords records excludeKeys =
     (if excludeKeys = [] then records
      else filter (\<lambda>r. \<not> list_ex (\<lambda>k. fst (fst r) = fst k) excludeKeys) records)"

fun applyUpdates ::
  "('s, 'd, 'e) txOps \<Rightarrow> 's \<Rightarrow> (keyRef \<times> fieldUpdate list) list \<Rightarrow> 's \<times> 'e applyError option" where
  "applyUpdates ops s [] = (s, None)"
| "applyUpdates ops s ((k, us) # rest) =
     (case opUpdate ops s (snd k) us of
        (s', Some e) \<Rightarrow> (s', Some (UpdateFailedWith (snd k) e))
      | (s', None) \<Rightarrow> applyUpdates ops s' rest)"

definition applyInserts ::
  "('s, 'd, 'e) txOps \<Rightarrow> 's \<Rightarrow> (keyRef \<times> 'd) list \<Rightarrow> 's \<times> 'e applyError option" where
  "applyInserts ops s records =
     (if records = [] then (s, None)
      else case opInsertMulti ops s (map (\<lambda>(k, d). (snd k, d)) records) of
          (s', e) \<Rightarrow> (s', map_option InsertFailedWith e))"

definition applyDeletes ::
  "('s, 'd, 'e) txOps \<Rightarrow> 's \<Rightarrow> keyRef list \<Rightarrow> 's \<times> 'e applyError option" where
  "applyDeletes ops s keys =
     (if keys = [] then (s, None)
      else case opDeleteMulti ops s (map snd keys) of
          (s', e) \<Rightarrow> (s', map_option DeleteFailedWith e))"

definition ApplyChanges ::
  "('ch, 'd) changesOps \<Rightarrow> ('s, 'd, 'e) txOps \<Rightarrow> 's \<Rightarrow> 'ch \<Rightarrow> keyRef list \<Rightarrow>
    'ch \<times> 's \<times> 'e applyError option" where
  "ApplyChanges chs ops s changes excludeKeys =
     (case applyInserts ops s (excludeRecords (chInserts chs changes) excludeKeys) of
        (s1, Some e) \<Rightarrow> (changes, s1, Some e)
      | (s1, None) \<Rightarrow>
          (case applyUpdates ops s1 (chUpdates chs changes) of
             (s2, Some e) \<Rightarrow> (changes, s2, Some e)
           | (s2, None) \<Rightarrow>
               (case applyDeletes ops s2 (chDeletes chs changes) of
                  (s3, Some e) \<Rightarrow> (changes, s3, Some e)
                | (s3, None) \<Rightarrow> (chReset chs changes, s3, None))))"

subsection \<open>Hooks before a save\<close>

datatype hookError = ValidationError string | ErrHookFailed string

fun callRecordHooks :: "'r \<Rightarrow> ('r \<Rightarrow> string option) list \<Rightarrow> hookError option" where
  "callRecordHooks rec [] = None"
| "callRecordHooks rec (hook # hooks) =
     (case hook rec of
        Some err \<Rightarrow> Some (ErrHookFailed err)
      | None \<Rightarrow> callRecordHooks rec hooks)"

text \<open>\<open>validate\<close> is \<^const>\<open>None\<close> for data without a \<open>Validate\<close> method.\<close>

definition beforeSafe :: "('r \<Rightarrow> string option) option \<Rightarrow> 'r \<Rightarrow> hookError option" where
  "beforeSafe validate rec =
     (case validate of None \<Rightarrow> None | Some f \<Rightarrow> map_option ValidationError (f rec))"

definition BeforeSave ::
  "('r \<Rightarrow> string option) option \<Rightarrow> ('r \<Rightarrow> string option) list \<Rightarrow> 'r \<Rightarrow> hookError option" where
  "BeforeSave validate beforeSafeHooks rec =
     (case beforeSafe validate rec of
        Some err \<Rightarrow> Some err
      | None \<Rightarrow> callRecordHooks rec beforeSafeHooks)"

record 'd recordDataW =
  rdwData :: 'd
  rdwBeforeSave :: "(key \<Rightarrow> 'd \<Rightarrow> string option) option"
  rdwAfterLoad :: "(key \<Rightarrow> 'd \<Rightarrow> string option) option"

definition MakeRecordData :: "'d \<Rightarrow> ('d recordDataW \<Rightarrow> 'd recordDataW) list \<Rightarrow> 'd recordDataW" where
  "MakeRecordData d opts =
     fold (\<lambda>f rd. f rd) opts \<lparr>rdwData = d, rdwBeforeSave = None, rdwAfterLoad = None\<rparr>"

definition WithBeforeSave :: "(key \<Rightarrow> 'd \<Rightarrow> string option) \<Rightarrow> 'd recordDataW \<Rightarrow> 'd recordDataW" where
  "WithBeforeSave hook rd = rd\<lparr>rdwBeforeSave := Some hook\<rparr>"

definition WithAfterLoad :: "(key \<Rightarrow> 'd \<Rightarrow> string option) \<Rightarrow> 'd recordDataW \<Rightarrow> 'd recordDataW" where
  "WithAfterLoad hook rd = rd\<lparr>rdwAfterLoad := Some hook\<rparr>"

definition dataBeforeSave :: "'d recordDataW \<Rightarrow> key \<Rightarrow> string option" where
  "dataBeforeSave v k = (case rdwBeforeSave v of None \<Rightarrow> None | Some h \<Rightarrow> h k (rdwData v))"

definition dataAfterLoad :: "'d recordDataW \<Rightarrow> key \<Rightarrow> string option" where
  "dataAfterLoad v k = (case rdwAfterLoad v of None \<Rightarrow> None | Some h \<Rightarrow> h k (rdwData v))"

section \<open>Nested transactions\<close>

text \<open>The contexts a program can build: values are added one by one.\<close>

inductive builtContext :: "('x, 't) txContext \<Rightarrow> bool" where
  built_plain: "builtContext (Plain x)"
| built_other: "builtContext c \<Longrightarrow> builtContext (WithOther x c)"
| built_transaction: "builtContext c \<Longrightarrow> builtContext (NewContextWithTransaction c t)"

lemma builtContext_original:
  "builtContext c \<Longrightarrow>
    (GetTransaction c = None \<longleftrightarrow> originalOf c = None) \<and>
    (case originalOf c of None \<Rightarrow> True | Some orig \<Rightarrow> GetTransaction orig = None)"
  by (induction rule: builtContext.induct)
    (auto simp: NewContextWithTransaction_def Let_def split: option.splits)

text \<open>However deeply transactions are nested and whatever other values are put into the context in
  between, a transactional context gives back its own transaction, and its non-transactional
  context carries no transaction at all.
\<close>

theorem nested_transaction_context:
  assumes "builtContext ctx"
  shows "GetTransaction (NewContextWithTransaction ctx tx) = Some tx \<and>
    (case GetNonTransactionalContext (NewContextWithTransaction ctx tx) of
       None \<Rightarrow> False | Some orig \<Rightarrow> GetTransaction orig = None)"
  using builtContext_original [OF assms]
  by (auto simp: NewContextWithTransaction_def GetNonTransactionalContext_def Let_def split: option.splits)

theorem nested_transaction_context_witness:
  "GetNonTransactionalContext (NewContextWithTransaction
      (WithOther ''deadline'' (NewContextWithTransaction (Plain ''request'') (1 :: nat))) 2) =
     Some (Plain ''request'') \<and>
   GetTransaction (NewContextWithTransaction
      (WithOther ''deadline'' (NewContextWithTransaction (Plain ''request'') (1 :: nat))) 2) = Some 2"
proof -
  have "builtContext (WithOther ''deadline'' (NewContextWithTransaction (Plain ''request'') (1 :: nat)))"
    by (intro built_other built_transaction built_plain)
  from nested_transaction_context [OF this, of 2] show ?thesis
    by (simp add: NewContextWithTransaction_def GetNonTransactionalContext_def)
qed

section \<open>What the options ask for\<close>

datatype txRequest =
    ReqIsolation isolationLevel
  | ReqMessage string
  | ReqAttempts int
  | ReqReadonly
  | ReqCrossGroup

primrec requestOption :: "txRequest \<Rightarrow> txOption option" where
  "requestOption (ReqIsolation l) = TxWithIsolationLevel l"
| "requestOption (ReqMessage s) = Some (TxWithMessage s)"
| "requestOption (ReqAttempts n) = Some (TxWithAttempts n)"
| "requestOption ReqReadonly = Some TxWithReadonly"
| "requestOption ReqCrossGroup = Some TxWithCrossGroup"

text \<open>Building the options from requests: a panic of a constructor or of an option is \<^const>\<open>None\<close>.\<close>

definition requestOptions :: "txRequest list \<Rightarrow> txOptions option" where
  "requestOptions reqs =
     (if list_ex (\<lambda>r. requestOption r = None) reqs then None
      else NewTransactionOptions (map (the \<circ> requestOption) reqs))"

fun isolations :: "txRequest list \<Rightarrow> isolationLevel list" where
  "isolations [] = []"
| "isolations (ReqIsolation l # rs) = l # isolations rs"
| "isolations (_ # rs) = isolations rs"

fun messages :: "txRequest list \<Rightarrow> string list" where
  "messages [] = []"
| "messages (ReqMessage s # rs) = s # messages rs"
| "messages (_ # rs) = messages rs"

fun attemptsOf :: "txRequest list \<Rightarrow> int list" where
  "attemptsOf [] = []"
| "attemptsOf (ReqAttempts n # rs) = n # attemptsOf rs"
| "attemptsOf (_ # rs) = attemptsOf rs"

definition lastOr :: "'a \<Rightarrow> 'a list \<Rightarrow> 'a" where
  "lastOr d xs = (if xs = [] then d else last xs)"

lemma lastOr_simps [simp]: "lastOr d [] = d" "lastOr d (x # xs) = lastOr x xs"
  by (simp_all add: lastOr_def)

lemma fold_bind_None: "fold (\<lambda>opt r. Option.bind r opt) opts None = None"
  by (induction opts) simp_all

lemma options_fold:
  "list_all (\<lambda>l. l \<noteq> TxUnspecified) (isolations reqs) \<Longrightarrow>
   fold (\<lambda>opt r. Option.bind r opt) (map (the \<circ> requestOption) reqs) (Some o1) =
    (if length (isolations reqs) + (if txIsolationLevel o1 = TxUnspecified then 0 else 1) \<le> 1
     then Some \<lparr>txMessage = lastOr (txMessage o1) (messages reqs),
                txIsolationLevel = lastOr (txIsolationLevel o1) (isolations reqs),
                txIsReadonly = (txIsReadonly o1 \<or> ReqReadonly \<in> set reqs),
                txIsCrossGroup = (txIsCrossGroup o1 \<or> ReqCrossGroup \<in> set reqs),
                txAttempts = lastOr (txAttempts o1) (attemptsOf reqs), txPassword = txPassword o1\<rparr>
     else None)"
proof (induction reqs arbitrary: o1)
  case (Cons r reqs)
  show ?case
  proof (cases r)
    case (ReqIsolation l)
    then show ?thesis
      using Cons by (simp add: TxWithIsolationLevel_def fold_bind_None)
  qed (use Cons in \<open>simp_all add: TxWithMessage_def TxWithAttempts_def TxWithReadonly_def TxWithCrossGroup_def\<close>)
qed simp

lemma requestOption_None:
  "list_ex (\<lambda>r. requestOption r = None) reqs \<longleftrightarrow> TxUnspecified \<in> set (isolations reqs)"
  by (induction reqs rule: isolations.induct) (auto simp: TxWithIsolationLevel_def)

text \<open>
  Building transaction options panics exactly when more than one isolation level is requested
  or the unspecified one is; otherwise the options hold the requested isolation level, the last
  message, the last number of attempts, and the flags that were requested.
\<close>

theorem transaction_options_exact:
  "requestOptions reqs =
    (if length (isolations reqs) \<le> 1 \<and> TxUnspecified \<notin> set (isolations reqs)
     then Some \<lparr>txMessage = lastOr [] (messages reqs),
                txIsolationLevel = lastOr TxUnspecified (isolations reqs),
                txIsReadonly = (ReqReadonly \<in> set reqs),
                txIsCrossGroup = (ReqCrossGroup \<in> set reqs),
                txAttempts = lastOr 0 (attemptsOf reqs), txPassword = []\<rparr>
     else None)"
proof (cases "TxUnspecified \<in> set (isolations reqs)")
  case False
  then have "list_all (\<lambda>l. l \<noteq> TxUnspecified) (isolations reqs)" by (auto simp: list_all_iff)
  then show ?thesis
    using options_fold [of reqs noTxOptions] False
    by (simp add: requestOptions_def requestOption_None NewTransactionOptions_def noTxOptions_def)
qed (simp add: requestOptions_def requestOption_None)

section \<open>Tracking changes\<close>

text \<open>No two tracked records have equal keys.\<close>

definition trackedOnce :: "(key \<Rightarrow> key \<Rightarrow> bool) \<Rightarrow> trackedRecord list \<Rightarrow> bool" where
  "trackedOnce eqKeys changes = sorted_wrt (\<lambda>a b. \<not> eqKeys (trKey a) (trKey b)) changes"

text \<open>
  Flagging records, in any order and however often, keeps at most one record per key; every
  flagged record is tracked from then on, itself or by a record with an equal key, and what was
  tracked stays so, in the order in which it came.
\<close>

lemma flagged_records_tracked_once:
  assumes "trackedOnce eqKeys changes" and "FlagAsChanged mark eqKeys w changes (Some r) = Some (w', changes')"
  shows "trackedOnce eqKeys changes' \<and> IsChanged eqKeys changes' (Some r) \<and> HasChanges changes' \<and>
    (\<exists>new. changes' = changes @ new) \<and> w' = mark (trIdentity r) w"
proof (cases "IsChanged eqKeys changes (Some r)")
  case True
  then show ?thesis using assms by (auto simp: FlagAsChanged_def IsChanged_def HasChanges_def)
next
  case False
  then show ?thesis
    using assms
    by (auto simp: FlagAsChanged_def IsChanged_def trackedOnce_def HasChanges_def sorted_wrt_append list_ex_iff)
qed

section \<open>Applying changes to an in-memory transaction\<close>

definition memTxOps :: "('d, 'c) sessionEnv \<Rightarrow> (('d, 'c) session, 'd, memError) txOps" where
  "memTxOps env =
     \<lparr>opInsertMulti = multi (\<lambda>s (k, d). markIfDone (save env s \<lparr>recKey = k, recData = d\<rparr> False)),
      opUpdate = sessionUpdate env,
      opDeleteMulti = sessionDeleteMulti env\<rparr>"

text \<open>Calls one after the other, up to the first error.\<close>

definition callUntil ::
  "('d, 'c) sessionEnv \<Rightarrow> ('d, 'c) session \<Rightarrow> 'd sessionCall \<Rightarrow> ('d, 'c) session \<times> memError option" where
  "callUntil env s call =
     (case sessionStep env s call of (s', res) \<Rightarrow> (s', case res of RError e \<Rightarrow> Some e | _ \<Rightarrow> None))"

primrec applyCause :: "'e applyError \<Rightarrow> 'e" where
  "applyCause (InsertFailedWith e) = e"
| "applyCause (UpdateFailedWith k e) = e"
| "applyCause (DeleteFailedWith e) = e"

lemma multi_append:
  "multi f s (xs @ ys) = (case multi f s xs of (s1, Some e) \<Rightarrow> (s1, Some e) | (s1, None) \<Rightarrow> multi f s1 ys)"
  by (induction xs arbitrary: s) (auto split: prod.splits option.splits)

lemma callUntil_done: "sessionStep env s call = doneResult r \<Longrightarrow> callUntil env s call = r"
  by (cases r) (auto simp: callUntil_def doneResult_def split: option.split)

lemma callUntil_simps [simp]:
  "callUntil env s (CInsert r) = markIfDone (save env s r False)"
  "callUntil env s (CDelete k) = sessionDelete env s k"
  "callUntil env s (CUpdate k us) = sessionUpdate env s k us"
  by (simp_all add: callUntil_done)

lemma applyInserts_calls:
  "map_prod (\<lambda>s. s) (map_option applyCause) (applyInserts (memTxOps env) s rs) =
    multi (callUntil env) s (map (\<lambda>(k, d). CInsert \<lparr>recKey = snd k, recData = d\<rparr>) rs)"
proof -
  have "multi (\<lambda>s (k, d). markIfDone (save env s \<lparr>recKey = k, recData = d\<rparr> False)) s (map (\<lambda>(k, d). (snd k, d)) rs) =
      multi (callUntil env) s (map (\<lambda>(k, d). CInsert \<lparr>recKey = snd k, recData = d\<rparr>) rs)"
    by (induction rs arbitrary: s) (auto split: prod.split option.split)
  then show ?thesis
    by (auto simp: applyInserts_def memTxOps_def option.map_comp comp_def option.map_ident split: prod.splits)
qed

lemma applyUpdates_calls:
  "map_prod (\<lambda>s. s) (map_option applyCause) (applyUpdates (memTxOps env) s us) =
    multi (callUntil env) s (map (\<lambda>(k, u). CUpdate (snd k) u) us)"
  by (induction us arbitrary: s) (auto simp: memTxOps_def split: prod.splits option.splits)

lemma applyDeletes_calls:
  "map_prod (\<lambda>s. s) (map_option applyCause) (applyDeletes (memTxOps env) s ks) =
    multi (callUntil env) s (map (CDelete \<circ> snd) ks)"
proof -
  have "multi (sessionDelete env) s (map snd ks) = multi (callUntil env) s (map (CDelete \<circ> snd) ks)"
    by (induction ks arbitrary: s) (auto split: prod.split option.split)
  then show ?thesis
    by (auto simp: applyDeletes_def memTxOps_def sessionDeleteMulti_def option.map_comp comp_def
        option.map_ident split: prod.splits)
qed

text \<open>C25: Applying a change set to an in-memory transaction is one history of calls: the inserts that
  are not excluded, then the updates, then the deletes, up to the first call that fails. The change
  set is reset exactly when no call failed and is left as it was otherwise.
\<close>

theorem apply_changes_history:
  "case ApplyChanges chs (memTxOps env) s changes excludeKeys of
     (changes', s', err) \<Rightarrow>
       (s', map_option applyCause err) =
         multi (callUntil env) s
           (map (\<lambda>(k, d). CInsert \<lparr>recKey = snd k, recData = d\<rparr>)
              (excludeRecords (chInserts chs changes) excludeKeys) @
            map (\<lambda>(k, us). CUpdate (snd k) us) (chUpdates chs changes) @
            map (CDelete \<circ> snd) (chDeletes chs changes)) \<and>
       changes' = (if err = None then chReset chs changes else changes)"
proof -
  obtain s1 e1 where ins: "applyInserts (memTxOps env) s
      (excludeRecords (chInserts chs changes) excludeKeys) = (s1, e1)" by fastforce
  obtain s2 e2 where upd: "applyUpdates (memTxOps env) s1 (chUpdates chs changes) = (s2, e2)" by fastforce
  obtain s3 e3 where del: "applyDeletes (memTxOps env) s2 (chDeletes chs changes) = (s3, e3)" by fastforce
  note calls =
    applyInserts_calls [of env s "excludeRecords (chInserts chs changes) excludeKeys", unfolded ins, symmetric]
    applyUpdates_calls [of env s1 "chUpdates chs changes", unfolded upd, symmetric]
    applyDeletes_calls [of env s2 "chDeletes chs changes", unfolded del, symmetric]
  show ?thesis
    by (cases e1; cases e2; cases e3)
      (simp_all add: multi_append calls ApplyChanges_def ins upd del)
qed

end
