(* ===== verification/DalCollection.thy ===== *)
theory DalCollection
  imports MemoryRelational DalReader
begin

text \<open>
  Typed collection handles (\<open>src/dal/collection.go\<close>): a handle is a reference to a collection and
  key options; its terminals build a key from an identifier, check that no ancestor of the key is
  incomplete, and call the session they are given.

  A session is any implementation of \<open>ReadSession\<close> and \<open>WriteSession\<close>, a record of operations on a
  state. \<open>'t\<close> is the record type \<open>T\<close>, identifiers of type \<open>K\<close> are Go values. Three things come from
  the module \<open>record\<close> and are arguments: \<open>mk\<close> is \<open>record.NewKeyWithOptions\<close>, \<open>isNotFound\<close> is
  \<open>record.IsNotFound\<close>, and \<open>'o\<close> are the key options a caller may supply. A result that is the zero
  value together with an error is the error alone.
\<close>

section \<open>Definitions\<close>

subsection \<open>Handles\<close>

datatype 'o keyOption = WithKeyID goval | WithParentKey key | CallerKeyOption 'o

type_synonym 'o keyMaker = "string \<Rightarrow> 'o keyOption list \<Rightarrow> string + key"

record 'o collection =
  collRef :: recordsetSource
  collKeyOptions :: "'o keyOption list"

type_synonym 'o collectionOption = "'o keyOption list \<Rightarrow> 'o keyOption list"

definition WithKeyOptions :: "'o keyOption list \<Rightarrow> 'o collectionOption" where
  "WithKeyOptions keyOptions co = co @ keyOptions"

definition newCollectionOptions :: "'o collectionOption list \<Rightarrow> 'o keyOption list" where
  "newCollectionOptions opts = fold (\<lambda>opt co. opt co) opts []"

text \<open>An empty name panics.\<close>

definition CollectionAt :: "string \<Rightarrow> 'o collectionOption list \<Rightarrow> 'o collection option" where
  "CollectionAt name opts =
     map_option (\<lambda>ref. \<lparr>collRef = ref, collKeyOptions = newCollectionOptions opts\<rparr>)
       (NewCollectionRef name [] None)"

text \<open>\<open>collectionName\<close> is the method \<open>CollectionName\<close> of \<open>T\<close>.\<close>

definition CollectionOf :: "('t \<Rightarrow> string) \<Rightarrow> 't \<Rightarrow> 'o collectionOption list \<Rightarrow> 'o collection option" where
  "CollectionOf collectionName zero opts =
     map_option (\<lambda>ref. \<lparr>collRef = ref, collKeyOptions = newCollectionOptions opts\<rparr>)
       (NewCollectionRef (collectionName zero) [] None)"

definition collIn :: "'o collection \<Rightarrow> key option \<Rightarrow> 'o collection option" where
  "collIn c parent =
     map_option (\<lambda>ref. \<lparr>collRef = ref, collKeyOptions = []\<rparr>)
       (NewCollectionRef (sourceName (collRef c)) [] parent)"

subsection \<open>Errors and keys\<close>

datatype ('e, 'ie) collError =
    KeyOptionError string
  | IncompleteParent string string
  | SessionError 'e
  | InsertError 'ie
  | InsertOptionNotHonored string
  | QueryError readErr

text \<open>The loop of \<open>guardParent\<close> over the ancestors of a key.\<close>

fun incompleteAncestor :: "key option \<Rightarrow> key option" where
  "incompleteAncestor None = None"
| "incompleteAncestor (Some (Key c i p)) = (if i = GNil then Some (Key c i p) else incompleteAncestor p)"

definition guardParent :: "'o collection \<Rightarrow> key \<Rightarrow> ('e, 'ie) collError option" where
  "guardParent c k =
     map_option (\<lambda>p. IncompleteParent (sourceName (collRef c)) (keyCollection p))
       (incompleteAncestor (keyParent k))"

definition idToKey :: "'o keyMaker \<Rightarrow> 'o collection \<Rightarrow> goval \<Rightarrow> ('e, 'ie) collError + key" where
  "idToKey mk c i =
     (let options =
        [WithKeyID i] @
        (case baseParent (collRef c) of None \<Rightarrow> [] | Some parent \<Rightarrow> [WithParentKey parent]) @
        collKeyOptions c
      in case mk (sourceName (collRef c)) options of
           Inl err \<Rightarrow> Inl (KeyOptionError err)
         | Inr k \<Rightarrow> (case guardParent c k of Some err \<Rightarrow> Inl err | None \<Rightarrow> Inr k))"

subsection \<open>Sessions\<close>

text \<open>
  \<open>rdGet\<close> loads into data of type \<open>T\<close> and gives the data after the call and the error. The key after
  an insert is the one the record then has. \<open>rdAs\<close> is the assertion \<open>Data().(*T)\<close> on a record of a
  reader, which may panic.
\<close>

record ('s, 't, 'e, 'rd, 'q) readSessionOps =
  rdGet :: "'s \<Rightarrow> key \<Rightarrow> 't \<Rightarrow> 's \<times> 't \<times> 'e option"
  rdQuery :: "'s \<Rightarrow> 't structuredQuery \<Rightarrow> 's \<times> (readErr + 'rd)"
  rdReader :: "('rd, 'q) readerOps"
  rdAs :: "'q \<Rightarrow> 't option"

record ('s, 't, 'e, 'ie, 'g, 'p) writeSessionOps =
  wrInsert :: "('g, 'e) InsertOption list \<Rightarrow> 's \<Rightarrow> key \<Rightarrow> 't \<Rightarrow> 's \<times> key \<times> 'ie option"
  wrInsertMulti :: "'s \<Rightarrow> (key \<times> 't) list \<Rightarrow> 's \<times> 'ie option"
  wrSet :: "'s \<Rightarrow> key \<Rightarrow> 't \<Rightarrow> 's \<times> 'e option"
  wrUpdate :: "'s \<Rightarrow> key \<Rightarrow> fieldUpdate list \<Rightarrow> 'p list \<Rightarrow> 's \<times> 'e option"
  wrDelete :: "'s \<Rightarrow> key \<Rightarrow> 's \<times> 'e option"

subsection \<open>Reading terminals\<close>

text \<open>\<open>GetRecord\<close> returns the record also with an error of the session.\<close>

definition GetRecord ::
  "'o keyMaker \<Rightarrow> 't \<Rightarrow> ('s, 't, 'e, 'rd, 'q) readSessionOps \<Rightarrow> 'o collection \<Rightarrow> 's \<Rightarrow> goval \<Rightarrow>
    's \<times> (key \<times> 't) option \<times> ('e, 'ie) collError option" where
  "GetRecord mk zero R c s i =
     (case idToKey mk c i of
        Inl err \<Rightarrow> (s, None, Some err)
      | Inr k \<Rightarrow>
          (case rdGet R s k zero of
             (s', d, Some e) \<Rightarrow> (s', Some (k, d), Some (SessionError e))
           | (s', d, None) \<Rightarrow> (s', Some (k, d), None)))"

definition afterGet ::
  "(key \<times> 't \<Rightarrow> 'r) \<Rightarrow> 's \<times> (key \<times> 't) option \<times> ('e, 'ie) collError option \<Rightarrow>
    's \<times> (('e, 'ie) collError + 'r)" where
  "afterGet f res =
     (case res of
        (s', rec, Some err) \<Rightarrow> (s', Inl err)
      | (s', rec, None) \<Rightarrow> (s', Inr (f (the rec))))"

definition GetData ::
  "'o keyMaker \<Rightarrow> 't \<Rightarrow> ('s, 't, 'e, 'rd, 'q) readSessionOps \<Rightarrow> 'o collection \<Rightarrow> 's \<Rightarrow> goval \<Rightarrow>
    's \<times> (('e, 'ie) collError + 't)" where
  "GetData mk zero R c s i = afterGet snd (GetRecord mk zero R c s i)"

text \<open>\<open>record.WithID\<close> and \<open>record.DataWithID\<close>: identifier, key, record, and data.\<close>

definition GetRecordWithID ::
  "'o keyMaker \<Rightarrow> 't \<Rightarrow> ('s, 't, 'e, 'rd, 'q) readSessionOps \<Rightarrow> 'o collection \<Rightarrow> 's \<Rightarrow> goval \<Rightarrow>
    's \<times> (('e, 'ie) collError + goval \<times> key \<times> (key \<times> 't))" where
  "GetRecordWithID mk zero R c s i =
     afterGet (\<lambda>rec. (i, fst rec, rec)) (GetRecord mk zero R c s i)"

definition GetRecordWithDataAndID ::
  "'o keyMaker \<Rightarrow> 't \<Rightarrow> ('s, 't, 'e, 'rd, 'q) readSessionOps \<Rightarrow> 'o collection \<Rightarrow> 's \<Rightarrow> goval \<Rightarrow>
    's \<times> (('e, 'ie) collError + (goval \<times> key \<times> (key \<times> 't)) \<times> 't)" where
  "GetRecordWithDataAndID mk zero R c s i =
     afterGet (\<lambda>rec. ((i, fst rec, rec), snd rec)) (GetRecord mk zero R c s i)"

definition collExists ::
  "('e \<Rightarrow> bool) \<Rightarrow> 'o keyMaker \<Rightarrow> 't \<Rightarrow> ('s, 't, 'e, 'rd, 'q) readSessionOps \<Rightarrow> 'o collection \<Rightarrow> 's \<Rightarrow> goval \<Rightarrow>
    's \<times> (('e, 'ie) collError + bool)" where
  "collExists isNotFound mk zero R c s i =
     (case idToKey mk c i of
        Inl err \<Rightarrow> (s, Inl err)
      | Inr k \<Rightarrow>
          (case rdGet R s k zero of
             (s', d, Some e) \<Rightarrow> (s', if isNotFound e then Inr False else Inl (SessionError e))
           | (s', d, None) \<Rightarrow> (s', Inr True)))"

text \<open>
  \<open>All\<close>, \<open>Count\<close> and \<open>First\<close>: a query of the handle's reference, read to its end. \<^const>\<open>None\<close> is a
  reader that never ends.
\<close>

definition collFrom :: "'o collection \<Rightarrow> fromSource" where
  "collFrom c = \<lparr>fromBase = collRef c, fromJoins = []\<rparr>"

definition readQuery ::
  "('s, 't, 'e, 'rd, 'q) readSessionOps \<Rightarrow> ctx \<Rightarrow> 's \<Rightarrow> 't structuredQuery \<Rightarrow>
    's \<times> (readErr option \<times> 'q list) goCall option" where
  "readQuery R ctx s q =
     (case rdQuery R s q of
        (s', executed) \<Rightarrow> (s', ExecuteQueryAndReadAllToRecords executed (rdReader R) ctx []))"

definition collAll ::
  "'t \<Rightarrow> ('s, 't, 'e, 'rd, 'q) readSessionOps \<Rightarrow> ctx \<Rightarrow> 'o collection \<Rightarrow> 's \<Rightarrow>
    's \<times> (readErr + 't list) goCall option" where
  "collAll zero R ctx c s =
     (case readQuery R ctx s (SelectIntoRecord zero (NewQueryBuilder (collFrom c))) of
        (s', res) \<Rightarrow>
          (s', map_option (\<lambda>r. case r of
             Return (Some err, records) \<Rightarrow> Return (Inl err)
           | Return (None, records) \<Rightarrow>
               if list_ex (\<lambda>rec. rdAs R rec = None) records then Panics
               else Return (Inr (map (the \<circ> rdAs R) records))
           | _ \<Rightarrow> Panics) res))"

definition collCount ::
  "('s, 't, 'e, 'rd, 'q) readSessionOps \<Rightarrow> ctx \<Rightarrow> 'o collection \<Rightarrow> 's \<Rightarrow>
    's \<times> (readErr + nat) goCall option" where
  "collCount R ctx c s =
     (case readQuery R ctx s (SelectKeysOnly ''string'' (NewQueryBuilder (collFrom c))) of
        (s', res) \<Rightarrow>
          (s', map_option (\<lambda>r. case r of
             Return (Some err, records) \<Rightarrow> Return (Inl err)
           | Return (None, records) \<Rightarrow> Return (Inr (length records))
           | _ \<Rightarrow> Panics) res))"

definition collFirst ::
  "'t \<Rightarrow> ('s, 't, 'e, 'rd, 'q) readSessionOps \<Rightarrow> ctx \<Rightarrow> 'o collection \<Rightarrow> 's \<Rightarrow>
    's \<times> (readErr + 't option) goCall option" where
  "collFirst zero R ctx c s =
     (case buildStep (SLimit 1) (NewQueryBuilder (collFrom c)) of
        None \<Rightarrow> (s, Some Panics)
      | Some b \<Rightarrow>
          (case readQuery R ctx s (SelectIntoRecord zero b) of
             (s', res) \<Rightarrow>
               (s', map_option (\<lambda>r. case r of
                  Return (Some err, records) \<Rightarrow> Return (Inl err)
                | Return (None, []) \<Rightarrow> Return (Inr None)
                | Return (None, rec # records) \<Rightarrow>
                    (case rdAs R rec of None \<Rightarrow> Panics | Some d \<Rightarrow> Return (Inr (Some d)))
                | _ \<Rightarrow> Panics) res)))"

subsection \<open>Writing terminals\<close>

definition InsertRecord ::
  "('s, 't, 'e, 'ie, 'g, 'p) writeSessionOps \<Rightarrow> 'o collection \<Rightarrow> 's \<Rightarrow> key \<Rightarrow> 't \<Rightarrow> ('g, 'e) InsertOption list \<Rightarrow>
    's \<times> key \<times> ('e, 'ie) collError option" where
  "InsertRecord W c s k d opts =
     (case guardParent c k of
        Some err \<Rightarrow> (s, k, Some err)
      | None \<Rightarrow> (case wrInsert W opts s k d of (s', k', e) \<Rightarrow> (s', k', map_option InsertError e)))"

text \<open>
  \<open>Insert\<close> with a generated identifier; \<open>random\<close> is the source of random texts, 16 the value of
  \<open>DefaultRandomStringIDLength\<close>.
\<close>

definition collInsert ::
  "(int \<Rightarrow> 'g \<Rightarrow> 'g \<times> string) \<Rightarrow> ('s, 't, 'e, 'ie, 'g, 'p) writeSessionOps \<Rightarrow> 'o collection \<Rightarrow> 's \<Rightarrow> 't \<Rightarrow>
    ('g, 'e) InsertOption list \<Rightarrow> 's \<times> (('e, 'ie) collError + key)" where
  "collInsert random W c s d opts =
     (let k = Key (sourceName (collRef c)) GNil (baseParent (collRef c));
          opts' = (if opts = [] then [WithRandomStringKey random 16 5] else opts)
      in case InsertRecord W c s k d opts' of
           (s', k', Some err) \<Rightarrow> (s', Inl err)
         | (s', k', None) \<Rightarrow>
             if keyID k' = GNil \<or> keyID k' = goStr []
             then (s', Inl (InsertOptionNotHonored (sourceName (collRef c))))
             else (s', Inr k'))"

definition InsertWithID ::
  "'o keyMaker \<Rightarrow> ('s, 't, 'e, 'ie, 'g, 'p) writeSessionOps \<Rightarrow> 'o collection \<Rightarrow> 's \<Rightarrow> goval \<Rightarrow> 't \<Rightarrow>
    's \<times> (('e, 'ie) collError + key)" where
  "InsertWithID mk W c s i d =
     (case idToKey mk c i of
        Inl err \<Rightarrow> (s, Inl err)
      | Inr k \<Rightarrow>
          (case InsertRecord W c s k d [] of
             (s', k', Some err) \<Rightarrow> (s', Inl err)
           | (s', k', None) \<Rightarrow> (s', Inr k')))"

definition SetRecord ::
  "('s, 't, 'e, 'ie, 'g, 'p) writeSessionOps \<Rightarrow> 'o collection \<Rightarrow> 's \<Rightarrow> key \<Rightarrow> 't \<Rightarrow> 's \<times> ('e, 'ie) collError option" where
  "SetRecord W c s k d =
     (case guardParent c k of
        Some err \<Rightarrow> (s, Some err)
      | None \<Rightarrow> (case wrSet W s k d of (s', e) \<Rightarrow> (s', map_option SessionError e)))"

definition SetByID ::
  "'o keyMaker \<Rightarrow> ('s, 't, 'e, 'ie, 'g, 'p) writeSessionOps \<Rightarrow> 'o collection \<Rightarrow> 's \<Rightarrow> goval \<Rightarrow> 't \<Rightarrow>
    's \<times> ('e, 'ie) collError option" where
  "SetByID mk W c s i d =
     (case idToKey mk c i of Inl err \<Rightarrow> (s, Some err) | Inr k \<Rightarrow> SetRecord W c s k d)"

definition UpdateByKey ::
  "('s, 't, 'e, 'ie, 'g, 'p) writeSessionOps \<Rightarrow> 'o collection \<Rightarrow> 's \<Rightarrow> key \<Rightarrow> fieldUpdate list \<Rightarrow> 'p list \<Rightarrow>
    's \<times> ('e, 'ie) collError option" where
  "UpdateByKey W c s k updates preconditions =
     (case guardParent c k of
        Some err \<Rightarrow> (s, Some err)
      | None \<Rightarrow>
          (case wrUpdate W s k updates preconditions of (s', e) \<Rightarrow> (s', map_option SessionError e)))"

definition UpdateByID ::
  "'o keyMaker \<Rightarrow> ('s, 't, 'e, 'ie, 'g, 'p) writeSessionOps \<Rightarrow> 'o collection \<Rightarrow> 's \<Rightarrow> goval \<Rightarrow>
    fieldUpdate list \<Rightarrow> 'p list \<Rightarrow> 's \<times> ('e, 'ie) collError option" where
  "UpdateByID mk W c s i updates preconditions =
     (case idToKey mk c i of
        Inl err \<Rightarrow> (s, Some err) | Inr k \<Rightarrow> UpdateByKey W c s k updates preconditions)"

definition DeleteByKey ::
  "('s, 't, 'e, 'ie, 'g, 'p) writeSessionOps \<Rightarrow> 'o collection \<Rightarrow> 's \<Rightarrow> key \<Rightarrow> 's \<times> ('e, 'ie) collError option" where
  "DeleteByKey W c s k =
     (case guardParent c k of
        Some err \<Rightarrow> (s, Some err)
      | None \<Rightarrow> (case wrDelete W s k of (s', e) \<Rightarrow> (s', map_option SessionError e)))"

definition DeleteByID ::
  "'o keyMaker \<Rightarrow> ('s, 't, 'e, 'ie, 'g, 'p) writeSessionOps \<Rightarrow> 'o collection \<Rightarrow> 's \<Rightarrow> goval \<Rightarrow>
    's \<times> ('e, 'ie) collError option" where
  "DeleteByID mk W c s i =
     (case idToKey mk c i of Inl err \<Rightarrow> (s, Some err) | Inr k \<Rightarrow> DeleteByKey W c s k)"

fun itemKeys :: "'o keyMaker \<Rightarrow> 'o collection \<Rightarrow> (goval \<times> 't) list \<Rightarrow> ('e, 'ie) collError + (key \<times> 't) list" where
  "itemKeys mk c [] = Inr []"
| "itemKeys mk c ((i, d) # items) =
     bindE (idToKey mk c i) (\<lambda>k. bindE (itemKeys mk c items) (\<lambda>records. Inr ((k, d) # records)))"

definition InsertMany ::
  "'o keyMaker \<Rightarrow> ('s, 't, 'e, 'ie, 'g, 'p) writeSessionOps \<Rightarrow> 'o collection \<Rightarrow> 's \<Rightarrow> (goval \<times> 't) list \<Rightarrow>
    's \<times> (('e, 'ie) collError + key list)" where
  "InsertMany mk W c s items =
     (case itemKeys mk c items of
        Inl err \<Rightarrow> (s, Inl err)
      | Inr records \<Rightarrow>
          (case wrInsertMulti W s records of
             (s', Some e) \<Rightarrow> (s', Inl (InsertError e))
           | (s', None) \<Rightarrow> (s', Inr (map fst records))))"

section \<open>Batches\<close>

text \<open>The keys a batch insert returns are those of its items, in their order.\<close>

lemma itemKeys_keys:
  "(itemKeys mk c items :: ('e, 'ie) collError + _) = Inr records \<Longrightarrow>
    list_all2 (\<lambda>(i, d) (k, d'). (idToKey mk c i :: ('e, 'ie) collError + key) = Inr k \<and> d' = d) items records"
  by (induction items arbitrary: records) (auto simp: bindE_eq_Inr)

lemma InsertMany_keys:
  fixes W :: "('s, 't, 'e, 'ie, 'g, 'p) writeSessionOps"
  assumes "InsertMany mk W c s items = (s', Inr ks)"
  shows "list_all2 (\<lambda>(i, d) k. (idToKey mk c i :: ('e, 'ie) collError + key) = Inr k) items ks"
proof -
  obtain records where r: "(itemKeys mk c items :: ('e, 'ie) collError + _) = Inr records" and ks: "ks = map fst records"
    using assms by (auto simp: InsertMany_def split: sum.splits prod.splits option.splits)
  from itemKeys_keys [OF r] show ?thesis
    unfolding ks by (auto simp: list_all2_map2 elim!: list_all2_mono)
qed

section \<open>Histories of calls through a handle\<close>

datatype 't handleCall =
    HGetData goval
  | HExists goval
  | HSetByID goval 't
  | HInsertWithID goval 't
  | HUpdateByID goval "fieldUpdate list"
  | HDeleteByID goval

datatype ('t, 'e, 'ie) handleResult =
    HValue 't
  | HBool bool
  | HKey key
  | HDone
  | HError "('e, 'ie) collError"

primrec callID :: "'t handleCall \<Rightarrow> goval" where
  "callID (HGetData i) = i"
| "callID (HExists i) = i"
| "callID (HSetByID i d) = i"
| "callID (HInsertWithID i d) = i"
| "callID (HUpdateByID i us) = i"
| "callID (HDeleteByID i) = i"

definition handleDone :: "'s \<times> ('e, 'ie) collError option \<Rightarrow> 's \<times> ('t, 'e, 'ie) handleResult" where
  "handleDone r = (fst r, case snd r of None \<Rightarrow> HDone | Some e \<Rightarrow> HError e)"

definition handleSum ::
  "('r \<Rightarrow> ('t, 'e, 'ie) handleResult) \<Rightarrow> 's \<times> (('e, 'ie) collError + 'r) \<Rightarrow> 's \<times> ('t, 'e, 'ie) handleResult" where
  "handleSum f r = (fst r, case snd r of Inl e \<Rightarrow> HError e | Inr x \<Rightarrow> f x)"

primrec handleStep ::
  "('e \<Rightarrow> bool) \<Rightarrow> 'o keyMaker \<Rightarrow> 't \<Rightarrow> ('s, 't, 'e, 'rd, 'q) readSessionOps \<Rightarrow>
    ('s, 't, 'e, 'ie, 'g, 'p) writeSessionOps \<Rightarrow> 'o collection \<Rightarrow> 's \<Rightarrow> 't handleCall \<Rightarrow>
    's \<times> ('t, 'e, 'ie) handleResult" where
  "handleStep nf mk zero R W c s (HGetData i) = handleSum HValue (GetData mk zero R c s i)"
| "handleStep nf mk zero R W c s (HExists i) = handleSum HBool (collExists nf mk zero R c s i)"
| "handleStep nf mk zero R W c s (HSetByID i d) = handleDone (SetByID mk W c s i d)"
| "handleStep nf mk zero R W c s (HInsertWithID i d) = handleSum HKey (InsertWithID mk W c s i d)"
| "handleStep nf mk zero R W c s (HUpdateByID i us) = handleDone (UpdateByID mk W c s i us [])"
| "handleStep nf mk zero R W c s (HDeleteByID i) = handleDone (DeleteByID mk W c s i)"

text \<open>
  What a store of records promises: every operation of a session acts on its content as the
  operation of the store does.
\<close>

record ('m, 't, 'e, 'ie) recordStore =
  stGet :: "'m \<Rightarrow> key \<Rightarrow> 't \<Rightarrow> 'e + 't"
  stSet :: "'m \<Rightarrow> key \<Rightarrow> 't \<Rightarrow> 'm \<times> 'e option"
  stInsert :: "'m \<Rightarrow> key \<Rightarrow> 't \<Rightarrow> 'm \<times> 'ie option"
  stUpdate :: "'m \<Rightarrow> key \<Rightarrow> fieldUpdate list \<Rightarrow> 'm \<times> 'e option"
  stDelete :: "'m \<Rightarrow> key \<Rightarrow> 'm \<times> 'e option"

text \<open>A call through a handle, as one operation of the store at a key.\<close>

primrec storeCall ::
  "('m, 't, 'e, 'ie) recordStore \<Rightarrow> ('e \<Rightarrow> bool) \<Rightarrow> 't \<Rightarrow> key \<Rightarrow> 'm \<Rightarrow> 't handleCall \<Rightarrow>
    'm \<times> ('t, 'e, 'ie) handleResult" where
  "storeCall S nf zero k m (HGetData i) =
     (m, case stGet S m k zero of Inl e \<Rightarrow> HError (SessionError e) | Inr d \<Rightarrow> HValue d)"
| "storeCall S nf zero k m (HExists i) =
     (m, case stGet S m k zero of
           Inl e \<Rightarrow> (if nf e then HBool False else HError (SessionError e)) | Inr d \<Rightarrow> HBool True)"
| "storeCall S nf zero k m (HSetByID i d) =
     handleDone (map_prod (\<lambda>m. m) (map_option SessionError) (stSet S m k d))"
| "storeCall S nf zero k m (HInsertWithID i d) =
     (case stInsert S m k d of (m', e) \<Rightarrow> (m', case e of None \<Rightarrow> HKey k | Some e \<Rightarrow> HError (InsertError e)))"
| "storeCall S nf zero k m (HUpdateByID i us) =
     handleDone (map_prod (\<lambda>m. m) (map_option SessionError) (stUpdate S m k us))"
| "storeCall S nf zero k m (HDeleteByID i) =
     handleDone (map_prod (\<lambda>m. m) (map_option SessionError) (stDelete S m k))"

definition handleAt ::
  "'o keyMaker \<Rightarrow> 'o collection \<Rightarrow> ('m, 't, 'e, 'ie) recordStore \<Rightarrow> ('e \<Rightarrow> bool) \<Rightarrow> 't \<Rightarrow> 'm \<Rightarrow> 't handleCall \<Rightarrow>
    'm \<times> ('t, 'e, 'ie) handleResult" where
  "handleAt mk c S nf zero m call =
     (case idToKey mk c (callID call) of
        Inl err \<Rightarrow> (m, HError err)
      | Inr k \<Rightarrow> storeCall S nf zero k m call)"

text \<open>The same for a handle without key options, with the key written out.\<close>

definition handleSpec ::
  "string \<Rightarrow> key option \<Rightarrow> ('m, 't, 'e, 'ie) recordStore \<Rightarrow> ('e \<Rightarrow> bool) \<Rightarrow> 't \<Rightarrow> 'm \<Rightarrow> 't handleCall \<Rightarrow>
    'm \<times> ('t, 'e, 'ie) handleResult" where
  "handleSpec name parent S nf zero m call =
     (case incompleteAncestor parent of
        Some p \<Rightarrow> (m, HError (IncompleteParent name (keyCollection p)))
      | None \<Rightarrow> storeCall S nf zero (Key name (callID call) parent) m call)"

text \<open>
  What \<open>record.NewKeyWithOptions\<close> does with the two options a handle itself gives: the key of the
  collection with that identifier, under that parent.
\<close>

definition completeID :: "goval \<Rightarrow> bool" where
  "completeID i = (i \<noteq> GNil \<and> i \<noteq> goStr [])"

definition plainKeys :: "'o keyMaker \<Rightarrow> bool" where
  "plainKeys mk \<longleftrightarrow>
     (\<forall>name i. name \<noteq> [] \<and> completeID i \<longrightarrow>
        mk name [WithKeyID i] = Inr (Key name i None) \<and>
        (\<forall>p. mk name [WithKeyID i, WithParentKey p] = Inr (Key name i (Some p))))"

lemma idToKey_plain:
  assumes "plainKeys mk" and "name \<noteq> []" and "completeID i"
  shows "idToKey mk \<lparr>collRef = CollectionRef name a parent, collKeyOptions = []\<rparr> i =
    (case incompleteAncestor parent of
       Some p \<Rightarrow> Inl (IncompleteParent name (keyCollection p))
     | None \<Rightarrow> Inr (Key name i parent))"
  using assms
  by (cases parent) (auto simp: idToKey_def plainKeys_def baseParent_def guardParent_def split: option.splits)

lemma handleAt_plain:
  assumes "plainKeys mk" and "name \<noteq> []" and "completeID (callID call)"
  shows "handleAt mk \<lparr>collRef = CollectionRef name a parent, collKeyOptions = []\<rparr> S nf zero m call =
    handleSpec name parent S nf zero m call"
  by (simp add: handleAt_def handleSpec_def idToKey_plain [OF assms] split: option.split)

lemma run_cong:
  "list_all (\<lambda>x. \<forall>m. f m x = g m x) xs \<Longrightarrow> runEngine f m xs = runEngine g m xs"
  by (induction xs arbitrary: m) (auto split: prod.splits)

lemma idToKey_guard: "idToKey mk c i = Inr k \<Longrightarrow> guardParent c k = None"
  by (auto simp: idToKey_def Let_def guardParent_def split: sum.splits option.splits)

locale store_session =
  fixes R :: "('s, 't, 'e, 'rd, 'q) readSessionOps"
    and W :: "('s, 't, 'e, 'ie, 'g, 'p) writeSessionOps"
    and S :: "('m, 't, 'e, 'ie) recordStore"
    and content :: "'s \<Rightarrow> 'm"
    and inv :: "'s \<Rightarrow> bool"
  assumes get: "inv s \<Longrightarrow> rdGet R s k z = (s', d, err) \<Longrightarrow>
      inv s' \<and> content s' = content s \<and>
      stGet S (content s) k z = (case err of None \<Rightarrow> Inr d | Some e \<Rightarrow> Inl e)"
    and set: "inv s \<Longrightarrow> wrSet W s k d = (s', err) \<Longrightarrow>
      inv s' \<and> stSet S (content s) k d = (content s', err)"
    and insert: "inv s \<Longrightarrow> wrInsert W [] s k d = (s', k', ierr) \<Longrightarrow>
      inv s' \<and> k' = k \<and> stInsert S (content s) k d = (content s', ierr)"
    and update: "inv s \<Longrightarrow> wrUpdate W s k us ps = (s', err) \<Longrightarrow>
      inv s' \<and> stUpdate S (content s) k us = (content s', err)"
    and delete: "inv s \<Longrightarrow> wrDelete W s k = (s', err) \<Longrightarrow>
      inv s' \<and> stDelete S (content s) k = (content s', err)"
begin

text \<open>One call through a handle, then every history of them.\<close>

lemma step_refines:
  assumes "inv s" and "handleStep nf mk zero R W c s call = (s', res)"
  shows "inv s' \<and> handleAt mk c S nf zero (content s) call = (content s', res)"
proof (cases "idToKey mk c (callID call) :: ('e, 'ie) collError + key")
  case (Inl err)
  then show ?thesis
    using assms
    by (cases call) (auto simp: handleAt_def handleSum_def handleDone_def GetData_def GetRecord_def afterGet_def
        collExists_def SetByID_def InsertWithID_def UpdateByID_def DeleteByID_def)
next
  case (Inr k)
  have g: "guardParent c k = (None :: ('e, 'ie) collError option)" by (rule idToKey_guard [OF Inr])
  show ?thesis
  proof (cases call)
    case (HGetData i)
    obtain s1 d err where r: "rdGet R s k zero = (s1, d, err)" by (metis prod_cases3)
    then show ?thesis
      using get [OF assms(1) r] assms(2) Inr HGetData
      by (cases err) (auto simp: handleAt_def handleSum_def GetData_def GetRecord_def afterGet_def)
  next
    case (HExists i)
    obtain s1 d err where r: "rdGet R s k zero = (s1, d, err)" by (metis prod_cases3)
    then show ?thesis
      using get [OF assms(1) r] assms(2) Inr HExists
      by (cases err) (auto simp: handleAt_def handleSum_def collExists_def)
  next
    case (HSetByID i d)
    obtain s1 err where r: "wrSet W s k d = (s1, err)" by fastforce
    then show ?thesis
      using set [OF assms(1) r] assms(2) Inr HSetByID g
      by (auto simp: handleAt_def handleDone_def SetByID_def SetRecord_def)
  next
    case (HInsertWithID i d)
    obtain s1 k1 err where r: "wrInsert W [] s k d = (s1, k1, err)" by (metis prod_cases3)
    then show ?thesis
      using insert [OF assms(1) r] assms(2) Inr HInsertWithID g
      by (cases err) (auto simp: handleAt_def handleSum_def InsertWithID_def InsertRecord_def)
  next
    case (HUpdateByID i us)
    obtain s1 err where r: "wrUpdate W s k us [] = (s1, err)" by fastforce
    then show ?thesis
      using update [OF assms(1) r] assms(2) Inr HUpdateByID g
      by (auto simp: handleAt_def handleDone_def UpdateByID_def UpdateByKey_def)
  next
    case (HDeleteByID i)
    obtain s1 err where r: "wrDelete W s k = (s1, err)" by fastforce
    then show ?thesis
      using delete [OF assms(1) r] assms(2) Inr HDeleteByID g
      by (auto simp: handleAt_def handleDone_def DeleteByID_def DeleteByKey_def)
  qed
qed

lemma history_refines:
  "inv s \<Longrightarrow> runEngine (handleStep nf mk zero R W c) s calls = (s', rs) \<Longrightarrow>
    inv s' \<and> runEngine (handleAt mk c S nf zero) (content s) calls = (content s', rs)"
proof (induction calls arbitrary: s rs)
  case (Cons call calls)
  obtain s1 r where step: "handleStep nf mk zero R W c s call = (s1, r)" by fastforce
  obtain s2 rs' where rest: "runEngine (handleStep nf mk zero R W c) s1 calls = (s2, rs')" by fastforce
  then show ?case
    using Cons.IH [of s1 rs'] Cons.prems step step_refines [OF Cons.prems(1) step] by auto
qed simp

end

section \<open>Handles on the in-memory database\<close>

text \<open>
  The session with the state of the generators. On an error \<open>Get\<close> may leave anything in the data,
  which the handle does not read; it is left as it was. \<open>qText\<close> is the text of a query's error.
\<close>

definition queryReadErr :: "(queryError \<Rightarrow> string) \<Rightarrow> queryError \<Rightarrow> readErr" where
  "queryReadErr qText e = (if e = NotSupported then ErrNotSupported else OtherErr (qText e))"

definition loadedAs :: "key \<times> 'd resultData \<Rightarrow> 'd option" where
  "loadedAs rec = (case snd rec of Loaded d \<Rightarrow> Some d | _ \<Rightarrow> None)"

definition memRead ::
  "('d, 'c) sessionEnv \<Rightarrow> 'c queryEnv \<Rightarrow> (queryError \<Rightarrow> string) \<Rightarrow>
    (('d, 'c) session \<times> 'g, 'd, memError, (key \<times> 'd resultData) recordsReader, key \<times> 'd resultData) readSessionOps" where
  "memRead env qenv qText =
     \<lparr>rdGet = (\<lambda>(s, g) k z.
        (case sessionGet env s \<lparr>recKey = k, recData = z\<rparr> of
           (s', Inl e) \<Rightarrow> ((s', g), z, Some e) | (s', Inr d) \<Rightarrow> ((s', g), d, None))),
      rdQuery = (\<lambda>(s, g) q.
        (case ExecuteQueryToRecordsReader env qenv s (Some q) of
           (s', Inl e) \<Rightarrow> ((s', g), Inl (queryReadErr qText e))
         | (s', Inr records) \<Rightarrow> ((s', g), Inr (NewRecordsReader (Some records))))),
      rdReader = sliceReader,
      rdAs = loadedAs\<rparr>"

definition memWrite ::
  "('d, 'c) sessionEnv \<Rightarrow> (int \<Rightarrow> 'g \<Rightarrow> 'g \<times> string) \<Rightarrow> (key \<Rightarrow> memError option) \<Rightarrow>
    (('d, 'c) session \<times> 'g, 'd, memError, memError insertError, 'g, 'p) writeSessionOps" where
  "memWrite env random validate =
     \<lparr>wrInsert = (\<lambda>opts st k d. sessionInsert env random validate opts st \<lparr>recKey = k, recData = d\<rparr>),
      wrInsertMulti = multi (\<lambda>st (k, d).
        case sessionInsert env random validate [] st \<lparr>recKey = k, recData = d\<rparr> of (st', k', e) \<Rightarrow> (st', e)),
      wrSet = (\<lambda>(s, g) k d. case sessionSet env s \<lparr>recKey = k, recData = d\<rparr> of (s', e) \<Rightarrow> ((s', g), e)),
      wrUpdate = (\<lambda>(s, g) k us ps. case sessionUpdate env s k us of (s', e) \<Rightarrow> ((s', g), e)),
      wrDelete = (\<lambda>(s, g) k. case sessionDelete env s k of (s', e) \<Rightarrow> ((s', g), e))\<rparr>"

text \<open>The store it is: the map from collections and storage identifiers to records.\<close>

definition mapDone :: "'m \<times> 'd engineResult \<Rightarrow> 'm \<times> memError option" where
  "mapDone r = (fst r, case snd r of RError e \<Rightarrow> Some e | _ \<Rightarrow> None)"

definition memStore ::
  "('d, 'c) sessionEnv \<Rightarrow> ('d, 'c) memoryDB \<Rightarrow> ('c db_map, 'd, memError, memError insertError) recordStore" where
  "memStore env db0 =
     \<lparr>stGet = (\<lambda>m k z.
        (case snd (dbMapStep env db0 m (CGet \<lparr>recKey = k, recData = z\<rparr>)) of
           RError e \<Rightarrow> Inl e | RData d \<Rightarrow> Inr d | _ \<Rightarrow> Inr z)),
      stSet = (\<lambda>m k d. mapDone (dbMapStep env db0 m (CSet \<lparr>recKey = k, recData = d\<rparr>))),
      stInsert = (\<lambda>m k d. map_prod (\<lambda>m. m) (map_option InsertFailed)
        (mapDone (dbMapStep env db0 m (CInsert \<lparr>recKey = k, recData = d\<rparr>)))),
      stUpdate = (\<lambda>m k us. mapDone (dbMapStep env db0 m (CUpdate k us))),
      stDelete = (\<lambda>m k. mapDone (dbMapStep env db0 m (CDelete k)))\<rparr>"

definition memSessionOk :: "('d, 'c) memoryDB \<Rightarrow> ('d, 'c) session \<times> 'g \<Rightarrow> bool" where
  "memSessionOk db0 st = (dbWf db0 (sDB (fst st)) \<and> sTx (fst st) = None)"

lemma memStep:
  assumes "memSessionOk db0 (s, g)" and "sessionStep env s call = (s', res)"
  shows "memSessionOk db0 (s', g) \<and> dbMapStep env db0 (dbContent (sDB s)) call = (dbContent (sDB s'), res)"
proof -
  have wf: "dbWf db0 (sDB s)" and tx: "sTx s = None" using assms(1) by (simp_all add: memSessionOk_def)
  then have "allowRead s = None" by (simp add: allowRead_def)
  with sessionStep_simulation [OF wf _ assms(2)] sTx_sessionStep_None [OF tx assms(2)]
  show ?thesis by (simp add: memSessionOk_def)
qed

lemma dbMapStep_get: "fst (dbMapStep env db0 m (CGet r)) = m"
  by (simp add: dbMapStep_def Let_def split: option.split)

lemma memStep_done:
  assumes ok: "memSessionOk db0 (s, g)" and step: "sessionStep env s call = doneResult (s', err)"
  shows "memSessionOk db0 (s', g) \<and> mapDone (dbMapStep env db0 (dbContent (sDB s)) call) = (dbContent (sDB s'), err)"
  using memStep [OF ok step [unfolded doneResult_def]] by (auto simp: mapDone_def split: option.split)

interpretation mem: store_session "memRead env qenv qText" "memWrite env random validate"
  "memStore env db0" "\<lambda>st. dbContent (sDB (fst st))" "memSessionOk db0"
  for env qenv qText random validate db0
proof
  fix st st' :: "('a, 'b) session \<times> 'c" and k z d err
  assume ok: "memSessionOk db0 st" and g: "rdGet (memRead env qenv qText) st k z = (st', d, err)"
  obtain s g' where st: "st = (s, g')" by fastforce
  obtain s1 res where r: "sessionGet env s \<lparr>recKey = k, recData = z\<rparr> = (s1, res)" by fastforce
  show "memSessionOk db0 st' \<and> dbContent (sDB (fst st')) = dbContent (sDB (fst st)) \<and>
      stGet (memStore env db0) (dbContent (sDB (fst st))) k z = (case err of None \<Rightarrow> Inr d | Some e \<Rightarrow> Inl e)"
    using memStep [of db0 s g' env "CGet \<lparr>recKey = k, recData = z\<rparr>" s1] ok g r st
      dbMapStep_get [of env db0 "dbContent (sDB s)" "\<lparr>recKey = k, recData = z\<rparr>"]
    by (cases res) (auto simp: memRead_def memStore_def)
next
  fix st st' :: "('a, 'b) session \<times> 'c" and k d err
  assume ok: "memSessionOk db0 st" and w: "wrSet (memWrite env random validate) st k d = (st', err)"
  then show "memSessionOk db0 st' \<and>
      stSet (memStore env db0) (dbContent (sDB (fst st))) k d = (dbContent (sDB (fst st')), err)"
    using memStep_done [of db0 "fst st" "snd st" env "CSet \<lparr>recKey = k, recData = d\<rparr>" "fst st'" err]
    by (cases st) (auto simp: memWrite_def memStore_def split: prod.splits)
next
  fix st st' :: "('a, 'b) session \<times> 'c" and k d k' err
  assume ok: "memSessionOk db0 st" and w: "wrInsert (memWrite env random validate) [] st k d = (st', k', err)"
  obtain s1 e1 where sv: "markIfDone (save env (fst st) \<lparr>recKey = k, recData = d\<rparr> False) = (s1, e1)" by fastforce
  show "memSessionOk db0 st' \<and> k' = k \<and>
      stInsert (memStore env db0) (dbContent (sDB (fst st))) k d = (dbContent (sDB (fst st')), err)"
    using memStep_done [of db0 "fst st" "snd st" env "CInsert \<lparr>recKey = k, recData = d\<rparr>" s1 e1] ok w sv
    by (auto simp: memWrite_def memStore_def sessionInsert_plain)
next
  fix st st' :: "('a, 'b) session \<times> 'c" and k us ps err
  assume ok: "memSessionOk db0 st" and w: "wrUpdate (memWrite env random validate) st k us ps = (st', err)"
  then show "memSessionOk db0 st' \<and>
      stUpdate (memStore env db0) (dbContent (sDB (fst st))) k us = (dbContent (sDB (fst st')), err)"
    using memStep_done [of db0 "fst st" "snd st" env "CUpdate k us" "fst st'" err]
    by (cases st) (auto simp: memWrite_def memStore_def split: prod.splits)
next
  fix st st' :: "('a, 'b) session \<times> 'c" and k err
  assume ok: "memSessionOk db0 st" and w: "wrDelete (memWrite env random validate) st k = (st', err)"
  then show "memSessionOk db0 st' \<and>
      stDelete (memStore env db0) (dbContent (sDB (fst st))) k = (dbContent (sDB (fst st')), err)"
    using memStep_done [of db0 "fst st" "snd st" env "CDelete k" "fst st'" err]
    by (cases st) (auto simp: memWrite_def memStore_def split: prod.splits)
qed

text \<open>C8: On a new in-memory database, every history of calls through a collection handle, at the root or
  scoped under a parent, answers as a map of records does: each call is one operation of the map at
  the key of that collection, identifier and parent. Under a parent with an incomplete ancestor
  every call answers with an error and changes nothing.
\<close>

theorem collection_handle_is_map:
  assumes "plainKeys mk" and "CollectionAt name [] = Some c0" and "collIn c0 parent = Some c"
    and "list_all (\<lambda>call. completeID (callID call)) calls"
  shows "map_prod (\<lambda>st. dbContent (sDB (fst st))) (\<lambda>rs. rs)
     (runEngine (handleStep IsNotFound mk zero (memRead env qenv qText) (memWrite env random validate :: (_, _, _, _, _, 'p) writeSessionOps) c)
        (\<lparr>sDB = NewDB opts, sTx = None\<rparr>, g) calls) =
   runEngine (handleSpec name parent (memStore env (NewDB opts)) IsNotFound zero) (\<lambda>_ _. None) calls"
proof -
  let ?step = "handleStep IsNotFound mk zero (memRead env qenv qText) (memWrite env random validate :: (_, _, _, _, _, 'p) writeSessionOps) c"
  let ?S = "memStore env (NewDB opts)"
  have name: "name \<noteq> []" and c: "c = \<lparr>collRef = CollectionRef name [] parent, collKeyOptions = []\<rparr>"
    using assms(2,3) by (auto simp: CollectionAt_def collIn_def NewCollectionRef_def split: if_splits)
  obtain st' rs where run: "runEngine ?step (\<lparr>sDB = NewDB opts, sTx = None\<rparr>, g) calls = (st', rs)" by fastforce
  have "memSessionOk (NewDB opts) (\<lparr>sDB = NewDB opts, sTx = None\<rparr>, g)"
    by (simp add: memSessionOk_def dbWf_NewDB)
  from mem.history_refines [OF this run] run
  have "map_prod (\<lambda>st. dbContent (sDB (fst st))) (\<lambda>rs. rs) (runEngine ?step (\<lparr>sDB = NewDB opts, sTx = None\<rparr>, g) calls) =
      runEngine (handleAt mk c ?S IsNotFound zero) (\<lambda>_ _. None) calls"
    by (simp add: dbContent_NewDB)
  also have "\<dots> = runEngine (handleSpec name parent ?S IsNotFound zero) (\<lambda>_ _. None) calls"
    using assms(4) by (intro run_cong) (auto simp: list_all_iff c handleAt_plain [OF assms(1) name])
  finally show ?thesis .
qed

text \<open>
  The module's options on keys, as a function: every option is applied to the key in turn. Two notes
  of a list, one of them under an unfinished list.
\<close>

fun applyKeyOption :: "string keyOption \<Rightarrow> string + key \<Rightarrow> string + key" where
  "applyKeyOption (WithKeyID i) (Inr (Key c j p)) = Inr (Key c i p)"
| "applyKeyOption (WithParentKey p) (Inr (Key c i q)) = Inr (Key c i (Some p))"
| "applyKeyOption (CallerKeyOption e) (Inr k) = Inl e"
| "applyKeyOption _ (Inl e) = Inl e"

definition sampleKeys :: "string keyMaker" where
  "sampleKeys name options = fold applyKeyOption options (Inr (Key name GNil None))"

lemma plainKeys_sample: "plainKeys sampleKeys"
  by (simp add: plainKeys_def sampleKeys_def)

definition notesHandle :: "key option \<Rightarrow> string collection" where
  "notesHandle parent = the (collIn (the (CollectionAt ''notes'' [])) parent)"

abbreviation notesRun ::
  "key option \<Rightarrow> fields handleCall list \<Rightarrow>
    ((fields, value) session \<times> unit) \<times> (fields, memError, memError insertError) handleResult list" where
  "notesRun parent calls \<equiv>
     runEngine (handleStep IsNotFound sampleKeys [] (memRead sampleSessionEnv sampleQueryEnv (\<lambda>_. []))
         (memWrite sampleSessionEnv (\<lambda>_ g. (g, [])) (\<lambda>_. None) :: (_, _, _, _, _, unit) writeSessionOps) (notesHandle parent))
       (\<lparr>sDB = NewDB [], sTx = None\<rparr>, ()) calls"

definition noteCalls :: "fields handleCall list" where
  "noteCalls =
     [HExists (goStr ''n1''), HSetByID (goStr ''n1'') [(''by'', VString ''string'' ''ann'')],
      HGetData (goStr ''n1''), HInsertWithID (goStr ''n1'') [], HDeleteByID (goStr ''n1''),
      HExists (goStr ''n1'')]"

theorem collection_handle_is_map_witness:
  "let list = Some (Key ''lists'' (goStr ''l1'') None) in
   map_prod (\<lambda>st. dbContent (sDB (fst st))) (\<lambda>rs. rs) (notesRun list noteCalls) =
     runEngine (handleSpec ''notes'' list (memStore sampleSessionEnv (NewDB [])) IsNotFound []) (\<lambda>_ _. None) noteCalls \<and>
   snd (notesRun list noteCalls) =
     [HBool False, HDone, HValue [(''by'', VString ''string'' ''ann'')],
      HError (InsertError (InsertFailed (RecordAlreadyExists (Key ''notes'' (goStr ''n1'') list)))),
      HDone, HBool False] \<and>
   snd (notesRun (Some (Key ''lists'' GNil None)) [HExists (goStr ''n1'')]) =
     [HError (IncompleteParent ''notes'' ''lists'')]"
proof -
  let ?list = "Some (Key ''lists'' (goStr ''l1'') None)"
  have "CollectionAt ''notes'' [] = Some (the (CollectionAt ''notes'' [] :: string collection option))"
    by code_simp
  moreover have "collIn (the (CollectionAt ''notes'' [])) ?list = Some (notesHandle ?list)" by code_simp
  moreover have "list_all (\<lambda>call. completeID (callID call)) noteCalls" by code_simp
  ultimately have "map_prod (\<lambda>st. dbContent (sDB (fst st))) (\<lambda>rs. rs) (notesRun ?list noteCalls) =
     runEngine (handleSpec ''notes'' ?list (memStore sampleSessionEnv (NewDB [])) IsNotFound []) (\<lambda>_ _. None) noteCalls"
    by (rule collection_handle_is_map [OF plainKeys_sample])
  moreover have "snd (notesRun ?list noteCalls) =
     [HBool False, HDone, HValue [(''by'', VString ''string'' ''ann'')],
      HError (InsertError (InsertFailed (RecordAlreadyExists (Key ''notes'' (goStr ''n1'') ?list)))),
      HDone, HBool False]" by code_simp
  moreover have "snd (notesRun (Some (Key ''lists'' GNil None)) [HExists (goStr ''n1'')]) =
     [HError (IncompleteParent ''notes'' ''lists'')]" by code_simp
  ultimately show ?thesis unfolding Let_def by blast
qed

section \<open>Listing a collection\<close>

lemma rdAs_memRead [simp]: "rdAs (memRead env qenv qText) = loadedAs"
  by (simp add: memRead_def)

lemma mem_readQuery:
  "readQuery (memRead env qenv qText) (\<lambda>_. None) (s, g) q =
     (case ExecuteQueryToRecordsReader env qenv s (Some q) of
        (s', Inl e) \<Rightarrow> ((s', g), Some (Return (Some (queryReadErr qText e), [])))
      | (s', Inr records) \<Rightarrow> ((s', g), Some (Return (None, records))))"
proof -
  have "map_option fst (ReadAllToRecords sliceReader (\<lambda>_. None) [] (NewRecordsReader (Some rs))) =
      Some (Return (None, rs))" for rs :: "(key \<times> 'a resultData) list"
    using sliceReader_read_all [of "[]" rs] by (auto simp: newReaderOptions_def selected_def)
  then show ?thesis
    by (auto simp: readQuery_def memRead_def ExecuteQueryAndReadAllToRecords_def split: prod.split sum.split)
qed

text \<open>The three queries of a handle: one source, no condition, no order.\<close>

definition listQuery :: "'o collection \<Rightarrow> 'd option \<Rightarrow> int \<Rightarrow> string \<Rightarrow> 'd structuredQuery" where
  "listQuery c into limit kind =
     (newStructuredQuery (collFrom c))\<lparr>qIntoRecord := into, qLimit := limit, qIDKind := kind\<rparr>"

lemma handle_queries:
  "SelectIntoRecord zero (NewQueryBuilder (collFrom c)) = listQuery c (Some zero) 0 []"
  "SelectKeysOnly kind (NewQueryBuilder (collFrom c)) = listQuery c None 0 kind"
  "buildStep (SLimit 1) (NewQueryBuilder (collFrom c)) = Some b \<Longrightarrow>
    SelectIntoRecord zero b = listQuery c (Some zero) 1 []"
  by (auto simp: SelectIntoRecord_def SelectKeysOnly_def NewQueryBuilder_def newQuery_def listQuery_def
      newStructuredQuery_def combine_cases)

definition listedRows ::
  "('d, 'c) sessionEnv \<Rightarrow> 'c queryEnv \<Rightarrow> 'o collection \<Rightarrow> 'd engineRow list \<Rightarrow> 'd engineRow list" where
  "listedRows env qenv c rows =
     sliceStable (orderLess (valEnv (baseEnv (colEnv env))) [] (\<lambda>r. baseSources (collRef c) (MemoryEngine.rowData r)) rowId)
       (filter (\<lambda>row. case baseParent (collRef c) of None \<Rightarrow> True | Some p \<Rightarrow> isChildOf (keyString qenv) (rowKey row) p) rows)"

lemma filterRows_total: "filterRows (\<lambda>r. Some (P r)) rows = Some (filter P rows)"
  by (induction rows) simp_all

lemma listQuery_simps [simp]:
  "qFrom (listQuery c into l kind) = collFrom c" "qWhere (listQuery c into l kind) = NilCondition"
  "qGroupBy (listQuery c into l kind) = []" "qOrderBy (listQuery c into l kind) = []"
  "qColumns (listQuery c into l kind) = []" "qIntoRecord (listQuery c into l kind) = into"
  "qLimit (listQuery c into l kind) = l" "fromBase (collFrom c) = collRef c" "fromJoins (collFrom c) = []"
  by (simp_all add: listQuery_def newStructuredQuery_def collFrom_def)

lemma keepRow_list:
  "keepRow env ks (listQuery c into l kind) =
     (\<lambda>row. Some (case baseParent (collRef c) of None \<Rightarrow> True | Some p \<Rightarrow> isChildOf ks (rowKey row) p))"
  by (simp add: keepRow_def fun_eq_iff)

lemma executeRows_list:
  "executeRows (valEnv (baseEnv (colEnv env))) qenv factory (listQuery c into limit kind) =
     (\<lambda>rows. buildResults factory (listQuery c into limit kind) (applyLimit limit (listedRows env qenv c rows)))"
  by (rule ext) (simp add: executeRows_def executeSingle_def keepRow_list filterRows_total orderAndLimit_def
      orderBySources_def listedRows_def applyLimit_def)

lemma buildResults_take:
  "buildResults factory q rows = Inr out \<Longrightarrow> buildResults factory q (take n rows) = Inr (take n out)"
proof (induction rows arbitrary: out n)
  case (Cons row rows)
  then show ?case by (cases n) (auto simp: bindE_eq_Inr Let_def)
qed simp

lemma buildResults_query:
  "buildResults factory (listQuery c into l kind) rows = buildResults factory (listQuery c into l' kind) rows"
  by (induction rows) simp_all

lemma buildResults_length: "buildResults factory q rows = Inr out \<Longrightarrow> length out = length rows"
  by (induction rows arbitrary: out) (auto simp: bindE_eq_Inr Let_def)

lemma buildResults_keys:
  "buildResults None (listQuery c None l kind) rows =
     Inr (map (\<lambda>row. (resultKey (sourceName (collRef c)) row, KeysOnly)) rows)"
  by (induction rows) simp_all

text \<open>What a listing query of a handle answers.\<close>

lemma list_query_answer:
  assumes "ExecuteQueryToRecordsReader env qenv s (Some (listQuery c (Some zero) 0 [])) = (s', Inr out)"
  obtains factory rows where
    "recordFactory (sDB s) (sourceName (collRef c)) = Inr factory"
    "buildResults factory (listQuery c (Some zero) 0 []) rows = Inr out"
    "\<And>into limit kind. ExecuteQueryToRecordsReader env qenv s (Some (listQuery c into limit kind)) =
       (s', buildResults factory (listQuery c into limit kind) (applyLimit limit rows))"
proof -
  let ?n = "sourceName (collRef c)"
  let ?load = "loadCandidateRows (mapOrder qenv) (colEnv env) (strategies qenv) (engineOf (sDB s) ?n) NilCondition"
  have ok: "allowRead s = None" using assms by (auto simp: ExecuteQueryToRecordsReader_def split: option.splits)
  have exec: "ExecuteQueryToRecordsReader env qenv s (Some (listQuery c into limit kind)) =
      (case recordFactory (sDB s) ?n of
         Inl e \<Rightarrow> (s, Inl (StoreError e))
       | Inr factory \<Rightarrow>
           (s\<lparr>sDB := touch (sDB s) ?n\<rparr>,
            bindE (map_sum StoreError (\<lambda>rows. rows) ?load)
              (\<lambda>rows. buildResults factory (listQuery c into limit kind)
                 (applyLimit limit (listedRows env qenv c rows)))))" for into limit kind
    by (simp add: ExecuteQueryToRecordsReader_def ok executeRows_list Let_def split: sum.split)
  obtain factory where f: "recordFactory (sDB s) ?n = Inr factory"
    using assms by (cases "recordFactory (sDB s) ?n") (auto simp: exec)
  obtain rows where rows: "?load = Inr rows"
    using assms f by (cases ?load) (auto simp: exec)
  show thesis
  proof (rule that)
    show "recordFactory (sDB s) ?n = Inr factory" by (rule f)
    show "buildResults factory (listQuery c (Some zero) 0 []) (listedRows env qenv c rows) = Inr out"
      using assms f rows by (simp add: exec applyLimit_def)
    show "ExecuteQueryToRecordsReader env qenv s (Some (listQuery c into limit kind)) =
       (s', buildResults factory (listQuery c into limit kind) (applyLimit limit (listedRows env qenv c rows)))"
      for into limit kind
      using assms f rows by (simp add: exec)
  qed
qed

text \<open>The listing terminals of a handle agree on an in-memory database: when \<open>All\<close> answers with some
  values, \<open>First\<close> answers with the first of them, or that there is none, and \<open>Count\<close> with their
  number unless the collection has a Go type of its own that does not take a stored record.
\<close>

theorem collection_listing_consistent:
  fixes zero :: 'd
  assumes "collAll zero (memRead env qenv qText) (\<lambda>_. None) c (s, g) = (st, Some (Return (Inr vs)))"
  shows "collFirst zero (memRead env qenv qText) (\<lambda>_. None) c (s, g) =
      (st, Some (Return (Inr (case vs of [] \<Rightarrow> None | v # _ \<Rightarrow> Some v)))) \<and>
    (case snd (collCount (memRead env qenv qText) (\<lambda>_. None) c (s, g)) of
       Some (Return (Inr n)) \<Rightarrow> n = length vs
     | Some (Return (Inl e)) \<Rightarrow> recordFactory (sDB s) (sourceName (collRef c)) \<noteq> Inr None
     | _ \<Rightarrow> False)"
proof -
  let ?R = "memRead env qenv qText"
  obtain s' r where run: "ExecuteQueryToRecordsReader env qenv s (Some (listQuery c (Some zero) 0 [])) = (s', r)"
    by fastforce
  obtain out where r: "r = Inr out" using assms run
    by (cases r) (auto simp: collAll_def handle_queries mem_readQuery)
  have st: "st = (s', g)" and vs: "list_all (\<lambda>rec. loadedAs rec \<noteq> None) out" "vs = map (the \<circ> loadedAs) out"
    using assms run r
    by (auto simp: collAll_def handle_queries mem_readQuery list_all_iff list_ex_iff split: if_splits)
  obtain factory rows where f: "recordFactory (sDB s) (sourceName (collRef c)) = Inr factory"
    and b: "buildResults factory (listQuery c (Some zero) 0 []) rows = Inr out"
    and all: "\<And>into limit kind. ExecuteQueryToRecordsReader env qenv s (Some (listQuery c into limit kind)) =
       (s', buildResults factory (listQuery c into limit kind) (applyLimit limit rows))"
    using list_query_answer [OF run [unfolded r]] by blast
  have one: "buildResults factory (listQuery c (Some zero) 1 []) (applyLimit 1 rows) = Inr (take 1 out)"
  proof -
    have "applyLimit 1 rows = take 1 rows" by (auto simp: applyLimit_def)
    then show ?thesis using buildResults_take [OF b, of 1] buildResults_query [of factory c "Some zero" 1 "[]" _ 0] by simp
  qed
  obtain q :: "'d queryBuilder" where q: "buildStep (SLimit 1) (NewQueryBuilder (collFrom c)) = Some q" by simp
  have first: "collFirst zero ?R (\<lambda>_. None) c (s, g) =
      (st, Some (Return (Inr (case vs of [] \<Rightarrow> None | v # _ \<Rightarrow> Some v))))"
    using vs st by (cases out) (auto simp: collFirst_def q handle_queries(3) [OF q] mem_readQuery all one simp del: buildStep.simps)
  have "case snd (collCount ?R (\<lambda>_. None) c (s, g)) of
       Some (Return (Inr n)) \<Rightarrow> n = length vs
     | Some (Return (Inl e)) \<Rightarrow> recordFactory (sDB s) (sourceName (collRef c)) \<noteq> Inr None
     | _ \<Rightarrow> False"
  proof (cases "buildResults factory (listQuery c None 0 ''string'') rows")
    case (Inl e)
    then have "factory \<noteq> None" by (cases factory) (auto simp: buildResults_keys)
    then show ?thesis using Inl f by (simp add: collCount_def handle_queries mem_readQuery all applyLimit_def)
  next
    case (Inr ks)
    then show ?thesis
      using buildResults_length [OF Inr] buildResults_length [OF b] vs(2)
      by (simp add: collCount_def handle_queries mem_readQuery all applyLimit_def)
  qed
  with first show ?thesis by blast
qed

theorem collection_listing_consistent_witness:
  "let R = memRead sampleSessionEnv sampleQueryEnv (\<lambda>_. []); c = notesHandle None in
   map_option (\<lambda>r. case r of Return x \<Rightarrow> Some x | _ \<Rightarrow> None) (snd (collFirst [] R (\<lambda>_. None) c (notesSession, ()))) =
     Some (Some (Inr (Some [(''by'', VString ''string'' ''bob'')]))) \<and>
   snd (collAll [] R (\<lambda>_. None) c (notesSession, ())) =
     Some (Return (Inr [[(''by'', VString ''string'' ''bob'')], [(''by'', VString ''string'' ''ann'')]]))"
proof -
  let ?R = "memRead sampleSessionEnv sampleQueryEnv (\<lambda>_. [])"
  let ?c = "notesHandle None"
  have exec: "snd (ExecuteQueryToRecordsReader sampleSessionEnv sampleQueryEnv notesSession (Some (listQuery ?c (Some []) 0 []))) =
      Inr [(Key ''notes'' (goStr ''n1'') None, Loaded [(''by'', VString ''string'' ''bob'')]),
           (Key ''notes'' (goStr ''n2'') None, Loaded [(''by'', VString ''string'' ''ann'')])]" by code_simp
  then have all: "snd (collAll [] ?R (\<lambda>_. None) ?c (notesSession, ())) =
     Some (Return (Inr [[(''by'', VString ''string'' ''bob'')], [(''by'', VString ''string'' ''ann'')]]))"
    by (auto simp: collAll_def handle_queries mem_readQuery loadedAs_def split: prod.split)
  obtain st where "collAll [] ?R (\<lambda>_. None) ?c (notesSession, ()) =
     (st, Some (Return (Inr [[(''by'', VString ''string'' ''bob'')], [(''by'', VString ''string'' ''ann'')]])))"
    using all by (metis prod.collapse)
  from collection_listing_consistent [OF this] all show ?thesis by simp
qed

end
