(* ===== verification/DtqlQuery.thy ===== *)
theory DtqlQuery
  imports DalQuery
begin

text \<open>
  The textual form of structured queries (\<open>src/dtql\<close>): a query becomes a document
  (\<open>serialize.go\<close>), a document a query (\<open>deserialize.go\<close>), and \<open>equal.go\<close> says when two queries are
  structurally equal.

  The YAML codec is a third-party package and an argument: \<open>encode\<close> gives the text of a document,
  \<open>decode\<close>, which refuses unknown keys, the document of a text. A nil interface is \<^const>\<open>VNil\<close>, a nil
  slice or pointer \<^const>\<open>None\<close>. The schema that \<open>schema.go\<close> publishes is in
  theory \<open>DtqlSchema\<close>.
\<close>

section \<open>Definitions\<close>

subsection \<open>Documents (\<open>shapes.go\<close>)\<close>

record fromYAML =
  fyName :: string
  fyAlias :: string

record exprYAML =
  eyField :: string
  eyValue :: "value"
  eyValues :: "value"

record columnYAML =
  cyExpr :: exprYAML
  cyAs :: string

record orderYAML =
  oyExpr :: exprYAML
  oyDesc :: bool

datatype condYAML =
  CondYAML (cdOp: string) (cdLeft: "exprYAML option") (cdRight: "exprYAML option")
    (cdAnd: "condYAML list option") (cdOr: "condYAML list option")

record document =
  docFrom :: fromYAML
  docColumns :: "columnYAML list"
  docWhere :: "condYAML option"
  docOrderBy :: "orderYAML list"
  docLimit :: int
  docOffset :: int

definition inScopeComparisonOps :: "operator list" where
  "inScopeComparisonOps = [Equal, In, GreaterThen, GreaterOrEqual, LessThen, LessOrEqual]"

datatype dtqlError =
    NilQuery
  | JoinsUnsupported
  | GroupByUnsupported
  | CursorUnsupported
  | SourceUnsupported
  | ParentUnsupported string
  | ExpressionUnsupported
  | ConditionUnsupported
  | OperatorUnsupported operator
  | GroupOperatorUnsupported operator
  | InvalidYAML string
  | NameRequired
  | ExpressionUnset
  | ExpressionAmbiguous
  | ConditionUnset
  | ConditionAmbiguous
  | UnknownOperator string
  | OperandMissing
  | EmptyGroup operator
  | BuilderPanic
  | AtColumn nat dtqlError
  | AtOrderBy nat dtqlError
  | AtLeft dtqlError
  | AtRight dtqlError
  | AtCondition nat dtqlError

text \<open>A loop over a slice that stops at the first error and says where.\<close>

fun eachE :: "(nat \<Rightarrow> 'e \<Rightarrow> 'e) \<Rightarrow> ('a \<Rightarrow> 'e + 'b) \<Rightarrow> nat \<Rightarrow> 'a list \<Rightarrow> 'e + 'b list" where
  "eachE wrap f i [] = Inr []"
| "eachE wrap f i (x # xs) =
     bindE (mapErr (wrap i) (f x)) (\<lambda>y. bindE (eachE wrap f (Suc i) xs) (\<lambda>ys. Inr (y # ys)))"

subsection \<open>From queries to documents (\<open>serialize.go\<close>)\<close>

definition fromToYAML :: "(key \<Rightarrow> string) \<Rightarrow> fromSource \<Rightarrow> dtqlError + fromYAML" where
  "fromToYAML keyText from =
     (case fromBase from of
        CollectionGroupRef name alias \<Rightarrow> Inl SourceUnsupported
      | CollectionRef name alias parent \<Rightarrow>
          if parent \<noteq> None then Inl (ParentUnsupported (collectionPath keyText (fromBase from)))
          else Inr \<lparr>fyName = name, fyAlias = alias\<rparr>)"

fun exprToYAML :: "expression \<Rightarrow> dtqlError + exprYAML" where
  "exprToYAML (FieldRef source name isID) = Inr \<lparr>eyField = name, eyValue = VNil, eyValues = VNil\<rparr>"
| "exprToYAML (Constant v) = Inr \<lparr>eyField = [], eyValue = v, eyValues = VNil\<rparr>"
| "exprToYAML (Array v) = Inr \<lparr>eyField = [], eyValue = VNil, eyValues = v\<rparr>"
| "exprToYAML _ = Inl ExpressionUnsupported"

definition comparisonToYAML :: "operator \<Rightarrow> expression \<Rightarrow> expression \<Rightarrow> dtqlError + condYAML" where
  "comparisonToYAML opr l r =
     (if opr \<notin> set inScopeComparisonOps then Inl (OperatorUnsupported opr)
      else bindE (mapErr AtLeft (exprToYAML l)) (\<lambda>left.
           bindE (mapErr AtRight (exprToYAML r)) (\<lambda>right.
             Inr (CondYAML opr (Some left) (Some right) None None))))"

fun condToYAML :: "condition \<Rightarrow> dtqlError + condYAML"
  and groupToYAML :: "nat \<Rightarrow> condition list \<Rightarrow> dtqlError + condYAML list" where
  "condToYAML (Comparison opr l r) = comparisonToYAML opr l r"
| "condToYAML (GroupCondition opr cs) =
     bindE (groupToYAML 0 cs) (\<lambda>children.
       if opr = And then Inr (CondYAML [] None None (Some children) None)
       else if opr = Or then Inr (CondYAML [] None None None (Some children))
       else Inl (GroupOperatorUnsupported opr))"
| "condToYAML _ = Inl ConditionUnsupported"
| "groupToYAML i [] = Inr []"
| "groupToYAML i (c # cs) =
     bindE (mapErr (AtCondition i) (condToYAML c)) (\<lambda>d.
       bindE (groupToYAML (Suc i) cs) (\<lambda>ds. Inr (d # ds)))"

definition columnToYAML :: "column_dal \<Rightarrow> dtqlError + columnYAML" where
  "columnToYAML col = bindE (exprToYAML (colExpression col)) (\<lambda>e. Inr \<lparr>cyExpr = e, cyAs = colAlias col\<rparr>)"

definition orderToYAML :: "orderExpression \<Rightarrow> dtqlError + orderYAML" where
  "orderToYAML oe = bindE (exprToYAML (ordExpression oe)) (\<lambda>e. Inr \<lparr>oyExpr = e, oyDesc = ordDescending oe\<rparr>)"

definition queryToDocument :: "(key \<Rightarrow> string) \<Rightarrow> 'd structuredQuery \<Rightarrow> dtqlError + document" where
  "queryToDocument keyText q =
     (if fromJoins (qFrom q) \<noteq> [] then Inl JoinsUnsupported
      else if qGroupBy q \<noteq> [] then Inl GroupByUnsupported
      else if qStartCursor q \<noteq> [] then Inl CursorUnsupported
      else
        bindE (fromToYAML keyText (qFrom q)) (\<lambda>from.
        bindE (eachE AtColumn columnToYAML 0 (qColumns q)) (\<lambda>columns.
        bindE (if qWhere q = NilCondition then Inr None else map_sum (\<lambda>e. e) Some (condToYAML (qWhere q))) (\<lambda>cond.
        bindE (eachE AtOrderBy orderToYAML 0 (qOrderBy q)) (\<lambda>orders.
          Inr \<lparr>docFrom = from, docColumns = columns, docWhere = cond, docOrderBy = orders,
               docLimit = qLimit q, docOffset = qOffset q\<rparr>)))))"

definition Serialize ::
  "(key \<Rightarrow> string) \<Rightarrow> (document \<Rightarrow> 'y) \<Rightarrow> 'd structuredQuery option \<Rightarrow> dtqlError + 'y" where
  "Serialize keyText encode query =
     (case query of
        None \<Rightarrow> Inl NilQuery
      | Some q \<Rightarrow> bindE (queryToDocument keyText q) (\<lambda>doc. Inr (encode doc)))"

subsection \<open>From documents to queries (\<open>deserialize.go\<close>)\<close>

definition exprFromYAML :: "exprYAML \<Rightarrow> dtqlError + expression" where
  "exprFromYAML e =
     (let count = (if eyField e \<noteq> [] then 1 else 0) + (if eyValue e \<noteq> VNil then 1 else 0) +
        (if eyValues e \<noteq> VNil then 1 else (0 :: nat))
      in if count = 0 then Inl ExpressionUnset
         else if count > 1 then Inl ExpressionAmbiguous
         else if eyField e \<noteq> [] then Inr (NewFieldRef [] (eyField e))
         else if eyValue e \<noteq> VNil then Inr (Constant (eyValue e))
         else Inr (Array (eyValues e)))"

definition comparisonFromYAML :: "string \<Rightarrow> exprYAML option \<Rightarrow> exprYAML option \<Rightarrow> dtqlError + condition" where
  "comparisonFromYAML opr l r =
     (if opr \<notin> set inScopeComparisonOps then Inl (UnknownOperator opr)
      else case (l, r) of
        (Some le, Some re) \<Rightarrow>
          bindE (mapErr AtLeft (exprFromYAML le)) (\<lambda>left.
          bindE (mapErr AtRight (exprFromYAML re)) (\<lambda>right. Inr (Comparison opr left right)))
      | _ \<Rightarrow> Inl OperandMissing)"

fun condFromYAML :: "condYAML \<Rightarrow> dtqlError + condition"
  and groupFromYAML :: "operator \<Rightarrow> condYAML list \<Rightarrow> dtqlError + condition"
  and condsFromYAML :: "nat \<Rightarrow> condYAML list \<Rightarrow> dtqlError + condition list" where
  "condFromYAML (CondYAML opr l r ands ors) =
     (let isComparison = (opr \<noteq> [] \<or> l \<noteq> None \<or> r \<noteq> None);
          forms = (if isComparison then 1 else 0) + (if ands \<noteq> None then 1 else 0) +
            (if ors \<noteq> None then 1 else (0 :: nat))
      in if forms = 0 then Inl ConditionUnset
         else if forms > 1 then Inl ConditionAmbiguous
         else if isComparison then comparisonFromYAML opr l r
         else case ands of
           Some subs \<Rightarrow> groupFromYAML And subs
         | None \<Rightarrow> (case ors of Some subs \<Rightarrow> groupFromYAML Or subs | None \<Rightarrow> Inl ConditionUnset))"
| "groupFromYAML opr subs =
     (if subs = [] then Inl (EmptyGroup opr)
      else bindE (condsFromYAML 0 subs) (\<lambda>conditions. Inr (GroupCondition opr conditions)))"
| "condsFromYAML i [] = Inr []"
| "condsFromYAML i (c # cs) =
     bindE (mapErr (AtCondition i) (condFromYAML c)) (\<lambda>d.
       bindE (condsFromYAML (Suc i) cs) (\<lambda>ds. Inr (d # ds)))"

definition columnFromYAML :: "columnYAML \<Rightarrow> dtqlError + column_dal" where
  "columnFromYAML c = bindE (exprFromYAML (cyExpr c)) (\<lambda>e. Inr \<lparr>colAlias = cyAs c, colExpression = e\<rparr>)"

definition columnsFromYAML :: "columnYAML list \<Rightarrow> dtqlError + column_dal list" where
  "columnsFromYAML cols = eachE AtColumn columnFromYAML 0 cols"

definition orderExprFromYAML :: "orderYAML \<Rightarrow> dtqlError + orderExpression" where
  "orderExprFromYAML oy =
     bindE (exprFromYAML (oyExpr oy)) (\<lambda>e. Inr \<lparr>ordExpression = e, ordDescending = oyDesc oy\<rparr>)"

definition orderFromYAML :: "orderYAML list \<Rightarrow> dtqlError + orderExpression list" where
  "orderFromYAML orders = eachE AtOrderBy orderExprFromYAML 0 orders"

definition documentToQuery :: "document \<Rightarrow> dtqlError + 'd structuredQuery" where
  "documentToQuery doc =
     (case NewCollectionRef (fyName (docFrom doc)) (fyAlias (docFrom doc)) None of
        None \<Rightarrow> Inl NameRequired
      | Some source \<Rightarrow>
          bindE (case docWhere doc of
                   None \<Rightarrow> Inr [] | Some c \<Rightarrow> map_sum (\<lambda>e. e) (\<lambda>cond. [SWhere [cond]]) (condFromYAML c)) (\<lambda>conds.
          bindE (orderFromYAML (docOrderBy doc)) (\<lambda>orderBy.
          bindE (columnsFromYAML (docColumns doc)) (\<lambda>columns.
            case runBuilder (conds @ (if orderBy = [] then [] else [SOrderBy orderBy]) @
                   [SLimit (docLimit doc), SOffset (docOffset doc)])
                 (NewQueryBuilder \<lparr>fromBase = source, fromJoins = []\<rparr>) of
              None \<Rightarrow> Inl BuilderPanic
            | Some b \<Rightarrow> Inr ((newQuery b)\<lparr>qColumns := columns\<rparr>)))))"

definition Deserialize :: "('y \<Rightarrow> string + document) \<Rightarrow> 'y \<Rightarrow> dtqlError + 'd structuredQuery" where
  "Deserialize decode data =
     (case decode data of Inl err \<Rightarrow> Inl (InvalidYAML err) | Inr doc \<Rightarrow> documentToQuery doc)"

subsection \<open>Structural equality (\<open>equal.go\<close>)\<close>

text \<open>
  \<^const>\<open>None\<close> is the panic of \<open>==\<close> on values that cannot be compared. \<open>reflect.DeepEqual\<close> is the
  equality of values. A byte slice, which is no \<^const>\<open>VList\<close>, counts as a value that is not a slice.
\<close>

definition andAlso :: "bool option \<Rightarrow> bool option \<Rightarrow> bool option" where
  "andAlso a b = (case a of Some True \<Rightarrow> b | _ \<Rightarrow> a)"

fun elemsEqual :: "value list \<Rightarrow> value list \<Rightarrow> bool option" where
  "elemsEqual [] [] = Some True"
| "elemsEqual (x # xs) (y # ys) = andAlso (goEq x y) (elemsEqual xs ys)"
| "elemsEqual _ _ = Some False"

fun arrayEqual :: "value \<Rightarrow> value \<Rightarrow> bool option" where
  "arrayEqual VNil VNil = Some True"
| "arrayEqual (VList t xs) (VList u ys) = (if length xs \<noteq> length ys then Some False else elemsEqual xs ys)"
| "arrayEqual v w = (if v = VNil \<or> w = VNil then Some False else goEq v w)"

fun exprEqual :: "expression \<Rightarrow> expression \<Rightarrow> bool option" where
  "exprEqual (FieldRef s n i) (FieldRef s' n' i') = Some (s = s' \<and> i = i' \<and> n = n')"
| "exprEqual (Constant v) (Constant w) = Some (v = w)"
| "exprEqual (Array v) (Array w) = arrayEqual v w"
| "exprEqual _ _ = Some False"

fun condEqual :: "condition \<Rightarrow> condition \<Rightarrow> bool option"
  and condsEqual :: "condition list \<Rightarrow> condition list \<Rightarrow> bool option" where
  "condEqual NilCondition b = Some (b = NilCondition)"
| "condEqual (Comparison opr l r) b =
     (case b of
        Comparison opr' l' r' \<Rightarrow> andAlso (Some (opr = opr')) (andAlso (exprEqual l l') (exprEqual r r'))
      | _ \<Rightarrow> Some False)"
| "condEqual (GroupCondition opr cs) b =
     (case b of
        GroupCondition opr' cs' \<Rightarrow>
          if opr \<noteq> opr' \<or> length cs \<noteq> length cs' then Some False else condsEqual cs cs'
      | _ \<Rightarrow> Some False)"
| "condEqual (OtherCondition s) b = Some False"
| "condsEqual (c # cs) (d # ds) = andAlso (condEqual c d) (condsEqual cs ds)"
| "condsEqual _ _ = Some True"

fun columnsEqual :: "column_dal list \<Rightarrow> column_dal list \<Rightarrow> bool option" where
  "columnsEqual [] [] = Some True"
| "columnsEqual (a # as) (b # bs) =
     (if length as \<noteq> length bs then Some False
      else andAlso (Some (colAlias a = colAlias b))
        (andAlso (exprEqual (colExpression a) (colExpression b)) (columnsEqual as bs)))"
| "columnsEqual _ _ = Some False"

fun orderEqual :: "orderExpression list \<Rightarrow> orderExpression list \<Rightarrow> bool option" where
  "orderEqual [] [] = Some True"
| "orderEqual (a # as) (b # bs) =
     (if length as \<noteq> length bs then Some False
      else andAlso (Some (ordDescending a = ordDescending b))
        (andAlso (exprEqual (ordExpression a) (ordExpression b)) (orderEqual as bs)))"
| "orderEqual _ _ = Some False"

text \<open>
  \<open>CollectionRef.Equal\<close> compares the parents as pointers: two references with a parent are equal only
  when they hold the same object, which \<open>samePtr\<close> tells.
\<close>

definition fromEqual :: "(key \<Rightarrow> key \<Rightarrow> bool) \<Rightarrow> fromSource \<Rightarrow> fromSource \<Rightarrow> bool" where
  "fromEqual samePtr a b =
     (case (fromBase a, fromBase b) of
        (CollectionRef n al p, CollectionRef n' al' p') \<Rightarrow>
          n = n' \<and> (case (p, p') of (None, None) \<Rightarrow> True | (Some k, Some k') \<Rightarrow> samePtr k k' | _ \<Rightarrow> False) \<and> al = al'
      | _ \<Rightarrow> False)"

definition EqualQueries ::
  "(key \<Rightarrow> key \<Rightarrow> bool) \<Rightarrow> 'd structuredQuery option \<Rightarrow> 'd structuredQuery option \<Rightarrow> bool option" where
  "EqualQueries samePtr a b =
     (case (a, b) of
        (Some q, Some r) \<Rightarrow>
          andAlso (Some (fromEqual samePtr (qFrom q) (qFrom r)))
            (andAlso (Some (qLimit q = qLimit r \<and> qOffset q = qOffset r))
              (andAlso (columnsEqual (qColumns q) (qColumns r))
                (andAlso (condEqual (qWhere q) (qWhere r)) (orderEqual (qOrderBy q) (qOrderBy r)))))
      | (None, None) \<Rightarrow> Some True
      | _ \<Rightarrow> Some False)"

section \<open>Documents survive\<close>

lemma exprFrom_To: "exprFromYAML e = Inr x \<Longrightarrow> exprToYAML x = Inr e"
  by (auto simp: exprFromYAML_def Let_def NewFieldRef_def split: if_splits)

lemma comparisonFrom_To: "comparisonFromYAML opr l r = Inr c \<Longrightarrow> condToYAML c = Inr (CondYAML opr l r None None)"
  by (auto simp: comparisonFromYAML_def comparisonToYAML_def bindE_eq_Inr mapErr_eq_Inr exprFrom_To
      split: if_splits option.splits)

lemma condFrom_To:
  "condFromYAML c = Inr d \<Longrightarrow> condToYAML d = Inr c"
  "groupFromYAML opr cs = Inr g \<Longrightarrow> \<exists>ds. g = GroupCondition opr ds \<and> groupToYAML 0 ds = Inr cs"
  "condsFromYAML i cs = Inr ds \<Longrightarrow> groupToYAML i ds = Inr cs"
proof (induction c and opr cs and i cs arbitrary: d and g and ds
    rule: condFromYAML_groupFromYAML_condsFromYAML.induct)
  case (1 opr l r ands ors)
  consider "ands = None" "ors = None" "comparisonFromYAML opr l r = Inr d"
    | subs where "opr = []" "l = None" "r = None" "ands = Some subs" "ors = None" "groupFromYAML And subs = Inr d"
    | subs where "opr = []" "l = None" "r = None" "ands = None" "ors = Some subs" "groupFromYAML Or subs = Inr d"
    using "1.prems" by (auto simp: Let_def simp del: groupFromYAML.simps split: if_splits option.splits)
  then show ?case
  proof cases
    case 1
    then show ?thesis by (simp add: comparisonFrom_To)
  next
    case 2
    then show ?thesis using "1.IH"(2) [OF refl refl _ _ _ 2(4), of d] by (auto simp: And_def)
  next
    case 3
    then show ?thesis using "1.IH"(1) [OF refl refl _ _ _ 3(4) 3(5), of d] by (auto simp: And_def Or_def)
  qed
next
  case (2 opr subs)
  then show ?case by (auto simp: bindE_eq_Inr split: if_splits)
next
  case (4 i c cs)
  then show ?case by (auto simp: bindE_eq_Inr mapErr_eq_Inr)
qed auto

lemma condFrom_not_Nil: "condFromYAML c \<noteq> Inr NilCondition"
  using condFrom_To(1) [of c NilCondition] by auto

lemma eachE_inverse:
  assumes "\<And>x y. f x = Inr y \<Longrightarrow> g y = Inr x"
  shows "eachE wrap f i xs = Inr ys \<Longrightarrow> eachE wrap g i ys = Inr xs"
  by (induction xs arbitrary: i ys) (auto simp: bindE_eq_Inr mapErr_eq_Inr dest: assms)

lemma columnFrom_To: "columnFromYAML c = Inr col \<Longrightarrow> columnToYAML col = Inr c"
  by (auto simp: columnFromYAML_def columnToYAML_def bindE_eq_Inr dest!: exprFrom_To)

lemma orderFrom_To: "orderExprFromYAML oy = Inr oe \<Longrightarrow> orderToYAML oe = Inr oy"
  by (auto simp: orderExprFromYAML_def orderToYAML_def bindE_eq_Inr dest!: exprFrom_To)

lemma documentToQuery_Inr:
  fixes q :: "'d structuredQuery"
  assumes "documentToQuery doc = Inr q"
  shows "fyName (docFrom doc) \<noteq> [] \<and>
    (\<exists>columns orders. columnsFromYAML (docColumns doc) = Inr columns \<and> orderFromYAML (docOrderBy doc) = Inr orders \<and>
      (case docWhere doc of None \<Rightarrow> qWhere q = NilCondition | Some c \<Rightarrow> condFromYAML c = Inr (qWhere q)) \<and>
      qColumns q = columns \<and> qOrderBy q = orders \<and> qLimit q = docLimit doc \<and> qOffset q = docOffset doc \<and>
      qGroupBy q = [] \<and> qStartCursor q = [] \<and>
      qFrom q = \<lparr>fromBase = CollectionRef (fyName (docFrom doc))
        (if fyAlias (docFrom doc) = fyName (docFrom doc) then [] else fyAlias (docFrom doc)) None, fromJoins = []\<rparr>)"
proof -
  have name: "fyName (docFrom doc) \<noteq> []"
    using assms by (auto simp: documentToQuery_def NewCollectionRef_def)
  define al where "al = (if fyAlias (docFrom doc) = fyName (docFrom doc) then [] else fyAlias (docFrom doc))"
  have ref: "NewCollectionRef (fyName (docFrom doc)) (fyAlias (docFrom doc)) None =
      Some (CollectionRef (fyName (docFrom doc)) al None)"
    using name by (simp add: NewCollectionRef_def al_def)
  obtain columns orders where cols: "columnsFromYAML (docColumns doc) = Inr columns"
    and ords: "orderFromYAML (docOrderBy doc) = Inr orders"
    using assms by (auto simp: documentToQuery_def ref bindE_eq_Inr)
  define base :: "'d structuredQuery" where
    "base = (newStructuredQuery \<lparr>fromBase = CollectionRef (fyName (docFrom doc)) al None, fromJoins = []\<rparr>)
       \<lparr>qOrderBy := orders, qLimit := docLimit doc, qOffset := docOffset doc, qColumns := columns\<rparr>"
  note defs = documentToQuery_def ref cols ords NewQueryBuilder_def newQuery_def combine_cases newStructuredQuery_def base_def
  have "case docWhere doc of None \<Rightarrow> q = base | Some c \<Rightarrow> (\<exists>cond. condFromYAML c = Inr cond \<and> q = base\<lparr>qWhere := cond\<rparr>)"
  proof (cases "docWhere doc")
    case None
    then show ?thesis using assms by (cases "orders = []") (auto simp: defs)
  next
    case (Some c)
    then obtain cond where "condFromYAML c = Inr cond"
      using assms by (cases "condFromYAML c") (auto simp: documentToQuery_def ref)
    then show ?thesis using Some assms by (cases "orders = []") (auto simp: defs)
  qed
  with name cols ords show ?thesis
    by (auto simp: base_def newStructuredQuery_def al_def [symmetric] split: option.splits)
qed

text \<open>C24: A document that is accepted is canonical: the query it gives is accepted by \<open>Serialize\<close>, and
  what that writes is the document again, less an alias that repeats the name. No accepted part of a
  document is dropped.\<close>

theorem dtql_document_canonical:
  assumes "documentToQuery doc = Inr (q :: 'd structuredQuery)"
  shows "queryToDocument keyText q =
    Inr (doc\<lparr>docFrom := (docFrom doc)\<lparr>fyAlias :=
      (if fyAlias (docFrom doc) = fyName (docFrom doc) then [] else fyAlias (docFrom doc))\<rparr>\<rparr>)"
proof -
  from documentToQuery_Inr [OF assms] obtain columns orders where
    d: "columnsFromYAML (docColumns doc) = Inr columns" "orderFromYAML (docOrderBy doc) = Inr orders"
      "case docWhere doc of None \<Rightarrow> qWhere q = NilCondition | Some c \<Rightarrow> condFromYAML c = Inr (qWhere q)"
    and q: "qColumns q = columns" "qOrderBy q = orders" "qLimit q = docLimit doc" "qOffset q = docOffset doc"
      "qGroupBy q = []" "qStartCursor q = []"
      "qFrom q = \<lparr>fromBase = CollectionRef (fyName (docFrom doc))
        (if fyAlias (docFrom doc) = fyName (docFrom doc) then [] else fyAlias (docFrom doc)) None, fromJoins = []\<rparr>"
    by blast
  have c: "eachE AtColumn columnToYAML 0 columns = Inr (docColumns doc)"
    by (rule eachE_inverse [OF columnFrom_To]) (use d(1) in \<open>simp_all add: columnsFromYAML_def\<close>)
  have r: "eachE AtOrderBy orderToYAML 0 orders = Inr (docOrderBy doc)"
    by (rule eachE_inverse [OF orderFrom_To]) (use d(2) in \<open>simp_all add: orderFromYAML_def\<close>)
  have w: "(if qWhere q = NilCondition then Inr None else map_sum (\<lambda>e. e) Some (condToYAML (qWhere q))) = Inr (docWhere doc)"
    using d(3) condFrom_To(1) condFrom_not_Nil by (cases "docWhere doc") fastforce+
  show ?thesis
    by (cases doc; cases "docFrom doc") (simp add: queryToDocument_def q fromToYAML_def c r w)
qed

section \<open>Queries survive\<close>

text \<open>
  What the codec is relied on for: a document whose inline values are texts, truth values and
  integers of the predeclared types, or slices of them, is read back as it was written, every slice
  as a \<open>[]any\<close>. An empty group is not written at all, so groups have members.
\<close>

definition plainScalar :: "value \<Rightarrow> bool" where
  "plainScalar v =
     (case v of VString t s \<Rightarrow> t = ''string'' | VBool t b \<Rightarrow> t = ''bool'' | VInt t i \<Rightarrow> t = ''int'' | _ \<Rightarrow> False)"

definition plainSlice :: "value \<Rightarrow> bool" where
  "plainSlice v = (case v of VList t xs \<Rightarrow> list_all plainScalar xs | _ \<Rightarrow> False)"

definition asAnySlice :: "value \<Rightarrow> value" where
  "asAnySlice v = (case v of VList t xs \<Rightarrow> VList anySlice xs | _ \<Rightarrow> v)"

definition plainExprYAML :: "exprYAML \<Rightarrow> bool" where
  "plainExprYAML e =
     ((eyValue e = VNil \<or> plainScalar (eyValue e)) \<and> (eyValues e = VNil \<or> plainSlice (eyValues e)))"

definition readExpr :: "exprYAML \<Rightarrow> exprYAML" where
  "readExpr e = e\<lparr>eyValues := asAnySlice (eyValues e)\<rparr>"

primrec plainCondYAML :: "condYAML \<Rightarrow> bool" where
  "plainCondYAML (CondYAML opr l r ands ors) =
     (pred_option plainExprYAML l \<and> pred_option plainExprYAML r \<and>
      pred_option (\<lambda>bs. bs \<noteq> [] \<and> list_all (\<lambda>b. b) bs) (map_option (map plainCondYAML) ands) \<and>
      pred_option (\<lambda>bs. bs \<noteq> [] \<and> list_all (\<lambda>b. b) bs) (map_option (map plainCondYAML) ors))"

primrec readCond :: "condYAML \<Rightarrow> condYAML" where
  "readCond (CondYAML opr l r ands ors) =
     CondYAML opr (map_option readExpr l) (map_option readExpr r)
       (map_option (map readCond) ands) (map_option (map readCond) ors)"

definition plainColumnYAML :: "columnYAML \<Rightarrow> bool" where
  "plainColumnYAML c = plainExprYAML (cyExpr c)"

definition readColumn :: "columnYAML \<Rightarrow> columnYAML" where
  "readColumn c = c\<lparr>cyExpr := readExpr (cyExpr c)\<rparr>"

definition plainOrderYAML :: "orderYAML \<Rightarrow> bool" where
  "plainOrderYAML oy = plainExprYAML (oyExpr oy)"

definition readOrder :: "orderYAML \<Rightarrow> orderYAML" where
  "readOrder oy = oy\<lparr>oyExpr := readExpr (oyExpr oy)\<rparr>"

definition plainDocument :: "document \<Rightarrow> bool" where
  "plainDocument d =
     (list_all plainColumnYAML (docColumns d) \<and> pred_option plainCondYAML (docWhere d) \<and>
      list_all plainOrderYAML (docOrderBy d))"

definition readDocument :: "document \<Rightarrow> document" where
  "readDocument d =
     d\<lparr>docColumns := map readColumn (docColumns d), docWhere := map_option readCond (docWhere d),
       docOrderBy := map readOrder (docOrderBy d)\<rparr>"

definition faithfulYAML :: "(document \<Rightarrow> 'y) \<Rightarrow> ('y \<Rightarrow> string + document) \<Rightarrow> bool" where
  "faithfulYAML encode decode \<longleftrightarrow> (\<forall>d. plainDocument d \<longrightarrow> decode (encode d) = Inr (readDocument d))"

text \<open>The queries the format is meant for.\<close>

fun plainExpr :: "expression \<Rightarrow> bool" where
  "plainExpr (FieldRef source name isID) = (source = [] \<and> name \<noteq> [] \<and> \<not> isID)"
| "plainExpr (Constant v) = plainScalar v"
| "plainExpr (Array v) = plainSlice v"
| "plainExpr _ = False"

fun plainCond :: "condition \<Rightarrow> bool" where
  "plainCond (Comparison opr l r) = (opr \<in> set inScopeComparisonOps \<and> plainExpr l \<and> plainExpr r)"
| "plainCond (GroupCondition opr cs) = ((opr = And \<or> opr = Or) \<and> cs \<noteq> [] \<and> list_all plainCond cs)"
| "plainCond _ = False"

definition plainQuery :: "'d structuredQuery \<Rightarrow> bool" where
  "plainQuery q =
     (fromJoins (qFrom q) = [] \<and> qGroupBy q = [] \<and> qStartCursor q = [] \<and>
      (case fromBase (qFrom q) of
         CollectionRef name alias parent \<Rightarrow> name \<noteq> [] \<and> alias \<noteq> name \<and> parent = None | _ \<Rightarrow> False) \<and>
      list_all (\<lambda>c. plainExpr (colExpression c)) (qColumns q) \<and>
      (qWhere q = NilCondition \<or> plainCond (qWhere q)) \<and>
      list_all (\<lambda>oe. plainExpr (ordExpression oe)) (qOrderBy q))"

lemma andAlso_simps [simp]: "andAlso (Some True) b = b" "andAlso (Some False) b = Some False"
  by (simp_all add: andAlso_def)

lemma goEq_plain: "plainScalar v \<Longrightarrow> goEq v v = Some True"
  by (cases v) (auto simp: plainScalar_def goEq_def)

lemma elemsEqual_plain: "list_all plainScalar xs \<Longrightarrow> elemsEqual xs xs = Some True"
  by (induction xs) (simp_all add: goEq_plain)

lemma plainScalar_not_Nil: "\<not> plainScalar VNil" "\<not> plainSlice VNil"
  by (simp_all add: plainScalar_def plainSlice_def)

lemma expr_survives:
  assumes "plainExpr x"
  shows "\<exists>e. exprToYAML x = Inr e \<and> plainExprYAML e \<and>
    (\<exists>y. exprFromYAML (readExpr e) = Inr y \<and> exprEqual x y = Some True)"
proof (cases x)
  case (Constant v)
  then have "plainScalar v" "v \<noteq> VNil" using assms plainScalar_not_Nil by auto
  then show ?thesis using Constant by (simp add: plainExprYAML_def readExpr_def asAnySlice_def exprFromYAML_def)
next
  case (Array v)
  then obtain t xs where "v = VList t xs" "list_all plainScalar xs"
    using assms by (cases v) (auto simp: plainSlice_def)
  then show ?thesis using Array
    by (simp add: plainExprYAML_def readExpr_def asAnySlice_def exprFromYAML_def plainSlice_def elemsEqual_plain)
qed (use assms in \<open>auto simp: plainExprYAML_def readExpr_def asAnySlice_def exprFromYAML_def NewFieldRef_def\<close>)

text \<open>A slice survives when each of its elements does.\<close>

lemma eachE_survives:
  assumes "\<And>x. x \<in> set xs \<Longrightarrow> \<exists>e. f x = Inr e \<and> P e \<and> (\<exists>y. g (h e) = Inr y \<and> R x y)"
  shows "\<exists>es. eachE wrap f i xs = Inr es \<and> list_all P es \<and> length es = length xs \<and>
    (\<exists>ys. eachE wrap' g i (map h es) = Inr ys \<and> list_all2 R xs ys)"
  using assms
proof (induction xs arbitrary: i)
  case (Cons x xs)
  obtain e y where x: "f x = Inr e" "P e" "g (h e) = Inr y" "R x y" using Cons.prems [of x] by auto
  have "\<exists>es. eachE wrap f (Suc i) xs = Inr es \<and> list_all P es \<and> length es = length xs \<and>
    (\<exists>ys. eachE wrap' g (Suc i) (map h es) = Inr ys \<and> list_all2 R xs ys)"
    by (rule Cons.IH) (use Cons.prems in auto)
  then obtain es ys where xs: "eachE wrap f (Suc i) xs = Inr es" "list_all P es" "length es = length xs"
      "eachE wrap' g (Suc i) (map h es) = Inr ys" "list_all2 R xs ys" by blast
  show ?case by (intro exI [of _ "e # es"]) (simp add: x xs)
qed simp

lemma groupToYAML_eachE: "groupToYAML i cs = eachE AtCondition condToYAML i cs"
  by (induction cs arbitrary: i) simp_all

lemma condsFromYAML_eachE: "condsFromYAML i cs = eachE AtCondition condFromYAML i cs"
  by (induction cs arbitrary: i) simp_all

lemma condsEqual_all: "list_all2 (\<lambda>c d. condEqual c d = Some True) cs ds \<Longrightarrow> condsEqual cs ds = Some True"
  by (induction rule: list_all2_induct) simp_all

lemma cond_survives:
  "plainCond c \<Longrightarrow> \<exists>e. condToYAML c = Inr e \<and> plainCondYAML e \<and>
    (\<exists>d. condFromYAML (readCond e) = Inr d \<and> condEqual c d = Some True)"
proof (induction c)
  case (Comparison opr l r)
  obtain le l' where l: "exprToYAML l = Inr le" "plainExprYAML le" "exprFromYAML (readExpr le) = Inr l'"
      "exprEqual l l' = Some True" using expr_survives [of l] Comparison by auto
  obtain re r' where r: "exprToYAML r = Inr re" "plainExprYAML re" "exprFromYAML (readExpr re) = Inr r'"
      "exprEqual r r' = Some True" using expr_survives [of r] Comparison by auto
  show ?case using Comparison l r by (simp add: comparisonToYAML_def comparisonFromYAML_def)
next
  case (GroupCondition opr cs)
  have "\<exists>es. eachE AtCondition condToYAML 0 cs = Inr es \<and> list_all plainCondYAML es \<and> length es = length cs \<and>
    (\<exists>ds. eachE AtCondition condFromYAML 0 (map readCond es) = Inr ds \<and>
      list_all2 (\<lambda>c d. condEqual c d = Some True) cs ds)"
    by (rule eachE_survives) (use GroupCondition in \<open>auto simp: list_all_iff\<close>)
  then obtain es ds where e: "groupToYAML 0 cs = Inr es" "list_all plainCondYAML es" "length es = length cs"
    "condsFromYAML 0 (map readCond es) = Inr ds" "list_all2 (\<lambda>c d. condEqual c d = Some True) cs ds"
    unfolding groupToYAML_eachE condsFromYAML_eachE by blast
  have "es \<noteq> []" "length cs = length ds" "condsEqual cs ds = Some True"
    using e GroupCondition.prems by (auto dest: list_all2_lengthD condsEqual_all)
  then show ?case
    using e GroupCondition.prems by (auto simp: list_all_iff And_def Or_def)
qed auto

lemma columnsEqual_all:
  "list_all2 (\<lambda>a b. colAlias a = colAlias b \<and> exprEqual (colExpression a) (colExpression b) = Some True) as bs \<Longrightarrow>
    columnsEqual as bs = Some True"
  by (induction rule: list_all2_induct) (auto dest: list_all2_lengthD)

lemma orderEqual_all:
  "list_all2 (\<lambda>a b. ordDescending a = ordDescending b \<and> exprEqual (ordExpression a) (ordExpression b) = Some True) as bs \<Longrightarrow>
    orderEqual as bs = Some True"
  by (induction rule: list_all2_induct) (auto dest: list_all2_lengthD)

lemma column_survives:
  assumes "plainExpr (colExpression c)"
  shows "\<exists>e. columnToYAML c = Inr e \<and> plainColumnYAML e \<and>
    (\<exists>d. columnFromYAML (readColumn e) = Inr d \<and>
      colAlias c = colAlias d \<and> exprEqual (colExpression c) (colExpression d) = Some True)"
  using expr_survives [OF assms]
  by (auto simp: columnToYAML_def columnFromYAML_def plainColumnYAML_def readColumn_def)

lemma order_survives:
  assumes "plainExpr (ordExpression oe)"
  shows "\<exists>e. orderToYAML oe = Inr e \<and> plainOrderYAML e \<and>
    (\<exists>d. orderExprFromYAML (readOrder e) = Inr d \<and>
      ordDescending oe = ordDescending d \<and> exprEqual (ordExpression oe) (ordExpression d) = Some True)"
  using expr_survives [OF assms]
  by (auto simp: orderToYAML_def orderExprFromYAML_def plainOrderYAML_def readOrder_def)

lemma columns_survive:
  assumes "list_all (\<lambda>c. plainExpr (colExpression c)) cs"
  shows "\<exists>es. eachE AtColumn columnToYAML 0 cs = Inr es \<and> list_all plainColumnYAML es \<and> length es = length cs \<and>
    (\<exists>ds. eachE AtColumn columnFromYAML 0 (map readColumn es) = Inr ds \<and>
      list_all2 (\<lambda>a b. colAlias a = colAlias b \<and> exprEqual (colExpression a) (colExpression b) = Some True) cs ds)"
  by (rule eachE_survives) (use assms column_survives in \<open>auto simp: list_all_iff\<close>)

lemma orders_survive:
  assumes "list_all (\<lambda>oe. plainExpr (ordExpression oe)) os"
  shows "\<exists>es. eachE AtOrderBy orderToYAML 0 os = Inr es \<and> list_all plainOrderYAML es \<and> length es = length os \<and>
    (\<exists>ds. eachE AtOrderBy orderExprFromYAML 0 (map readOrder es) = Inr ds \<and>
      list_all2 (\<lambda>a b. ordDescending a = ordDescending b \<and>
        exprEqual (ordExpression a) (ordExpression b) = Some True) os ds)"
  by (rule eachE_survives) (use assms order_survives in \<open>auto simp: list_all_iff\<close>)

lemma where_survives:
  assumes "qWhere q = NilCondition \<or> plainCond (qWhere q)"
  shows "\<exists>w. (if qWhere q = NilCondition then Inr None else map_sum (\<lambda>e. e) Some (condToYAML (qWhere q))) = Inr w \<and>
    pred_option plainCondYAML w \<and>
    (case w of None \<Rightarrow> qWhere q = NilCondition
     | Some e \<Rightarrow> \<exists>d. condFromYAML (readCond e) = Inr d \<and> condEqual (qWhere q) d = Some True)"
  using assms cond_survives [of "qWhere q"] by (cases "qWhere q = NilCondition") auto

lemma documentToQuery_ok:
  assumes "fyName (docFrom doc) \<noteq> []" and "columnsFromYAML (docColumns doc) = Inr columns"
    and "orderFromYAML (docOrderBy doc) = Inr orders"
    and "case docWhere doc of None \<Rightarrow> True | Some c \<Rightarrow> \<exists>d. condFromYAML c = Inr d"
  shows "\<exists>q. documentToQuery doc = Inr q"
  using assms
  by (cases "docWhere doc") (auto simp: documentToQuery_def NewCollectionRef_def split: option.split)

text \<open>C14: Queries survive: a query over a root collection, made of unqualified fields, plain constants and
  slices, in-scope comparisons and non-empty groups, is written, and what is read back is
  structurally equal to it, so long as the codec reads back what it wrote.\<close>

theorem dtql_roundtrip:
  fixes q :: "'d structuredQuery"
  assumes "faithfulYAML encode decode" and "plainQuery q"
  shows "\<exists>y q'. Serialize keyText encode (Some q) = Inr y \<and>
    (Deserialize decode y :: dtqlError + 'd structuredQuery) = Inr q' \<and>
    EqualQueries samePtr (Some q) (Some q') = Some True"
proof -
  obtain name al where base: "fromBase (qFrom q) = CollectionRef name al None" "name \<noteq> []" "al \<noteq> name"
    using assms(2) by (auto simp: plainQuery_def split: recordsetSource.splits)
  obtain columns cols' where c: "eachE AtColumn columnToYAML 0 (qColumns q) = Inr columns" "list_all plainColumnYAML columns"
      "columnsFromYAML (map readColumn columns) = Inr cols'"
      "list_all2 (\<lambda>a b. colAlias a = colAlias b \<and> exprEqual (colExpression a) (colExpression b) = Some True) (qColumns q) cols'"
    using columns_survive [of "qColumns q"] assms(2) unfolding plainQuery_def columnsFromYAML_def by blast
  obtain orders ords' where r: "eachE AtOrderBy orderToYAML 0 (qOrderBy q) = Inr orders" "list_all plainOrderYAML orders"
      "orderFromYAML (map readOrder orders) = Inr ords'"
      "list_all2 (\<lambda>a b. ordDescending a = ordDescending b \<and> exprEqual (ordExpression a) (ordExpression b) = Some True)
        (qOrderBy q) ords'"
    using orders_survive [of "qOrderBy q"] assms(2) unfolding plainQuery_def orderFromYAML_def by blast
  obtain w where w: "(if qWhere q = NilCondition then Inr None else map_sum (\<lambda>e. e) Some (condToYAML (qWhere q))) = Inr w"
      "pred_option plainCondYAML w"
      "case w of None \<Rightarrow> qWhere q = NilCondition
       | Some e \<Rightarrow> \<exists>d. condFromYAML (readCond e) = Inr d \<and> condEqual (qWhere q) d = Some True"
    using where_survives [of q] assms(2) by (auto simp: plainQuery_def)
  define doc where "doc = \<lparr>docFrom = \<lparr>fyName = name, fyAlias = al\<rparr>, docColumns = columns, docWhere = w,
    docOrderBy = orders, docLimit = qLimit q, docOffset = qOffset q\<rparr>"
  have "queryToDocument keyText q = Inr doc"
    using assms(2) by (simp add: queryToDocument_def plainQuery_def fromToYAML_def base c w r doc_def)
  then have ser: "Serialize keyText encode (Some q) = Inr (encode doc)" by (simp add: Serialize_def)
  have dec: "decode (encode doc) = Inr (readDocument doc)"
    using assms(1) c w r by (simp add: faithfulYAML_def plainDocument_def doc_def)
  obtain q' :: "'d structuredQuery" where q': "documentToQuery (readDocument doc) = Inr q'"
    using documentToQuery_ok [of "readDocument doc" cols' ords'] base c(3) r(3) w(3)
    by (cases w) (auto simp: readDocument_def doc_def)
  have "EqualQueries samePtr (Some q) (Some q') = Some True"
    using documentToQuery_Inr [OF q'] base c r w(3) columnsEqual_all [OF c(4)] orderEqual_all [OF r(4)]
    by (cases w) (auto simp: EqualQueries_def fromEqual_def readDocument_def doc_def)
  then show ?thesis using ser dec q' by (auto simp: Deserialize_def)
qed

definition dtqlSample :: "unit structuredQuery" where
  "dtqlSample = (newStructuredQuery \<lparr>fromBase = CollectionRef ''notes'' ''n'' None, fromJoins = []\<rparr>)
     \<lparr>qWhere := GroupCondition Or
        [Comparison In (Field ''by'') (Array (VList ''[]string'' [VString ''string'' ''ann''])),
         Comparison GreaterThen (Field ''size'') (Constant (VInt ''int'' 3))],
      qOrderBy := [\<lparr>ordExpression = Field ''size'', ordDescending = True\<rparr>], qLimit := 10\<rparr>"

theorem dtql_roundtrip_witness:
  "\<exists>y q'. Serialize (\<lambda>_. []) (\<lambda>d. d) (Some dtqlSample) = Inr y \<and>
    (Deserialize (Inr \<circ> readDocument) y :: dtqlError + unit structuredQuery) = Inr q' \<and>
    EqualQueries (\<lambda>_ _. False) (Some dtqlSample) (Some q') = Some True"
proof (rule dtql_roundtrip)
  show "faithfulYAML (\<lambda>d. d) (Inr \<circ> readDocument)" by (simp add: faithfulYAML_def)
  show "plainQuery dtqlSample" by code_simp
qed

definition dtqlSampleDocument :: document where
  "dtqlSampleDocument =
     \<lparr>docFrom = \<lparr>fyName = ''notes'', fyAlias = ''notes''\<rparr>, docColumns = [],
      docWhere = Some (CondYAML ''=='' (Some \<lparr>eyField = ''by'', eyValue = VNil, eyValues = VNil\<rparr>)
        (Some \<lparr>eyField = [], eyValue = VString ''string'' ''ann'', eyValues = VNil\<rparr>) None None),
      docOrderBy = [], docLimit = 5, docOffset = 0\<rparr>"

theorem dtql_document_canonical_witness:
  "\<exists>q :: unit structuredQuery. documentToQuery dtqlSampleDocument = Inr q \<and>
    queryToDocument (\<lambda>_. []) q = Inr (dtqlSampleDocument\<lparr>docFrom := \<lparr>fyName = ''notes'', fyAlias = []\<rparr>\<rparr>)"
proof -
  have "isOk (documentToQuery dtqlSampleDocument :: dtqlError + unit structuredQuery)" by code_simp
  then obtain q :: "unit structuredQuery" where q: "documentToQuery dtqlSampleDocument = Inr q"
    by (cases "documentToQuery dtqlSampleDocument :: dtqlError + unit structuredQuery") auto
  from dtql_document_canonical [OF q, of "\<lambda>_. []"] q show ?thesis
    by (intro exI [of _ q]) (simp add: dtqlSampleDocument_def)
qed

text \<open>
  Outside those queries \<open>Serialize\<close> is not lossless: the source of a qualified field and a \<open>HAVING\<close>
  condition are dropped without an error, and a constant nil is written as nothing, which cannot be
  read back.
\<close>

theorem dtql_silently_drops:
  "let q = dtqlSample\<lparr>qWhere := Comparison Equal (FieldRef ''m'' ''by'' False) (Constant (VBool ''bool'' True)),
             qHaving := Comparison Equal (Field ''n'') (Constant (VInt ''int'' 1))\<rparr>;
       q' = dtqlSample\<lparr>qWhere := Comparison Equal (Field ''by'') (Constant (VBool ''bool'' True))\<rparr>;
       nilled = dtqlSample\<lparr>qWhere := Comparison Equal (Field ''by'') (Constant VNil)\<rparr>
   in queryToDocument (\<lambda>_. []) q = queryToDocument (\<lambda>_. []) q' \<and> isOk (queryToDocument (\<lambda>_. []) q) \<and>
      EqualQueries (\<lambda>_ _. False) (Some q) (Some q') = Some False \<and>
      (case queryToDocument (\<lambda>_. []) nilled of
         Inl e \<Rightarrow> False
       | Inr d \<Rightarrow> (case documentToQuery d :: dtqlError + unit structuredQuery of Inl e \<Rightarrow> True | Inr _ \<Rightarrow> False))"
  by code_simp

end
