(* ===== verification/DtqlSchema.thy ===== *)
theory DtqlSchema
  imports DtqlQuery
begin

text \<open>
  The JSON Schema of the DTQL format, \<open>src/dtql/schema.go\<close>, and what it accepts.

  \<open>schemaDocument\<close> is the document the Go function builds. A Go map has no order; the objects here
  list their members in the order of the source. What a schema means is the standard it names,
  draft 2020-12: \<open>validates\<close> evaluates the keywords the document uses, with fuel, since a \<open>$ref\<close> may
  lead anywhere; running out of it is \<^const>\<open>None\<close>, which is neither acceptance nor rejection.
  The tree of a document (\<open>shapes.go\<close>) follows the tags of its struct types: members are left
  out when they are empty and so tagged.
\<close>

section \<open>Definitions\<close>

subsection \<open>The schema\<close>

definition SchemaID :: string where
  "SchemaID = ''https://dal-go.github.io/dtql/schema.json''"

definition comparisonOpEnum :: "json list" where
  "comparisonOpEnum = map JStr (sort inScopeComparisonOps)"

definition mergeProps :: "(string \<times> json) list \<Rightarrow> (string \<times> json) list \<Rightarrow> (string \<times> json) list" where
  "mergeProps a b = filter (\<lambda>(k, v). k \<notin> fst ` set b) a @ b"

definition scalarSchema :: json where
  "scalarSchema = JObj [(''type'', JArr [JStr ''string'', JStr ''number'', JStr ''boolean''])]"

definition exprProps :: "(string \<times> json) list" where
  "exprProps =
     [(''field'', JObj [(''type'', JStr ''string'')]),
      (''value'', scalarSchema),
      (''values'', JObj [(''type'', JStr ''array''), (''items'', scalarSchema)])]"

definition requires :: "string \<Rightarrow> json" where
  "requires name = JObj [(''required'', JArr [JStr name])]"

definition exprOneOf :: json where
  "exprOneOf = JArr [requires ''field'', requires ''value'', requires ''values'']"

definition columnProps :: "(string \<times> json) list" where
  "columnProps = mergeProps exprProps [(''as'', JObj [(''type'', JStr ''string'')])]"

definition orderProps :: "(string \<times> json) list" where
  "orderProps = mergeProps exprProps [(''desc'', JObj [(''type'', JStr ''boolean'')])]"

definition refTo :: "string \<Rightarrow> json" where
  "refTo name = JObj [(''$ref'', JStr (''#/$defs/'' @ name))]"

definition arrayOf :: "json \<Rightarrow> json" where
  "arrayOf s = JObj [(''type'', JStr ''array''), (''items'', s)]"

definition objectWith :: "(string \<times> json) list \<Rightarrow> json" where
  "objectWith props =
     JObj [(''type'', JStr ''object''), (''additionalProperties'', JBool False),
           (''properties'', JObj props), (''oneOf'', exprOneOf)]"

definition fromDef :: json where
  "fromDef =
     JObj [(''type'', JStr ''object''), (''additionalProperties'', JBool False),
           (''required'', JArr [JStr ''name'']),
           (''properties'', JObj [(''name'', JObj [(''type'', JStr ''string''), (''minLength'', JNum 1)]),
                                 (''alias'', JObj [(''type'', JStr ''string'')])])]"

definition comparisonDef :: json where
  "comparisonDef =
     JObj [(''type'', JStr ''object''), (''additionalProperties'', JBool False),
           (''required'', JArr [JStr ''op'', JStr ''left'', JStr ''right'']),
           (''properties'', JObj [(''op'', JObj [(''enum'', JArr comparisonOpEnum)]),
                                 (''left'', refTo ''expression''), (''right'', refTo ''expression'')])]"

definition groupDef :: json where
  "groupDef =
     JObj [(''type'', JStr ''object''), (''additionalProperties'', JBool False),
           (''properties'', JObj [(''and'', arrayOf (refTo ''condition'')),
                                 (''or'', arrayOf (refTo ''condition''))]),
           (''oneOf'', JArr [requires ''and'', requires ''or''])]"

definition conditionDef :: json where
  "conditionDef = JObj [(''oneOf'', JArr [refTo ''comparison'', refTo ''group''])]"

definition schemaDefs :: "(string \<times> json) list" where
  "schemaDefs =
     [(''from'', fromDef), (''expression'', objectWith exprProps), (''column'', objectWith columnProps),
      (''order'', objectWith orderProps), (''comparison'', comparisonDef), (''group'', groupDef),
      (''condition'', conditionDef)]"

definition countSchema :: json where
  "countSchema = JObj [(''type'', JStr ''integer''), (''minimum'', JNum 0)]"

definition schemaDocument :: json where
  "schemaDocument =
     JObj [(''$schema'', JStr ''https://json-schema.org/draft/2020-12/schema''),
           (''$id'', JStr SchemaID), (''title'', JStr ''DTQL''),
           (''description'', JStr (''YAML serialization of dalgo'' @ [CHR 0x27] @
              ''s dal.StructuredQuery (core relational read-only subset).'')),
           (''type'', JStr ''object''), (''additionalProperties'', JBool False),
           (''required'', JArr [JStr ''from'']),
           (''properties'', JObj
              [(''from'', refTo ''from''), (''columns'', arrayOf (refTo ''column'')),
               (''where'', refTo ''condition''), (''orderBy'', arrayOf (refTo ''order'')),
               (''limit'', countSchema), (''offset'', countSchema)]),
           (''$defs'', JObj schemaDefs)]"

text \<open>Its two renderings, by the encoders of JSON and YAML, which are arguments.\<close>

definition SchemaJSON :: "(json \<Rightarrow> string) \<Rightarrow> string" where
  "SchemaJSON marshalIndent = marshalIndent schemaDocument @ [CHR 0x0A]"

definition SchemaYAML :: "(json \<Rightarrow> string) \<Rightarrow> string" where
  "SchemaYAML encode = encode schemaDocument"

subsection \<open>What a schema accepts\<close>

definition conjAll :: "bool option list \<Rightarrow> bool option" where
  "conjAll rs = (if None \<in> set rs then None else Some (list_all (\<lambda>r. r = Some True) rs))"

definition exactlyOne :: "bool option list \<Rightarrow> bool option" where
  "exactlyOne rs = (if None \<in> set rs then None else Some (length (filter (\<lambda>r. r = Some True) rs) = 1))"

fun hasJType :: "string \<Rightarrow> json \<Rightarrow> bool" where
  "hasJType t JNull = (t = ''null'')"
| "hasJType t (JBool b) = (t = ''boolean'')"
| "hasJType t (JNum q) = (t = ''number'' \<or> t = ''integer'' \<and> of_int \<lfloor>q\<rfloor> = q)"
| "hasJType t (JStr s) = (t = ''string'')"
| "hasJType t (JArr xs) = (t = ''array'')"
| "hasJType t (JObj fs) = (t = ''object'')"

fun stringsOf :: "json \<Rightarrow> string list" where
  "stringsOf (JArr xs) = List.map_filter (\<lambda>x. case x of JStr s \<Rightarrow> Some s | _ \<Rightarrow> None) xs"
| "stringsOf (JStr s) = [s]"
| "stringsOf _ = []"

fun membersOf :: "json \<Rightarrow> (string \<times> json) list" where
  "membersOf (JObj fs) = fs"
| "membersOf _ = []"

fun elementsOf :: "json \<Rightarrow> json list" where
  "elementsOf (JArr xs) = xs"
| "elementsOf _ = []"

text \<open>\<open>$ref\<close> within the document: \<open>#/$defs/name\<close>.\<close>

definition resolveRef :: "json \<Rightarrow> string \<Rightarrow> json option" where
  "resolveRef whole r =
     (if hasPrefix r ''#/$defs/''
      then Option.bind (map_of (membersOf whole) ''$defs'') (\<lambda>defs. map_of (membersOf defs) (drop 8 r))
      else None)"

text \<open>
  One keyword \<open>k\<close> with its value \<open>v\<close> in the schema object \<open>kws\<close>, on the instance \<open>j\<close>. \<open>sub\<close> evaluates a
  schema on an instance. A keyword for another kind of instance accepts; an unknown one is an
  annotation.
\<close>

definition checkKeyword ::
  "(json \<Rightarrow> json \<Rightarrow> bool option) \<Rightarrow> json \<Rightarrow> (string \<times> json) list \<Rightarrow> json \<Rightarrow> string \<times> json \<Rightarrow> bool option" where
  "checkKeyword sub whole kws j kv =
     (case kv of (k, v) \<Rightarrow>
        if k = ''type'' then Some (list_ex (\<lambda>t. hasJType t j) (stringsOf v))
        else if k = ''required'' then
          Some (case j of JObj fs \<Rightarrow> list_all (\<lambda>n. n \<in> fst ` set fs) (stringsOf v) | _ \<Rightarrow> True)
        else if k = ''additionalProperties'' then
          Some (case j of
                  JObj fs \<Rightarrow>
                    v \<noteq> JBool False \<or>
                    list_all (\<lambda>(n, x). n \<in> fst ` set (case map_of kws ''properties'' of None \<Rightarrow> [] | Some p \<Rightarrow> membersOf p)) fs
                | _ \<Rightarrow> True)
        else if k = ''properties'' then
          (case j of
             JObj fs \<Rightarrow>
               conjAll (map (\<lambda>(n, s). case map_of fs n of None \<Rightarrow> Some True | Some x \<Rightarrow> sub s x) (membersOf v))
           | _ \<Rightarrow> Some True)
        else if k = ''items'' then
          (case j of JArr xs \<Rightarrow> conjAll (map (sub v) xs) | _ \<Rightarrow> Some True)
        else if k = ''enum'' then Some (j \<in> set (elementsOf v))
        else if k = ''oneOf'' then exactlyOne (map (\<lambda>s. sub s j) (elementsOf v))
        else if k = ''$ref'' then
          (case stringsOf v of [r] \<Rightarrow> (case resolveRef whole r of None \<Rightarrow> Some False | Some s \<Rightarrow> sub s j) | _ \<Rightarrow> Some False)
        else if k = ''minLength'' then
          Some (case (j, v) of (JStr s, JNum q) \<Rightarrow> q \<le> of_nat (length s) | _ \<Rightarrow> True)
        else if k = ''minimum'' then Some (case (j, v) of (JNum x, JNum q) \<Rightarrow> q \<le> x | _ \<Rightarrow> True)
        else Some True)"

primrec validates :: "nat \<Rightarrow> json \<Rightarrow> json \<Rightarrow> json \<Rightarrow> bool option" where
  "validates 0 whole s j = None"
| "validates (Suc n) whole s j =
     conjAll (map (checkKeyword (validates n whole) whole (membersOf s) j) (membersOf s))"

subsection \<open>The tree of a document\<close>

text \<open>Inline values: texts, truth values, numbers and slices of them.\<close>

fun valueTree :: "value \<Rightarrow> json" where
  "valueTree (VString t s) = JStr s"
| "valueTree (VBool t b) = JBool b"
| "valueTree (VInt t i) = JNum (of_int i)"
| "valueTree (VUint t n) = JNum (of_nat n)"
| "valueTree (VFloat t q) = JNum q"
| "valueTree (VList t xs) = JArr (map valueTree xs)"
| "valueTree _ = JNull"

definition optMember :: "string \<Rightarrow> json option \<Rightarrow> (string \<times> json) list" where
  "optMember k v = (case v of None \<Rightarrow> [] | Some x \<Rightarrow> [(k, x)])"

definition nonEmpty :: "string \<Rightarrow> json option" where
  "nonEmpty s = (if s = [] then None else Some (JStr s))"

definition nonNil :: "value \<Rightarrow> json option" where
  "nonNil v = (if v = VNil then None else Some (valueTree v))"

definition nonZero :: "int \<Rightarrow> json option" where
  "nonZero i = (if i = 0 then None else Some (JNum (of_int i)))"

definition exprMembers :: "exprYAML \<Rightarrow> (string \<times> json) list" where
  "exprMembers e =
     optMember ''field'' (nonEmpty (eyField e)) @ optMember ''value'' (nonNil (eyValue e)) @
     optMember ''values'' (nonNil (eyValues e))"

definition exprTree :: "exprYAML \<Rightarrow> json" where
  "exprTree e = JObj (exprMembers e)"

definition columnTree :: "columnYAML \<Rightarrow> json" where
  "columnTree c = JObj (exprMembers (cyExpr c) @ optMember ''as'' (nonEmpty (cyAs c)))"

definition orderTree :: "orderYAML \<Rightarrow> json" where
  "orderTree oy =
     JObj (exprMembers (oyExpr oy) @ optMember ''desc'' (if oyDesc oy then Some (JBool True) else None))"

definition treeList :: "json list \<Rightarrow> json option" where
  "treeList xs = (if xs = [] then None else Some (JArr xs))"

primrec condTree :: "condYAML \<Rightarrow> json" where
  "condTree (CondYAML opr l r ands ors) =
     JObj (optMember ''op'' (nonEmpty opr) @ optMember ''left'' (map_option exprTree l) @
           optMember ''right'' (map_option exprTree r) @
           optMember ''and'' (Option.bind (map_option (map condTree) ands) treeList) @
           optMember ''or'' (Option.bind (map_option (map condTree) ors) treeList))"

definition fromTree :: "fromYAML \<Rightarrow> json" where
  "fromTree f = JObj ((''name'', JStr (fyName f)) # optMember ''alias'' (nonEmpty (fyAlias f)))"

definition documentTree :: "document \<Rightarrow> json" where
  "documentTree d =
     JObj ((''from'', fromTree (docFrom d)) # optMember ''columns'' (treeList (map columnTree (docColumns d))) @
           optMember ''where'' (map_option condTree (docWhere d)) @
           optMember ''orderBy'' (treeList (map orderTree (docOrderBy d))) @
           optMember ''limit'' (nonZero (docLimit d)) @ optMember ''offset'' (nonZero (docOffset d)))"

section \<open>Evaluation\<close>

lemma conjAll_simps [simp]:
  "conjAll [] = Some True" "conjAll [r] = r" "conjAll (Some True # rs) = conjAll rs"
proof -
  show "conjAll [r] = r" by (cases r) (auto simp: conjAll_def)
qed (auto simp: conjAll_def)

lemma conjAll_Some: "conjAll (map (\<lambda>x. Some (P x)) xs) = Some (list_all P xs)"
  by (auto simp: conjAll_def list_all_iff)

lemma conjAll_somes: "list_all2 (\<lambda>r b. r = Some b) rs bs \<Longrightarrow> conjAll rs = Some (list_all (\<lambda>b. b) bs)"
  by (auto simp: conjAll_def list_all2_conv_all_nth list_all_length in_set_conv_nth)

lemma exactlyOne_two: "exactlyOne [Some a, Some b] = Some (a \<noteq> b)"
  by (auto simp: exactlyOne_def)

lemma exactlyOne_three: "exactlyOne [Some a, Some b, Some c] =
  Some ((if a then 1 else 0) + (if b then 1 else 0) + (if c then 1 else 0) = (1 :: nat))"
  by (auto simp: exactlyOne_def)

lemma validates_type: "validates (Suc n) w (JObj [(''type'', JStr t)]) j = Some (hasJType t j)"
  by (simp add: checkKeyword_def)

definition scalarJ :: "json \<Rightarrow> bool" where
  "scalarJ j = (hasJType ''string'' j \<or> hasJType ''number'' j \<or> hasJType ''boolean'' j)"

lemma validates_scalar: "validates (Suc n) w scalarSchema j = Some (scalarJ j)"
  by (auto simp: checkKeyword_def scalarSchema_def scalarJ_def List.map_filter_def)

lemma validates_array:
  "validates (Suc n) w (JObj [(''type'', JStr ''array''), (''items'', s)]) (JArr xs) = conjAll (map (validates n w s) xs)"
  by (simp add: checkKeyword_def)

lemma validates_requires: "validates (Suc n) w (requires name) (JObj fs) = Some (name \<in> fst ` set fs)"
  by (simp add: checkKeyword_def requires_def List.map_filter_def)

lemma validates_count: "validates (Suc n) w countSchema (JNum (of_int i)) = Some (0 \<le> i)"
  by (simp add: checkKeyword_def countSchema_def conjAll_def)

lemma resolve_defs:
  "map_of schemaDefs name = Some s \<Longrightarrow> resolveRef schemaDocument (''#/$defs/'' @ name) = Some s"
  by (simp add: resolveRef_def schemaDocument_def)

lemma validates_ref:
  "map_of schemaDefs name = Some s \<Longrightarrow>
    validates (Suc n) schemaDocument (refTo name) j = validates n schemaDocument s j"
  using resolve_defs [of name s] by (simp add: checkKeyword_def refTo_def)

section \<open>Expressions\<close>

lemma scalarJ_plain: "plainScalar v \<Longrightarrow> scalarJ (valueTree v)"
  by (cases v) (auto simp: plainScalar_def scalarJ_def)

lemma plainSlice_tree: "plainSlice v \<Longrightarrow> \<exists>xs. valueTree v = JArr xs \<and> list_all scalarJ xs"
  by (cases v) (auto simp: plainSlice_def list_all_iff scalarJ_plain)

lemma validates_values:
  assumes "plainSlice v"
  shows "validates (Suc (Suc n)) w (JObj [(''type'', JStr ''array''), (''items'', scalarSchema)]) (valueTree v) = Some True"
proof -
  obtain xs where xs: "valueTree v = JArr xs" "list_all scalarJ xs"
    using plainSlice_tree [OF assms] by blast
  have m: "map (validates (Suc n) w scalarSchema) xs = map (\<lambda>x. Some (scalarJ x)) xs"
    by (simp add: validates_scalar del: validates.simps)
  show ?thesis
    unfolding xs(1) validates_array m conjAll_Some using xs(2) by simp
qed

text \<open>An expression with at most one further member is accepted when exactly one form is set.\<close>

definition extraMember :: "json \<Rightarrow> (string \<times> json) list \<Rightarrow> (string \<times> json) list \<Rightarrow> bool" where
  "extraMember w ps ex \<longleftrightarrow>
     ps = [] \<and> ex = [] \<or>
     (\<exists>k s. ps = [(k, s)] \<and> k \<notin> {''field'', ''value'', ''values''} \<and>
        (ex = [] \<or> (\<exists>x. ex = [(k, x)] \<and> (\<forall>n. validates (Suc n) w s x = Some True))))"

lemma objectWith_eval:
  "validates (Suc n) w (objectWith props) (JObj fs) =
     conjAll [Some (list_all (\<lambda>(k, x). k \<in> fst ` set props) fs),
       conjAll (map (\<lambda>(k, s). case map_of fs k of None \<Rightarrow> Some True | Some x \<Rightarrow> validates n w s x) props),
       exactlyOne [validates n w (requires ''field'') (JObj fs), validates n w (requires ''value'') (JObj fs),
         validates n w (requires ''values'') (JObj fs)]]"
  by (simp add: checkKeyword_def objectWith_def exprOneOf_def)

lemma exprMembers_keys:
  "fst ` set (exprMembers e) =
     (if eyField e = [] then {} else {''field''}) \<union> (if eyValue e = VNil then {} else {''value''}) \<union>
     (if eyValues e = VNil then {} else {''values''})"
  by (auto simp: exprMembers_def optMember_def nonEmpty_def nonNil_def)

lemma exprMembers_lookup:
  "map_of (exprMembers e) ''field'' = nonEmpty (eyField e)"
  "map_of (exprMembers e) ''value'' = nonNil (eyValue e)"
  "map_of (exprMembers e) ''values'' = nonNil (eyValues e)"
  by (auto simp: exprMembers_def optMember_def nonEmpty_def nonNil_def)

lemma isOk_exprFromYAML:
  "isOk (exprFromYAML e) \<longleftrightarrow>
     (if eyField e \<noteq> [] then 1 else 0) + (if eyValue e \<noteq> VNil then 1 else 0) + (if eyValues e \<noteq> VNil then 1 else 0) = (1 :: nat)"
  by (auto simp: exprFromYAML_def isOk_def Let_def)

lemma exprProps_accept:
  assumes "plainExprYAML e"
  shows "list_all (\<lambda>(k, s). (case map_of (exprMembers e) k of None \<Rightarrow> Some True
      | Some x \<Rightarrow> validates (Suc (Suc n)) w s x) = Some True) exprProps"
  using assms validates_values [of "eyValues e" n w] scalarJ_plain [of "eyValue e"]
  by (auto simp: exprProps_def exprMembers_lookup plainExprYAML_def nonEmpty_def nonNil_def validates_type
      validates_scalar simp del: validates.simps)

lemma conjAll_true: "list_all (\<lambda>r. r = Some True) rs \<Longrightarrow> conjAll rs = Some True"
  by (auto simp: conjAll_def list_all_iff)

lemma exprMembers_other:
  "k \<notin> {''field'', ''value'', ''values''} \<Longrightarrow> map_of (exprMembers e) k = None"
  using exprMembers_keys [of e] by (auto simp: map_of_eq_None_iff split: if_splits)

lemma extraMember_keys: "extraMember w ps ex \<Longrightarrow> fst ` set ex \<subseteq> fst ` set ps"
  by (auto simp: extraMember_def)

lemma extraMember_fresh:
  "extraMember w ps ex \<Longrightarrow> k \<in> {''field'', ''value'', ''values''} \<Longrightarrow> map_of ex k = None"
  by (auto simp: extraMember_def)

lemma exprProps_keys: "fst ` set exprProps = {''field'', ''value'', ''values''}"
  by (auto simp: exprProps_def)

lemma list_all_keys: "fst ` set fs \<subseteq> K \<Longrightarrow> list_all (\<lambda>(k, x). k \<in> K) fs"
  by (force simp: list_all_iff)

lemma validates_exprObject:
  assumes e: "plainExprYAML e" and ex: "extraMember w ps ex"
  shows "validates (Suc (Suc (Suc n))) w (objectWith (exprProps @ ps)) (JObj (exprMembers e @ ex)) =
    Some (isOk (exprFromYAML e))"
proof -
  let ?fs = "exprMembers e @ ex"
  let ?check = "\<lambda>(k, s). case map_of ?fs k of None \<Rightarrow> Some True | Some x \<Rightarrow> validates (Suc (Suc n)) w s x"
  have keys: "list_all (\<lambda>(k, x). k \<in> fst ` set (exprProps @ ps)) ?fs"
  proof -
    have "fst ` set (exprMembers e) \<subseteq> fst ` set exprProps"
      unfolding exprMembers_keys exprProps_keys by simp
    then have "fst ` set ?fs \<subseteq> fst ` set (exprProps @ ps)"
      unfolding set_append image_Un using extraMember_keys [OF ex] by (rule Un_mono)
    then show ?thesis by (rule list_all_keys)
  qed
  have "?check (k, s) = Some True" if "(k, s) \<in> set exprProps" for k s
  proof -
    have "k \<in> {''field'', ''value'', ''values''}" using that exprProps_keys by force
    then have "map_of ex k = None"
      by (rule extraMember_fresh [OF ex])
    then have "map_of ?fs k = map_of (exprMembers e) k"
      by (simp add: map_add_def split: option.split)
    then show ?thesis
      using bspec [OF exprProps_accept [OF e, of n w, unfolded list_all_iff] that] by (simp only: prod.case)
  qed
  moreover have "?check (k, s) = Some True" if "(k, s) \<in> set ps" for k s
    using ex that exprMembers_other [of k e]
    by (auto simp: extraMember_def map_add_def simp del: validates.simps)
  ultimately have "list_all (\<lambda>r. r = Some True) (map ?check (exprProps @ ps))"
    by (auto simp: list_all_iff simp del: validates.simps)
  then have props: "conjAll (map ?check (exprProps @ ps)) = Some True"
    by (rule conjAll_true)
  have "k \<in> fst ` set ?fs \<longleftrightarrow> k \<in> fst ` set (exprMembers e)" if "k \<in> {''field'', ''value'', ''values''}" for k
    using extraMember_fresh [OF ex that] by (auto simp: map_of_eq_None_iff)
  then have has: "(''field'' \<in> fst ` set ?fs) = (eyField e \<noteq> [])" "(''value'' \<in> fst ` set ?fs) = (eyValue e \<noteq> VNil)"
    "(''values'' \<in> fst ` set ?fs) = (eyValues e \<noteq> VNil)"
    using exprMembers_keys [of e] by auto
  show ?thesis
    unfolding objectWith_eval validates_requires props exactlyOne_three isOk_exprFromYAML has
    using keys by simp
qed

lemma expression_accepts:
  assumes "plainExprYAML e"
  shows "validates (Suc (Suc (Suc (Suc n)))) schemaDocument (refTo ''expression'') (exprTree e) = Some (isOk (exprFromYAML e))"
  using validates_exprObject [OF assms, of schemaDocument "[]" "[]" n]
    validates_ref [of "''expression''" "objectWith exprProps" "Suc (Suc (Suc n))" "exprTree e"]
  by (simp add: extraMember_def exprTree_def schemaDefs_def del: validates.simps)

lemma column_accepts:
  assumes "plainColumnYAML c"
  shows "validates (Suc (Suc (Suc (Suc n)))) schemaDocument (refTo ''column'') (columnTree c) = Some (isOk (columnFromYAML c))"
proof -
  have "extraMember schemaDocument [(''as'', JObj [(''type'', JStr ''string'')])] (optMember ''as'' (nonEmpty (cyAs c)))"
    by (auto simp: extraMember_def optMember_def nonEmpty_def validates_type simp del: validates.simps)
  from validates_exprObject [OF assms [unfolded plainColumnYAML_def] this, of n]
  have "validates (Suc (Suc (Suc n))) schemaDocument (objectWith columnProps) (columnTree c) = Some (isOk (exprFromYAML (cyExpr c)))"
    by (simp add: columnProps_def mergeProps_def exprProps_def columnTree_def del: validates.simps)
  moreover have "isOk (columnFromYAML c) = isOk (exprFromYAML (cyExpr c))"
    by (simp add: columnFromYAML_def bindE_def isOk_def split: sum.split)
  ultimately show ?thesis
    using validates_ref [of "''column''" "objectWith columnProps" "Suc (Suc (Suc n))" "columnTree c"]
    by (simp add: schemaDefs_def del: validates.simps)
qed

lemma order_accepts:
  assumes "plainOrderYAML c"
  shows "validates (Suc (Suc (Suc (Suc n)))) schemaDocument (refTo ''order'') (orderTree c) = Some (isOk (orderExprFromYAML c))"
proof -
  have "extraMember schemaDocument [(''desc'', JObj [(''type'', JStr ''boolean'')])]
      (optMember ''desc'' (if oyDesc c then Some (JBool True) else None))"
    by (auto simp: extraMember_def optMember_def validates_type simp del: validates.simps)
  from validates_exprObject [OF assms [unfolded plainOrderYAML_def] this, of n]
  have "validates (Suc (Suc (Suc n))) schemaDocument (objectWith orderProps) (orderTree c) = Some (isOk (exprFromYAML (oyExpr c)))"
    by (simp add: orderProps_def mergeProps_def exprProps_def orderTree_def del: validates.simps)
  moreover have "isOk (orderExprFromYAML c) = isOk (exprFromYAML (oyExpr c))"
    by (simp add: orderExprFromYAML_def bindE_def isOk_def split: sum.split)
  ultimately show ?thesis
    using validates_ref [of "''order''" "objectWith orderProps" "Suc (Suc (Suc n))" "orderTree c"]
    by (simp add: schemaDefs_def del: validates.simps)
qed

section \<open>Conditions\<close>

lemma conjAll_Cons: "conjAll (Some a # rs) = map_option (\<lambda>b. a \<and> b) (conjAll rs)"
  by (auto simp: conjAll_def)

definition condMembers :: "condYAML \<Rightarrow> (string \<times> json) list" where
  "condMembers c = membersOf (condTree c)"

lemma condTree_members: "condTree c = JObj (condMembers c)"
  by (cases c) (simp add: condMembers_def)

text \<open>The groups a document carries have members.\<close>

definition groupsOk :: "condYAML \<Rightarrow> bool" where
  "groupsOk c = (cdAnd c \<noteq> Some [] \<and> cdOr c \<noteq> Some [])"

lemma optMember_lookup: "map_of (optMember k v) x = (if x = k then v else None)"
  by (cases v) (simp_all add: optMember_def)

lemma optMember_keys: "fst ` set (optMember k v) = (if v = None then {} else {k})"
  by (cases v) (simp_all add: optMember_def)

lemma condMembers_lookup:
  assumes "groupsOk c"
  shows "map_of (condMembers c) ''op'' = nonEmpty (cdOp c)"
    and "map_of (condMembers c) ''left'' = map_option exprTree (cdLeft c)"
    and "map_of (condMembers c) ''right'' = map_option exprTree (cdRight c)"
    and "map_of (condMembers c) ''and'' = map_option (\<lambda>cs. JArr (map condTree cs)) (cdAnd c)"
    and "map_of (condMembers c) ''or'' = map_option (\<lambda>cs. JArr (map condTree cs)) (cdOr c)"
    and condMembers_keys: "fst ` set (condMembers c) =
    (if cdOp c = [] then {} else {''op''}) \<union> (if cdLeft c = None then {} else {''left''}) \<union>
    (if cdRight c = None then {} else {''right''}) \<union> (if cdAnd c = None then {} else {''and''}) \<union>
    (if cdOr c = None then {} else {''or''})"
proof -
  obtain opr l r ands ors where c: "c = CondYAML opr l r ands ors" by (cases c)
  have "Option.bind (map_option (map condTree) ands) treeList = map_option (\<lambda>cs. JArr (map condTree cs)) ands"
    "Option.bind (map_option (map condTree) ors) treeList = map_option (\<lambda>cs. JArr (map condTree cs)) ors"
    using assms by (cases ands; cases ors; simp add: c groupsOk_def treeList_def)+
  then have m: "condMembers c = optMember ''op'' (nonEmpty opr) @ optMember ''left'' (map_option exprTree l) @
      optMember ''right'' (map_option exprTree r) @ optMember ''and'' (map_option (\<lambda>cs. JArr (map condTree cs)) ands) @
      optMember ''or'' (map_option (\<lambda>cs. JArr (map condTree cs)) ors)"
    by (simp add: condMembers_def c)
  note m' = m [unfolded c]
  show "map_of (condMembers c) ''op'' = nonEmpty (cdOp c)"
    and "map_of (condMembers c) ''left'' = map_option exprTree (cdLeft c)"
    and "map_of (condMembers c) ''right'' = map_option exprTree (cdRight c)"
    and "map_of (condMembers c) ''and'' = map_option (\<lambda>cs. JArr (map condTree cs)) (cdAnd c)"
    and "map_of (condMembers c) ''or'' = map_option (\<lambda>cs. JArr (map condTree cs)) (cdOr c)"
    unfolding c m' map_of_append map_add_def optMember_lookup condYAML.sel by (simp_all split: option.split)
  show "fst ` set (condMembers c) =
    (if cdOp c = [] then {} else {''op''}) \<union> (if cdLeft c = None then {} else {''left''}) \<union>
    (if cdRight c = None then {} else {''right''}) \<union> (if cdAnd c = None then {} else {''and''}) \<union>
    (if cdOr c = None then {} else {''or''})"
    unfolding c m' set_append image_Un optMember_keys condYAML.sel by (simp add: nonEmpty_def Un_assoc)
qed

lemma list_all_keys_iff: "list_all (\<lambda>(k, x). k \<in> K) fs \<longleftrightarrow> fst ` set fs \<subseteq> K"
  by (force simp: list_all_iff)

lemma comparison_eval:
  "validates (Suc n) w comparisonDef (JObj fs) =
     conjAll [Some (fst ` set fs \<subseteq> {''op'', ''left'', ''right''}),
       Some (''op'' \<in> fst ` set fs \<and> ''left'' \<in> fst ` set fs \<and> ''right'' \<in> fst ` set fs),
       conjAll (map (\<lambda>(k, s). case map_of fs k of None \<Rightarrow> Some True | Some x \<Rightarrow> validates n w s x)
         [(''op'', JObj [(''enum'', JArr comparisonOpEnum)]), (''left'', refTo ''expression''),
          (''right'', refTo ''expression'')])]"
  by (simp add: checkKeyword_def comparisonDef_def List.map_filter_def flip: list_all_keys_iff)

lemma group_eval:
  "validates (Suc n) w groupDef (JObj fs) =
     conjAll [Some (fst ` set fs \<subseteq> {''and'', ''or''}),
       conjAll (map (\<lambda>(k, s). case map_of fs k of None \<Rightarrow> Some True | Some x \<Rightarrow> validates n w s x)
         [(''and'', arrayOf (refTo ''condition'')), (''or'', arrayOf (refTo ''condition''))]),
       exactlyOne [validates n w (requires ''and'') (JObj fs), validates n w (requires ''or'') (JObj fs)]]"
  by (simp add: checkKeyword_def groupDef_def flip: list_all_keys_iff)

lemma condition_eval:
  "validates (Suc n) w conditionDef j = exactlyOne [validates n w (refTo ''comparison'') j, validates n w (refTo ''group'') j]"
  by (simp add: checkKeyword_def conditionDef_def)

lemma opEnum: "JStr opr \<in> set comparisonOpEnum \<longleftrightarrow> opr \<in> set inScopeComparisonOps"
  by (auto simp: comparisonOpEnum_def)

lemma validates_enum: "validates (Suc n) w (JObj [(''enum'', JArr comparisonOpEnum)]) (JStr opr) = Some (opr \<in> set inScopeComparisonOps)"
  by (simp add: checkKeyword_def opEnum)

definition comparisonOk :: "condYAML \<Rightarrow> bool" where
  "comparisonOk c =
     (cdAnd c = None \<and> cdOr c = None \<and> cdOp c \<noteq> [] \<and> isOk (comparisonFromYAML (cdOp c) (cdLeft c) (cdRight c)))"

lemma comparison_accepts:
  assumes g: "groupsOk c" and l: "pred_option plainExprYAML (cdLeft c)" and r: "pred_option plainExprYAML (cdRight c)"
  shows "validates (Suc (Suc (Suc (Suc (Suc (Suc n)))))) schemaDocument (refTo ''comparison'') (condTree c) = Some (comparisonOk c)"
proof -
  have left: "(case map_option exprTree (cdLeft c) of None \<Rightarrow> Some True
      | Some x \<Rightarrow> validates (Suc (Suc (Suc (Suc n)))) schemaDocument (refTo ''expression'') x) =
    Some (pred_option (\<lambda>e. isOk (exprFromYAML e)) (cdLeft c))"
    using l expression_accepts by (cases "cdLeft c") (simp_all del: validates.simps)
  have right: "(case map_option exprTree (cdRight c) of None \<Rightarrow> Some True
      | Some x \<Rightarrow> validates (Suc (Suc (Suc (Suc n)))) schemaDocument (refTo ''expression'') x) =
    Some (pred_option (\<lambda>e. isOk (exprFromYAML e)) (cdRight c))"
    using r expression_accepts by (cases "cdRight c") (simp_all del: validates.simps)
  have opr: "(case nonEmpty (cdOp c) of None \<Rightarrow> Some True
      | Some x \<Rightarrow> validates (Suc (Suc (Suc (Suc n)))) schemaDocument (JObj [(''enum'', JArr comparisonOpEnum)]) x) =
    Some (cdOp c = [] \<or> cdOp c \<in> set inScopeComparisonOps)"
    by (simp add: nonEmpty_def validates_enum del: validates.simps)
  have "validates (Suc (Suc (Suc (Suc (Suc n))))) schemaDocument comparisonDef (condTree c) = Some (comparisonOk c)"
    unfolding condTree_members comparison_eval list.map prod.case condMembers_lookup(1-5) [OF g] left right opr
      condMembers_keys [OF g]
    by (cases "cdLeft c"; cases "cdRight c")
      (auto simp: conjAll_Cons comparisonOk_def comparisonFromYAML_def bindE_def mapErr_def isOk_def split: sum.split)
  then show ?thesis
    using validates_ref [of "''comparison''" comparisonDef] by (simp add: schemaDefs_def del: validates.simps)
qed

lemma isOk_bind: "isOk (bindE m f) \<longleftrightarrow> (\<exists>x. m = Inr x \<and> isOk (f x))"
  by (cases m) (simp_all add: bindE_def isOk_def)

lemma isOk_sum_iff: "isOk m \<longleftrightarrow> (\<exists>x. m = Inr x)"
  by (cases m) (simp_all add: isOk_def)

lemma isOk_mapErr: "isOk (mapErr f m) = isOk m"
  by (cases m) (simp_all add: mapErr_def isOk_def)

lemma isOk_eachE: "isOk (eachE wrap f i xs) = list_all (\<lambda>x. isOk (f x)) xs"
proof (induction xs arbitrary: i)
  case (Cons x xs)
  have "isOk (eachE wrap f i (x # xs)) \<longleftrightarrow> isOk (mapErr (wrap i) (f x)) \<and> isOk (eachE wrap f (Suc i) xs)"
    by (auto simp: isOk_bind) (auto simp: isOk_sum_iff)
  then show ?case using Cons by (simp add: isOk_mapErr)
qed (simp add: isOk_def)

definition groupOk :: "condYAML \<Rightarrow> bool" where
  "groupOk c =
     (cdOp c = [] \<and> cdLeft c = None \<and> cdRight c = None \<and>
      (case (cdAnd c, cdOr c) of
         (Some cs, None) \<Rightarrow> list_all (\<lambda>d. isOk (condFromYAML d)) cs
       | (None, Some cs) \<Rightarrow> list_all (\<lambda>d. isOk (condFromYAML d)) cs
       | _ \<Rightarrow> False))"

lemma empty_operator: "[] \<notin> set inScopeComparisonOps"
  by (simp add: inScopeComparisonOps_def operator_defs)

lemma isOk_groupFromYAML:
  "cs \<noteq> [] \<Longrightarrow> isOk (groupFromYAML opr cs) = list_all (\<lambda>d. isOk (condFromYAML d)) cs"
  by (simp add: condsFromYAML_eachE isOk_bind isOk_eachE [symmetric, where wrap = AtCondition and i = 0])
     (auto simp: isOk_sum_iff)

lemma isOk_condFromYAML:
  assumes "groupsOk c"
  shows "isOk (condFromYAML c) \<longleftrightarrow> comparisonOk c \<or> groupOk c"
proof -
  obtain opr l r ands ors where c: "c = CondYAML opr l r ands ors" by (cases c)
  have "\<not> isOk (comparisonFromYAML [] l r)"
    by (simp add: comparisonFromYAML_def empty_operator isOk_def)
  then show ?thesis
    using assms isOk_groupFromYAML
    by (cases ands; cases ors) (auto simp: c groupsOk_def comparisonOk_def groupOk_def Let_def isOk_def simp del: groupFromYAML.simps)
qed

primrec condDepth :: "condYAML \<Rightarrow> nat" where
  "condDepth (CondYAML opr l r ands ors) =
     Suc (max (case map_option (map condDepth) ands of None \<Rightarrow> 0 | Some ds \<Rightarrow> fold max ds 0)
              (case map_option (map condDepth) ors of None \<Rightarrow> 0 | Some ds \<Rightarrow> fold max ds 0))"

lemma fold_max_le: "x \<in> set xs \<Longrightarrow> x \<le> fold max xs (a :: nat)" "a \<le> fold max xs (a :: nat)"
proof (induction xs arbitrary: a)
  case (Cons y ys)
  { case 1 then show ?case using Cons.IH(1) [of "max y a"] Cons.IH(2) [of "max y a"] by auto }
  { case 2 then show ?case using Cons.IH(2) [of "max y a"] by simp }
qed simp_all

lemma condDepth_child:
  "cdAnd c = Some cs \<Longrightarrow> d \<in> set cs \<Longrightarrow> condDepth d < condDepth c"
  "cdOr c = Some cs \<Longrightarrow> d \<in> set cs \<Longrightarrow> condDepth d < condDepth c"
  using fold_max_le(1) [of "condDepth d" "map condDepth cs" 0] by (cases c; auto simp: less_Suc_eq_le le_max_iff_disj)+

lemma plainCond_parts:
  assumes "plainCondYAML c"
  shows "groupsOk c" "pred_option plainExprYAML (cdLeft c)" "pred_option plainExprYAML (cdRight c)"
    "cdAnd c = Some cs \<Longrightarrow> list_all plainCondYAML cs" "cdOr c = Some cs \<Longrightarrow> list_all plainCondYAML cs"
  using assms by (cases c; auto simp: groupsOk_def list_all_iff)+

lemma children_accepts:
  assumes "\<And>d. d \<in> set cs \<Longrightarrow>
      validates m schemaDocument (refTo ''condition'') (condTree d) = Some (isOk (condFromYAML d))"
  shows "validates (Suc m) schemaDocument (arrayOf (refTo ''condition'')) (JArr (map condTree cs)) =
    Some (list_all (\<lambda>d. isOk (condFromYAML d)) cs)"
proof -
  have "map (validates m schemaDocument (refTo ''condition'')) (map condTree cs) =
      map (\<lambda>d. Some (isOk (condFromYAML d))) cs"
    using assms by simp
  then show ?thesis
    unfolding arrayOf_def validates_array by (simp only: conjAll_Some)
qed

lemma group_accepts:
  assumes g: "groupsOk c"
    and sub: "\<And>cs d. cdAnd c = Some cs \<or> cdOr c = Some cs \<Longrightarrow> d \<in> set cs \<Longrightarrow>
      validates m schemaDocument (refTo ''condition'') (condTree d) = Some (isOk (condFromYAML d))"
  shows "validates (Suc (Suc (Suc m))) schemaDocument (refTo ''group'') (condTree c) = Some (groupOk c)"
proof -
  have ands: "(case map_option (\<lambda>cs. JArr (map condTree cs)) (cdAnd c) of None \<Rightarrow> Some True
      | Some x \<Rightarrow> validates (Suc m) schemaDocument (arrayOf (refTo ''condition'')) x) =
    Some (pred_option (list_all (\<lambda>d. isOk (condFromYAML d))) (cdAnd c))"
  proof (cases "cdAnd c")
    case (Some cs)
    then have "validates (Suc m) schemaDocument (arrayOf (refTo ''condition'')) (JArr (map condTree cs)) =
        Some (list_all (\<lambda>d. isOk (condFromYAML d)) cs)"
      by (intro children_accepts sub [of cs]) simp_all
    then show ?thesis using Some by (simp del: validates.simps)
  qed simp
  have ors: "(case map_option (\<lambda>cs. JArr (map condTree cs)) (cdOr c) of None \<Rightarrow> Some True
      | Some x \<Rightarrow> validates (Suc m) schemaDocument (arrayOf (refTo ''condition'')) x) =
    Some (pred_option (list_all (\<lambda>d. isOk (condFromYAML d))) (cdOr c))"
  proof (cases "cdOr c")
    case (Some cs)
    then have "validates (Suc m) schemaDocument (arrayOf (refTo ''condition'')) (JArr (map condTree cs)) =
        Some (list_all (\<lambda>d. isOk (condFromYAML d)) cs)"
      by (intro children_accepts sub [of cs]) simp_all
    then show ?thesis using Some by (simp del: validates.simps)
  qed simp
  have "validates (Suc (Suc m)) schemaDocument groupDef (condTree c) = Some (groupOk c)"
    unfolding condTree_members group_eval list.map prod.case condMembers_lookup(1-5) [OF g] ands ors
      validates_requires condMembers_keys [OF g] exactlyOne_two
    by (cases "cdAnd c"; cases "cdOr c") (auto simp: conjAll_Cons groupOk_def)
  then show ?thesis
    using validates_ref [of "''group''" groupDef] by (simp add: schemaDefs_def del: validates.simps)
qed

lemma not_both: "\<not> (comparisonOk c \<and> groupOk c)"
  by (simp add: comparisonOk_def groupOk_def)

lemma condition_accepts:
  "plainCondYAML c \<Longrightarrow>
    validates (n + 3 + 5 * condDepth c) schemaDocument (refTo ''condition'') (condTree c) = Some (isOk (condFromYAML c))"
proof (induction "condDepth c" arbitrary: c n rule: less_induct)
  case less
  note parts = plainCond_parts [OF less.prems]
  obtain D where D: "condDepth c = Suc D" by (cases c) simp
  let ?m = "n + 3 + 5 * D"
  have sub: "validates ?m schemaDocument (refTo ''condition'') (condTree d) = Some (isOk (condFromYAML d))"
    if "cdAnd c = Some cs \<or> cdOr c = Some cs" "d \<in> set cs" for cs d
  proof -
    have lt: "condDepth d < condDepth c" using that condDepth_child by blast
    have "plainCondYAML d" using that parts(4,5) by (auto simp: list_all_iff)
    moreover have "?m = (n + 5 * (D - condDepth d)) + 3 + 5 * condDepth d"
      using lt D by (simp add: diff_mult_distrib2)
    ultimately show ?thesis using less.hyps [OF lt] by metis
  qed
  have "validates (Suc (Suc (Suc ?m))) schemaDocument (refTo ''group'') (condTree c) = Some (groupOk c)"
    by (rule group_accepts [OF parts(1) sub])
  moreover have "validates (Suc (Suc (Suc ?m))) schemaDocument (refTo ''comparison'') (condTree c) = Some (comparisonOk c)"
    using comparison_accepts [OF parts(1-3), of "n + 5 * D"] by (simp add: numeral_3_eq_3 del: validates.simps)
  ultimately have "validates (Suc (Suc (Suc (Suc ?m)))) schemaDocument conditionDef (condTree c) = Some (isOk (condFromYAML c))"
    unfolding condition_eval isOk_condFromYAML [OF parts(1)] using not_both [of c]
    by (auto simp: exactlyOne_two simp del: validates.simps)
  moreover have "n + 3 + 5 * condDepth c = Suc (Suc (Suc (Suc (Suc ?m))))"
    using D by simp
  ultimately show ?case
    using validates_ref [of "''condition''" conditionDef "Suc (Suc (Suc (Suc ?m)))" "condTree c"]
    by (simp only: schemaDefs_def) simp
qed

section \<open>Documents\<close>

lemma from_accepts:
  "validates (Suc (Suc (Suc n))) schemaDocument (refTo ''from'') (fromTree f) = Some (fyName f \<noteq> [])"
proof -
  have name: "validates (Suc n) schemaDocument (JObj [(''type'', JStr ''string''), (''minLength'', JNum 1)]) (JStr s) = Some (s \<noteq> [])" for s
    by (cases s) (simp_all add: checkKeyword_def)
  have al: "list_all (\<lambda>(n, x). n = ''name'' \<or> n = ''alias'') (optMember ''alias'' v)" for v
    by (cases v) (simp_all add: optMember_def)
  have lookup: "map_of ((''name'', JStr (fyName f)) # optMember ''alias'' (nonEmpty (fyAlias f))) ''alias'' = nonEmpty (fyAlias f)"
    by (simp add: optMember_lookup)
  have "(case nonEmpty (fyAlias f) of None \<Rightarrow> Some True
      | Some x \<Rightarrow> validates (Suc n) schemaDocument (JObj [(''type'', JStr ''string'')]) x) = Some True"
    by (simp add: nonEmpty_def validates_type del: validates.simps)
  then have "validates (Suc (Suc n)) schemaDocument fromDef (fromTree f) = Some (fyName f \<noteq> [])"
    unfolding fromTree_def fromDef_def
    by (subst validates.simps(2))
      (simp add: checkKeyword_def name lookup list_all_keys_iff optMember_keys List.map_filter_def del: validates.simps map_of.simps(2),
       simp add: name al conjAll_Cons del: validates.simps)
  then show ?thesis
    using validates_ref [of "''from''" fromDef] by (simp add: schemaDefs_def del: validates.simps)
qed

lemma list_accepts:
  assumes "list_all P xs" "\<And>x. P x \<Longrightarrow> validates m w s (f x) = Some (Q x)"
  shows "(case treeList (map f xs) of None \<Rightarrow> Some True | Some j \<Rightarrow> validates (Suc m) w (arrayOf s) j) = Some (list_all Q xs)"
proof (cases "xs = []")
  case False
  have "map (validates m w s) (map f xs) = map (\<lambda>x. Some (Q x)) xs"
    using assms by (auto simp: list_all_iff)
  then have "validates (Suc m) w (arrayOf s) (JArr (map f xs)) = Some (list_all Q xs)"
    unfolding arrayOf_def validates_array by (simp only: conjAll_Some)
  then show ?thesis
    using False by (simp add: treeList_def del: validates.simps)
qed (simp add: treeList_def)

lemma count_accepts:
  "(case nonZero i of None \<Rightarrow> Some True | Some j \<Rightarrow> validates (Suc m) w countSchema j) = Some (0 \<le> i)"
  by (simp add: nonZero_def validates_count del: validates.simps)

definition whereDepth :: "document \<Rightarrow> nat" where
  "whereDepth d = (case docWhere d of None \<Rightarrow> 0 | Some c \<Rightarrow> condDepth c)"

lemma isOk_documentToQuery:
  "isOk (documentToQuery d :: dtqlError + unit structuredQuery) \<longleftrightarrow>
     fyName (docFrom d) \<noteq> [] \<and> list_all (\<lambda>c. isOk (columnFromYAML c)) (docColumns d) \<and>
     pred_option (\<lambda>c. isOk (condFromYAML c)) (docWhere d) \<and>
     list_all (\<lambda>oy. isOk (orderExprFromYAML oy)) (docOrderBy d)"
proof -
  have cols: "isOk (columnsFromYAML (docColumns d)) = list_all (\<lambda>c. isOk (columnFromYAML c)) (docColumns d)"
    and ords: "isOk (orderFromYAML (docOrderBy d)) = list_all (\<lambda>oy. isOk (orderExprFromYAML oy)) (docOrderBy d)"
    by (simp_all add: columnsFromYAML_def orderFromYAML_def isOk_eachE)
  show ?thesis
    unfolding cols [symmetric] ords [symmetric]
    by (cases "docWhere d"; cases "columnsFromYAML (docColumns d)"; cases "orderFromYAML (docOrderBy d)")
      (auto simp: documentToQuery_def NewCollectionRef_def bindE_def isOk_def split: sum.split)
qed

definition documentMembers :: "document \<Rightarrow> (string \<times> json) list" where
  "documentMembers d = membersOf (documentTree d)"

lemma documentMembers_lookup:
  "map_of (documentMembers d) ''from'' = Some (fromTree (docFrom d))"
  "map_of (documentMembers d) ''columns'' = treeList (map columnTree (docColumns d))"
  "map_of (documentMembers d) ''where'' = map_option condTree (docWhere d)"
  "map_of (documentMembers d) ''orderBy'' = treeList (map orderTree (docOrderBy d))"
  "map_of (documentMembers d) ''limit'' = nonZero (docLimit d)"
  "map_of (documentMembers d) ''offset'' = nonZero (docOffset d)"
  "fst ` set (documentMembers d) \<subseteq> {''from'', ''columns'', ''where'', ''orderBy'', ''limit'', ''offset''}"
  "''from'' \<in> fst ` set (documentMembers d)"
proof -
  have m: "documentMembers d = (''from'', fromTree (docFrom d)) # optMember ''columns'' (treeList (map columnTree (docColumns d))) @
     optMember ''where'' (map_option condTree (docWhere d)) @
     optMember ''orderBy'' (treeList (map orderTree (docOrderBy d))) @
     optMember ''limit'' (nonZero (docLimit d)) @ optMember ''offset'' (nonZero (docOffset d))"
    by (simp add: documentMembers_def documentTree_def)
  show "map_of (documentMembers d) ''from'' = Some (fromTree (docFrom d))"
    "map_of (documentMembers d) ''columns'' = treeList (map columnTree (docColumns d))"
    "map_of (documentMembers d) ''where'' = map_option condTree (docWhere d)"
    "map_of (documentMembers d) ''orderBy'' = treeList (map orderTree (docOrderBy d))"
    "map_of (documentMembers d) ''limit'' = nonZero (docLimit d)"
    "map_of (documentMembers d) ''offset'' = nonZero (docOffset d)"
    unfolding m by (simp_all add: map_add_def optMember_lookup split: option.split)
  show "fst ` set (documentMembers d) \<subseteq> {''from'', ''columns'', ''where'', ''orderBy'', ''limit'', ''offset''}"
    unfolding m list.set set_append image_insert image_Un optMember_keys by simp
  show "''from'' \<in> fst ` set (documentMembers d)"
    unfolding m by simp
qed

lemma conjAll_last: "conjAll [r, Some True] = r"
  by (cases r) (auto simp: conjAll_def)

lemma schema_eval:
  "validates (Suc n) w schemaDocument (JObj fs) =
     conjAll [Some (fst ` set fs \<subseteq> {''from'', ''columns'', ''where'', ''orderBy'', ''limit'', ''offset''}),
       Some (''from'' \<in> fst ` set fs),
       conjAll (map (\<lambda>(k, s). case map_of fs k of None \<Rightarrow> Some True | Some x \<Rightarrow> validates n w s x)
         [(''from'', refTo ''from''), (''columns'', arrayOf (refTo ''column'')), (''where'', refTo ''condition''),
          (''orderBy'', arrayOf (refTo ''order'')), (''limit'', countSchema), (''offset'', countSchema)])]"
  by (simp add: checkKeyword_def schemaDocument_def List.map_filter_def conjAll_Cons conjAll_last option.map_ident flip: list_all_keys_iff)

lemma schema_accepts_document:
  assumes "plainDocument d"
  shows "validates (n + 6 + 5 * whereDepth d) schemaDocument schemaDocument (documentTree d) =
    Some (isOk (documentToQuery d :: dtqlError + unit structuredQuery) \<and> 0 \<le> docLimit d \<and> 0 \<le> docOffset d)"
proof -
  define k where "k = n + 5 * whereDepth d"
  let ?m = "Suc (Suc (Suc (Suc (Suc k))))"
  have cols: "(case treeList (map columnTree (docColumns d)) of None \<Rightarrow> Some True
      | Some j \<Rightarrow> validates ?m schemaDocument (arrayOf (refTo ''column'')) j) =
    Some (list_all (\<lambda>c. isOk (columnFromYAML c)) (docColumns d))"
    using assms column_accepts by (intro list_accepts [where P = plainColumnYAML]) (simp_all add: plainDocument_def del: validates.simps)
  have ords: "(case treeList (map orderTree (docOrderBy d)) of None \<Rightarrow> Some True
      | Some j \<Rightarrow> validates ?m schemaDocument (arrayOf (refTo ''order'')) j) =
    Some (list_all (\<lambda>oy. isOk (orderExprFromYAML oy)) (docOrderBy d))"
    using assms order_accepts by (intro list_accepts [where P = plainOrderYAML]) (simp_all add: plainDocument_def del: validates.simps)
  have cond: "(case map_option condTree (docWhere d) of None \<Rightarrow> Some True
      | Some j \<Rightarrow> validates ?m schemaDocument (refTo ''condition'') j) =
    Some (pred_option (\<lambda>c. isOk (condFromYAML c)) (docWhere d))"
  proof (cases "docWhere d")
    case (Some c)
    have "?m = (n + 2) + 3 + 5 * condDepth c"
      using Some by (simp add: k_def whereDepth_def)
    then have "validates ?m schemaDocument (refTo ''condition'') (condTree c) = Some (isOk (condFromYAML c))"
      using condition_accepts [of c "n + 2"] assms Some by (simp only: plainDocument_def option.pred_inject)
    then show ?thesis using Some by (simp del: validates.simps)
  qed simp
  have "validates (Suc ?m) schemaDocument schemaDocument (documentTree d) =
    Some (isOk (documentToQuery d :: dtqlError + unit structuredQuery) \<and> 0 \<le> docLimit d \<and> 0 \<le> docOffset d)"
  proof -
    have tree: "documentTree d = JObj (documentMembers d)"
      by (simp add: documentMembers_def documentTree_def)
    show ?thesis
      unfolding tree schema_eval list.map prod.case documentMembers_lookup option.case from_accepts cols cond ords
        count_accepts isOk_documentToQuery
      using documentMembers_lookup(7,8) [of d] by (simp add: conjAll_Cons conj_ac)
  qed
  moreover have "Suc ?m = n + 6 + 5 * whereDepth d"
    by (simp add: k_def)
  ultimately show ?thesis by simp
qed

text \<open>C15: the published JSON Schema and the decoder agree: a document of the format, its inline
  values plain, is valid under the schema exactly when \<open>documentToQuery\<close> reads it as a query and neither
  its limit nor its offset is negative. Evaluating the schema ends: the fuel needed is bounded by the
  depth of the condition, and more of it changes nothing.\<close>

theorem schema_accepts_readable:
  assumes "plainDocument d"
  shows "validates (n + 6 + 5 * whereDepth d) schemaDocument schemaDocument (documentTree d) =
    Some (isOk (documentToQuery d :: dtqlError + unit structuredQuery) \<and> 0 \<le> docLimit d \<and> 0 \<le> docOffset d)"
  using assms by (rule schema_accepts_document)

theorem schema_accepts_readable_witness:
  "validates 40 schemaDocument schemaDocument (documentTree dtqlSampleDocument) = Some True"
proof -
  have plain: "plainDocument dtqlSampleDocument"
    by (simp add: plainDocument_def dtqlSampleDocument_def plainExprYAML_def plainScalar_def)
  have depth: "whereDepth dtqlSampleDocument = 1" "0 \<le> docLimit dtqlSampleDocument" "0 \<le> docOffset dtqlSampleDocument"
    by (simp_all add: whereDepth_def dtqlSampleDocument_def)
  have reads: "isOk (documentToQuery dtqlSampleDocument :: dtqlError + unit structuredQuery)"
    by code_simp
  have "(29 :: nat) + 6 + 5 * whereDepth dtqlSampleDocument = 40" by (simp add: depth)
  with schema_accepts_readable [OF plain, of 29] reads depth(2,3) show ?thesis by (simp only: simp_thms)
qed

text \<open>
  Where the schema and the code differ: a negative limit is written by \<open>Serialize\<close> and refused by the schema;
  an empty group, which no written document has, is accepted by the schema and refused by the decoder.
\<close>

lemma schema_refuses_negative:
  assumes "plainDocument d" "docLimit d < 0"
  shows "validates (n + 6 + 5 * whereDepth d) schemaDocument schemaDocument (documentTree d) = Some False"
  using schema_accepts_document [OF assms(1), of n] assms(2) by simp

lemma schema_accepts_empty_group:
  "validates (n + 5) schemaDocument (refTo ''condition'') (JObj [(''and'', JArr [])]) = Some True"
  "\<not> isOk (condFromYAML (CondYAML [] None None (Some []) None))"
proof -
  let ?j = "JObj [(''and'', JArr [])]"
  have "validates (Suc (Suc (Suc n))) schemaDocument (refTo ''comparison'') ?j = Some False"
    using validates_ref [of "''comparison''" comparisonDef "Suc (Suc n)" ?j]
    by (simp add: schemaDefs_def comparison_eval conjAll_Cons del: validates.simps)
  moreover have "validates (Suc (Suc (Suc n))) schemaDocument (refTo ''group'') ?j = Some True"
    using validates_ref [of "''group''" groupDef "Suc (Suc n)" ?j]
    by (simp add: schemaDefs_def group_eval arrayOf_def validates_array validates_requires exactlyOne_two
        conjAll_Cons del: validates.simps)
  ultimately have "validates (Suc (Suc (Suc (Suc n)))) schemaDocument conditionDef ?j = Some True"
    by (simp add: condition_eval exactlyOne_two del: validates.simps)
  then show "validates (n + 5) schemaDocument (refTo ''condition'') ?j = Some True"
    using validates_ref [of "''condition''" conditionDef "Suc (Suc (Suc (Suc n)))" ?j]
    by (simp add: schemaDefs_def numeral_eq_Suc del: validates.simps)
  show "\<not> isOk (condFromYAML (CondYAML [] None None (Some []) None))"
    by (simp add: isOk_def)
qed

end
