(* ===== verification/DalBuilder.thy ===== *)
theory DalBuilder
  imports DalQuery
begin

text \<open>
  \<open>QueryBuilder.Clone\<close> of \<open>src/dal/q_builder.go\<close> and the sharing it leaves. \<open>Clone\<close> copies the
  builder's struct; the copy's slices point to the same arrays. Theory \<open>DalQuery\<close> has the builder
  as a value; here its four slices are slices, over an explicit store of arrays, and several
  builders live side by side.

  An array is the list of its cells, its length the capacity. Every slice starts at the first cell
  of its array; a nil slice has no array. How much room \<open>append\<close> leaves in a new array is the
  runtime's choice: \<open>extra cap needed\<close> is the number of spare cells it gives a slice of capacity
  \<open>cap\<close> that needs \<open>needed\<close>.
\<close>

section \<open>Definitions\<close>

subsection \<open>Slices\<close>

record slice =
  slArray :: "nat option"
  slLen :: nat

definition nilSlice :: slice where
  "nilSlice = \<lparr>slArray = None, slLen = 0\<rparr>"

definition slCap :: "'a list list \<Rightarrow> slice \<Rightarrow> nat" where
  "slCap h s = (case slArray s of None \<Rightarrow> 0 | Some a \<Rightarrow> length (h ! a))"

definition slView :: "'a list list \<Rightarrow> slice \<Rightarrow> 'a list" where
  "slView h s = (case slArray s of None \<Rightarrow> [] | Some a \<Rightarrow> take (slLen s) (h ! a))"

text \<open>\<open>append(s, xs...)\<close>: in place while the capacity lasts, else in a new array. \<open>zero\<close> fills its spare cells.\<close>

definition goAppend ::
  "(nat \<Rightarrow> nat \<Rightarrow> nat) \<Rightarrow> 'a \<Rightarrow> 'a list list \<Rightarrow> slice \<Rightarrow> 'a list \<Rightarrow> 'a list list \<times> slice" where
  "goAppend extra zero h s xs =
     (let needed = slLen s + length xs in
      if xs = [] then (h, s)
      else if needed \<le> slCap h s
      then (h[the (slArray s) := take (slLen s) (h ! the (slArray s)) @ xs @ drop needed (h ! the (slArray s))],
            s\<lparr>slLen := needed\<rparr>)
      else (h @ [slView h s @ xs @ replicate (extra (slCap h s) needed) zero],
            \<lparr>slArray = Some (length h), slLen = needed\<rparr>))"

subsection \<open>Builders over a store\<close>

record arrays =
  arrCond :: "condition list list"
  arrExpr :: "expression list list"
  arrOrd :: "orderExpression list list"

text \<open>The slices of \<open>hbQuery\<close>, \<open>groupBy\<close> and \<open>orderBy\<close>, are fields of the builder here.\<close>

record 'd sliceBuilder =
  sbQuery :: "'d structuredQuery"
  sbConditions :: slice
  sbHaving :: slice
  sbGroupBy :: slice
  sbOrderBy :: slice

record 'd builderStore =
  stArrays :: arrays
  stBuilders :: "'d sliceBuilder list"

definition newSliceBuilder :: "fromSource \<Rightarrow> 'd sliceBuilder" where
  "newSliceBuilder f =
     \<lparr>sbQuery = newStructuredQuery f, sbConditions = nilSlice, sbHaving = nilSlice,
      sbGroupBy = nilSlice, sbOrderBy = nilSlice\<rparr>"

definition zeroOrder :: orderExpression where
  "zeroOrder = \<lparr>ordExpression = OtherExpression [], ordDescending = False\<rparr>"

definition appendConds ::
  "(nat \<Rightarrow> nat \<Rightarrow> nat) \<Rightarrow> condition list \<Rightarrow> arrays \<Rightarrow> 'd sliceBuilder \<Rightarrow> arrays \<times> 'd sliceBuilder" where
  "appendConds extra cs h b =
     (let (a, s) = goAppend extra NilCondition (arrCond h) (sbConditions b) cs
      in (h\<lparr>arrCond := a\<rparr>, b\<lparr>sbConditions := s\<rparr>))"

fun sliceStep ::
  "(nat \<Rightarrow> nat \<Rightarrow> nat) \<Rightarrow> builderCall \<Rightarrow> arrays \<Rightarrow> 'd sliceBuilder \<Rightarrow> (arrays \<times> 'd sliceBuilder) option" where
  "sliceStep extra (SStartFrom c) h b = Some (h, b\<lparr>sbQuery := (sbQuery b)\<lparr>qStartCursor := c\<rparr>\<rparr>)"
| "sliceStep extra (SOffset i) h b = Some (h, b\<lparr>sbQuery := (sbQuery b)\<lparr>qOffset := i\<rparr>\<rparr>)"
| "sliceStep extra (SLimit i) h b = Some (h, b\<lparr>sbQuery := (sbQuery b)\<lparr>qLimit := i\<rparr>\<rparr>)"
| "sliceStep extra (SOrderBy es) h b =
     Some (let (a, s) = goAppend extra zeroOrder (arrOrd h) (sbOrderBy b) es
           in (h\<lparr>arrOrd := a\<rparr>, b\<lparr>sbOrderBy := s\<rparr>))"
| "sliceStep extra (SWhere cs) h b = Some (appendConds extra cs h b)"
| "sliceStep extra (SGroupBy es) h b =
     Some (let (a, s) = goAppend extra (OtherExpression []) (arrExpr h) (sbGroupBy b) es
           in (h\<lparr>arrExpr := a\<rparr>, b\<lparr>sbGroupBy := s\<rparr>))"
| "sliceStep extra (SHaving cs) h b =
     Some (let (a, s) = goAppend extra NilCondition (arrCond h) (sbHaving b) cs
           in (h\<lparr>arrCond := a\<rparr>, b\<lparr>sbHaving := s\<rparr>))"
| "sliceStep extra (SWhereField name opr v) h b =
     map_option (\<lambda>c. appendConds extra [c] h b) (WhereField name opr v)"
| "sliceStep extra (SWhereInArrayField name v) h b =
     Some (appendConds extra [Comparison In (Constant v) (Field name)] h b)"
| "sliceStep extra (SWhereArrayContainsAny name vs) h b =
     (let arr = (case vs of ExprValue (Array v) \<Rightarrow> Some (Array v) | PlainValue v \<Rightarrow> NewArray v | _ \<Rightarrow> None)
      in map_option (\<lambda>a. appendConds extra [Comparison In (Field name) a] h b) arr)"

text \<open>A call on the builder at position \<open>i\<close>, and \<open>Clone\<close>, which adds the copy at the end.\<close>

definition callAt :: "(nat \<Rightarrow> nat \<Rightarrow> nat) \<Rightarrow> nat \<Rightarrow> builderCall \<Rightarrow> 'd builderStore \<Rightarrow> 'd builderStore option" where
  "callAt extra i c st =
     map_option (\<lambda>(h, b). \<lparr>stArrays = h, stBuilders = (stBuilders st)[i := b]\<rparr>)
       (sliceStep extra c (stArrays st) (stBuilders st ! i))"

definition Clone :: "nat \<Rightarrow> 'd builderStore \<Rightarrow> 'd builderStore" where
  "Clone i st = st\<lparr>stBuilders := stBuilders st @ [stBuilders st ! i]\<rparr>"

fun callsAt :: "(nat \<Rightarrow> nat \<Rightarrow> nat) \<Rightarrow> nat \<Rightarrow> builderCall list \<Rightarrow> 'd builderStore \<Rightarrow> 'd builderStore option" where
  "callsAt extra i [] st = Some st"
| "callsAt extra i (c # cs) st = Option.bind (callAt extra i c st) (callsAt extra i cs)"

text \<open>The builder as a value, read through its slices.\<close>

definition builderView :: "arrays \<Rightarrow> 'd sliceBuilder \<Rightarrow> 'd queryBuilder" where
  "builderView h b =
     \<lparr>bQuery = (sbQuery b)\<lparr>qGroupBy := slView (arrExpr h) (sbGroupBy b),
                           qOrderBy := slView (arrOrd h) (sbOrderBy b)\<rparr>,
      bConditions = slView (arrCond h) (sbConditions b), bHaving = slView (arrCond h) (sbHaving b)\<rparr>"

definition viewAt :: "'d builderStore \<Rightarrow> nat \<Rightarrow> 'd queryBuilder" where
  "viewAt st i = builderView (stArrays st) (stBuilders st ! i)"

section \<open>What append keeps\<close>

definition slOk :: "'a list list \<Rightarrow> slice \<Rightarrow> bool" where
  "slOk h s = (case slArray s of None \<Rightarrow> slLen s = 0 | Some a \<Rightarrow> a < length h \<and> slLen s \<le> length (h ! a))"

text \<open>Appending to \<open>s\<close> does not reach what \<open>t\<close> shows.\<close>

definition slSafe :: "slice \<Rightarrow> slice \<Rightarrow> bool" where
  "slSafe s t = (slArray t = slArray s \<longrightarrow> slLen t \<le> slLen s)"

text \<open>
  The contract of \<open>append\<close> a client relies on: it extends what the slice shows, keeps every
  slice valid, and keeps what a slice shows that is safe from it, which then stays safe.
\<close>

locale appending =
  fixes app :: "'h \<Rightarrow> 's \<Rightarrow> 'a list \<Rightarrow> 'h \<times> 's"
    and view :: "'h \<Rightarrow> 's \<Rightarrow> 'a list"
    and ok :: "'h \<Rightarrow> 's \<Rightarrow> bool"
    and safe :: "'s \<Rightarrow> 's \<Rightarrow> bool"
  assumes app_view: "ok h s \<Longrightarrow> app h s xs = (h', s') \<Longrightarrow> view h' s' = view h s @ xs \<and> ok h' s'"
    and app_other: "ok h s \<Longrightarrow> ok h t \<Longrightarrow> app h s xs = (h', s') \<Longrightarrow> ok h' t \<and> (safe s t \<longrightarrow> view h' t = view h t \<and> safe s' t)"
begin

lemma app_all:
  assumes "ok h s" "ok h t" "safe s t"
    and "fold (\<lambda>xs (h, s). app h s xs) xss (h, s) = (h', s')"
  shows "view h' s' = view h s @ concat xss \<and> view h' t = view h t"
  using assms
proof (induction xss arbitrary: h s)
  case (Cons xs xss)
  obtain h1 s1 where a: "app h s xs = (h1, s1)" by fastforce
  then have "fold (\<lambda>xs (h, s). app h s xs) xss (h1, s1) = (h', s')"
    using Cons.prems(4) by simp
  then show ?case
    using Cons.IH [of h1 s1] app_view [OF Cons.prems(1) a] app_other [OF Cons.prems(1,2) a] Cons.prems(3)
    by simp
qed simp

end

interpretation sl: appending "goAppend extra zero" slView slOk slSafe for extra zero
proof unfold_locales
  fix h :: "'a list list" and s xs h' s'
  assume ok: "slOk h s" and app: "goAppend extra zero h s xs = (h', s')"
  show "slView h' s' = slView h s @ xs \<and> slOk h' s'"
  proof (cases "slArray s")
    case None
    then show ?thesis
      using ok app by (auto simp: goAppend_def slOk_def slView_def slCap_def Let_def split: if_splits)
  next
    case (Some a)
    then show ?thesis
      using ok app
      by (auto simp: goAppend_def slOk_def slView_def slCap_def Let_def split: if_splits)
  qed
next
  fix h :: "'a list list" and s t xs h' s'
  assume ok: "slOk h s" "slOk h t" and app: "goAppend extra zero h s xs = (h', s')"
  have valid: "slOk h' t"
    using ok app
    by (auto simp: goAppend_def slOk_def slCap_def Let_def nth_append nth_list_update
        split: if_splits option.splits)
  show "slOk h' t \<and> (slSafe s t \<longrightarrow> slView h' t = slView h t \<and> slSafe s' t)"
  proof (cases "slArray t")
    case None
    then show ?thesis using valid ok(2) by (simp add: slOk_def slView_def slSafe_def)
  next
    case (Some a)
    then show ?thesis
      using valid ok app
      by (auto simp: goAppend_def slOk_def slCap_def slView_def slSafe_def Let_def nth_append nth_list_update
          split: if_splits option.splits)
  qed
qed

section \<open>Steps on builders\<close>

definition builderOk :: "arrays \<Rightarrow> 'd sliceBuilder \<Rightarrow> bool" where
  "builderOk h b =
     (slOk (arrCond h) (sbConditions b) \<and> slOk (arrCond h) (sbHaving b) \<and>
      slOk (arrExpr h) (sbGroupBy b) \<and> slOk (arrOrd h) (sbOrderBy b))"

text \<open>No array holds conditions of one and having-conditions of the other.\<close>

definition builderSep :: "'d sliceBuilder \<Rightarrow> 'd sliceBuilder \<Rightarrow> bool" where
  "builderSep b c =
     ((slArray (sbConditions b) = slArray (sbHaving c) \<longrightarrow> slArray (sbHaving c) = None) \<and>
      (slArray (sbConditions c) = slArray (sbHaving b) \<longrightarrow> slArray (sbHaving b) = None))"

definition builderSafe :: "'d sliceBuilder \<Rightarrow> 'd sliceBuilder \<Rightarrow> bool" where
  "builderSafe b c =
     (slSafe (sbConditions b) (sbConditions c) \<and> slSafe (sbHaving b) (sbHaving c) \<and>
      slSafe (sbGroupBy b) (sbGroupBy c) \<and> slSafe (sbOrderBy b) (sbOrderBy c))"

lemma goAppend_array:
  "goAppend extra zero h s xs = (h', s') \<Longrightarrow> slArray s' = slArray s \<or> slArray s' = Some (length h)"
  by (auto simp: goAppend_def Let_def split: if_splits)

lemma slOk_not_fresh: "slOk h s \<Longrightarrow> slArray s \<noteq> Some (length h)"
  by (auto simp: slOk_def)

lemma slSafe_nil_array:
  "slOk h t \<Longrightarrow> (slArray s = slArray t \<longrightarrow> slArray t = None) \<Longrightarrow> slSafe s t"
  by (auto simp: slSafe_def slOk_def)

text \<open>One step: the builder it is made on, and any other.\<close>

definition stepKeeps :: "arrays \<Rightarrow> 'd sliceBuilder \<Rightarrow> arrays \<Rightarrow> 'd sliceBuilder \<Rightarrow> 'd sliceBuilder \<Rightarrow> bool" where
  "stepKeeps h b h' b' x =
     (builderOk h' x \<and> builderSep b' x \<and>
      (builderSafe b x \<longrightarrow> builderView h' x = builderView h x \<and> builderSafe b' x))"

lemma appendConds_step:
  assumes "builderOk h b" "builderSep b b" "appendConds extra cs h b = (h', b')"
  shows "builderView h' b' = (builderView h b)\<lparr>bConditions := bConditions (builderView h b) @ cs\<rparr>"
    and "builderOk h' b'" and "builderSep b' b'"
    and "builderOk h x \<Longrightarrow> builderSep b x \<Longrightarrow> stepKeeps h b h' b' x"
proof -
  obtain a s where app: "goAppend extra NilCondition (arrCond h) (sbConditions b) cs = (a, s)" by fastforce
  then have b': "h' = h\<lparr>arrCond := a\<rparr>" "b' = b\<lparr>sbConditions := s\<rparr>"
    using assms(3) by (simp_all add: appendConds_def)
  have okb: "slOk (arrCond h) (sbConditions b)" "slOk (arrCond h) (sbHaving b)"
    using assms(1) by (simp_all add: builderOk_def)
  note mine = sl.app_view [OF okb(1) app] and other = sl.app_other [OF okb(1) _ app]
  have safe: "slSafe (sbConditions b) (sbHaving c)" if "builderSep b c" "builderOk h c" for c
    using that by (intro slSafe_nil_array [of "arrCond h"]) (simp_all add: builderSep_def builderOk_def)
  show "builderView h' b' = (builderView h b)\<lparr>bConditions := bConditions (builderView h b) @ cs\<rparr>"
    using mine other [OF okb(2)] safe [OF assms(2,1)] by (simp add: builderView_def b')
  show "builderOk h' b'"
    using mine other [OF okb(2)] assms(1) by (simp add: builderOk_def b')
  show "builderSep b' b'"
    using goAppend_array [OF app] slOk_not_fresh [OF okb(2)] assms(2) by (auto simp: builderSep_def b')
  assume x: "builderOk h x" "builderSep b x"
  have okx: "slOk (arrCond h) (sbConditions x)" "slOk (arrCond h) (sbHaving x)"
    using x by (simp_all add: builderOk_def)
  have "builderSep b' x"
    using goAppend_array [OF app] slOk_not_fresh [OF okx(2)] x(2) by (auto simp: builderSep_def b')
  then show "stepKeeps h b h' b' x"
    using other [OF okx(1)] other [OF okx(2)] safe [OF x(2,1)] x(1)
    by (simp add: stepKeeps_def builderOk_def builderView_def builderSafe_def b')
qed

lemma appendHaving_step:
  assumes "builderOk h b" "builderSep b b" "sliceStep extra (SHaving cs) h b = Some (h', b')"
  shows "builderView h' b' = (builderView h b)\<lparr>bHaving := bHaving (builderView h b) @ cs\<rparr>"
    and "builderOk h' b'" and "builderSep b' b'"
    and "builderOk h x \<Longrightarrow> builderSep b x \<Longrightarrow> stepKeeps h b h' b' x"
proof -
  obtain a s where app: "goAppend extra NilCondition (arrCond h) (sbHaving b) cs = (a, s)" by fastforce
  then have b': "h' = h\<lparr>arrCond := a\<rparr>" "b' = b\<lparr>sbHaving := s\<rparr>"
    using assms(3) by simp_all
  have okb: "slOk (arrCond h) (sbHaving b)" "slOk (arrCond h) (sbConditions b)"
    using assms(1) by (simp_all add: builderOk_def)
  note mine = sl.app_view [OF okb(1) app] and other = sl.app_other [OF okb(1) _ app]
  have safe: "slSafe (sbHaving b) (sbConditions c)" if "builderSep b c" "builderOk h c" for c
    using that by (intro slSafe_nil_array [of "arrCond h"]) (auto simp: builderSep_def builderOk_def)
  show "builderView h' b' = (builderView h b)\<lparr>bHaving := bHaving (builderView h b) @ cs\<rparr>"
    using mine other [OF okb(2)] safe [OF assms(2,1)] by (simp add: builderView_def b')
  show "builderOk h' b'"
    using mine other [OF okb(2)] assms(1) by (simp add: builderOk_def b')
  show "builderSep b' b'"
    using goAppend_array [OF app] slOk_not_fresh [OF okb(2)] assms(2) by (auto simp: builderSep_def b')
  assume x: "builderOk h x" "builderSep b x"
  have okx: "slOk (arrCond h) (sbHaving x)" "slOk (arrCond h) (sbConditions x)"
    using x by (simp_all add: builderOk_def)
  have "builderSep b' x"
    using goAppend_array [OF app] slOk_not_fresh [OF okx(2)] x(2) by (auto simp: builderSep_def b')
  then show "stepKeeps h b h' b' x"
    using other [OF okx(1)] other [OF okx(2)] safe [OF x(2,1)] x(1)
    by (simp add: stepKeeps_def builderOk_def builderView_def builderSafe_def b')
qed

lemma sliceStep_step:
  assumes "builderOk h b" "builderSep b b" "sliceStep extra c h b = Some (h', b')"
  shows "buildStep c (builderView h b) = Some (builderView h' b') \<and> builderOk h' b' \<and> builderSep b' b' \<and>
    (builderOk h x \<longrightarrow> builderSep b x \<longrightarrow> stepKeeps h b h' b' x)"
proof (cases c)
  case (SOrderBy es)
  obtain a s where app: "goAppend extra zeroOrder (arrOrd h) (sbOrderBy b) es = (a, s)" by fastforce
  have "slOk (arrOrd h) (sbOrderBy b)" using assms(1) by (simp add: builderOk_def)
  note mine = sl.app_view [OF this app] and other = sl.app_other [OF this _ app]
  have r: "h' = h\<lparr>arrOrd := a\<rparr>" "b' = b\<lparr>sbOrderBy := s\<rparr>"
    using assms(3) app SOrderBy by simp_all
  show ?thesis
    using assms(1,2) mine other [of "sbOrderBy x"]
    by (simp add: r SOrderBy builderOk_def builderView_def builderSep_def stepKeeps_def builderSafe_def)
next
  case (SGroupBy es)
  obtain a s where app: "goAppend extra (OtherExpression []) (arrExpr h) (sbGroupBy b) es = (a, s)" by fastforce
  have "slOk (arrExpr h) (sbGroupBy b)" using assms(1) by (simp add: builderOk_def)
  note mine = sl.app_view [OF this app] and other = sl.app_other [OF this _ app]
  have r: "h' = h\<lparr>arrExpr := a\<rparr>" "b' = b\<lparr>sbGroupBy := s\<rparr>"
    using assms(3) app SGroupBy by simp_all
  show ?thesis
    using assms(1,2) mine other [of "sbGroupBy x"]
    by (simp add: r SGroupBy builderOk_def builderView_def builderSep_def stepKeeps_def builderSafe_def)
next
  case (SHaving cs)
  then show ?thesis
    using appendHaving_step [OF assms(1,2), of extra cs h' b'] assms(3) by simp
next
  case (SWhere cs)
  then show ?thesis
    using appendConds_step [OF assms(1,2), of extra cs h' b'] assms(3) by simp
next
  case (SWhereField name opr v)
  then show ?thesis
    using appendConds_step [OF assms(1,2), of extra _ h' b'] assms(3) by auto
next
  case (SWhereInArrayField name v)
  then show ?thesis
    using appendConds_step [OF assms(1,2), of extra _ h' b'] assms(3) by simp
next
  case (SWhereArrayContainsAny name vs)
  then show ?thesis
    using appendConds_step [OF assms(1,2), of extra _ h' b'] assms(3) by (auto simp: Let_def)
qed (use assms in \<open>auto simp: builderOk_def builderView_def builderSep_def stepKeeps_def builderSafe_def\<close>)

lemma sliceStep_panics: "sliceStep extra c h b = None \<longleftrightarrow> buildStep c q = None"
  by (cases c) (simp_all add: Let_def)

section \<open>Builders side by side\<close>

definition storeOk :: "'d builderStore \<Rightarrow> bool" where
  "storeOk st =
     (list_all (builderOk (stArrays st)) (stBuilders st) \<and>
      list_all (\<lambda>b. list_all (builderSep b) (stBuilders st)) (stBuilders st))"

lemma storeOk_nth:
  assumes "storeOk st" "i < length (stBuilders st)" "j < length (stBuilders st)"
  shows "builderOk (stArrays st) (stBuilders st ! i)" "builderSep (stBuilders st ! i) (stBuilders st ! j)"
  using assms by (simp_all add: storeOk_def list_all_length)

lemma builderSep_sym: "builderSep b c = builderSep c b"
  by (auto simp: builderSep_def)

lemma callAt_step:
  assumes ok: "storeOk st" and i: "i < length (stBuilders st)" and call: "callAt extra i c st = Some st'"
  shows "storeOk st'" "length (stBuilders st') = length (stBuilders st)"
    "buildStep c (viewAt st i) = Some (viewAt st' i)"
    "j < length (stBuilders st) \<Longrightarrow> j \<noteq> i \<Longrightarrow> builderSafe (stBuilders st ! i) (stBuilders st ! j) \<Longrightarrow>
      viewAt st' j = viewAt st j \<and> stBuilders st' ! j = stBuilders st ! j \<and>
      builderSafe (stBuilders st' ! i) (stBuilders st' ! j)"
proof -
  let ?bs = "stBuilders st" and ?h = "stArrays st"
  obtain h b where step: "sliceStep extra c ?h (?bs ! i) = Some (h, b)"
    and st': "st' = \<lparr>stArrays = h, stBuilders = ?bs[i := b]\<rparr>"
    using call by (auto simp: callAt_def)
  note S = sliceStep_step [OF storeOk_nth(1) [OF ok i i] storeOk_nth(2) [OF ok i i] step]
  have keep: "stepKeeps ?h (?bs ! i) h b (?bs ! k)" if "k < length ?bs" for k
    using S [of "?bs ! k"] storeOk_nth [OF ok that that] storeOk_nth [OF ok i that] by simp
  have "builderOk h (?bs[i := b] ! k)" if "k < length ?bs" for k
    using S keep [OF that] i that by (cases "k = i") (simp_all add: stepKeeps_def)
  moreover have "builderSep (?bs[i := b] ! k) (?bs[i := b] ! l)" if "k < length ?bs" "l < length ?bs" for k l
    using S keep [OF that(1)] keep [OF that(2)] i that storeOk_nth(2) [OF ok that]
      builderSep_sym [of "?bs ! k" b]
    by (cases "k = i"; cases "l = i") (simp_all add: stepKeeps_def)
  ultimately show "storeOk st'"
    by (simp add: storeOk_def st' list_all_length)
  show "length (stBuilders st') = length ?bs"
    by (simp add: st')
  show "buildStep c (viewAt st i) = Some (viewAt st' i)"
    using S i by (simp add: viewAt_def st')
  assume "j < length ?bs" "j \<noteq> i" "builderSafe (?bs ! i) (?bs ! j)"
  then show "viewAt st' j = viewAt st j \<and> stBuilders st' ! j = ?bs ! j \<and>
      builderSafe (stBuilders st' ! i) (stBuilders st' ! j)"
    using keep [of j] i by (simp add: stepKeeps_def viewAt_def st')
qed

lemma callsAt_run:
  assumes "storeOk st" "i < length (stBuilders st)" "j < length (stBuilders st)" "j \<noteq> i"
    and "builderSafe (stBuilders st ! i) (stBuilders st ! j)"
  shows "case callsAt extra i cs st of
      None \<Rightarrow> runBuilder cs (viewAt st i) = None
    | Some st' \<Rightarrow> runBuilder cs (viewAt st i) = Some (viewAt st' i) \<and> viewAt st' j = viewAt st j"
  using assms
proof (induction cs arbitrary: st)
  case (Cons c cs)
  show ?case
  proof (cases "callAt extra i c st")
    case None
    then have "buildStep c (viewAt st i) = None"
      using sliceStep_panics [of extra c "stArrays st" "stBuilders st ! i" "viewAt st i"]
      by (simp add: callAt_def)
    then show ?thesis using None by simp
  next
    case (Some st1)
    note step = callAt_step [OF Cons.prems(1,2) Some]
    have "j < length (stBuilders st1)" "i < length (stBuilders st1)"
      using step(2) Cons.prems(2,3) by simp_all
    then show ?thesis
      using Cons.IH [OF step(1)] step(3) step(4) [OF Cons.prems(3-5)] Cons.prems(4) Some
      by (auto split: option.splits)
  qed
qed simp

lemma Clone_ok: "storeOk st \<Longrightarrow> i < length (stBuilders st) \<Longrightarrow> storeOk (Clone i st)"
  using builderSep_sym by (auto simp: storeOk_def Clone_def list_all_iff)

lemma builderSafe_refl: "builderSafe b b"
  by (simp add: builderSafe_def slSafe_def)

text \<open>C26: a clone of a query builder is a copy as long as one of the two is left alone: after
  \<open>Clone\<close>, any sequence of calls on the clone gives what the same calls give on a builder with the
  original's content, panics included, and leaves what the original shows unchanged; and the other
  way round. This holds whatever room \<open>append\<close> leaves in the arrays the two share.\<close>

theorem clone_is_a_copy:
  assumes "storeOk st" "i < length (stBuilders st)" "j = length (stBuilders st)"
  shows "(case callsAt extra j cs (Clone i st) of
            None \<Rightarrow> runBuilder cs (viewAt st i) = None
          | Some st' \<Rightarrow> runBuilder cs (viewAt st i) = Some (viewAt st' j) \<and> viewAt st' i = viewAt st i) \<and>
         (case callsAt extra i cs (Clone i st) of
            None \<Rightarrow> runBuilder cs (viewAt st i) = None
          | Some st' \<Rightarrow> runBuilder cs (viewAt st i) = Some (viewAt st' i) \<and> viewAt st' j = viewAt st i)"
proof -
  have nth: "stBuilders (Clone i st) ! j = stBuilders st ! i" "stBuilders (Clone i st) ! i = stBuilders st ! i"
    and len: "i < length (stBuilders (Clone i st))" "j < length (stBuilders (Clone i st))" "i \<noteq> j" "j \<noteq> i"
    using assms(2,3) by (simp_all add: Clone_def nth_append)
  have view: "viewAt (Clone i st) j = viewAt st i" "viewAt (Clone i st) i = viewAt st i"
    using nth by (simp_all add: viewAt_def) (simp_all add: Clone_def)
  have safe: "builderSafe (stBuilders (Clone i st) ! j) (stBuilders (Clone i st) ! i)"
    "builderSafe (stBuilders (Clone i st) ! i) (stBuilders (Clone i st) ! j)"
    using nth builderSafe_refl by simp_all
  show ?thesis
    using callsAt_run [OF Clone_ok [OF assms(1,2)] len(2,1,3) safe(1), where extra = extra and cs = cs]
      callsAt_run [OF Clone_ok [OF assms(1,2)] len(1,2,4) safe(2), where extra = extra and cs = cs]
    unfolding view by (rule conjI)
qed

text \<open>The store in which a builder was made by \<open>NewQueryBuilder\<close>.\<close>

definition freshStore :: "fromSource \<Rightarrow> 'd builderStore" where
  "freshStore f = \<lparr>stArrays = \<lparr>arrCond = [], arrExpr = [], arrOrd = []\<rparr>, stBuilders = [newSliceBuilder f]\<rparr>"

lemma freshStore_ok: "storeOk (freshStore f)"
  by (simp add: storeOk_def freshStore_def newSliceBuilder_def builderOk_def builderSep_def slOk_def nilSlice_def)

lemma freshStore_view: "viewAt (freshStore f) 0 = NewQueryBuilder f"
  by (simp add: viewAt_def freshStore_def newSliceBuilder_def builderView_def slView_def nilSlice_def
      NewQueryBuilder_def newStructuredQuery_def)

text \<open>A builder on its own, which nothing was cloned from, is the value of theory \<open>DalQuery\<close>.\<close>

lemma callsAt_alone:
  assumes "storeOk st" "i < length (stBuilders st)"
  shows "map_option (\<lambda>st'. viewAt st' i) (callsAt extra i cs st) = runBuilder cs (viewAt st i)"
  using assms
proof (induction cs arbitrary: st)
  case (Cons c cs)
  show ?case
  proof (cases "callAt extra i c st")
    case None
    then show ?thesis
      using sliceStep_panics [of extra c "stArrays st" "stBuilders st ! i" "viewAt st i"]
      by (simp add: callAt_def)
  next
    case (Some st1)
    then show ?thesis
      using Cons.IH [of st1] callAt_step(1-3) [OF Cons.prems Some] Cons.prems(2) by simp
  qed
qed simp

definition usersFrom :: fromSource where
  "usersFrom = \<lparr>fromBase = CollectionRef ''users'' [] None, fromJoins = []\<rparr>"

theorem clone_is_a_copy_witness:
  "case callsAt (\<lambda>cap needed. cap) 1 [SLimit 5] (Clone 0 (freshStore usersFrom :: unit builderStore)) of
     None \<Rightarrow> False
   | Some st' \<Rightarrow> viewAt st' 0 = NewQueryBuilder usersFrom"
proof -
  have "storeOk (freshStore usersFrom :: unit builderStore)" by (rule freshStore_ok)
  moreover have len: "length (stBuilders (freshStore usersFrom :: unit builderStore)) = 1"
    by (simp add: freshStore_def)
  ultimately show ?thesis
    using clone_is_a_copy [of "freshStore usersFrom :: unit builderStore" 0 1, where extra = "\<lambda>cap needed. cap" and cs = "[SLimit 5]"]
    by (simp add: freshStore_view split: option.splits)
qed

lemma goAppend_in_place:
  assumes "slArray s = Some a" "slLen s < length (h ! a)"
  shows "goAppend extra zero h s [x] = (h[a := (h ! a)[slLen s := x]], s\<lparr>slLen := slLen s + 1\<rparr>)"
proof -
  have "take (slLen s) (h ! a) @ [x] @ drop (slLen s + 1) (h ! a) = (h ! a)[slLen s := x]"
    using assms(2) by (simp add: upd_conv_take_nth_drop)
  then show ?thesis
    using assms by (simp add: goAppend_def Let_def slCap_def)
qed

text \<open>A clone is not independent once both are extended: when the array behind the conditions
  of a builder has room left, adding one condition to the builder and then another to its clone
  puts the clone's condition in the builder's place too. Both then ask for the clone's condition,
  and the builder's own is lost.\<close>

theorem clone_overwrites_original:
  assumes "storeOk st" "i < length (stBuilders st)" "j = length (stBuilders st)"
    and "slArray (sbConditions (stBuilders st ! i)) = Some a"
    and "slLen (sbConditions (stBuilders st ! i)) < length (arrCond (stArrays st) ! a)"
  shows "\<exists>st1 st2. callAt extra i (SWhere [c]) (Clone i st) = Some st1 \<and>
      bConditions (viewAt st1 i) = bConditions (viewAt st i) @ [c] \<and>
      callAt extra j (SWhere [d]) st1 = Some st2 \<and>
      bConditions (viewAt st2 j) = bConditions (viewAt st i) @ [d] \<and>
      bConditions (viewAt st2 i) = bConditions (viewAt st i) @ [d]"
proof -
  let ?b = "stBuilders st ! i" and ?h = "arrCond (stArrays st)"
  let ?s = "sbConditions ?b"
  have a: "a < length ?h"
    using storeOk_nth(1) [OF assms(1,2,2)] assms(4) by (simp add: builderOk_def slOk_def)
  let ?h1 = "?h[a := (?h ! a)[slLen ?s := c]]"
  let ?b1 = "?b\<lparr>sbConditions := ?s\<lparr>slLen := slLen ?s + 1\<rparr>\<rparr>"
  define st1 where "st1 = \<lparr>stArrays = (stArrays st)\<lparr>arrCond := ?h1\<rparr>, stBuilders = (stBuilders st @ [?b])[i := ?b1]\<rparr>"
  have one: "callAt extra i (SWhere [c]) (Clone i st) = Some st1"
    using assms(2) goAppend_in_place [OF assms(4,5)]
    by (simp add: callAt_def appendConds_def Clone_def st1_def nth_append)
  let ?h2 = "?h[a := (?h ! a)[slLen ?s := d]]"
  define st2 where "st2 = \<lparr>stArrays = (stArrays st)\<lparr>arrCond := ?h2\<rparr>, stBuilders = (stBuilders st @ [?b])[i := ?b1, j := ?b1]\<rparr>"
  have bj: "stBuilders st1 ! j = ?b"
    using assms(2,3) by (simp add: st1_def nth_append)
  have "goAppend extra NilCondition ?h1 ?s [d] = (?h2, ?s\<lparr>slLen := slLen ?s + 1\<rparr>)"
    using goAppend_in_place [of ?s a ?h1] assms(4,5) a by simp
  then have two: "callAt extra j (SWhere [d]) st1 = Some st2"
    using bj by (simp add: callAt_def appendConds_def) (simp add: st1_def st2_def)
  have view: "slView (?h[a := (?h ! a)[slLen ?s := w]]) (?s\<lparr>slLen := slLen ?s + 1\<rparr>) = slView ?h ?s @ [w]" for w
    using assms(4,5) a by (simp add: slView_def take_Suc_conv_app_nth)
  have "stBuilders st1 ! i = ?b1" "stBuilders st2 ! i = ?b1" "stBuilders st2 ! j = ?b1"
    using assms(2,3) by (simp_all add: st1_def st2_def)
  then show ?thesis
    using one two view [of c] view [of d]
    by (intro exI [of _ st1] exI [of _ st2]) (simp add: viewAt_def builderView_def, simp add: st1_def st2_def)
qed

text \<open>Three calls of \<open>Where\<close> on a runtime that doubles capacities leave room for one more.\<close>

definition doubling :: "nat \<Rightarrow> nat \<Rightarrow> nat" where
  "doubling cap needed = 2 * cap - needed"

definition threeConditions :: "unit builderStore" where
  "threeConditions =
     \<lparr>stArrays = \<lparr>arrCond = [[OtherCondition ''a''], [OtherCondition ''a'', OtherCondition ''b''],
        [OtherCondition ''a'', OtherCondition ''b'', OtherCondition ''c'', NilCondition]], arrExpr = [], arrOrd = []\<rparr>,
      stBuilders = [(newSliceBuilder usersFrom)\<lparr>sbConditions := \<lparr>slArray = Some 2, slLen = 3\<rparr>\<rparr>]\<rparr>"

lemma threeConditions_reached:
  "callsAt doubling 0 [SWhere [OtherCondition ''a''], SWhere [OtherCondition ''b''], SWhere [OtherCondition ''c'']]
     (freshStore usersFrom) = Some threeConditions"
  by (simp add: callAt_def appendConds_def goAppend_def freshStore_def newSliceBuilder_def nilSlice_def slCap_def
      slView_def doubling_def threeConditions_def Let_def)

theorem clone_overwrites_original_witness:
  "\<exists>st1 st2. callAt doubling 0 (SWhere [OtherCondition ''mine'']) (Clone 0 threeConditions) = Some st1 \<and>
    callAt doubling 1 (SWhere [OtherCondition ''clone'']) st1 = Some st2 \<and>
    bConditions (viewAt st2 0) =
      [OtherCondition ''a'', OtherCondition ''b'', OtherCondition ''c'', OtherCondition ''clone'']"
proof -
  have "storeOk threeConditions"
    by (simp add: threeConditions_def storeOk_def newSliceBuilder_def builderOk_def builderSep_def slOk_def nilSlice_def)
  moreover have "bConditions (viewAt threeConditions 0) = [OtherCondition ''a'', OtherCondition ''b'', OtherCondition ''c'']"
    by (simp add: threeConditions_def viewAt_def builderView_def slView_def)
  ultimately show ?thesis
    using clone_overwrites_original [of threeConditions 0 1 2, where extra = doubling and
        c = "OtherCondition ''mine''" and d = "OtherCondition ''clone''"]
    by (auto simp: threeConditions_def)
qed

end
