(* ===== verification/DalError.thy ===== *)
theory DalError
  imports DalInsert MemoryValue
begin

text \<open>
  Values of package \<open>dal\<close> that stand beside the operations: the errors of \<open>src/dal/errors.go\<close> with
  their text and the chain \<open>errors.Is\<close> follows, adapters (\<open>adapter.go\<close>), the mapping between keys and
  data (\<open>schema.go\<close>, \<open>schema_extra_field.go\<close>), field transforms (\<open>transform.go\<close>, \<open>unions.go\<close>), random string identifiers (\<open>key_options.go\<close>,
  \<open>tx_inserter.go\<close>) and the concurrency markers (\<open>concurrency.go\<close>).

  The text of \<open>record.ErrRecordNotFound\<close> and of a key belong to the module \<open>record\<close>, and \<open>random.ID\<close> to
  \<open>github.com/strongo/random\<close>: they are arguments. A nil error or function is \<^const>\<open>None\<close>.
\<close>

section \<open>Definitions\<close>

subsection \<open>Errors\<close>

text \<open>
  \<open>Errorf e msg\<close> is \<open>fmt.Errorf("%w: %v", e, msg)\<close>; \<open>ErrOther\<close> is any error that wraps nothing,
  told apart by its number and with its text.
\<close>

datatype dalErr =
    ErrRecordNotFound
  | ErrOther nat string
  | Errorf dalErr string
  | ErrNotFoundByKey "key option" "dalErr option"
  | RollbackError "dalErr option" "dalErr option"
  | ErrDuplicateUser string "string list"

definition causeOf :: "dalErr option \<Rightarrow> dalErr" where
  "causeOf cause = (case cause of None \<Rightarrow> ErrRecordNotFound | Some e \<Rightarrow> e)"

fun unwrapDal :: "dalErr \<Rightarrow> dalErr option" where
  "unwrapDal (Errorf e msg) = Some e"
| "unwrapDal (ErrNotFoundByKey k cause) = Some (causeOf cause)"
| "unwrapDal _ = None"

text \<open>\<open>errors.Is(err, target)\<close>.\<close>

fun isDalErr :: "dalErr \<Rightarrow> dalErr \<Rightarrow> bool" where
  "isDalErr (Errorf e msg) target = (Errorf e msg = target \<or> isDalErr e target)"
| "isDalErr (ErrNotFoundByKey k None) target =
     (ErrNotFoundByKey k None = target \<or> target = ErrRecordNotFound)"
| "isDalErr (ErrNotFoundByKey k (Some e)) target =
     (ErrNotFoundByKey k (Some e) = target \<or> isDalErr e target)"
| "isDalErr e target = (e = target)"

definition optIs :: "dalErr option \<Rightarrow> dalErr \<Rightarrow> bool" where
  "optIs e target = (case e of None \<Rightarrow> False | Some e' \<Rightarrow> isDalErr e' target)"

text \<open>The text of an error; \<open>%v\<close> of a nil error is \<open><nil>\<close>.\<close>

fun dalErrText :: "string \<Rightarrow> (key option \<Rightarrow> string) \<Rightarrow> dalErr \<Rightarrow> string" where
  "dalErrText nf keyText ErrRecordNotFound = nf"
| "dalErrText nf keyText (ErrOther n msg) = msg"
| "dalErrText nf keyText (Errorf e msg) = dalErrText nf keyText e @ '': '' @ msg"
| "dalErrText nf keyText (ErrNotFoundByKey k None) = nf @ '': not found by key='' @ keyText k"
| "dalErrText nf keyText (ErrNotFoundByKey k (Some e)) =
     dalErrText nf keyText e @
       (if isDalErr e ErrRecordNotFound then '': by key='' else '': not found by key='') @ keyText k"
| "dalErrText nf keyText (RollbackError orig rollback) =
     ''rollback failed: '' @ (case rollback of None \<Rightarrow> ''<nil>'' | Some e \<Rightarrow> dalErrText nf keyText e) @
     (case orig of None \<Rightarrow> [] | Some e \<Rightarrow> '': original error: '' @ dalErrText nf keyText e)"
| "dalErrText nf keyText (ErrDuplicateUser criteria ids) =
     ''multiple users by given search criteria['' @ criteria @ '']: '' @ joinWith '','' ids"

definition errNotFoundCause :: "string \<Rightarrow> (key option \<Rightarrow> string) \<Rightarrow> dalErr option \<Rightarrow> dalErr" where
  "errNotFoundCause nf keyText cause =
     (case cause of
        None \<Rightarrow> ErrRecordNotFound
      | Some e \<Rightarrow>
          (if e = ErrRecordNotFound then ErrRecordNotFound
           else Errorf ErrRecordNotFound (dalErrText nf keyText e)))"

definition NewErrNotFoundByKey ::
  "string \<Rightarrow> (key option \<Rightarrow> string) \<Rightarrow> key option \<Rightarrow> dalErr option \<Rightarrow> dalErr" where
  "NewErrNotFoundByKey nf keyText k cause = ErrNotFoundByKey k (Some (errNotFoundCause nf keyText cause))"

definition NewRollbackError :: "dalErr option \<Rightarrow> dalErr option \<Rightarrow> dalErr" where
  "NewRollbackError rollbackErr originalErr = RollbackError originalErr rollbackErr"

subsection \<open>Adapters\<close>

record adapter =
  adName :: string
  adVersion :: string

definition NewAdapter :: "string \<Rightarrow> string \<Rightarrow> adapter" where
  "NewAdapter name version = \<lparr>adName = name, adVersion = version\<rparr>"

definition adapterEquals :: "adapter \<Rightarrow> adapter \<Rightarrow> bool" where
  "adapterEquals v other = (adName v = adName other \<and> adVersion v = adVersion other)"

definition adapterString :: "adapter \<Rightarrow> string" where
  "adapterString v = adName v @ ''@'' @ adVersion v"

subsection \<open>Keys and data\<close>

record extraField =
  efName :: string
  efValue :: "value"

text \<open>\<open>SchemaBase\<close>; its two functions belong to the caller, and \<open>KeyToFields\<close> may be nil.\<close>

record ('d, 'e) schemaBase =
  keyToFields :: "(key \<Rightarrow> 'd \<Rightarrow> 'e + extraField list) option"
  dataToKey :: "(key \<Rightarrow> 'd \<Rightarrow> 'e + key) option"

definition NewSchema ::
  "(key \<Rightarrow> 'd \<Rightarrow> 'e + extraField list) option \<Rightarrow> (key \<Rightarrow> 'd \<Rightarrow> 'e + key) option \<Rightarrow> ('d, 'e) schemaBase" where
  "NewSchema k2f d2k = \<lparr>keyToFields = k2f, dataToKey = d2k\<rparr>"

text \<open>Calling a nil \<open>dataToKey\<close> panics, which is \<^const>\<open>None\<close>.\<close>

definition DataToKey :: "('d, 'e) schemaBase \<Rightarrow> key \<Rightarrow> 'd \<Rightarrow> ('e + key) option" where
  "DataToKey s incompleteKey data = map_option (\<lambda>f. f incompleteKey data) (dataToKey s)"

definition KeyToFields :: "('d, 'e) schemaBase \<Rightarrow> key \<Rightarrow> 'd \<Rightarrow> 'e + extraField list" where
  "KeyToFields s k data = (case keyToFields s of None \<Rightarrow> Inr [] | Some f \<Rightarrow> f k data)"

subsection \<open>Transforms\<close>

datatype transformValue =
    TransformVal string "value"
  | ArrayUnionVal "value list"
  | NoTransform "value"

definition Increment :: "int \<Rightarrow> transformValue" where
  "Increment v = TransformVal ''increment'' (VInt ''int'' v)"

definition ArrayUnion :: "value list \<Rightarrow> transformValue" where
  "ArrayUnion elems = ArrayUnionVal elems"

text \<open>The interface \<open>Transform\<close>: which values have it, their name and value.\<close>

fun transformName :: "transformValue \<Rightarrow> string option" where
  "transformName (TransformVal name v) = Some name"
| "transformName (ArrayUnionVal elems) = Some ''ArrayUnion''"
| "transformName (NoTransform v) = None"

fun transformArg :: "transformValue \<Rightarrow> value option" where
  "transformArg (TransformVal name v) = Some v"
| "transformArg (ArrayUnionVal elems) = Some (VList anySlice elems)"
| "transformArg (NoTransform v) = None"

text \<open>\<open>IsTransform\<close> asserts the struct \<open>transform\<close>, not the interface.\<close>

fun IsTransform :: "transformValue \<Rightarrow> bool" where
  "IsTransform (TransformVal name v) = True"
| "IsTransform _ = False"

subsection \<open>Random string identifiers\<close>

record randomStringOptions =
  rsoLength :: int
  rsoPrefix :: string

definition defaultRandomStringIDLength :: int where
  "defaultRandomStringIDLength = 16"

definition rsoLengthOf :: "randomStringOptions \<Rightarrow> int" where
  "rsoLengthOf v = (if rsoLength v = 0 then defaultRandomStringIDLength else rsoLength v)"

definition Prefix :: "string \<Rightarrow> randomStringOptions \<Rightarrow> randomStringOptions" where
  "Prefix prefix opts = opts\<lparr>rsoPrefix := prefix\<rparr>"

definition RandomLength :: "int \<Rightarrow> randomStringOptions \<Rightarrow> randomStringOptions" where
  "RandomLength len opts = opts\<lparr>rsoLength := len\<rparr>"

text \<open>
  A key option on a key and the state of the random source: the key it leaves, or a panic with its
  message. \<open>g\<close> is the generator and \<open>'r\<close> what it returns, an error included; the kind of the identifier is not part
  of a key here.
\<close>

definition WithIDGenerator :: "('s \<Rightarrow> key \<Rightarrow> 'r) \<Rightarrow> 's \<Rightarrow> key \<Rightarrow> string + 'r" where
  "WithIDGenerator g s k =
     (if keyID k \<noteq> GNil
      then Inl ''an attempt to set ID generator for a child that already have an ID value''
      else Inr (g s k))"

definition WithRandomStringID ::
  "(int \<Rightarrow> 's \<Rightarrow> 's \<times> string) \<Rightarrow> (randomStringOptions \<Rightarrow> randomStringOptions) list \<Rightarrow> 's \<Rightarrow> key \<Rightarrow> string + 's \<times> key" where
  "WithRandomStringID random options s k =
     (let rso = fold (\<lambda>f o1. f o1) options \<lparr>rsoLength = 0, rsoPrefix = []\<rparr>
      in WithIDGenerator
           (\<lambda>s k. case random (rsoLengthOf rso) s of (s', w) \<Rightarrow> (s', withKeyID (goStr (rsoPrefix rso @ w)) k)) s k)"

subsection \<open>Concurrency\<close>

text \<open>The two markers a database embeds to say whether it supports concurrent connections.\<close>

datatype concurrencyMarker = NoConcurrency | ConcurrencyAvailable

fun SupportsConcurrentConnections :: "concurrencyMarker \<Rightarrow> bool" where
  "SupportsConcurrentConnections NoConcurrency = False"
| "SupportsConcurrentConnections ConcurrencyAvailable = True"

section \<open>Errors\<close>

text \<open>\<open>isDalErr\<close> is the search along \<open>Unwrap\<close>.\<close>

lemma isDalErr_unwrap:
  "isDalErr e target \<longleftrightarrow> e = target \<or> (\<exists>e'. unwrapDal e = Some e' \<and> isDalErr e' target)"
  by (cases e; cases "case e of ErrNotFoundByKey k c \<Rightarrow> c | _ \<Rightarrow> None") (auto simp: causeOf_def)

lemma errNotFoundCause_is:
  "isDalErr (errNotFoundCause nf keyText cause) target \<longleftrightarrow>
     target = ErrRecordNotFound \<or> target = errNotFoundCause nf keyText cause"
  by (auto simp: errNotFoundCause_def split: option.splits if_splits)

text \<open>C40: the error \<open>NewErrNotFoundByKey\<close> makes is always recognised as a missing record: along its
  chain \<open>errors.Is\<close> finds \<open>record.ErrRecordNotFound\<close>, whatever the cause. Its text names the key
  last and contains the text of the cause. Of the cause only the text is kept: nothing but the error itself,
  its own wrapper and \<open>ErrRecordNotFound\<close> is found along the chain, so a cause that is another
  error is not.\<close>

theorem not_found_error_chain:
  "isDalErr (NewErrNotFoundByKey nf keyText k cause) ErrRecordNotFound \<and>
   dalErrText nf keyText (NewErrNotFoundByKey nf keyText k cause) =
     nf @ (case cause of None \<Rightarrow> [] | Some e \<Rightarrow> if e = ErrRecordNotFound then [] else '': '' @ dalErrText nf keyText e) @
     '': by key='' @ keyText k \<and>
   (isDalErr (NewErrNotFoundByKey nf keyText k cause) target \<longleftrightarrow>
     target \<in> {ErrRecordNotFound, errNotFoundCause nf keyText cause, NewErrNotFoundByKey nf keyText k cause})"
  by (auto simp: NewErrNotFoundByKey_def errNotFoundCause_is)
     (auto simp: errNotFoundCause_def split: option.splits)

text \<open>The cause of a not-found error is lost as soon as it is not the sentinel.\<close>

lemma not_found_error_hides_cause:
  "isDalErr (NewErrNotFoundByKey nf keyText k (Some (ErrOther n msg))) (ErrOther n msg) = False"
  by (simp add: NewErrNotFoundByKey_def errNotFoundCause_def)

text \<open>A rollback error has no \<open>Unwrap\<close>: neither of its two errors is found along its chain.\<close>

lemma rollback_error_opaque:
  "isDalErr (NewRollbackError r orig) target \<longleftrightarrow> target = NewRollbackError r orig"
  by (auto simp: NewRollbackError_def)

section \<open>Adapters, schemas and transforms\<close>

lemma adapterEquals_iff: "adapterEquals v w \<longleftrightarrow> v = w"
  by (cases v; cases w) (simp add: adapterEquals_def)

text \<open>Two adapters of different names can print alike.\<close>

lemma adapterString_ambiguous:
  "adapterString (NewAdapter ''a@b'' ''c'') = adapterString (NewAdapter ''a'' ''b@c'')"
  by (simp add: adapterString_def NewAdapter_def)

lemma KeyToFields_default: "KeyToFields (NewSchema None d2k) k d = Inr []"
  by (simp add: KeyToFields_def NewSchema_def)

text \<open>An array union is a transform by its interface, and \<open>IsTransform\<close> does not see it.\<close>

lemma array_union_unseen:
  "transformName (ArrayUnion elems) \<noteq> None \<and> \<not> IsTransform (ArrayUnion elems)"
  "transformName (Increment n) \<noteq> None \<and> IsTransform (Increment n)"
  by (simp_all add: ArrayUnion_def Increment_def)

section \<open>Random string identifiers\<close>

lemma WithRandomStringID_fresh:
  assumes "keyID k = GNil"
  shows "WithRandomStringID random [Prefix p, RandomLength n] s k =
    Inr (fst (random (if n = 0 then 16 else n) s),
         withKeyID (goStr (p @ snd (random (if n = 0 then 16 else n) s))) k)"
  using assms
  by (simp add: WithRandomStringID_def WithIDGenerator_def Prefix_def RandomLength_def rsoLengthOf_def
      defaultRandomStringIDLength_def Let_def split: prod.split)

lemma WithRandomStringID_refuses:
  "keyID k \<noteq> GNil \<Longrightarrow> \<exists>msg. WithRandomStringID random opts s k = Inl msg"
  by (simp add: WithRandomStringID_def WithIDGenerator_def Let_def)

end
