(* ===== verification/DalSource.thy ===== *)
theory DalSource
  imports DalQuery
begin

text \<open>
  The rest of the query language of package \<open>dal\<close>: the constructors of aggregate columns
  (\<open>q_functions.go\<close>), orders (\<open>q_field.go\<close>), comparisons and groups (\<open>q_conditions.go\<close>, \<open>q_group_condition.go\<close>), the \<open>Equal\<close> methods
  (\<open>q_conditions.go\<close>, \<open>q_constant.go\<close>, \<open>q_field_ref.go\<close>, \<open>q_collection_ref.go\<close>), the text of
  sources, text queries (\<open>q_text.go\<close>), and from-clauses as the shared objects they are
  (\<open>q_recordset_source.go\<close>, \<open>From\<close> of \<open>q_builder.go\<close>).

  \<open>reflect.DeepEqual\<close> on the values inside expressions is an argument, and so is whether two
  parents of collection references are the same pointer.
\<close>

section \<open>Definitions\<close>

subsection \<open>Constructors\<close>

definition SumAs :: "expression \<Rightarrow> string \<Rightarrow> column_dal" where
  "SumAs e al = singleArgFunctionAs ''SUM'' al e"

definition CountAs :: "expression \<Rightarrow> string \<Rightarrow> column_dal" where
  "CountAs e al = singleArgFunctionAs ''COUNT'' al e"

definition MinAs :: "expression \<Rightarrow> string \<Rightarrow> column_dal" where
  "MinAs e al = singleArgFunctionAs ''MIN'' al e"

definition MaxAs :: "expression \<Rightarrow> string \<Rightarrow> column_dal" where
  "MaxAs e al = singleArgFunctionAs ''MAX'' al e"

definition AverageAs :: "expression \<Rightarrow> string \<Rightarrow> column_dal" where
  "AverageAs e al = singleArgFunctionAs ''AVG'' al e"

definition Ascending :: "expression \<Rightarrow> orderExpression" where
  "Ascending e = \<lparr>ordExpression = e, ordDescending = False\<rparr>"

definition AscendingField :: "string \<Rightarrow> orderExpression" where
  "AscendingField name = Ascending (NewFieldRef [] name)"

definition Descending :: "expression \<Rightarrow> orderExpression" where
  "Descending e = \<lparr>ordExpression = e, ordDescending = True\<rparr>"

definition DescendingField :: "string \<Rightarrow> orderExpression" where
  "DescendingField name = Descending (NewFieldRef [] name)"

definition NewComparison :: "expression \<Rightarrow> operator \<Rightarrow> expression \<Rightarrow> condition" where
  "NewComparison left opr right = Comparison opr left right"

definition dalString :: "string \<Rightarrow> expression" where
  "dalString v = Constant (VString ''string'' v)"

definition NewGroupCondition :: "operator \<Rightarrow> condition list \<Rightarrow> condition" where
  "NewGroupCondition opr cs = GroupCondition opr cs"

definition NewRootCollectionRef :: "string \<Rightarrow> string \<Rightarrow> recordsetSource option" where
  "NewRootCollectionRef name al = NewCollectionRef name al None"

definition NewJoinedSource :: "recordsetSource \<Rightarrow> string \<Rightarrow> condition list \<Rightarrow> joinedSource" where
  "NewJoinedSource src joinType on = \<lparr>jsSource = src, jsJoinType = joinType, jsOn = on\<rparr>"

subsection \<open>Text of sources\<close>

fun sourceString :: "(key \<Rightarrow> string) \<Rightarrow> recordsetSource \<Rightarrow> string" where
  "sourceString keyText (CollectionRef name al parent) =
     (let path = (if name \<noteq> [] \<and> parent = None then name else collectionPath keyText (CollectionRef name al parent))
      in if al = [] then path else path @ '' AS '' @ al)"
| "sourceString keyText (CollectionGroupRef name al) =
     (if al = [] then ''dal.CollectionGroupRef{name='' @ [CHR 0x22] @ name @ [CHR 0x22] @ ''}''
      else ''dal.CollectionGroupRef{name='' @ [CHR 0x22] @ name @ [CHR 0x22] @ '',alias='' @
           [CHR 0x22] @ al @ [CHR 0x22] @ ''}'')"

subsection \<open>Equality\<close>

record deepEnv =
  deepValue :: "value \<Rightarrow> value \<Rightarrow> bool"
  deepOther :: "string \<Rightarrow> string \<Rightarrow> bool"

fun exprDeepEqual :: "deepEnv \<Rightarrow> expression \<Rightarrow> expression \<Rightarrow> bool"
  and exprsDeepEqual :: "deepEnv \<Rightarrow> expression list \<Rightarrow> expression list \<Rightarrow> bool" where
  "exprDeepEqual env (FieldRef s n i) (FieldRef s' n' i') = (s = s' \<and> n = n' \<and> i = i')"
| "exprDeepEqual env (Constant v) (Constant w) = deepValue env v w"
| "exprDeepEqual env (Array v) (Array w) = deepValue env v w"
| "exprDeepEqual env (Function f es) (Function g fs) = (f = g \<and> exprsDeepEqual env es fs)"
| "exprDeepEqual env Star Star = True"
| "exprDeepEqual env (OtherExpression a) (OtherExpression b) = deepOther env a b"
| "exprDeepEqual env _ _ = False"
| "exprsDeepEqual env [] [] = True"
| "exprsDeepEqual env (e # es) (f # fs) = (exprDeepEqual env e f \<and> exprsDeepEqual env es fs)"
| "exprsDeepEqual env _ _ = False"

text \<open>\<open>Comparison.Equal\<close>, on the operator and the two sides.\<close>

fun comparisonEqual :: "deepEnv \<Rightarrow> condition \<Rightarrow> condition \<Rightarrow> bool" where
  "comparisonEqual env (Comparison o1 l r) (Comparison o2 l' r') =
     (o1 = o2 \<and> exprDeepEqual env l l' \<and> exprDeepEqual env r r')"
| "comparisonEqual env _ _ = False"

text \<open>\<open>Constant.Equal\<close> is \<open>==\<close> on interfaces, which panics on values that are not comparable.\<close>

definition constantEqual :: "value \<Rightarrow> value \<Rightarrow> bool option" where
  "constantEqual v w = goEq v w"

fun fieldRefEqual :: "expression \<Rightarrow> expression \<Rightarrow> bool" where
  "fieldRefEqual (FieldRef s n i) (FieldRef s' n' i') = (s = s' \<and> i = i' \<and> n = n')"
| "fieldRefEqual _ _ = False"

definition collectionRefEqual ::
  "(key option \<Rightarrow> key option \<Rightarrow> bool) \<Rightarrow> recordsetSource \<Rightarrow> recordsetSource \<Rightarrow> bool \<Rightarrow> bool" where
  "collectionRefEqual samePtr v other ignoreAlias =
     (sourceName v = sourceName other \<and> samePtr (sourceParent v) (sourceParent other) \<and>
      (ignoreAlias \<or> sourceAlias v = sourceAlias other))"

subsection \<open>Text queries\<close>

record queryArg =
  qaName :: string
  qaValue :: "value"

record ('d, 'o) textQuery =
  tqText :: string
  tqArgs :: "queryArg list"
  tqOffset :: int
  tqLimit :: int
  tqGetKey :: "('d \<Rightarrow> queryArg list \<Rightarrow> key) option"
  tqOptions :: "'o list"

definition NewTextQuery :: "string \<Rightarrow> ('d \<Rightarrow> queryArg list \<Rightarrow> key) option \<Rightarrow> queryArg list \<Rightarrow> ('d, 'o) textQuery" where
  "NewTextQuery t getKey args =
     \<lparr>tqText = t, tqArgs = args, tqOffset = 0, tqLimit = 0, tqGetKey = getKey, tqOptions = []\<rparr>"

text \<open>The two ways to run it; the executor's methods are arguments.\<close>

definition textRecordsReader :: "(('d, 'o) textQuery \<Rightarrow> 'r) \<Rightarrow> ('d, 'o) textQuery \<Rightarrow> 'r" where
  "textRecordsReader execute q = execute q"

definition textRecordsetReader :: "(('d, 'o) textQuery \<Rightarrow> 'o list \<Rightarrow> 'r) \<Rightarrow> ('d, 'o) textQuery \<Rightarrow> 'r" where
  "textRecordsetReader execute q = execute q (tqOptions q)"

subsection \<open>From-clauses as objects\<close>

text \<open>
  \<open>FromSource\<close> is a pointer to a \<open>from\<close> that \<open>Join\<close> changes in place: a position in a store. A
  builder made by \<open>NewQueryBuilder\<close> keeps the pointer; \<open>NewQuery\<close> makes it one to a copy.
\<close>

type_synonym fromStore = "fromSource list"

definition fromNew :: "recordsetSource \<Rightarrow> fromStore \<Rightarrow> nat \<times> fromStore" where
  "fromNew source st = (length st, st @ [\<lparr>fromBase = source, fromJoins = []\<rparr>])"

definition fromJoin :: "nat \<Rightarrow> joinedSource \<Rightarrow> fromStore \<Rightarrow> fromStore" where
  "fromJoin p j st = st[p := joinFrom (st ! p) j]"

definition fromNewQuery :: "nat \<Rightarrow> fromStore \<Rightarrow> nat \<times> fromStore" where
  "fromNewQuery p st =
     (length st,
      st @ [\<lparr>fromBase = fromBase (st ! p),
             fromJoins = map (\<lambda>j. \<lparr>jsSource = jsSource j, jsJoinType = jsJoinType j, jsOn = jsOn j\<rparr>) (fromJoins (st ! p))\<rparr>])"

section \<open>Laws\<close>

lemma fieldRefEqual_iff:
  "fieldRefEqual e f \<longleftrightarrow> e = f \<and> (\<exists>s n i. e = FieldRef s n i)"
  by (cases "(e, f)" rule: fieldRefEqual.cases) auto

text \<open>With an equality on values for its argument, the deep equality of expressions is equality.\<close>

lemma exprDeepEqual_eq:
  assumes "\<And>v w. deepValue env v w \<longleftrightarrow> v = w" "\<And>a b. deepOther env a b \<longleftrightarrow> a = b"
  shows "exprDeepEqual env e f \<longleftrightarrow> e = f" "exprsDeepEqual env es fs \<longleftrightarrow> es = fs"
  using assms by (induction e f and es fs rule: exprDeepEqual_exprsDeepEqual.induct) auto

text \<open>References the method calls equal name the same path; the alias is compared unless it is to be ignored.\<close>

lemma collectionRefEqual_path:
  assumes "\<And>p q. samePtr p q \<Longrightarrow> p = q"
  shows "collectionRefEqual samePtr (CollectionRef n a p) (CollectionRef n' a' p') ig \<Longrightarrow>
    collectionPath keyText (CollectionRef n a p) = collectionPath keyText (CollectionRef n' a' p')"
  using assms [of p p'] by (cases p; cases p') (auto simp: collectionRefEqual_def)

text \<open>A reference made by its constructor shows its path, and its alias only when it is not the name.\<close>

lemma sourceString_new:
  assumes "NewCollectionRef name al parent = Some ref"
  shows "sourceString keyText ref =
    collectionPath keyText ref @ (if al = [] \<or> al = name then [] else '' AS '' @ al)"
  using assms by (cases parent) (auto simp: NewCollectionRef_def Let_def split: if_splits)

text \<open>
  A query made by \<open>NewQuery\<close> is not changed by later joins on the clause it came from, or on any
  other that existed; a builder that keeps the pointer sees them all, in order.
\<close>

lemma fromJoin_other: "p \<noteq> q \<Longrightarrow> fromJoin p j st ! q = st ! q"
  by (simp add: fromJoin_def)

lemma copied_from:
  "\<lparr>fromBase = fromBase f,
    fromJoins = map (\<lambda>j. \<lparr>jsSource = jsSource j, jsJoinType = jsJoinType j, jsOn = jsOn j\<rparr>) (fromJoins f)\<rparr> = f"
proof -
  have "(\<lambda>j. \<lparr>jsSource = jsSource j, jsJoinType = jsJoinType j, jsOn = jsOn j\<rparr>) = (\<lambda>j :: joinedSource. j)"
    by (rule ext) (rule joinedSource.equality, simp_all)
  then show ?thesis by (cases f) simp
qed

lemma fromJoins_fold:
  "q < length st \<Longrightarrow> fold (\<lambda>(p, j). fromJoin p j) joins st ! q =
     fold (\<lambda>(p, j) f. if p = q then joinFrom f j else f) joins (st ! q)"
proof (induction joins arbitrary: st)
  case (Cons pj joins)
  obtain p j where pj: "pj = (p, j)" by fastforce
  have "length (fromJoin p j st) = length st" by (simp add: fromJoin_def)
  then show ?case
    using Cons.IH [of "fromJoin p j st"] Cons.prems by (auto simp: pj fromJoin_def)
qed simp

lemma new_query_isolated:
  assumes "p < length st" "fromNewQuery p st = (q, st')" "list_all (\<lambda>(r, j). r < length st) joins"
  shows "fold (\<lambda>(r, j). fromJoin r j) joins st' ! q = st ! p"
proof -
  have q: "q = length st" "st' ! q = st ! p" "length st' = Suc (length st)"
    using assms(2) copied_from [of "st ! p"] by (auto simp: fromNewQuery_def)
  have "fold (\<lambda>(r, j) f. if r = q then joinFrom f j else f) joins f = f" for f
    using assms(3) q(1) by (induction joins) auto
  then show ?thesis
    using q by (simp add: fromJoins_fold)
qed

lemma shared_from_sees_joins:
  assumes "p < length st"
  shows "fromJoins (fold (\<lambda>j. fromJoin p j) js st ! p) = fromJoins (st ! p) @ js"
  using assms
proof (induction js arbitrary: st)
  case (Cons j js)
  then show ?case
    using Cons.IH [of "fromJoin p j st"] by (simp add: fromJoin_def joinFrom_def)
qed simp

end
