(* ===== verification/FsDirectory.thy ===== *)
theory FsDirectory
  imports DalReader
begin

text \<open>
  The directory adapter, \<open>src/adapters/dalgo2fs\<close>: a database over the files of a directory
  (\<open>database.go\<close>, \<open>record.go\<close>), its transactions, which refuse every operation
  (\<open>transaction.go\<close>), and the recordset reader over the entries of a directory
  (\<open>recordset_columns.go\<close>, \<open>recordset_reader.go\<close>).

  The operating system is an argument, \<open>fsEnv\<close>: the home directory, \<open>os.Stat\<close> and \<open>os.ReadDir\<close>.
  Package \<open>path/filepath\<close> is modelled for slash-separated paths. The typed columns a reader keeps are the columns of
  its recordset, shared by reference: they are positions in it. \<open>Close\<close> drops the reader's
  pointer, not the recordset, which a caller may hold: the recordset stays in the state and
  \<open>drOpen\<close> says whether the reader still points to it.
\<close>

section \<open>Definitions\<close>

subsection \<open>Paths\<close>

definition slash :: char where "slash = CHR ''/''"

text \<open>\<open>filepath.Clean\<close>: the elements that remain, the last one first.\<close>

fun cleanStep :: "bool \<Rightarrow> string list \<Rightarrow> string \<Rightarrow> string list" where
  "cleanStep rooted out seg =
     (if seg = [] \<or> seg = ''.'' then out
      else if seg = ''..'' then
        (case out of
           [] \<Rightarrow> (if rooted then [] else [''..''])
         | e # es \<Rightarrow> (if e = ''..'' then ''..'' # out else es))
      else seg # out)"

definition isRooted :: "string \<Rightarrow> bool" where
  "isRooted p = hasPrefix p [slash]"

definition cleanSegments :: "string \<Rightarrow> string list" where
  "cleanSegments p = rev (foldl (cleanStep (isRooted p)) [] (splitOn slash p))"

definition showPath :: "bool \<Rightarrow> string list \<Rightarrow> string" where
  "showPath rooted segs =
     (if rooted then slash # joinWith [slash] segs
      else if segs = [] then ''.'' else joinWith [slash] segs)"

definition pathClean :: "string \<Rightarrow> string" where
  "pathClean p = showPath (isRooted p) (cleanSegments p)"

text \<open>\<open>filepath.Join\<close> of two elements: empty ones are left out.\<close>

definition pathJoin :: "string \<Rightarrow> string \<Rightarrow> string" where
  "pathJoin a b =
     (let es = filter (\<lambda>e. e \<noteq> []) [a, b]
      in if es = [] then [] else pathClean (joinWith [slash] es))"

text \<open>\<open>path.Ext\<close>: from the last dot of the last element on.\<close>

definition pathExt :: "string \<Rightarrow> string" where
  "pathExt p =
     (let element = rev (takeWhile (\<lambda>c. c \<noteq> slash) (rev p))
      in if CHR ''.'' \<in> set element
         then CHR ''.'' # rev (takeWhile (\<lambda>c. c \<noteq> CHR ''.'') (rev element)) else [])"

subsection \<open>Files\<close>

datatype fsErr = NotExist string | FsError string

text \<open>A modification time is the number of its class under \<open>==\<close>, 0 the zero \<open>time.Time\<close>.\<close>

record fileInfo =
  fiSize :: int
  fiModTime :: nat

record dirEntry =
  deName :: string
  deIsDir :: bool
  deInfo :: "string + fileInfo"

record fsEnv =
  fsHome :: "string + string"
  fsStat :: "string \<Rightarrow> fsErr + fileInfo"
  fsReadDir :: "string \<Rightarrow> string + dirEntry list"

subsection \<open>Records\<close>

datatype recErr = ErrNoError | RecErrNotSupported | RecErr string

record fileRecord =
  frKey :: "key option"
  frData :: "fileInfo option"
  frChanged :: bool
  frErr :: "recErr option"

definition NewFileRecord :: "key option \<Rightarrow> fileRecord" where
  "NewFileRecord k = \<lparr>frKey = k, frData = None, frChanged = False, frErr = None\<rparr>"

definition frExists :: "fileRecord \<Rightarrow> bool" where
  "frExists f = (frErr f = None \<and> frData f \<noteq> None)"

definition frSetError :: "fileRecord \<Rightarrow> recErr option \<Rightarrow> fileRecord" where
  "frSetError f err = f\<lparr>frErr := Some (case err of None \<Rightarrow> ErrNoError | Some e \<Rightarrow> e)\<rparr>"

definition frSetData :: "fileRecord \<Rightarrow> fileInfo \<Rightarrow> fileRecord" where
  "frSetData f data = f\<lparr>frData := Some data\<rparr>"

definition frMarkAsChanged :: "fileRecord \<Rightarrow> fileRecord" where
  "frMarkAsChanged f = f\<lparr>frChanged := True\<rparr>"

text \<open>
  A record passed to the database: a file record, or one of another implementation, which is
  not code of the adapter: \<open>keyOf\<close> is its \<open>Key\<close> and \<open>setErr\<close> its \<open>SetError\<close>.
\<close>

datatype 'o fsRecord = FileRec fileRecord | OtherRec 'o

subsection \<open>The database\<close>

record fsDatabase =
  fsPath :: string
  fsDir :: fileInfo

definition openDir :: "fsEnv \<Rightarrow> string \<Rightarrow> fsErr + fsDatabase" where
  "openDir env dirPath =
     (case fsStat env dirPath of
        Inl e \<Rightarrow> Inl e
      | Inr fi \<Rightarrow> Inr \<lparr>fsPath = dirPath, fsDir = fi\<rparr>)"

definition fsNewDB :: "fsEnv \<Rightarrow> string \<Rightarrow> fsErr + fsDatabase" where
  "fsNewDB env dirPath =
     (if hasPrefix dirPath ''~''
      then
        (case fsHome env of
           Inl e \<Rightarrow> Inl (FsError e)
         | Inr home \<Rightarrow>
             if dirPath = ''~'' then openDir env home
             else if hasPrefix dirPath ''~/'' then openDir env (pathJoin home (drop 2 dirPath))
             else openDir env dirPath)
      else openDir env dirPath)"

text \<open>The file a key names; the assertion \<open>key.ID.(string)\<close> and a nil key panic.\<close>

definition keyFile :: "fsDatabase \<Rightarrow> key option \<Rightarrow> string goCall" where
  "keyFile d k =
     (case k of
        None \<Rightarrow> Panics
      | Some k' \<Rightarrow>
          (case keyID k' of
             GString t s \<Rightarrow> (if t = ''string'' then Return (pathJoin (fsPath d) s) else Panics)
           | _ \<Rightarrow> Panics))"

definition fsGet ::
  "('o \<Rightarrow> key option) \<Rightarrow> ('o \<Rightarrow> recErr \<Rightarrow> 'o) \<Rightarrow> fsEnv \<Rightarrow> fsDatabase \<Rightarrow> 'o fsRecord \<Rightarrow>
    (fsErr option \<times> 'o fsRecord) goCall" where
  "fsGet keyOf setErr env d rec =
     bindCall (keyFile d (case rec of FileRec f \<Rightarrow> frKey f | OtherRec r \<Rightarrow> keyOf r))
       (\<lambda>name.
         case fsStat env name of
           Inl err \<Rightarrow> Return (Some err, rec)
         | Inr fi \<Rightarrow>
             (case rec of
                FileRec f \<Rightarrow> Return (None, FileRec (frSetData f fi))
              | OtherRec r \<Rightarrow> Return (None, OtherRec (setErr r RecErrNotSupported))))"

definition fsExists :: "fsEnv \<Rightarrow> fsDatabase \<Rightarrow> key option \<Rightarrow> (fsErr option \<times> bool) goCall" where
  "fsExists env d k =
     bindCall (keyFile d k)
       (\<lambda>name.
         case fsStat env name of
           Inr fi \<Rightarrow> Return (None, True)
         | Inl (NotExist e) \<Rightarrow> Return (None, False)
         | Inl err \<Rightarrow> Return (Some err, False))"

fun fsGetMulti ::
  "('o \<Rightarrow> key option) \<Rightarrow> ('o \<Rightarrow> recErr \<Rightarrow> 'o) \<Rightarrow> fsEnv \<Rightarrow> fsDatabase \<Rightarrow> 'o fsRecord list \<Rightarrow>
    (fsErr option \<times> 'o fsRecord list) goCall" where
  "fsGetMulti keyOf setErr env d [] = Return (None, [])"
| "fsGetMulti keyOf setErr env d (rec # recs) =
     bindCall (fsGet keyOf setErr env d rec)
       (\<lambda>(err, rec').
         case err of
           Some e \<Rightarrow> Return (Some e, rec' # recs)
         | None \<Rightarrow> mapCall (\<lambda>(err', recs'). (err', rec' # recs')) (fsGetMulti keyOf setErr env d recs))"

subsection \<open>Transactions\<close>

datatype txMethod =
    TxGet | TxExists | TxGetMulti | TxQueryRecords | TxQueryRecordset | TxSet | TxSetMulti | TxDelete
  | TxDeleteMulti | TxUpdate | TxUpdateRecord | TxUpdateMulti | TxInsert | TxInsertMulti

datatype txErr = ErrNotImplementedYet | TxErrNotSupported

text \<open>The error each method of \<open>transaction\<close> returns; it has no fields and reads no argument.\<close>

fun txMethodErr :: "txMethod \<Rightarrow> txErr" where
  "txMethodErr TxGet = ErrNotImplementedYet"
| "txMethodErr TxExists = ErrNotImplementedYet"
| "txMethodErr TxGetMulti = ErrNotImplementedYet"
| "txMethodErr TxQueryRecords = ErrNotImplementedYet"
| "txMethodErr TxQueryRecordset = ErrNotImplementedYet"
| "txMethodErr TxSet = TxErrNotSupported"
| "txMethodErr TxSetMulti = TxErrNotSupported"
| "txMethodErr TxDelete = ErrNotImplementedYet"
| "txMethodErr TxDeleteMulti = ErrNotImplementedYet"
| "txMethodErr TxUpdate = TxErrNotSupported"
| "txMethodErr TxUpdateRecord = TxErrNotSupported"
| "txMethodErr TxUpdateMulti = TxErrNotSupported"
| "txMethodErr TxInsert = ErrNotImplementedYet"
| "txMethodErr TxInsertMulti = ErrNotImplementedYet"

text \<open>A worker gets the transaction's methods; its result is the transaction's.\<close>

definition fsRunTransaction :: "'c \<Rightarrow> ('c \<Rightarrow> (txMethod \<Rightarrow> txErr) \<Rightarrow> 'r) \<Rightarrow> 'r" where
  "fsRunTransaction ctx f = f ctx txMethodErr"

subsection \<open>Columns\<close>

definition ColumnFileName :: string where "ColumnFileName = ''File.Name''"
definition ColumnIsDir :: string where "ColumnIsDir = ''File.IsDir''"
definition ColumnFileSize :: string where "ColumnFileSize = ''File.Size''"
definition ColumnFileExt :: string where "ColumnFileExt = ''File.Ext''"
definition ColumnFileModified :: string where "ColumnFileModified = ''File.Modified''"

lemmas column_names =
  ColumnFileName_def ColumnIsDir_def ColumnFileSize_def ColumnFileExt_def ColumnFileModified_def

definition goString :: "string \<Rightarrow> value" where "goString s = VString ''string'' s"
definition goInt64 :: "int \<Rightarrow> value" where "goInt64 i = VInt ''int64'' i"
definition goTime :: "nat \<Rightarrow> value" where "goTime n = VOther ''time.Time'' True n"

definition NewFileNameColumn :: anyColumn where
  "NewFileNameColumn = WrapStd ''string'' (NewTypedColumn ColumnFileName (goString []) [])"

definition NewIsDirColumn :: anyColumn where
  "NewIsDirColumn = WrapBool (NewBoolColumn ColumnIsDir [])"

definition NewFileExtColumn :: anyColumn where
  "NewFileExtColumn =
     WrapBitmap ''string'' (NewBitmapColumn ColumnFileExt 0 (goString []) (goString []) [ColDbType ''STRING''])"

definition NewFileSizeColumn :: anyColumn where
  "NewFileSizeColumn = WrapStd ''int64'' (NewTypedColumn ColumnFileSize (goInt64 0) [])"

definition NewFileModifiedColumn :: anyColumn where
  "NewFileModifiedColumn = WrapStd ''time.Time'' (NewTypedColumn ColumnFileModified (goTime 0) [])"

definition NewFileInfoColumns :: "anyColumn list" where
  "NewFileInfoColumns =
     [NewFileNameColumn, NewFileSizeColumn, NewFileExtColumn, NewFileModifiedColumn]"

subsection \<open>The directory reader\<close>

record dirReader =
  drRs :: columnarRecordset
  drNameCol :: "nat option"
  drExtCol :: "nat option"
  drSizeCol :: "nat option"
  drIsDirCol :: "nat option"
  drModifiedCol :: "nat option"
  drNextIndex :: nat
  drEntries :: "dirEntry list"
  drOpen :: bool

text \<open>The type parameter of the wrapper a column is, if it is one.\<close>

fun wrapperType :: "anyColumn \<Rightarrow> string option" where
  "wrapperType (WrapStd t c) = Some t"
| "wrapperType (WrapBitmap t c) = Some t"
| "wrapperType (WrapBool c) = Some ''bool''"
| "wrapperType _ = None"

text \<open>\<open>GetColumnByName(name).(UntypedColWrapper[T]).TypedColumn()\<close>, nil when there is no such column.\<close>

definition typedHandle :: "columnarRecordset \<Rightarrow> string \<Rightarrow> string \<Rightarrow> nat option goCall" where
  "typedHandle rs name t =
     (case getColumnByName (rsCols rs) name of
        None \<Rightarrow> Return None
      | Some c \<Rightarrow>
          (if wrapperType c = Some t then Return (Some (nat (getColumnIndex (rsCols rs) name)))
           else Panics))"

definition NewDirReader :: "fsEnv \<Rightarrow> string \<Rightarrow> anyColumn list \<Rightarrow> (string + dirReader) goCall" where
  "NewDirReader env name columns =
     (case fsReadDir env name of
        Inl err \<Rightarrow> Return (Inl err)
      | Inr entries \<Rightarrow>
          (let rs = NewColumnarRecordset name columns
           in bindCall (typedHandle rs ColumnFileName ''string'') (\<lambda>nameCol.
              bindCall (typedHandle rs ColumnFileExt ''string'') (\<lambda>extCol.
              bindCall (typedHandle rs ColumnFileSize ''int64'') (\<lambda>sizeCol.
              bindCall (typedHandle rs ColumnIsDir ''bool'') (\<lambda>isDirCol.
              bindCall (typedHandle rs ColumnFileModified ''time.Time'') (\<lambda>modifiedCol.
                Return (Inr \<lparr>drRs = rs, drNameCol = nameCol, drExtCol = extCol, drSizeCol = sizeCol,
                             drIsDirCol = isDirCol, drModifiedCol = modifiedCol, drNextIndex = 0,
                             drEntries = entries, drOpen = True\<rparr>))))))))"

definition dirRecordset :: "dirReader \<Rightarrow> columnarRecordset option" where
  "dirRecordset r = (if drOpen r then Some (drRs r) else None)"

definition dirCursor :: "dirReader \<Rightarrow> readErr + string" where
  "dirCursor r = Inl ErrNotSupported"

definition dirClose :: "dirReader \<Rightarrow> readErr option \<times> dirReader" where
  "dirClose r = (None, r\<lparr>drEntries := [], drOpen := False\<rparr>)"

function skipDirs :: "dirEntry list \<Rightarrow> nat \<Rightarrow> nat" where
  "skipDirs entries i =
     (if i < length entries \<and> deIsDir (entries ! i) then skipDirs entries (i + 1) else i)"
  by pat_completeness auto
termination
  by (relation "measure (\<lambda>(entries, i). length entries - i)") auto

declare skipDirs.simps [simp del]

text \<open>\<open>SetValue\<close> of a typed column of the recordset, its error ignored; a nil column panics.\<close>

definition setTyped :: "nat option \<Rightarrow> int \<Rightarrow> value \<Rightarrow> columnarRecordset \<Rightarrow> columnarRecordset goCall" where
  "setTyped col row v rs =
     (case col of
        None \<Rightarrow> Panics
      | Some j \<Rightarrow>
          (case setValue (rsCols rs ! j) row v of
             Return c \<Rightarrow> Return (rs\<lparr>rsCols := (rsCols rs)[j := c]\<rparr>)
           | Fails e \<Rightarrow> Return rs
           | Panics \<Rightarrow> Panics))"

text \<open>
  The loop of \<open>Next\<close> over the names of the columns: an error of \<open>Info\<close> ends it, with what it has
  written so far. \<open>fi\<close> is the information the entry gave before, if it was asked for.
\<close>

fun fillDirRow ::
  "dirReader \<Rightarrow> dirEntry \<Rightarrow> int \<Rightarrow> string list \<Rightarrow> fileInfo option \<Rightarrow> columnarRecordset \<Rightarrow>
    (string option \<times> columnarRecordset) goCall" where
  "fillDirRow r e row [] fi rs = Return (None, rs)"
| "fillDirRow r e row (name # names) fi rs =
     (if name = ColumnFileName
      then bindCall (setTyped (drNameCol r) row (goString (deName e)) rs) (fillDirRow r e row names fi)
      else if name = ColumnIsDir
      then bindCall (setTyped (drIsDirCol r) row (goBool (deIsDir e)) rs) (fillDirRow r e row names fi)
      else if name = ColumnFileExt
      then bindCall (setTyped (drExtCol r) row (goString (pathExt (deName e))) rs) (fillDirRow r e row names fi)
      else if name = ColumnFileSize \<or> name = ColumnFileModified
      then
        (case (case fi of None \<Rightarrow> deInfo e | Some i \<Rightarrow> Inr i) of
           Inl err \<Rightarrow> Return (Some err, rs)
         | Inr i \<Rightarrow>
             bindCall
               (if name = ColumnFileSize then setTyped (drSizeCol r) row (goInt64 (fiSize i)) rs
                else setTyped (drModifiedCol r) row (goTime (fiModTime i)) rs)
               (fillDirRow r e row names (Some i)))
      else fillDirRow r e row names fi rs)"

definition dirNext :: "dirReader \<Rightarrow> ((readErr + columnarRow) \<times> dirReader) goCall" where
  "dirNext r =
     (let i = skipDirs (drEntries r) (drNextIndex r); r1 = r\<lparr>drNextIndex := i\<rparr>
      in if length (drEntries r) \<le> i then Return (Inl ErrNoMoreRecords, r1)
         else if \<not> drOpen r then Panics
         else
           bindCall (newRow (drRs r)) (\<lambda>(row, rs).
           mapCall (\<lambda>(err, rs').
               case err of
                 Some e \<Rightarrow> (Inl (OtherErr e), r1\<lparr>drRs := rs'\<rparr>)
               | None \<Rightarrow> (Inr row, r1\<lparr>drRs := rs', drNextIndex := i + 1\<rparr>))
             (fillDirRow r (drEntries r ! i) (int (rsRowsCount rs) - 1) (map nameOf (rsCols rs)) None rs)))"

section \<open>Paths of keys\<close>

text \<open>The elements of a path that are neither empty nor a dot.\<close>

definition realSegments :: "string \<Rightarrow> string list" where
  "realSegments p = filter (\<lambda>s. s \<noteq> [] \<and> s \<noteq> ''.'') (splitOn slash p)"

lemma splitOn_nonempty [simp]: "splitOn c s \<noteq> []"
  by (cases s) (auto split: list.splits)

lemma splitOn_sep: "splitOn c (a @ c # b) = splitOn c a @ splitOn c b"
proof (induction a)
  case (Cons x a)
  then show ?case
    by (auto split: list.splits simp: append_eq_Cons_conv)
qed simp

lemma foldl_cleanStep_plain:
  "''..'' \<notin> set segs \<Longrightarrow>
    foldl (cleanStep rooted) out segs = rev (filter (\<lambda>s. s \<noteq> [] \<and> s \<noteq> ''.'') segs) @ out"
  by (induction segs arbitrary: out) auto

lemma isRooted_append: "a \<noteq> [] \<Longrightarrow> isRooted (a @ b) = isRooted a"
  by (cases a) (simp_all add: isRooted_def)

text \<open>The file a key names below the directory \<open>p\<close>.\<close>

lemma pathJoin_confined:
  assumes "p \<noteq> []" "''..'' \<notin> set (splitOn slash i)"
  shows "pathJoin p i = showPath (isRooted p) (cleanSegments p @ realSegments i)"
proof (cases "i = []")
  case True
  then show ?thesis using assms by (simp add: pathJoin_def pathClean_def realSegments_def)
next
  case False
  then have "pathJoin p i = pathClean (p @ slash # i)"
    using assms by (simp add: pathJoin_def)
  then show ?thesis
    using assms
    by (simp add: pathClean_def cleanSegments_def isRooted_append splitOn_sep foldl_cleanStep_plain realSegments_def)
qed

text \<open>C27: on the directory adapter, a key whose ID has no element \<open>..\<close> names a file below the
  directory: the elements of the directory's own clean path followed by those of the ID. \<open>Get\<close> and \<open>Exists\<close>
  ask the operating system for that file and nothing else: \<open>Exists\<close> says true exactly when the
  file has a status, false without an error when it does not exist, and \<open>Get\<close> of a file record
  then returns nil and stores that status, and returns any error of it otherwise, the record
  unchanged.\<close>

theorem fs_key_below_directory:
  assumes "fsPath d \<noteq> []" "''..'' \<notin> set (splitOn slash i)" "frKey f = Some (Key c (goStr i) parent)"
  shows "let status = fsStat env (showPath (isRooted (fsPath d)) (cleanSegments (fsPath d) @ realSegments i)) in
         fsExists env d (frKey f) =
           Return (case status of Inr fi \<Rightarrow> (None, True) | Inl (NotExist e) \<Rightarrow> (None, False)
                   | Inl err \<Rightarrow> (Some err, False)) \<and>
         fsGet keyOf setErr env d (FileRec f) =
           Return (case status of Inr fi \<Rightarrow> (None, FileRec (f\<lparr>frData := Some fi\<rparr>))
                   | Inl err \<Rightarrow> (Some err, FileRec f))"
  using assms pathJoin_confined [OF assms(1,2)]
  by (simp add: fsExists_def fsGet_def keyFile_def frSetData_def Let_def split: sum.split fsErr.split)

definition sampleFs :: fsEnv where
  "sampleFs =
     \<lparr>fsHome = Inr ''/home/u'',
      fsStat = (\<lambda>name. if name = ''/data/a.txt'' then Inr \<lparr>fiSize = 3, fiModTime = 7\<rparr>
                      else if name = ''/etc/passwd'' then Inr \<lparr>fiSize = 99, fiModTime = 1\<rparr>
                      else Inl (NotExist ''no such file'')),
      fsReadDir = (\<lambda>name.
        Inr [\<lparr>deName = ''a.txt'', deIsDir = False, deInfo = Inr \<lparr>fiSize = 3, fiModTime = 7\<rparr>\<rparr>,
             \<lparr>deName = ''sub'', deIsDir = True, deInfo = Inr \<lparr>fiSize = 0, fiModTime = 2\<rparr>\<rparr>,
             \<lparr>deName = ''b'', deIsDir = False, deInfo = Inr \<lparr>fiSize = 5, fiModTime = 9\<rparr>\<rparr>])\<rparr>"

theorem fs_key_below_directory_witness:
  "fsExists sampleFs \<lparr>fsPath = ''/data/'', fsDir = \<lparr>fiSize = 0, fiModTime = 0\<rparr>\<rparr>
     (Some (Key ''files'' (goStr ''./a.txt'') None)) = Return (None, True)"
proof -
  have c: "showPath (isRooted ''/data/'') (cleanSegments ''/data/'' @ realSegments ''./a.txt'') = ''/data/a.txt''"
    by code_simp
  have n: "''..'' \<notin> set (splitOn slash ''./a.txt'')"
    by code_simp
  show ?thesis
    using fs_key_below_directory [of "\<lparr>fsPath = ''/data/'', fsDir = \<lparr>fiSize = 0, fiModTime = 0\<rparr>\<rparr>" "''./a.txt''"
        "NewFileRecord (Some (Key ''files'' (goStr ''./a.txt'') None))" "''files''" None sampleFs
        "\<lambda>_ :: unit. None" "\<lambda>o1 e. o1"] n
    by (simp add: c Let_def NewFileRecord_def) (simp add: sampleFs_def)
qed

text \<open>An element \<open>..\<close> of an ID leaves the directory.\<close>

lemma fs_key_escapes:
  "keyFile \<lparr>fsPath = ''/data'', fsDir = \<lparr>fiSize = 0, fiModTime = 0\<rparr>\<rparr>
     (Some (Key ''files'' (goStr ''../etc/passwd'') None)) = Return ''/etc/passwd''"
  by code_simp

text \<open>
  A file record that was given an error, a nil one included, never exists again, whatever a later
  \<open>Get\<close> finds.
\<close>

lemma frExists_after_error: "\<not> frExists (frSetData (frSetError f err) fi)"
  by (simp add: frExists_def frSetData_def frSetError_def)

lemma frExists_after_get: "frExists (frSetData f fi) \<longleftrightarrow> frErr f = None"
  by (simp add: frExists_def frSetData_def)

text \<open>A record of another implementation is read without an error, and marked unsupported.\<close>

lemma fsGet_other:
  "keyFile d (keyOf r) = Return name \<Longrightarrow> fsStat env name = Inr fi \<Longrightarrow>
    fsGet keyOf setErr env d (OtherRec r) = Return (None, OtherRec (setErr r RecErrNotSupported))"
  by (simp add: fsGet_def)

section \<open>What a row of the directory reader holds\<close>

text \<open>The value \<open>Next\<close> writes into a column of a name, none for a name it does not know.\<close>

definition cellNamed :: "string \<Rightarrow> dirEntry \<Rightarrow> value option" where
  "cellNamed name e =
     (if name = ColumnFileName then Some (goString (deName e))
      else if name = ColumnIsDir then Some (goBool (deIsDir e))
      else if name = ColumnFileExt then Some (goString (pathExt (deName e)))
      else if name = ColumnFileSize then Some (goInt64 (fiSize (projr (deInfo e))))
      else if name = ColumnFileModified then Some (goTime (fiModTime (projr (deInfo e))))
      else None)"

definition fileCell :: "anyColumn \<Rightarrow> dirEntry \<Rightarrow> value" where
  "fileCell c e = (case cellNamed (nameOf c) e of None \<Rightarrow> defaultOf c | Some v \<Rightarrow> v)"

definition handleOf :: "dirReader \<Rightarrow> string \<Rightarrow> nat option" where
  "handleOf r name =
     (if name = ColumnFileName then drNameCol r
      else if name = ColumnIsDir then drIsDirCol r
      else if name = ColumnFileExt then drExtCol r
      else if name = ColumnFileSize then drSizeCol r
      else drModifiedCol r)"

lemma fillDirRow_step:
  assumes "deInfo e = Inr i" "fi \<in> {None, Some i}"
  shows "\<exists>fi'. fi' \<in> {None, Some i} \<and>
    fillDirRow r e row (name # names) fi rs =
       (case cellNamed name e of
          None \<Rightarrow> fillDirRow r e row names fi' rs
        | Some v \<Rightarrow> bindCall (setTyped (handleOf r name) row v rs) (fillDirRow r e row names fi'))"
proof (cases "name = ColumnFileSize \<or> name = ColumnFileModified")
  case True
  then show ?thesis
    using assms by (intro exI [of _ "Some i"]) (auto simp: cellNamed_def handleOf_def column_names)
next
  case False
  then show ?thesis
    using assms by (intro exI [of _ fi]) (auto simp: cellNamed_def handleOf_def)
qed

text \<open>The columns a directory reader takes: those \<open>Next\<close> writes have the type it asserts, a boolean one is \<open>File.IsDir\<close>, none is computed.\<close>

definition namedType :: "string \<Rightarrow> string option" where
  "namedType name =
     (if name = ColumnFileName \<or> name = ColumnFileExt then Some ''string''
      else if name = ColumnIsDir then Some ''bool''
      else if name = ColumnFileSize then Some ''int64''
      else if name = ColumnFileModified then Some ''time.Time''
      else None)"

definition isBoolCol :: "anyColumn \<Rightarrow> bool" where
  "isBoolCol c = (case c of WrapBool d \<Rightarrow> True | _ \<Rightarrow> False)"

definition colSig :: "anyColumn \<Rightarrow> (string \<times> value \<times> string option \<times> bool \<times> bool) \<times> string option \<times> bool" where
  "colSig c = (columnLabel c, wrapperType c, isBoolCol c)"

definition dirColumn :: "anyColumn \<Rightarrow> bool" where
  "dirColumn c =
     (\<not> isComputed c \<and> (isBoolCol c \<longrightarrow> nameOf c = ColumnIsDir) \<and>
      (namedType (nameOf c) \<noteq> None \<longrightarrow> wrapperType c = namedType (nameOf c)) \<and>
      acceptsValue c (defaultOf c))"

text \<open>A column that holds the values \<open>vs\<close>, and one that a new row was added to and not yet written.\<close>

definition colHolds :: "anyColumn \<Rightarrow> value list \<Rightarrow> bool" where
  "colHolds c vs =
     (case c of
        WrapBool d \<Rightarrow> boolBits d = {} \<and> boolRows d = length vs \<and> vs = replicate (length vs) (goBool False)
      | _ \<Rightarrow> storedOk c \<and> cellsOf c = vs)"

definition colPending :: "anyColumn \<Rightarrow> value list \<Rightarrow> value \<Rightarrow> bool" where
  "colPending c vs d =
     (case c of
        WrapBool b \<Rightarrow>
          boolBits b = {} \<and> boolRows b = max 1 (length vs) \<and> vs = replicate (length vs) (goBool False)
      | _ \<Rightarrow> storedOk c \<and> cellsOf c = vs @ [d])"

lemma stored_not_bool: "storedOk c \<Longrightarrow> \<not> isBoolCol c"
  by (cases c) (simp_all add: storedOk_def isBoolCol_def)

lemma stored_wrapper: "storedOk c \<Longrightarrow> wrapperType c = assertedType c"
  by (cases c) (simp_all add: storedOk_def assertedType_def)

lemma colHolds_stored: "\<not> isBoolCol c \<Longrightarrow> colHolds c vs \<longleftrightarrow> storedOk c \<and> cellsOf c = vs"
  by (cases c) (simp_all add: colHolds_def isBoolCol_def)

lemma colPending_stored: "\<not> isBoolCol c \<Longrightarrow> colPending c vs d \<longleftrightarrow> storedOk c \<and> cellsOf c = vs @ [d]"
  by (cases c) (simp_all add: colPending_def isBoolCol_def)

lemma colSig_stored:
  "storedOk c \<Longrightarrow> storedOk c' \<Longrightarrow> columnLabel c' = columnLabel c \<Longrightarrow> colSig c' = colSig c"
  using stored_not_bool [of c] stored_not_bool [of c']
  by (simp add: colSig_def stored_wrapper) (simp add: columnLabel_def)

lemma colSig_name: "colSig c = colSig c' \<Longrightarrow> nameOf c = nameOf c'"
  by (simp add: colSig_def columnLabel_def)

lemma dirColumn_sig: "colSig c = colSig c' \<Longrightarrow> dirColumn c = dirColumn c'"
  using acceptsValue_label [of c c'] by (auto simp: colSig_def columnLabel_def dirColumn_def)

text \<open>The three things that happen to a column when a row is read.\<close>

lemma add_default_pending:
  assumes "dirColumn c" "colHolds c vs" "length vs < 2 ^ 32"
  shows "\<exists>c'. addValue c (defaultOf c) = Return c' \<and> colSig c' = colSig c \<and> colPending c' vs (defaultOf c)"
proof (cases "isBoolCol c")
  case True
  then obtain b where b: "c = WrapBool b"
    by (cases c) (simp_all add: isBoolCol_def)
  have "boolAdd b False = Return (b\<lparr>boolRows := max 1 (boolRows b)\<rparr>)"
    using assms(2) b
    by (cases b; cases "length vs") (auto simp: boolAdd_def boolSetValue_def colHolds_def Let_def uint32_def max_def)
  then show ?thesis
    using assms(2) b
    by (auto simp: goBool_def colPending_def colHolds_def colSig_def columnLabel_def isBoolCol_def assertedType_def)
next
  case False
  then have c: "storedOk c" "cellsOf c = vs"
    using assms(2) by (simp_all add: colHolds_stored)
  moreover have "hasRoom c"
    using hasRoom_small [of c] c assms(3) by simp
  ultimately obtain c' where c': "addValue c (defaultOf c) = Return c'" "storedOk c'"
    "cellsOf c' = vs @ [defaultOf c]" "columnLabel c' = columnLabel c"
    using anyCol.add_cells [of c "defaultOf c"] assms(1) by (auto simp: dirColumn_def)
  then show ?thesis
    using colSig_stored [OF c(1) c'(2,4)] stored_not_bool [OF c'(2)] by (simp add: colPending_stored)
qed

lemma cellNamed_type:
  assumes "cellNamed name e = Some v"
  shows "\<exists>t. namedType name = Some t \<and> hasType t v"
  using assms
  by (auto simp: cellNamed_def namedType_def hasType_def goString_def goBool_def goInt64_def goTime_def
      column_names split: if_splits)

lemma set_pending_holds:
  assumes "dirColumn c" "colPending c vs d" "cellNamed (nameOf c) e = Some v" "\<not> deIsDir e"
  shows "\<exists>c'. setValue c (int (length vs)) v = Return c' \<and> colSig c' = colSig c \<and> colHolds c' (vs @ [v])"
proof (cases "isBoolCol c")
  case True
  then obtain b where b: "c = WrapBool b"
    by (cases c) (simp_all add: isBoolCol_def)
  have v: "v = goBool False"
    using assms(1,3,4) True by (auto simp: dirColumn_def cellNamed_def column_names)
  have "boolSetValue b (int (length vs)) False =
      Return (b\<lparr>boolRows := length vs + 1, boolBits := {}\<rparr>)"
    using assms(2) b by (cases b; cases "length vs") (auto simp: boolSetValue_def colPending_def max_def)
  moreover have "vs = replicate (length vs) (goBool False)"
    using assms(2) b by (simp add: colPending_def)
  then have "vs @ [goBool False] = goBool False # vs"
    by (metis replicate_append_same)
  ultimately show ?thesis
    using assms(2) b v
    by (auto simp: goBool_def colPending_def colHolds_def colSig_def columnLabel_def isBoolCol_def
        assertedType_def)
next
  case False
  then have c: "storedOk c" "cellsOf c = vs @ [d]"
    using assms(2) by (simp_all add: colPending_stored)
  obtain t where t: "namedType (nameOf c) = Some t" "hasType t v"
    using cellNamed_type [OF assms(3)] by blast
  then have "acceptsValue c v"
    using assms(1) stored_wrapper [OF c(1)] by (simp add: dirColumn_def acceptsValue_def)
  then obtain c' where c': "setValue c (int (length vs)) v = Return c'" "storedOk c'"
    "cellsOf c' = vs @ [v]" "columnLabel c' = columnLabel c"
    using anyCol.set_cells [of c "length vs" v] c by auto
  then show ?thesis
    using colSig_stored [OF c(1) c'(2,4)] stored_not_bool [OF c'(2)] by (simp add: colHolds_stored)
qed

lemma keep_pending_holds:
  assumes "dirColumn c" "colPending c vs (defaultOf c)" "cellNamed (nameOf c) e = None"
  shows "colHolds c (vs @ [defaultOf c])"
proof -
  have "\<not> isBoolCol c"
    using assms(1,3) by (auto simp: dirColumn_def cellNamed_def column_names split: if_splits)
  then show ?thesis using assms(2) by (simp add: colPending_stored colHolds_stored)
qed

lemma colHolds_values: "colHolds c vs \<Longrightarrow> valuesOf c = Return vs"
proof (cases "isBoolCol c")
  case True
  assume h: "colHolds c vs"
  obtain b where "c = WrapBool b"
    using True by (cases c) (simp_all add: isBoolCol_def)
  then show ?thesis
    using h by (auto simp: colHolds_def boolValues_def map_replicate_const)
next
  case False
  assume "colHolds c vs"
  then show ?thesis
    using False anyCol.vals_cells [of c] by (simp add: colHolds_stored)
qed

section \<open>The directory reader\<close>

definition holdsFiles :: "dirEntry list \<Rightarrow> anyColumn \<Rightarrow> anyColumn \<Rightarrow> bool" where
  "holdsFiles fs c0 c = (colSig c = colSig c0 \<and> colHolds c (map (fileCell c0) fs))"

definition pendsFiles :: "dirEntry list \<Rightarrow> anyColumn \<Rightarrow> anyColumn \<Rightarrow> bool" where
  "pendsFiles fs c0 c = (colSig c = colSig c0 \<and> colPending c (map (fileCell c0) fs) (defaultOf c0))"

lemma colSig_default: "colSig c = colSig c' \<Longrightarrow> defaultOf c = defaultOf c'"
  by (simp add: colSig_def columnLabel_def)

lemma addDefaults_pends:
  assumes "list_all dirColumn cols0" "list_all2 (holdsFiles fs) cols0 cols" "length fs < 2 ^ 32"
  shows "\<exists>cols'. addDefaults cols = Return cols' \<and> list_all2 (pendsFiles fs) cols0 cols'"
  using assms(2,1)
proof (induction rule: list_all2_induct)
  case (Cons c0 cs0 c cs)
  have sig: "colSig c = colSig c0" and h: "colHolds c (map (fileCell c0) fs)"
    using Cons.hyps(1) by (simp_all add: holdsFiles_def)
  have "dirColumn c"
    using Cons.prems dirColumn_sig [OF sig] by simp
  from add_default_pending [OF this h] assms(3) obtain c'
    where "addValue c (defaultOf c) = Return c'" "pendsFiles fs c0 c'"
    using sig colSig_default [OF sig] by (auto simp: pendsFiles_def)
  then show ?case
    using Cons by auto
qed simp

lemma setTyped_at:
  assumes "rsCols rs = pre @ c # suf" "setValue c row v = Return c'"
  shows "setTyped (Some (length pre)) row v rs = Return (rs\<lparr>rsCols := pre @ c' # suf\<rparr>)"
  using assms by (simp add: setTyped_def)

text \<open>The loop over the columns turns a new row into the row of the file.\<close>

lemma fillDirRow_files:
  assumes "\<not> deIsDir e" "deInfo e = Inr i" "fi \<in> {None, Some i}"
    and "list_all dirColumn (pre0 @ suf0)" "list_all2 (holdsFiles (fs @ [e])) pre0 pre"
    and "list_all2 (pendsFiles fs) suf0 suf" "rsCols rs = pre @ suf"
    and "\<And>k. k < length (pre0 @ suf0) \<Longrightarrow> namedType (nameOf ((pre0 @ suf0) ! k)) \<noteq> None \<Longrightarrow>
          handleOf r (nameOf ((pre0 @ suf0) ! k)) = Some k"
  shows "\<exists>cols. fillDirRow r e (int (length fs)) (map nameOf suf0) fi rs = Return (None, rs\<lparr>rsCols := cols\<rparr>) \<and>
    list_all2 (holdsFiles (fs @ [e])) (pre0 @ suf0) cols"
  using assms(3-)
proof (induction suf0 arbitrary: pre0 pre suf rs fi)
  case Nil
  then show ?case by (auto intro!: exI [of _ pre])
next
  case (Cons c0 suf0)
  obtain c suf' where suf: "suf = c # suf'"
    using Cons.prems(4) by (cases suf) simp_all
  have rest: "list_all2 (pendsFiles fs) suf0 suf'" and "pendsFiles fs c0 c"
    using Cons.prems(4) suf by simp_all
  then have sig: "colSig c = colSig c0" and p: "colPending c (map (fileCell c0) fs) (defaultOf c0)"
    by (simp_all add: pendsFiles_def)
  have len: "length pre0 = length pre"
    using Cons.prems(3) by (rule list_all2_lengthD)
  have dc: "dirColumn c"
    using Cons.prems(2) dirColumn_sig [OF sig] by simp
  have name: "nameOf c = nameOf c0" and dflt: "defaultOf c = defaultOf c0"
    using colSig_name [OF sig] colSig_default [OF sig] by simp_all
  obtain fi' where fi': "fi' \<in> {None, Some i}"
    "fillDirRow r e (int (length fs)) (nameOf c0 # map nameOf suf0) fi rs =
       (case cellNamed (nameOf c0) e of
          None \<Rightarrow> fillDirRow r e (int (length fs)) (map nameOf suf0) fi' rs
        | Some v \<Rightarrow> bindCall (setTyped (handleOf r (nameOf c0)) (int (length fs)) v rs)
            (fillDirRow r e (int (length fs)) (map nameOf suf0) fi'))"
    using fillDirRow_step [OF assms(2) Cons.prems(1), where r = r and row = "int (length fs)"
        and name = "nameOf c0" and names = "map nameOf suf0" and rs = rs] by (elim exE conjE)
  have handles: "\<And>k. k < length ((pre0 @ [c0]) @ suf0) \<Longrightarrow>
      namedType (nameOf (((pre0 @ [c0]) @ suf0) ! k)) \<noteq> None \<Longrightarrow>
      handleOf r (nameOf (((pre0 @ [c0]) @ suf0) ! k)) = Some k"
    using Cons.prems(6) by simp
  have step: "\<exists>c'. holdsFiles (fs @ [e]) c0 c' \<and>
      fillDirRow r e (int (length fs)) (nameOf c0 # map nameOf suf0) fi rs =
      fillDirRow r e (int (length fs)) (map nameOf suf0) fi' (rs\<lparr>rsCols := pre @ c' # suf'\<rparr>)"
  proof (cases "cellNamed (nameOf c0) e")
    case None
    then have "holdsFiles (fs @ [e]) c0 c"
      using keep_pending_holds [of c "map (fileCell c0) fs" e] dc p sig name dflt
      by (simp add: holdsFiles_def fileCell_def)
    moreover have "rs\<lparr>rsCols := pre @ c # suf'\<rparr> = rs"
      using Cons.prems(5) suf by simp
    ultimately show ?thesis
      using fi'(2) None by auto
  next
    case (Some v)
    have "namedType (nameOf c0) \<noteq> None"
      using cellNamed_type [OF Some] by auto
    then have h: "handleOf r (nameOf c0) = Some (length pre)"
      using Cons.prems(6) [of "length pre0"] by (simp add: len [symmetric])
    obtain c' where c': "setValue c (int (length fs)) v = Return c'" "colSig c' = colSig c"
      "colHolds c' (map (fileCell c0) fs @ [v])"
      using set_pending_holds [OF dc p, of e v] Some name assms(1) by auto
    then have "holdsFiles (fs @ [e]) c0 c'"
      using sig Some by (simp add: holdsFiles_def fileCell_def)
    moreover have "setTyped (Some (length pre)) (int (length fs)) v rs = Return (rs\<lparr>rsCols := pre @ c' # suf'\<rparr>)"
      using setTyped_at [OF _ c'(1)] Cons.prems(5) suf by simp
    ultimately show ?thesis
      using fi'(2) Some h by auto
  qed
  then obtain c' where c': "holdsFiles (fs @ [e]) c0 c'"
    "fillDirRow r e (int (length fs)) (nameOf c0 # map nameOf suf0) fi rs =
      fillDirRow r e (int (length fs)) (map nameOf suf0) fi' (rs\<lparr>rsCols := pre @ c' # suf'\<rparr>)"
    by blast
  have "list_all2 (holdsFiles (fs @ [e])) (pre0 @ [c0]) (pre @ [c'])"
    using Cons.prems(3) c'(1) by (simp add: list_all2_appendI)
  from Cons.IH [OF fi'(1) _ this rest _ handles, of "rs\<lparr>rsCols := pre @ c' # suf'\<rparr>"]
  show ?case
    using Cons.prems(2) c'(2) by simp
qed

text \<open>The loop over directories stops at the next file.\<close>

lemma skipDirs_takeWhile: "skipDirs es i = i + length (takeWhile deIsDir (drop i es))"
proof (induction es i rule: skipDirs.induct)
  case (1 es i)
  show ?case
  proof (cases "i < length es")
    case True
    then have "drop i es = es ! i # drop (Suc i) es"
      by (rule Cons_nth_drop_Suc [symmetric])
    then show ?thesis
      using 1 True by (subst skipDirs.simps) simp
  qed (subst skipDirs.simps, simp)
qed

abbreviation filesOf :: "dirEntry list \<Rightarrow> dirEntry list" where
  "filesOf es \<equiv> filter (\<lambda>e. \<not> deIsDir e) es"

lemma filesOf_takeWhile [simp]: "filesOf (takeWhile deIsDir es) = []"
  by (simp add: filter_empty_conv) (meson set_takeWhileD)

lemma skipDirs_files:
  assumes "filesOf (drop i es) = f # fs" "i \<le> length es"
  shows "skipDirs es i < length es" "es ! skipDirs es i = f"
    "filesOf (drop (skipDirs es i + 1) es) = fs"
    "filesOf (take (skipDirs es i + 1) es) = filesOf (take i es) @ [f]"
proof -
  let ?d = "drop i es" and ?n = "length (takeWhile deIsDir (drop i es))"
  have split: "?d = takeWhile deIsDir ?d @ dropWhile deIsDir ?d"
    by simp
  have "filesOf (dropWhile deIsDir ?d) = f # fs"
    using assms(1) split filesOf_takeWhile by (metis append_Nil filter_append)
  moreover have "dropWhile deIsDir ?d \<noteq> [] \<Longrightarrow> \<not> deIsDir (hd (dropWhile deIsDir ?d))"
    by (rule hd_dropWhile)
  ultimately obtain rest where rest: "dropWhile deIsDir ?d = f # rest" "filesOf rest = fs" "\<not> deIsDir f"
    by (cases "dropWhile deIsDir ?d") auto
  have d: "?d = takeWhile deIsDir ?d @ f # rest"
    using split rest(1) by simp
  have n: "skipDirs es i = i + ?n"
    by (rule skipDirs_takeWhile)
  have "i + ?n < length es"
    using arg_cong [OF d, of length] assms(2) by simp
  then show "skipDirs es i < length es"
    using n by simp
  have "?d ! ?n = f"
    using d by (metis nth_append_length)
  then show "es ! skipDirs es i = f"
    using n assms(2) by simp
  have "drop (?n + 1) ?d = rest"
    by (subst d) simp
  then show "filesOf (drop (skipDirs es i + 1) es) = fs"
    using n rest(2) by (simp add: add.commute)
  have "take (i + (?n + 1)) es = take i es @ take (?n + 1) ?d"
    by (rule take_add)
  moreover have "take (?n + 1) ?d = takeWhile deIsDir ?d @ [f]"
    by (subst d) simp
  ultimately show "filesOf (take (skipDirs es i + 1) es) = filesOf (take i es) @ [f]"
    using n rest(3) by (simp add: add.assoc)
qed

lemma skipDirs_none:
  assumes "filesOf (drop i es) = []" "i \<le> length es"
  shows "skipDirs es i = length es"
proof -
  have tw: "takeWhile deIsDir (drop i es) = drop i es"
    using assms(1) by (simp add: filter_empty_conv takeWhile_eq_all_conv)
  show ?thesis
    using assms(2) by (simp add: skipDirs_takeWhile tw)
qed

text \<open>
  The state of a reader on the entries \<open>es\<close> with the columns \<open>cols0\<close> it was made with: the
  recordset holds one row for each file among the entries it has passed.
\<close>

definition dirSetup :: "anyColumn list \<Rightarrow> dirEntry list \<Rightarrow> bool" where
  "dirSetup cols0 es =
     (list_all dirColumn cols0 \<and> distinct (map nameOf cols0) \<and> length es \<le> 2 ^ 32 \<and>
      list_all (\<lambda>e. deIsDir e \<or> isOk (deInfo e)) es)"

definition handlesOf :: "anyColumn list \<Rightarrow> dirReader \<Rightarrow> bool" where
  "handlesOf cols0 r =
     list_all (\<lambda>k. namedType (nameOf (cols0 ! k)) = None \<or> handleOf r (nameOf (cols0 ! k)) = Some k)
       [0..<length cols0]"

definition dirInv :: "string \<Rightarrow> anyColumn list \<Rightarrow> dirEntry list \<Rightarrow> dirReader \<Rightarrow> bool" where
  "dirInv name cols0 es r =
     (dirSetup cols0 es \<and> drOpen r \<and> drEntries r = es \<and> drNextIndex r \<le> length es \<and> handlesOf cols0 r \<and>
      rsName (drRs r) = name \<and>
      rsRowsCount (drRs r) = length (filesOf (take (drNextIndex r) es)) \<and>
      list_all2 (holdsFiles (filesOf (take (drNextIndex r) es))) cols0 (rsCols (drRs r)))"

definition dirRest :: "dirReader \<Rightarrow> columnarRow list" where
  "dirRest r =
     map (\<lambda>k. \<lparr>rowIndex = int k, rowMemo = []\<rparr>)
       [rsRowsCount (drRs r)..<rsRowsCount (drRs r) + length (filesOf (drop (drNextIndex r) (drEntries r)))]"

text \<open>
  The reader as one of \<open>dal.RecordsetReader\<close>. A panic of \<open>Next\<close> ends its caller and is not an
  error a caller sees; the readers considered here do not panic, as the contract below shows.
\<close>

definition dirOps :: "(dirReader, columnarRow) readerOps" where
  "dirOps =
     \<lparr>rNext = (\<lambda>r. case dirNext r of Return res \<Rightarrow> res | _ \<Rightarrow> (Inl (OtherErr ''panic''), r)),
      rCursor = dirCursor, rClose = dirClose\<rparr>"

lemma handlesOf_nth:
  "handlesOf cols0 r \<Longrightarrow> k < length cols0 \<Longrightarrow> namedType (nameOf (cols0 ! k)) \<noteq> None \<Longrightarrow>
    handleOf r (nameOf (cols0 ! k)) = Some k"
  unfolding handlesOf_def list_all_iff by (drule bspec [of _ _ k]) auto

lemma handleOf_update [simp]:
  "handleOf (r\<lparr>drNextIndex := i\<rparr>) = handleOf r" "handleOf (r\<lparr>drRs := rs\<rparr>) = handleOf r"
  by (simp_all add: handleOf_def fun_eq_iff)

lemma dirNext_end:
  assumes "dirInv name cols0 es r" "filesOf (drop (drNextIndex r) es) = []"
  shows "dirNext r = Return (Inl ErrNoMoreRecords, r\<lparr>drNextIndex := length es\<rparr>) \<and>
    dirInv name cols0 es (r\<lparr>drNextIndex := length es\<rparr>)"
proof -
  have skip: "skipDirs es (drNextIndex r) = length es"
    using skipDirs_none [OF assms(2)] assms(1) by (simp add: dirInv_def)
  have "filesOf es = filesOf (take (drNextIndex r) es) @ filesOf (drop (drNextIndex r) es)"
    by (simp flip: filter_append)
  then have "filesOf es = filesOf (take (drNextIndex r) es)"
    using assms(2) by simp
  then show ?thesis
    using assms(1) skip by (simp add: dirInv_def dirNext_def handlesOf_def Let_def)
qed

lemma fillDirRow_names:
  assumes "list_all2 (pendsFiles fs) cols0 cols"
  shows "map nameOf cols = map nameOf cols0"
  using assms by (induction rule: list_all2_induct) (auto simp: pendsFiles_def dest: colSig_name)

lemma dirNext_file:
  assumes inv: "dirInv name cols0 es r" and left: "filesOf (drop (drNextIndex r) es) = f # fs"
  shows "\<exists>r'. dirNext r = Return (Inr \<lparr>rowIndex = int (rsRowsCount (drRs r)), rowMemo = []\<rparr>, r') \<and>
    dirInv name cols0 es r' \<and> rsRowsCount (drRs r') = rsRowsCount (drRs r) + 1 \<and>
    filesOf (drop (drNextIndex r') es) = fs"
proof -
  define seen where "seen = filesOf (take (drNextIndex r) es)"
  define i where "i = skipDirs es (drNextIndex r)"
  have le: "drNextIndex r \<le> length es" and cfg: "dirSetup cols0 es" and es: "drEntries r = es"
    and rows: "rsRowsCount (drRs r) = length seen" and holds: "list_all2 (holdsFiles seen) cols0 (rsCols (drRs r))"
    and handles: "handlesOf cols0 r"
    using inv by (simp_all add: dirInv_def seen_def)
  note skip = skipDirs_files [OF left le, folded i_def seen_def]
  have "f \<in> set es" "\<not> deIsDir f"
    using arg_cong [OF left, of set] in_set_dropD [of f] by auto
  then obtain info where info: "deInfo f = Inr info"
    using cfg by (cases "deInfo f") (auto simp: dirSetup_def list_all_iff isOk_def)
  have "length (seen @ [f]) \<le> length (take (i + 1) es)"
    using skip(4) by (metis length_filter_le)
  then have "length seen < 2 ^ 32"
    using cfg skip(1) by (simp add: dirSetup_def)
  then obtain cols where cols: "addDefaults (rsCols (drRs r)) = Return cols" "list_all2 (pendsFiles seen) cols0 cols"
    using addDefaults_pends [OF _ holds] cfg by (auto simp: dirSetup_def)
  define rs where "rs = drRs r\<lparr>rsCols := cols, rsRowsCount := length seen + 1\<rparr>"
  have new: "newRow (drRs r) = Return (\<lparr>rowIndex = int (length seen), rowMemo = []\<rparr>, rs)"
    using cols(1) rows by (simp add: newRow_def rs_def)
  obtain cols' where fill: "fillDirRow r f (int (length seen)) (map nameOf cols0) None rs =
      Return (None, rs\<lparr>rsCols := cols'\<rparr>)" "list_all2 (holdsFiles (seen @ [f])) cols0 cols'"
    using fillDirRow_files [OF \<open>\<not> deIsDir f\<close> info, of None "[]" cols0 seen "[]" cols rs r] cols(2) cfg
      handlesOf_nth [OF handles] by (auto simp: dirSetup_def rs_def)
  let ?r = "r\<lparr>drNextIndex := i + 1, drRs := rs\<lparr>rsCols := cols'\<rparr>\<rparr>"
  have "dirNext r = Return (Inr \<lparr>rowIndex = int (length seen), rowMemo = []\<rparr>, ?r)"
    using new fill(1) skip(1,2) es inv fillDirRow_names [OF cols(2)]
    by (simp add: dirNext_def Let_def i_def [symmetric] dirInv_def) (simp add: rs_def)
  moreover have "dirInv name cols0 es ?r"
    using inv skip(1,4) fill(2) by (simp add: dirInv_def handlesOf_def rs_def)
  ultimately show ?thesis
    using rows skip(3) by (auto simp: rs_def)
qed

interpretation dir: finite_reader dirOps dirRest "dirInv name cols0 es" for name cols0 es
proof unfold_locales
  fix r
  assume inv: "dirInv name cols0 es r" and "dirRest r = []"
  then have "filesOf (drop (drNextIndex r) es) = []"
    by (auto simp: dirRest_def dirInv_def)
  from dirNext_end [OF inv this] show "\<exists>r'. rNext dirOps r = (Inl ErrNoMoreRecords, r') \<and>
      dirInv name cols0 es r' \<and> dirRest r' = []"
    using inv by (simp add: dirOps_def dirRest_def dirInv_def)
next
  fix r row rows
  assume inv: "dirInv name cols0 es r" and rest: "dirRest r = row # rows"
  have es: "drEntries r = es" using inv by (simp add: dirInv_def)
  obtain f fs where left: "filesOf (drop (drNextIndex r) es) = f # fs"
    using rest es by (cases "filesOf (drop (drNextIndex r) es)") (simp_all add: dirRest_def)
  have row: "row = \<lparr>rowIndex = int (rsRowsCount (drRs r)), rowMemo = []\<rparr>"
    "rows = map (\<lambda>k. \<lparr>rowIndex = int k, rowMemo = []\<rparr>)
       [Suc (rsRowsCount (drRs r))..<rsRowsCount (drRs r) + length (f # fs)]"
    using rest left es by (simp_all add: dirRest_def upt_conv_Cons del: upt_Suc)
  obtain r' where r': "dirNext r = Return (Inr row, r')" "dirInv name cols0 es r'"
    "rsRowsCount (drRs r') = rsRowsCount (drRs r) + 1" "filesOf (drop (drNextIndex r') es) = fs"
    using dirNext_file [OF inv left] row(1) by blast
  moreover have "drEntries r' = es"
    using r'(2) by (simp add: dirInv_def)
  ultimately show "\<exists>r'. rNext dirOps r = (Inr row, r') \<and> dirInv name cols0 es r' \<and> dirRest r' = rows"
    using row(2) by (auto simp: dirOps_def dirRest_def simp del: upt_Suc)
next
  fix r
  show "fst (rClose dirOps r) = None" by (simp add: dirOps_def dirClose_def)
qed

lemma getColumnIndex_nth:
  assumes "distinct (map nameOf cols)" "k < length cols"
  shows "getColumnIndex cols (nameOf (cols ! k)) = int k"
proof -
  let ?g = "getColumnIndex cols (nameOf (cols ! k))"
  have "0 \<le> ?g"
    using assms(2) by (auto simp: getColumnIndex_def columnIndexFrom_find list_ex_iff)
  from getColumnIndex_bounds [OF this] have "nat ?g = k"
    using assms by (auto simp: distinct_map inj_on_def distinct_conv_nth)
  then show ?thesis
    using \<open>0 \<le> ?g\<close> by simp
qed

text \<open>The assertions of \<open>NewDirReader\<close> hold on columns of the right types.\<close>

lemma typedHandle_ok:
  assumes "list_all dirColumn (rsCols rs)" "namedType name = Some t"
  shows "typedHandle rs name t =
    Return (if getColumnIndex (rsCols rs) name < 0 then None else Some (nat (getColumnIndex (rsCols rs) name)))"
proof (cases "getColumnIndex (rsCols rs) name < 0")
  case True
  then show ?thesis by (simp add: typedHandle_def getColumnByName_index)
next
  case False
  note b = getColumnIndex_bounds [of "rsCols rs" name]
  have "dirColumn (rsCols rs ! nat (getColumnIndex (rsCols rs) name))"
    using assms(1) b(1) False by (simp add: list_all_length)
  then show ?thesis
    using assms(2) b(2) False by (simp add: typedHandle_def getColumnByName_index dirColumn_def)
qed

lemma namedType_names:
  "namedType ColumnFileName = Some ''string''" "namedType ColumnFileExt = Some ''string''"
  "namedType ColumnFileSize = Some ''int64''" "namedType ColumnIsDir = Some ''bool''"
  "namedType ColumnFileModified = Some ''time.Time''"
  by (simp_all add: namedType_def column_names)

lemma namedType_known:
  "namedType name \<noteq> None \<Longrightarrow>
    name \<in> {ColumnFileName, ColumnFileExt, ColumnFileSize, ColumnIsDir, ColumnFileModified}"
  by (auto simp: namedType_def split: if_splits)

lemma NewDirReader_inv:
  assumes "fsReadDir env name = Inr es" "dirSetup cols es" "list_all (\<lambda>c. colHolds c []) cols"
  shows "\<exists>r. NewDirReader env name cols = Return (Inr r) \<and> dirInv name cols es r \<and>
    rsRowsCount (drRs r) = 0 \<and> drNextIndex r = 0"
proof -
  let ?rs = "NewColumnarRecordset name cols"
  define h where "h n = (if getColumnIndex cols n < 0 then None else Some (nat (getColumnIndex cols n)))" for n
  define r where "r = \<lparr>drRs = ?rs, drNameCol = h ColumnFileName, drExtCol = h ColumnFileExt,
    drSizeCol = h ColumnFileSize, drIsDirCol = h ColumnIsDir, drModifiedCol = h ColumnFileModified,
    drNextIndex = 0, drEntries = es, drOpen = True\<rparr>"
  have cols: "list_all dirColumn (rsCols ?rs)"
    using assms(2) by (simp add: dirSetup_def NewColumnarRecordset_def)
  have "NewDirReader env name cols = Return (Inr r)"
    using assms(1) typedHandle_ok [OF cols] namedType_names
    by (simp add: NewDirReader_def r_def h_def Let_def) (simp add: NewColumnarRecordset_def)
  moreover have known: "handleOf r n = h n" if "namedType n \<noteq> None" for n
    using namedType_known [OF that] by (auto simp: handleOf_def r_def column_names)
  have "handlesOf cols r"
    using assms(2) known getColumnIndex_nth [of cols]
    by (fastforce simp: handlesOf_def list_all_iff h_def dirSetup_def)
  then have "dirInv name cols es r"
    using assms(2,3)
    by (auto simp: dirInv_def r_def NewColumnarRecordset_def list_all2_conv_all_nth holdsFiles_def
        list_all_length)
  ultimately show ?thesis
    by (auto simp: r_def NewColumnarRecordset_def)
qed

lemma take_of_files:
  "filesOf es = filesOf (take i es) @ filesOf (drop i es)"
  by (simp flip: filter_append)

text \<open>C23: reading a directory with \<open>NewDirReader\<close> always ends and lists exactly the entries that are
  not directories, one row for each, in the order of the directory, whichever of the known columns
  were asked for, with other columns beside them: every column holds, row by row, the file's name,
  size, extension, modification time, that it is no directory, or its own default. With a positive
  limit only the first offset plus limit files are listed, and \<open>ErrLimitReached\<close> is reported
  when there are that many; an offset does not leave rows out of the recordset.\<close>

theorem directory_listing:
  assumes "fsReadDir env name = Inr es" "list_all dirColumn cols" "distinct (map nameOf cols)"
    and "list_all (\<lambda>c. colHolds c []) cols" "length es \<le> 2 ^ 32"
    and "list_all (\<lambda>e. deIsDir e \<or> isOk (deInfo e)) es"
  shows "\<exists>r rs. let files = filesOf es; offset = nat (roOffset (newReaderOptions opts));
                   limit = roLimit (newReaderOptions opts);
                   listed = (if limit \<le> 0 then files else take (offset + nat limit) files) in
    NewDirReader env name cols = Return (Inr r) \<and>
    ExecuteQueryAndReadAllToRecordset (Inr r) dirOps drRs (\<lambda>_. None) opts =
      Some (if 0 < limit \<and> offset + nat limit \<le> length files then Some ErrLimitReached else None, Some rs) \<and>
    rsName rs = name \<and> rsRowsCount rs = length listed \<and>
    map nameOf (rsCols rs) = map nameOf cols \<and>
    map valuesOf (rsCols rs) = map (\<lambda>c. Return (map (fileCell c) listed)) cols"
proof -
  define offset limit files where "offset = nat (roOffset (newReaderOptions opts))"
    "limit = roLimit (newReaderOptions opts)" "files = filesOf es"
  obtain r where r: "NewDirReader env name cols = Return (Inr r)" "dirInv name cols es r"
    "rsRowsCount (drRs r) = 0" "drNextIndex r = 0"
    using NewDirReader_inv [OF assms(1) _ assms(4)] assms(2,3,5,6) by (auto simp: dirSetup_def)
  have len: "length (dirRest r) = length files"
    using r(2-4) by (simp add: dirRest_def dirInv_def offset_limit_files_def)
  obtain r' where r': "dirInv name cols es r'"
    "dirRest r' = (if limit \<le> 0 then [] else drop (nat limit) (drop offset (dirRest r)))"
    "ExecuteQueryAndReadAllToRecordset (Inr r) dirOps drRs (\<lambda>_. None) opts =
      Some (if 0 < limit \<and> offset + nat limit \<le> length files then Some ErrLimitReached else None,
        Some (drRs (snd (rClose dirOps r'))))"
    using dir.read_rows_result [OF r(2), where recordsetOf = drRs and opts = opts] len
    by (auto simp: offset_limit_files_def)
  have close: "drRs (snd (rClose dirOps r')) = drRs r'"
    by (simp add: dirOps_def dirClose_def)
  define listed where "listed = filesOf (take (drNextIndex r') es)"
  have rows: "rsName (drRs r') = name" "rsRowsCount (drRs r') = length listed"
    "list_all2 (holdsFiles listed) cols (rsCols (drRs r'))" "drEntries r' = es"
    using r'(1) by (simp_all add: dirInv_def listed_def)
  have left: "length (filesOf (drop (drNextIndex r') es)) = (if limit \<le> 0 then 0 else length files - (offset + nat limit))"
    using arg_cong [OF r'(2), of length] rows(4) len by (simp add: dirRest_def add.commute [of offset])
  have "files = listed @ filesOf (drop (drNextIndex r') es)"
    using take_of_files [of es "drNextIndex r'"] by (simp add: offset_limit_files_def listed_def)
  then have "listed = take (length files - length (filesOf (drop (drNextIndex r') es))) files"
    by (metis append_eq_conv_conj diff_add_inverse2 length_append)
  then have listed: "listed = (if limit \<le> 0 then files else take (offset + nat limit) files)"
    unfolding left by (cases "offset + nat limit \<le> length files") simp_all
  have "map nameOf (rsCols (drRs r')) = map nameOf cols"
    using rows(3) by (induction rule: list_all2_induct) (auto simp: holdsFiles_def dest: colSig_name)
  moreover have "map valuesOf (rsCols (drRs r')) = map (\<lambda>c. Return (map (fileCell c) listed)) cols"
    using rows(3) by (induction rule: list_all2_induct) (auto simp: holdsFiles_def dest: colHolds_values)
  ultimately show ?thesis
    using r(1) r'(3) close rows(1,2) listed
    by (intro exI [of _ r] exI [of _ "drRs r'"]) (simp add: Let_def offset_limit_files_def)
qed

lemma NewFileInfoColumns_fresh:
  "list_all dirColumn NewFileInfoColumns" "distinct (map nameOf NewFileInfoColumns)"
  "list_all (\<lambda>c. colHolds c []) NewFileInfoColumns"
  by (simp_all add: NewFileInfoColumns_def NewFileNameColumn_def NewFileSizeColumn_def NewFileExtColumn_def
      NewFileModifiedColumn_def dirColumn_def namedType_def column_names isBoolCol_def acceptsValue_def
      assertedType_def hasType_def colHolds_def storedOk_def cellsOf_def bitmapCells_def bitmapOk_def
      NewTypedColumn_def NewBitmapColumn_def goString_def goInt64_def goTime_def)

lemma NewIsDirColumn_fresh: "dirColumn NewIsDirColumn" "colHolds NewIsDirColumn []"
  by (simp_all add: NewIsDirColumn_def dirColumn_def namedType_def column_names isBoolCol_def acceptsValue_def
      assertedType_def colHolds_def NewBoolColumn_def)

theorem directory_listing_witness:
  "\<exists>r rs. NewDirReader sampleFs ''/data'' NewFileInfoColumns = Return (Inr r) \<and>
    ExecuteQueryAndReadAllToRecordset (Inr r) dirOps drRs (\<lambda>_. None) [] = Some (None, Some rs) \<and>
    rsRowsCount rs = 2 \<and>
    map valuesOf (rsCols rs) =
      [Return [goString ''a.txt'', goString ''b''], Return [goInt64 3, goInt64 5],
       Return [goString ''.txt'', goString []], Return [goTime 7, goTime 9]]"
proof -
  let ?es = "[\<lparr>deName = ''a.txt'', deIsDir = False, deInfo = Inr \<lparr>fiSize = 3, fiModTime = 7\<rparr>\<rparr>,
    \<lparr>deName = ''sub'', deIsDir = True, deInfo = Inr \<lparr>fiSize = 0, fiModTime = 2\<rparr>\<rparr>,
    \<lparr>deName = ''b'', deIsDir = False, deInfo = Inr \<lparr>fiSize = 5, fiModTime = 9\<rparr>\<rparr>]"
  have ext: "pathExt ''a.txt'' = ''.txt''" "pathExt ''b'' = []"
    by code_simp+
  have cells: "map (\<lambda>c. Return (map (fileCell c) [?es ! 0, ?es ! 2])) NewFileInfoColumns =
      [Return [goString ''a.txt'', goString ''b''], Return [goInt64 3, goInt64 5],
       Return [goString ''.txt'', goString []], Return [goTime 7, goTime 9]]"
    by (simp add: NewFileInfoColumns_def NewFileNameColumn_def NewFileSizeColumn_def NewFileExtColumn_def
        NewFileModifiedColumn_def fileCell_def cellNamed_def column_names NewTypedColumn_def
        NewBitmapColumn_def ext)
  have "fsReadDir sampleFs ''/data'' = Inr ?es"
    by (simp add: sampleFs_def)
  from directory_listing [OF this NewFileInfoColumns_fresh, where opts = "[]"] cells show ?thesis
    by (auto simp: isOk_def newReaderOptions_def)
qed

text \<open>
  When the status of a file cannot be read any more, \<open>Next\<close> returns that error and stays at the
  file, but the row it added for it stays in the recordset, and a retry adds another.
\<close>

lemma dirNext_info_error:
  assumes "drOpen r" "skipDirs (drEntries r) (drNextIndex r) = i" "i < length (drEntries r)"
    and "deInfo (drEntries r ! i) = Inl err" "rsCols (drRs r) = [NewFileSizeColumn]"
  shows "\<exists>r'. dirNext r = Return (Inl (OtherErr err), r') \<and> drNextIndex r' = i \<and>
    rsRowsCount (drRs r') = rsRowsCount (drRs r) + 1"
  using assms
  by (simp add: dirNext_def newRow_def NewFileSizeColumn_def NewTypedColumn_def hasType_def goInt64_def
      stdAdd_def column_names Let_def)

end
