(* ===== verification/OrmField.thy ===== *)
theory OrmField
  imports DalQuery
begin

text \<open>
  Typed field definitions, \<open>src/orm\<close>: the constructors \<open>NewField\<close> and \<open>NewFieldWithType\<close> with
  their options, and the conditions a field builds.

  The type parameter of a field is an argument \<open>T\<close>: an interface type, of which
  \<open>reflect.TypeOf\<close> sees nothing in a zero value, or a concrete type with its text and its kind.
  A panic is \<^const>\<open>Inl\<close> with its message.
\<close>

section \<open>Definitions\<close>

datatype reflectKind =
    Invalid | BoolKind | IntKind | Int8 | Int16 | Int32 | Int64 | UintKind | Uint8 | Uint16 | Uint32
  | Uint64 | Uintptr | Float32 | Float64 | Complex64 | Complex128 | ArrayKind | Chan | Func
  | InterfaceKind | MapKind | PointerKind | SliceKind | StringKind | StructKind | UnsafePointer

text \<open>\<open>reflect.Kind.String\<close>.\<close>

fun kindString :: "reflectKind \<Rightarrow> string" where
  "kindString Invalid = ''invalid''"
| "kindString BoolKind = ''bool''"
| "kindString IntKind = ''int''"
| "kindString Int8 = ''int8''"
| "kindString Int16 = ''int16''"
| "kindString Int32 = ''int32''"
| "kindString Int64 = ''int64''"
| "kindString UintKind = ''uint''"
| "kindString Uint8 = ''uint8''"
| "kindString Uint16 = ''uint16''"
| "kindString Uint32 = ''uint32''"
| "kindString Uint64 = ''uint64''"
| "kindString Uintptr = ''uintptr''"
| "kindString Float32 = ''float32''"
| "kindString Float64 = ''float64''"
| "kindString Complex64 = ''complex64''"
| "kindString Complex128 = ''complex128''"
| "kindString ArrayKind = ''array''"
| "kindString Chan = ''chan''"
| "kindString Func = ''func''"
| "kindString InterfaceKind = ''interface''"
| "kindString MapKind = ''map''"
| "kindString PointerKind = ''ptr''"
| "kindString SliceKind = ''slice''"
| "kindString StringKind = ''string''"
| "kindString StructKind = ''struct''"
| "kindString UnsafePointer = ''unsafe.Pointer''"

text \<open>A type argument, and \<open>reflect.TypeOf\<close> of its zero value: nil for an interface type.\<close>

datatype ormType = InterfaceType string | ConcreteType string reflectKind

fun typeOfZero :: "ormType \<Rightarrow> (string \<times> reflectKind) option" where
  "typeOfZero (InterfaceType t) = None"
| "typeOfZero (ConcreteType t k) = Some (t, k)"

record fieldDefinition =
  ofName :: string
  ofValueType :: string
  ofRequired :: bool
  ofDefault :: "value"

text \<open>An option is a function on definitions; calling a nil one panics.\<close>

type_synonym fieldOption = "(fieldDefinition \<Rightarrow> fieldDefinition) option"

definition Required :: fieldOption where
  "Required = Some (\<lambda>f. f\<lparr>ofRequired := True\<rparr>)"

definition Default :: "value \<Rightarrow> fieldOption" where
  "Default v = Some (\<lambda>f. f\<lparr>ofDefault := v\<rparr>)"

definition nilPanic :: string where
  "nilPanic = ''runtime error: invalid memory address or nil pointer dereference''"

fun applyFieldOptions :: "fieldOption list \<Rightarrow> fieldDefinition \<Rightarrow> string + fieldDefinition" where
  "applyFieldOptions [] f = Inr f"
| "applyFieldOptions (None # os) f = Inl nilPanic"
| "applyFieldOptions (Some o1 # os) f = applyFieldOptions os (o1 f)"

text \<open>\<open>zero\<close> is the zero value of \<open>T\<close>.\<close>

definition NewFieldWithType ::
  "ormType \<Rightarrow> value \<Rightarrow> string \<Rightarrow> string \<Rightarrow> fieldOption list \<Rightarrow> string + fieldDefinition" where
  "NewFieldWithType T zero name valueType options =
     (if trimSpace name = [] then Inl ''name cannot be empty''
      else
        case typeOfZero T of
          None \<Rightarrow> Inl nilPanic
        | Some (t, kind) \<Rightarrow>
            (if kindString kind \<noteq> ''any'' \<and> kindString kind \<noteq> valueType
             then Inl (''valueType must be '' @ kindString kind)
             else applyFieldOptions options
                    \<lparr>ofName = name, ofValueType = valueType, ofRequired = False, ofDefault = zero\<rparr>))"

definition NewField :: "ormType \<Rightarrow> value \<Rightarrow> string \<Rightarrow> fieldOption list \<Rightarrow> string + fieldDefinition" where
  "NewField T zero name options =
     (case typeOfZero T of
        None \<Rightarrow> Inl nilPanic
      | Some (t, kind) \<Rightarrow> NewFieldWithType T zero name t options)"

definition CompareTo :: "fieldDefinition \<Rightarrow> operator \<Rightarrow> expression \<Rightarrow> condition" where
  "CompareTo f opr e = Comparison opr (Field (ofName f)) e"

definition fieldEqualTo :: "fieldDefinition \<Rightarrow> value \<Rightarrow> condition" where
  "fieldEqualTo f v = CompareTo f Equal (Constant v)"

section \<open>Construction\<close>

lemma kindString_not_any [simp]: "kindString k \<noteq> ''any''"
  by (cases k) simp_all

lemma applyFieldOptions_nil: "None \<in> set os \<Longrightarrow> applyFieldOptions os f = Inl nilPanic"
  by (induction os f rule: applyFieldOptions.induct) auto

lemma applyFieldOptions_fold:
  "None \<notin> set os \<Longrightarrow> applyFieldOptions os f = Inr (fold the os f)"
  by (induction os f rule: applyFieldOptions.induct) auto

lemma applyFieldOptions_eq:
  "applyFieldOptions os f = (if None \<in> set os then Inl nilPanic else Inr (fold the os f))"
  by (simp add: applyFieldOptions_nil applyFieldOptions_fold)

lemma NewFieldWithType_eq:
  "NewFieldWithType T zero name valueType os =
     (if trimSpace name = [] then Inl ''name cannot be empty''
      else case typeOfZero T of
             None \<Rightarrow> Inl nilPanic
           | Some (t, kind) \<Rightarrow>
               (if kindString kind \<noteq> valueType then Inl (''valueType must be '' @ kindString kind)
                else if None \<in> set os then Inl nilPanic
                else Inr (fold the os \<lparr>ofName = name, ofValueType = valueType, ofRequired = False,
                                       ofDefault = zero\<rparr>)))"
  by (simp add: NewFieldWithType_def applyFieldOptions_eq split: option.split)

text \<open>The options keep the name and the type; the last default wins.\<close>

fun lastDefault :: "value \<Rightarrow> value option list \<Rightarrow> value" where
  "lastDefault d [] = d"
| "lastDefault d (None # vs) = lastDefault d vs"
| "lastDefault d (Some v # vs) = lastDefault v vs"

definition optionOf :: "value option \<Rightarrow> fieldOption" where
  "optionOf v = (case v of None \<Rightarrow> Required | Some w \<Rightarrow> Default w)"

lemma optionOf_simps: "optionOf None = Required" "optionOf (Some w) = Default w"
  by (simp_all add: optionOf_def)

lemma fold_options:
  "fold the (map optionOf vs) f =
     f\<lparr>ofRequired := (ofRequired f \<or> None \<in> set vs), ofDefault := lastDefault (ofDefault f) vs\<rparr>"
proof (induction vs arbitrary: f)
  case (Cons v vs)
  show ?case
    by (cases v) (simp_all add: Cons.IH optionOf_simps Required_def Default_def)
qed simp

lemma optionOf_not_nil [simp]: "None \<notin> set (map optionOf vs)"
  by (auto simp: optionOf_def Required_def Default_def split: option.splits)

text \<open>C39: \<open>NewField[T]\<close> with a list of the package's options returns if and only if the name is not
  blank and \<open>T\<close> is a concrete type whose text is the name of its own kind, that is a predeclared
  one; the field then has the given name untrimmed, that type, is required if and only if
  \<open>Required\<close> is among the options, and has the default given last, or the zero value. Otherwise it
  panics: every interface type, and every named, struct, slice, map or pointer type is rejected.\<close>

theorem new_field_exact:
  "NewField T zero name (map optionOf vs) = Inr f \<longleftrightarrow>
     trimSpace name \<noteq> [] \<and>
     (\<exists>k. T = ConcreteType (kindString k) k \<and>
          f = \<lparr>ofName = name, ofValueType = kindString k, ofRequired = (None \<in> set vs),
               ofDefault = lastDefault zero vs\<rparr>)"
proof (cases T)
  case (ConcreteType t k)
  have "NewField T zero name (map optionOf vs) = Inr f \<longleftrightarrow>
        trimSpace name \<noteq> [] \<and> kindString k = t \<and>
        \<lparr>ofName = name, ofValueType = t, ofRequired = (None \<in> set vs), ofDefault = lastDefault zero vs\<rparr> = f"
    using optionOf_not_nil [of vs] fold_options [of vs "\<lparr>ofName = name, ofValueType = t, ofRequired = False, ofDefault = zero\<rparr>"]
    by (simp add: NewField_def NewFieldWithType_eq ConcreteType del: set_map)
  then show ?thesis
    by (auto simp: ConcreteType)
qed (simp add: NewField_def)

section \<open>Conditions\<close>

text \<open>The condition \<open>EqualTo\<close> of a field is the one \<open>dal.WhereField\<close> builds for the same name
  and a value of a constant type; for every other value \<open>dal.WhereField\<close> panics, the operator
  being \<open>Equal\<close>, while the field builds a condition still.\<close>

theorem field_condition_is_where:
  "WhereField (ofName f) Equal (PlainValue v) =
     (if typeText v \<in> set constantTypes then Some (fieldEqualTo f v) else None)"
  by (simp add: fieldEqualTo_def CompareTo_def operator_defs)

end
