(* ===== verification/SchemaDdl.thy ===== *)
theory SchemaDdl
  imports DalQuery
begin

text \<open>
  The schema vocabulary of \<open>src/dbschema\<close> and the schema-changing operations of \<open>src/ddl\<close>:
  portable types and definitions, the functional options, the six alter operations and their
  dispatch to a driver's \<open>Applier\<close>, the helpers that ask a database for an optional capability,
  and the two typed errors with their text and the chain \<open>errors.Is\<close> follows.

  A driver is not code of this repository. Its methods are arguments: an \<open>Applier\<close>, a
  \<open>SchemaModifier\<close> and a \<open>SchemaReader\<close> are records of functions on a context of type \<open>'c\<close> and a
  driver state of type \<open>'s\<close>, which return an error or nil with the state after the call. A database value carries
  what the type assertions of the helpers find in it; a nil interface is \<^const>\<open>None\<close>.
\<close>

section \<open>Definitions\<close>

subsection \<open>Types and definitions of a schema\<close>

text \<open>\<open>Type\<close> is an \<open>int8\<close>; the declared constants are its first eight values.\<close>

type_synonym schemaType = "8 word"

definition declaredTypes :: "schemaType list" where
  "declaredTypes = [0, 1, 2, 3, 4, 5, 6, 7]"

definition schemaTypeString :: "schemaType \<Rightarrow> string" where
  "schemaTypeString t =
     (if t = 0 then ''null''
      else if t = 1 then ''bool''
      else if t = 2 then ''int''
      else if t = 3 then ''float''
      else if t = 4 then ''string''
      else if t = 5 then ''bytes''
      else if t = 6 then ''time''
      else if t = 7 then ''decimal''
      else ''unknown'')"

record precision =
  precTotal :: int
  precScale :: int

datatype defaultExpr = DefaultLiteral "value" | DefaultCurrentTimestamp

type_synonym fieldName = string

record fieldDef =
  fdName :: fieldName
  fdType :: schemaType
  fdLength :: "int option"
  fdPrecision :: "precision option"
  fdNullable :: bool
  fdDefault :: "defaultExpr option"
  fdAutoIncrement :: bool

record indexDef =
  ixName :: string
  ixCollection :: string
  ixFields :: "fieldName list"
  ixUnique :: bool

record collectionSchemaDef =
  cdName :: string
  cdFields :: "fieldDef list"
  cdPrimaryKey :: "fieldName list"
  cdIndexes :: "indexDef list"

record constraintDef =
  cnName :: string
  cnType :: string

record referrer =
  rfCollection :: recordsetSource
  rfFields :: "fieldName list"

subsection \<open>Options\<close>

record ddlOptions =
  ifNotExists :: bool
  ifExists :: bool

text \<open>\<open>Option\<close> is a function that changes the options it is given; a nil one is \<^const>\<open>None\<close>.\<close>

type_synonym ddlOption = "(ddlOptions \<Rightarrow> ddlOptions) option"

definition IfNotExists :: ddlOption where
  "IfNotExists = Some (\<lambda>opts. opts\<lparr>ifNotExists := True\<rparr>)"

definition IfExists :: ddlOption where
  "IfExists = Some (\<lambda>opts. opts\<lparr>ifExists := True\<rparr>)"

definition ResolveOptions :: "ddlOption list \<Rightarrow> ddlOptions" where
  "ResolveOptions opts =
     fold (\<lambda>fn acc. case fn of None \<Rightarrow> acc | Some f \<Rightarrow> f acc) opts
       \<lparr>ifNotExists = False, ifExists = False\<rparr>"

subsection \<open>Alter operations\<close>

datatype alterOp =
    addFieldOp fieldDef ddlOptions
  | dropFieldOp fieldName ddlOptions
  | modifyFieldOp fieldName fieldDef ddlOptions
  | renameFieldOp fieldName fieldName ddlOptions
  | addIndexOp indexDef ddlOptions
  | dropIndexOp string ddlOptions

definition AddField :: "fieldDef \<Rightarrow> ddlOption list \<Rightarrow> alterOp" where
  "AddField f opts = addFieldOp f (ResolveOptions opts)"

definition DropField :: "fieldName \<Rightarrow> ddlOption list \<Rightarrow> alterOp" where
  "DropField name opts = dropFieldOp name (ResolveOptions opts)"

definition ModifyField :: "fieldName \<Rightarrow> fieldDef \<Rightarrow> ddlOption list \<Rightarrow> alterOp" where
  "ModifyField name newDef opts = modifyFieldOp name newDef (ResolveOptions opts)"

definition RenameField :: "fieldName \<Rightarrow> fieldName \<Rightarrow> ddlOption list \<Rightarrow> alterOp" where
  "RenameField oldName newName opts = renameFieldOp oldName newName (ResolveOptions opts)"

definition AddIndex :: "indexDef \<Rightarrow> ddlOption list \<Rightarrow> alterOp" where
  "AddIndex idx opts = addIndexOp idx (ResolveOptions opts)"

definition DropIndex :: "string \<Rightarrow> ddlOption list \<Rightarrow> alterOp" where
  "DropIndex name opts = dropIndexOp name (ResolveOptions opts)"

text \<open>The six methods of an \<open>Applier\<close>; \<open>'r\<close> is what a call returns with the driver's new state.\<close>

record ('c, 'r) applier =
  ApplyAddField :: "'c \<Rightarrow> fieldDef \<Rightarrow> ddlOptions \<Rightarrow> 'r"
  ApplyDropField :: "'c \<Rightarrow> fieldName \<Rightarrow> ddlOptions \<Rightarrow> 'r"
  ApplyModifyField :: "'c \<Rightarrow> fieldName \<Rightarrow> fieldDef \<Rightarrow> ddlOptions \<Rightarrow> 'r"
  ApplyRenameField :: "'c \<Rightarrow> fieldName \<Rightarrow> fieldName \<Rightarrow> ddlOptions \<Rightarrow> 'r"
  ApplyAddIndex :: "'c \<Rightarrow> indexDef \<Rightarrow> ddlOptions \<Rightarrow> 'r"
  ApplyDropIndex :: "'c \<Rightarrow> string \<Rightarrow> ddlOptions \<Rightarrow> 'r"

fun ApplyTo :: "alterOp \<Rightarrow> 'c \<Rightarrow> ('c, 'r) applier \<Rightarrow> 'r" where
  "ApplyTo (addFieldOp f opts) ctx a = ApplyAddField a ctx f opts"
| "ApplyTo (dropFieldOp name opts) ctx a = ApplyDropField a ctx name opts"
| "ApplyTo (modifyFieldOp name newDef opts) ctx a = ApplyModifyField a ctx name newDef opts"
| "ApplyTo (renameFieldOp oldName newName opts) ctx a = ApplyRenameField a ctx oldName newName opts"
| "ApplyTo (addIndexOp idx opts) ctx a = ApplyAddIndex a ctx idx opts"
| "ApplyTo (dropIndexOp name opts) ctx a = ApplyDropIndex a ctx name opts"

subsection \<open>Errors\<close>

text \<open>
  \<open>*NotSupportedError\<close> with its operation, backend and reason; \<open>*PartialSuccessError\<close> with its
  fields in order; the sentinel \<open>dal.ErrNotSupported\<close>; any other error of a driver, by its text.
\<close>

datatype schemaError =
    NotSupportedError (nsOp: string) (nsBackend: string) (nsReason: string)
  | PartialSuccessError (psOp: string) (psCollection: string) (psBackend: string)
      (psApplied: "alterOp list") (psFirstFailed: "alterOp option")
      (psNotAttempted: "alterOp list") (psCause: "schemaError option")
  | SentinelNotSupported
  | DriverError string

fun unwrapSchema :: "schemaError \<Rightarrow> schemaError option" where
  "unwrapSchema (NotSupportedError opn backend reason) = Some SentinelNotSupported"
| "unwrapSchema (PartialSuccessError opn coll backend applied failed rest cause) = cause"
| "unwrapSchema SentinelNotSupported = None"
| "unwrapSchema (DriverError msg) = None"

text \<open>\<open>errors.Is(err, target)\<close> for the sentinel: the error itself or one its chain reaches.\<close>

function isNotSupported :: "schemaError \<Rightarrow> bool" where
  "isNotSupported e =
     (e = SentinelNotSupported \<or>
      (case unwrapSchema e of None \<Rightarrow> False | Some e' \<Rightarrow> isNotSupported e'))"
  by pat_completeness auto
termination
proof (relation "measure (\<lambda>e. case e of NotSupportedError _ _ _ \<Rightarrow> 1 | _ \<Rightarrow> size e)")
  fix e e'
  assume "unwrapSchema e = Some e'"
  then show "(e', e) \<in> measure (\<lambda>e. case e of NotSupportedError _ _ _ \<Rightarrow> 1 | _ \<Rightarrow> size e)"
    by (cases e; cases e') auto
qed simp

declare isNotSupported.simps [simp del]

definition optPart :: "string \<Rightarrow> string \<Rightarrow> string list" where
  "optPart label v = (if v \<noteq> [] then [label @ v] else [])"

definition notSupportedText :: "string \<Rightarrow> string \<Rightarrow> string \<Rightarrow> string" where
  "notSupportedText opn backend reason =
     (let parts = [''dbschema: operation not supported''] @ optPart ''op='' opn @
                  optPart ''backend='' backend @ optPart ''reason='' reason
      in fold (\<lambda>p out. out @ ''; '' @ p) (tl parts) (hd parts))"

definition optField :: "string \<Rightarrow> string \<Rightarrow> string" where
  "optField label v = (if v \<noteq> [] then label @ v @ '' '' else [])"

fun schemaErrorText :: "schemaError \<Rightarrow> string" where
  "schemaErrorText (NotSupportedError opn backend reason) = notSupportedText opn backend reason"
| "schemaErrorText (PartialSuccessError opn coll backend applied failed rest cause) =
     ''ddl: partial success: '' @ optField ''op='' opn @ optField ''collection='' coll @
     optField ''backend='' backend @ ''applied='' @ natDec (length applied) @
     '' failed=1 not_attempted='' @ natDec (length rest) @
     (case cause of None \<Rightarrow> [] | Some e \<Rightarrow> ''; cause: '' @ schemaErrorText e)"
| "schemaErrorText SentinelNotSupported = ''not supported''"
| "schemaErrorText (DriverError msg) = msg"

subsection \<open>Capabilities of a database\<close>

record ('c, 's) schemaModifier =
  modCreate :: "'c \<Rightarrow> collectionSchemaDef \<Rightarrow> ddlOption list \<Rightarrow> 's \<Rightarrow> schemaError option \<times> 's"
  modDrop :: "'c \<Rightarrow> string \<Rightarrow> ddlOption list \<Rightarrow> 's \<Rightarrow> schemaError option \<times> 's"
  modAlter :: "'c \<Rightarrow> string \<Rightarrow> alterOp list \<Rightarrow> 's \<Rightarrow> schemaError option \<times> 's"

record ('c, 's) schemaReader =
  rdListCollections :: "'c \<Rightarrow> key option \<Rightarrow> 's \<Rightarrow> (schemaError + recordsetSource list) \<times> 's"
  rdDescribe :: "'c \<Rightarrow> recordsetSource option \<Rightarrow> 's \<Rightarrow> (schemaError + collectionSchemaDef option) \<times> 's"
  rdListIndexes :: "'c \<Rightarrow> recordsetSource option \<Rightarrow> 's \<Rightarrow> (schemaError + indexDef list) \<times> 's"
  rdListConstraints :: "'c \<Rightarrow> recordsetSource option \<Rightarrow> 's \<Rightarrow> (schemaError + constraintDef list) \<times> 's"
  rdListReferrers :: "'c \<Rightarrow> recordsetSource option \<Rightarrow> 's \<Rightarrow> (schemaError + referrer list) \<times> 's"

text \<open>
  A database value: the name its adapter reports (none for a nil adapter) and the result of each
  type assertion the helpers make on it.
\<close>

record ('c, 's) schemaDb =
  sdbAdapter :: "string option"
  sdbModifier :: "('c, 's) schemaModifier option"
  sdbReader :: "('c, 's) schemaReader option"
  sdbTransactional :: "bool option"

definition backendName :: "('c, 's) schemaDb option \<Rightarrow> string" where
  "backendName db =
     (case db of
        None \<Rightarrow> []
      | Some d \<Rightarrow> (case sdbAdapter d of None \<Rightarrow> [] | Some name \<Rightarrow> name))"

definition notSupportedModifier :: "string \<Rightarrow> ('c, 's) schemaDb option \<Rightarrow> schemaError" where
  "notSupportedModifier opn db =
     NotSupportedError opn (backendName db) ''driver does not implement ddl.SchemaModifier''"

definition notSupportedReader :: "string \<Rightarrow> ('c, 's) schemaDb option \<Rightarrow> schemaError" where
  "notSupportedReader opn db =
     NotSupportedError opn (backendName db) ''driver does not implement dbschema.SchemaReader''"

definition asModifier :: "('c, 's) schemaDb option \<Rightarrow> ('c, 's) schemaModifier option" where
  "asModifier db = Option.bind db sdbModifier"

definition asReader :: "('c, 's) schemaDb option \<Rightarrow> ('c, 's) schemaReader option" where
  "asReader db = Option.bind db sdbReader"

definition CreateCollection ::
  "'c \<Rightarrow> ('c, 's) schemaDb option \<Rightarrow> collectionSchemaDef \<Rightarrow> ddlOption list \<Rightarrow> 's \<Rightarrow> schemaError option \<times> 's" where
  "CreateCollection ctx db c opts s =
     (case asModifier db of
        None \<Rightarrow> (Some (notSupportedModifier ''CreateCollection'' db), s)
      | Some m \<Rightarrow> modCreate m ctx c opts s)"

definition DropCollection ::
  "'c \<Rightarrow> ('c, 's) schemaDb option \<Rightarrow> string \<Rightarrow> ddlOption list \<Rightarrow> 's \<Rightarrow> schemaError option \<times> 's" where
  "DropCollection ctx db name opts s =
     (case asModifier db of
        None \<Rightarrow> (Some (notSupportedModifier ''DropCollection'' db), s)
      | Some m \<Rightarrow> modDrop m ctx name opts s)"

definition AlterCollection ::
  "'c \<Rightarrow> ('c, 's) schemaDb option \<Rightarrow> string \<Rightarrow> alterOp list \<Rightarrow> 's \<Rightarrow> schemaError option \<times> 's" where
  "AlterCollection ctx db name ops s =
     (case asModifier db of
        None \<Rightarrow> (Some (notSupportedModifier ''AlterCollection'' db), s)
      | Some m \<Rightarrow> modAlter m ctx name ops s)"

definition SupportsTransactionalDDL :: "('c, 's) schemaDb option \<Rightarrow> bool" where
  "SupportsTransactionalDDL db =
     (case Option.bind db sdbTransactional of None \<Rightarrow> False | Some b \<Rightarrow> b)"

definition ListCollections ::
  "'c \<Rightarrow> ('c, 's) schemaDb option \<Rightarrow> key option \<Rightarrow> 's \<Rightarrow> (schemaError + recordsetSource list) \<times> 's" where
  "ListCollections ctx db parent s =
     (case asReader db of
        None \<Rightarrow> (Inl (notSupportedReader ''ListCollections'' db), s)
      | Some r \<Rightarrow> rdListCollections r ctx parent s)"

definition DescribeCollection ::
  "'c \<Rightarrow> ('c, 's) schemaDb option \<Rightarrow> recordsetSource option \<Rightarrow> 's \<Rightarrow> (schemaError + collectionSchemaDef option) \<times> 's" where
  "DescribeCollection ctx db ref s =
     (case asReader db of
        None \<Rightarrow> (Inl (notSupportedReader ''DescribeCollection'' db), s)
      | Some r \<Rightarrow> rdDescribe r ctx ref s)"

definition ListIndexes ::
  "'c \<Rightarrow> ('c, 's) schemaDb option \<Rightarrow> recordsetSource option \<Rightarrow> 's \<Rightarrow> (schemaError + indexDef list) \<times> 's" where
  "ListIndexes ctx db ref s =
     (case asReader db of
        None \<Rightarrow> (Inl (notSupportedReader ''ListIndexes'' db), s)
      | Some r \<Rightarrow> rdListIndexes r ctx ref s)"

definition ListConstraints ::
  "'c \<Rightarrow> ('c, 's) schemaDb option \<Rightarrow> recordsetSource option \<Rightarrow> 's \<Rightarrow> (schemaError + constraintDef list) \<times> 's" where
  "ListConstraints ctx db ref s =
     (case asReader db of
        None \<Rightarrow> (Inl (notSupportedReader ''ListConstraints'' db), s)
      | Some r \<Rightarrow> rdListConstraints r ctx ref s)"

definition ListReferrers ::
  "'c \<Rightarrow> ('c, 's) schemaDb option \<Rightarrow> recordsetSource option \<Rightarrow> 's \<Rightarrow> (schemaError + referrer list) \<times> 's" where
  "ListReferrers ctx db ref s =
     (case asReader db of
        None \<Rightarrow> (Inl (notSupportedReader ''ListReferrers'' db), s)
      | Some r \<Rightarrow> rdListReferrers r ctx ref s)"

section \<open>Options and dispatch\<close>

lemma IfNotExists_neq_IfExists: "IfNotExists \<noteq> IfExists"
proof
  assume "IfNotExists = IfExists"
  then have "(\<lambda>opts. opts\<lparr>ifNotExists := True\<rparr>) = (\<lambda>opts :: ddlOptions. opts\<lparr>ifExists := True\<rparr>)"
    by (simp add: IfNotExists_def IfExists_def)
  from fun_cong [OF this, of "\<lparr>ifNotExists = False, ifExists = False\<rparr>"] show False
    by simp
qed

lemma option_values_distinct [simp]:
  "IfNotExists \<noteq> IfExists" "IfExists \<noteq> IfNotExists"
  "IfNotExists \<noteq> None" "IfExists \<noteq> None" "None \<noteq> IfNotExists" "None \<noteq> IfExists"
  using IfNotExists_neq_IfExists by (auto simp: IfNotExists_def IfExists_def)

lemma resolve_fold:
  assumes "set opts \<subseteq> {None, IfNotExists, IfExists}"
  shows "fold (\<lambda>fn acc. case fn of None \<Rightarrow> acc | Some f \<Rightarrow> f acc) opts \<lparr>ifNotExists = n, ifExists = e\<rparr> =
         \<lparr>ifNotExists = (n \<or> IfNotExists \<in> set opts), ifExists = (e \<or> IfExists \<in> set opts)\<rparr>"
  using assms
proof (induction opts arbitrary: n e)
  case (Cons fn opts)
  then consider "fn = None" | "fn = IfNotExists" | "fn = IfExists"
    by auto
  then show ?case
  proof cases
    case 1
    then show ?thesis using Cons by simp
  next
    case 2
    have "(case fn of None \<Rightarrow> \<lparr>ifNotExists = n, ifExists = e\<rparr> | Some f \<Rightarrow> f \<lparr>ifNotExists = n, ifExists = e\<rparr>) =
          \<lparr>ifNotExists = True, ifExists = e\<rparr>"
      by (simp add: 2 IfNotExists_def)
    then show ?thesis using Cons 2 by simp
  next
    case 3
    have "(case fn of None \<Rightarrow> \<lparr>ifNotExists = n, ifExists = e\<rparr> | Some f \<Rightarrow> f \<lparr>ifNotExists = n, ifExists = e\<rparr>) =
          \<lparr>ifNotExists = n, ifExists = True\<rparr>"
      by (simp add: 3 IfExists_def)
    then show ?thesis using Cons 3 by simp
  qed
qed simp

lemma ResolveOptions_flags:
  assumes "set opts \<subseteq> {None, IfNotExists, IfExists}"
  shows "ResolveOptions opts =
         \<lparr>ifNotExists = (IfNotExists \<in> set opts), ifExists = (IfExists \<in> set opts)\<rparr>"
  using resolve_fold [OF assms, of False False] by (simp add: ResolveOptions_def)

lemma ResolveOptions_append_nil [simp]: "ResolveOptions (xs @ None # ys) = ResolveOptions (xs @ ys)"
  by (simp add: ResolveOptions_def)

text \<open>The applier whose methods rebuild the operation they are called for.\<close>

definition rebuilding :: "('c, alterOp) applier" where
  "rebuilding =
     \<lparr>ApplyAddField = (\<lambda>ctx f opts. addFieldOp f opts),
      ApplyDropField = (\<lambda>ctx name opts. dropFieldOp name opts),
      ApplyModifyField = (\<lambda>ctx name newDef opts. modifyFieldOp name newDef opts),
      ApplyRenameField = (\<lambda>ctx oldName newName opts. renameFieldOp oldName newName opts),
      ApplyAddIndex = (\<lambda>ctx idx opts. addIndexOp idx opts),
      ApplyDropIndex = (\<lambda>ctx name opts. dropIndexOp name opts)\<rparr>"

lemma ApplyTo_rebuilding [simp]: "ApplyTo opn ctx rebuilding = opn"
  by (cases opn) (simp_all add: rebuilding_def)

text \<open>A driver that maps operations to effects by its six methods, whatever they are.\<close>

lemma ApplyTo_factor:
  "ApplyTo opn ctx
     \<lparr>ApplyAddField = (\<lambda>ctx f opts. h ctx (addFieldOp f opts)),
      ApplyDropField = (\<lambda>ctx name opts. h ctx (dropFieldOp name opts)),
      ApplyModifyField = (\<lambda>ctx name newDef opts. h ctx (modifyFieldOp name newDef opts)),
      ApplyRenameField = (\<lambda>ctx oldName newName opts. h ctx (renameFieldOp oldName newName opts)),
      ApplyAddIndex = (\<lambda>ctx idx opts. h ctx (addIndexOp idx opts)),
      ApplyDropIndex = (\<lambda>ctx name opts. h ctx (dropIndexOp name opts))\<rparr> = h ctx opn"
  by (cases opn) simp_all

lemma ApplyTo_separates: "(\<forall>a :: (unit, alterOp) applier. ApplyTo p () a = ApplyTo q () a) \<longleftrightarrow> p = q"
  using ApplyTo_rebuilding by metis

lemmas alter_constructors =
  AddField_def DropField_def ModifyField_def RenameField_def AddIndex_def DropIndex_def



section \<open>Errors\<close>

lemma isNotSupported_simps [simp]:
  "isNotSupported (NotSupportedError opn backend reason)"
  "isNotSupported SentinelNotSupported"
  "\<not> isNotSupported (DriverError msg)"
  "isNotSupported (PartialSuccessError opn coll backend applied failed rest None) = False"
  "isNotSupported (PartialSuccessError opn coll backend applied failed rest (Some e)) = isNotSupported e"
  by (simp_all add: isNotSupported.simps [of "NotSupportedError opn backend reason"]
      isNotSupported.simps [of SentinelNotSupported] isNotSupported.simps [of "DriverError msg"]
      isNotSupported.simps [of "PartialSuccessError opn coll backend applied failed rest None"]
      isNotSupported.simps [of "PartialSuccessError opn coll backend applied failed rest (Some e)"])

lemma fold_join: "fold (\<lambda>p out. out @ sep @ p) ps x = joinWith sep (x # ps)"
proof (induction ps arbitrary: x)
  case (Cons p ps)
  have "joinWith sep ((x @ sep @ p) # ps) = joinWith sep (x # p # ps)"
    by (cases ps) simp_all
  then show ?case using Cons by simp
qed simp

lemma notSupportedText_join:
  "notSupportedText opn backend reason =
     joinWith ''; '' (''dbschema: operation not supported'' # optPart ''op='' opn @
       optPart ''backend='' backend @ optPart ''reason='' reason)"
  using fold_join [where sep = "''; ''"] by (simp add: notSupportedText_def Let_def)

section \<open>Types\<close>

lemma schemaTypeString_declared: "distinct (map schemaTypeString declaredTypes)"
  by code_simp

lemma schemaTypeString_unknown: "schemaTypeString t = ''unknown'' \<longleftrightarrow> t \<notin> set declaredTypes"
  by (simp add: schemaTypeString_def declaredTypes_def)

text \<open>The declared types are told apart by their names, and only an undeclared value is \<open>unknown\<close>.\<close>

lemma schema_type_names:
  assumes "schemaTypeString t = schemaTypeString u" "t \<in> set declaredTypes"
  shows "u = t"
proof -
  have "u \<in> set declaredTypes"
    using assms schemaTypeString_unknown [of t] schemaTypeString_unknown [of u] by simp
  then show ?thesis
    using assms schemaTypeString_declared by (auto simp: distinct_map dest: inj_onD)
qed

section \<open>Capabilities\<close>

text \<open>
  The contract the helpers of both packages share: a helper asks a database for a capability,
  delegates to it when it is there, and otherwise refuses without touching the driver.
\<close>

locale capability_helper =
  fixes provides :: "'d \<Rightarrow> 'm option"
    and call :: "'m \<Rightarrow> 'a \<Rightarrow> 's \<Rightarrow> 'r \<times> 's"
    and refusal :: "'d \<Rightarrow> 'r"
    and helper :: "'d \<Rightarrow> 'a \<Rightarrow> 's \<Rightarrow> 'r \<times> 's"
  assumes delegates: "provides db = Some m \<Longrightarrow> helper db x s = call m x s"
    and refuses: "provides db = None \<Longrightarrow> helper db x s = (refusal db, s)"
begin

text \<open>What a caller that makes a series of calls gets, and the driver's state at the end.\<close>

lemma refused_series:
  assumes "provides db = None"
  shows "fold (\<lambda>x (rs, s). let (r, s') = helper db x s in (rs @ [r], s')) xs (rs, s) =
         (rs @ replicate (length xs) (refusal db), s)"
proof (induction xs arbitrary: rs)
  case (Cons x xs)
  then show ?case
    by (simp add: refuses [OF assms] replicate_append_same [symmetric])
qed simp

lemma state_changes_need_capability:
  assumes "snd (helper db x s) \<noteq> s"
  obtains m where "provides db = Some m" "helper db x s = call m x s"
proof (cases "provides db")
  case None
  then show ?thesis using assms by (simp add: refuses)
next
  case (Some m)
  then show ?thesis using that delegates by blast
qed

lemma same_capability: "provides db = provides db' \<Longrightarrow> provides db \<noteq> None \<Longrightarrow> helper db x s = helper db' x s"
  using delegates by (metis option.exhaust)

end

interpretation create: capability_helper asModifier "\<lambda>m (ctx, c, opts). modCreate m ctx c opts"
    "\<lambda>db. Some (notSupportedModifier ''CreateCollection'' db)"
    "\<lambda>db (ctx, c, opts). CreateCollection ctx db c opts"
  by unfold_locales (simp_all add: CreateCollection_def split_def)

interpretation drop_coll: capability_helper asModifier "\<lambda>m (ctx, name, opts). modDrop m ctx name opts"
    "\<lambda>db. Some (notSupportedModifier ''DropCollection'' db)"
    "\<lambda>db (ctx, name, opts). DropCollection ctx db name opts"
  by unfold_locales (simp_all add: DropCollection_def split_def)

interpretation alter: capability_helper asModifier "\<lambda>m (ctx, name, ops). modAlter m ctx name ops"
    "\<lambda>db. Some (notSupportedModifier ''AlterCollection'' db)"
    "\<lambda>db (ctx, name, ops). AlterCollection ctx db name ops"
  by unfold_locales (simp_all add: AlterCollection_def split_def)

interpretation list_colls: capability_helper asReader "\<lambda>r (ctx, parent). rdListCollections r ctx parent"
    "\<lambda>db. Inl (notSupportedReader ''ListCollections'' db)"
    "\<lambda>db (ctx, parent). ListCollections ctx db parent"
  by unfold_locales (simp_all add: ListCollections_def split_def)

interpretation describe: capability_helper asReader "\<lambda>r (ctx, ref). rdDescribe r ctx ref"
    "\<lambda>db. Inl (notSupportedReader ''DescribeCollection'' db)"
    "\<lambda>db (ctx, ref). DescribeCollection ctx db ref"
  by unfold_locales (simp_all add: DescribeCollection_def split_def)

interpretation list_indexes: capability_helper asReader "\<lambda>r (ctx, ref). rdListIndexes r ctx ref"
    "\<lambda>db. Inl (notSupportedReader ''ListIndexes'' db)"
    "\<lambda>db (ctx, ref). ListIndexes ctx db ref"
  by unfold_locales (simp_all add: ListIndexes_def split_def)

interpretation list_constraints: capability_helper asReader "\<lambda>r (ctx, ref). rdListConstraints r ctx ref"
    "\<lambda>db. Inl (notSupportedReader ''ListConstraints'' db)"
    "\<lambda>db (ctx, ref). ListConstraints ctx db ref"
  by unfold_locales (simp_all add: ListConstraints_def split_def)

interpretation list_referrers: capability_helper asReader "\<lambda>r (ctx, ref). rdListReferrers r ctx ref"
    "\<lambda>db. Inl (notSupportedReader ''ListReferrers'' db)"
    "\<lambda>db (ctx, ref). ListReferrers ctx db ref"
  by unfold_locales (simp_all add: ListReferrers_def split_def)

lemma refusals_are_not_supported [simp]:
  "isNotSupported (notSupportedModifier opn db)" "isNotSupported (notSupportedReader opn db)"
  by (simp_all add: notSupportedModifier_def notSupportedReader_def)

text \<open>The same for the read side: a database without \<open>SchemaReader\<close> refuses all five helpers.\<close>

lemma schema_readers_refuse:
  assumes "asReader db = None"
  shows "ListCollections ctx db parent s = (Inl (notSupportedReader ''ListCollections'' db), s)"
    and "DescribeCollection ctx db ref s = (Inl (notSupportedReader ''DescribeCollection'' db), s)"
    and "ListIndexes ctx db ref s = (Inl (notSupportedReader ''ListIndexes'' db), s)"
    and "ListConstraints ctx db ref s = (Inl (notSupportedReader ''ListConstraints'' db), s)"
    and "ListReferrers ctx db ref s = (Inl (notSupportedReader ''ListReferrers'' db), s)"
  using list_colls.refuses [OF assms, of "(ctx, parent)" s] describe.refuses [OF assms, of "(ctx, ref)" s]
    list_indexes.refuses [OF assms, of "(ctx, ref)" s] list_constraints.refuses [OF assms, of "(ctx, ref)" s]
    list_referrers.refuses [OF assms, of "(ctx, ref)" s]
  by simp_all

text \<open>On a database without \<open>SchemaModifier\<close>, a nil one included, any series of alterations is
  refused call by call and leaves the driver as it was, and so are creating and dropping; every refusal names its
  operation and the database's adapter, and \<open>errors.Is(err, dal.ErrNotSupported)\<close> recognises it,
  also when a driver reports it as the cause of a partial success.\<close>

theorem schema_helpers_refuse:
  assumes "asModifier db = None"
  shows "fold (\<lambda>x (rs, s). let (r, s') = (case x of (ctx, name, ops) \<Rightarrow> AlterCollection ctx db name ops) s
                           in (rs @ [r], s')) xs ([], s) =
           (replicate (length xs) (Some (notSupportedModifier ''AlterCollection'' db)), s) \<and>
         CreateCollection ctx db c opts s = (Some (notSupportedModifier ''CreateCollection'' db), s) \<and>
         DropCollection ctx db name opts s = (Some (notSupportedModifier ''DropCollection'' db), s) \<and>
         schemaErrorText (notSupportedModifier opn db) =
           joinWith ''; '' (''dbschema: operation not supported'' # optPart ''op='' opn @
             optPart ''backend='' (backendName db) @
             [''reason=driver does not implement ddl.SchemaModifier'']) \<and>
         isNotSupported (notSupportedModifier opn db) \<and>
         isNotSupported (PartialSuccessError o2 coll b applied failed rest (Some (notSupportedModifier opn db)))"
  using alter.refused_series [OF assms, of xs "[]" s] create.refuses [OF assms, of "(ctx, c, opts)" s]
    drop_coll.refuses [OF assms, of "(ctx, name, opts)" s]
  by (simp add: notSupportedModifier_def notSupportedText_join optPart_def)

theorem schema_helpers_refuse_witness:
  "DropCollection () (Some \<lparr>sdbAdapter = Some ''dalgo2memory'', sdbModifier = None, sdbReader = None,
       sdbTransactional = None\<rparr>) ''users'' [IfExists] (7 :: nat) =
     (Some (NotSupportedError ''DropCollection'' ''dalgo2memory''
        ''driver does not implement ddl.SchemaModifier''), 7)"
  using schema_helpers_refuse [of "Some \<lparr>sdbAdapter = Some ''dalgo2memory'', sdbModifier = None,
      sdbReader = None, sdbTransactional = None\<rparr> :: (unit, nat) schemaDb option" "[]" 7 "()" undefined
      "[IfExists]" "''users''"]
  by (simp add: asModifier_def notSupportedModifier_def backendName_def)

end
