(* ===== verification/Spec2Isabelle.thy ===== *)
theory Spec2Isabelle
  imports AccessGuard AccessCodec BranchConformance RecordRender MemoryRecordset DalTransaction DalCollection
    DtqlSchema DalBuilder DalError DalSource FsDirectory OrmField SchemaDdl
begin

text \<open>
  A verification development of dalgo (\<open>src/\<close>), a database abstraction layer for Go.

  \<^bold>\<open>The program.\<close> Package \<open>dal\<close> declares the interfaces an application codes against: records under
  hierarchical keys, sessions, transactions, structured queries. Adapters implement them; the one
  that lives in the repository and carries most of its logic is \<open>adapters/dalgo2memory\<close>, an
  in-memory database with two storage engines and a query executor. Package \<open>access\<close> wraps any
  adapter: it compiles access policies, decides requests, and hands out sessions and databases that
  forward a call only when every policy in force allows it. Package \<open>recordset\<close> holds tables by
  columns, which a query can be answered in; \<open>recordops\<close> compares sorted streams of records and
  renders the differences; \<open>dtql\<close> writes structured queries as documents and publishes a JSON Schema of
  them. Around these are \<open>adapters/dalgo2fs\<close>, which reads files and lists directories, \<open>ddl\<close> and
  \<open>dbschema\<close>, which describe schemas and pass changes of them to a driver, \<open>orm\<close>, which defines fields, and
  \<open>branchingtest\<close>, the conformance suite of providers of branches.

  \<^bold>\<open>The theories, bottom up.\<close>
  \<^item> \<open>Prelude\<close>: results as sums (\<open>bindE\<close>), text (splitting, joining, percent escapes, decimal
    numbers), the contract of Go's stable sort as the locales \<open>sort_order\<close> and \<open>total_sort_order\<close>.
  \<^item> \<open>AccessOperation\<close>, \<open>AccessResource\<close>, \<open>AccessRule\<close>, \<open>AccessPolicy\<close> (\<open>src/access/operation.go\<close>,
    \<open>resource.go\<close>, \<open>rule.go\<close>, \<open>policy.go\<close>): operation sets as 16-bit words, keys and path
    patterns, compilation of rule trees, decisions.
  \<^item> \<open>AccessGuard\<close> (\<open>context.go\<close>, \<open>session.go\<close>, \<open>database.go\<close> of \<open>access\<close>): contexts and guards;
    secured sessions and databases over an adapter given as a record of operations.
  \<^item> \<open>AccessDocument\<close> (\<open>document.go\<close>): portable policy documents over a codec given as an argument.
  \<^item> \<open>AccessCodec\<close> (\<open>document.go\<close>): the YAML and JSON codecs around the packages that parse and print, which are
    arguments, and the functions that marshal policies.
  \<^item> \<open>GoMap\<close>: Go maps as association lists sorted by key, so that equal maps are equal lists.
  \<^item> \<open>MemoryValue\<close> (\<open>src/adapters/dalgo2memory/database.go\<close>, \<open>join.go\<close>): the values a row holds, JSON
    documents, conversion of numbers to \<open>float64\<close>, equality and comparison.
  \<^item> \<open>MemoryEngine\<close> (\<open>engine.go\<close>, \<open>serialized.go\<close>): field updates, the contract of a storage engine as
    the locale \<open>storage_engine\<close>, and the engine that keeps JSON documents as its first instance.
  \<^item> \<open>MemoryColumnar\<close> (\<open>columnar.go\<close>, \<open>strategy.go\<close>): typed columns over reusable slots, tombstones,
    compaction; the second instance of \<open>storage_engine\<close>.
  \<^item> \<open>DalInsert\<close> (\<open>src/dal/tx_inserter.go\<close>, \<open>id_generator.go\<close>): insert options, identifier generators,
    the loop over attempts.
  \<^item> \<open>DalQuery\<close> (\<open>src/dal/q_*.go\<close>, \<open>query_struct.go\<close>, \<open>q_builder.go\<close>): expressions, conditions, queries,
    their text, the builder.
  \<^item> \<open>DalSource\<close> (the same files and \<open>q_text.go\<close>): constructors, equality and text of sources, text queries, from-clauses
    as objects that builders share.
  \<^item> \<open>DalBuilder\<close> (\<open>q_builder.go\<close>): the builder over a store of arrays, with \<open>append\<close> as in Go, for \<open>Clone\<close>; what
    appending relies on is the locale \<open>appending\<close>.
  \<^item> \<open>DalError\<close> (\<open>errors.go\<close>, \<open>adapter.go\<close>, \<open>schema.go\<close>, \<open>transform.go\<close>, \<open>unions.go\<close>, \<open>key_options.go\<close>,
    \<open>concurrency.go\<close> of \<open>src/dal\<close>): errors and what they wrap, adapters, transforms, random identifiers.
  \<^item> \<open>MemoryDatabase\<close> (\<open>schema.go\<close>, \<open>database.go\<close>): schema, engine selection, storage identifiers,
    sessions and transactions.
  \<^item> \<open>MemoryQuery\<close> (\<open>database.go\<close>, \<open>project.go\<close>, \<open>join.go\<close>, \<open>columnar.go\<close>, \<open>strategy.go\<close>): conditions,
    ordering, limits, projection, acceleration of equality by column strategies; the contract of
    the comparison of values as the locale \<open>three_way\<close>.
  \<^item> \<open>MemoryRelational\<close> (\<open>join.go\<close>, \<open>group.go\<close>, \<open>database.go\<close>): joins, grouping, aggregates, the entry
    point of a query.
  \<^item> \<open>MemoryBranching\<close> (\<open>branching.go\<close>, \<open>src/branching/branching.go\<close>): checkpoints and branches in a world
    of databases.
  \<^item> \<open>MemoryHandle\<close> (\<open>database.go\<close>): the methods of the database an application calls, each a session call
    under the mutex.
  \<^item> \<open>BranchConformance\<close> (\<open>src/branchingtest/conformance.go\<close>): the conformance suite as a program; what it relies on
    of a provider is the locale \<open>branching_provider\<close>, interpreted on the in-memory one.
  \<^item> \<open>RecordDiff\<close>, \<open>RecordRender\<close> (\<open>src/recordops\<close>): comparison of two records, the merge of a baseline
    with candidates over cursors, and the documents made of its diffs; the order of identifiers is the
    locale \<open>id_order\<close>.
  \<^item> \<open>Recordset\<close> (\<open>src/recordset\<close>): standard, boolean, bitmap and computed columns, recordsets, rows; what
    a recordset relies on of a column is the locale \<open>stored_column\<close>.
  \<^item> \<open>DalReader\<close> (\<open>src/dal/reader*.go\<close>): readers and the loops that drain them; a reader that ends is the
    locale \<open>finite_reader\<close>.
  \<^item> \<open>MemoryRecordset\<close> (\<open>dalgo2memory/recordset.go\<close>): a query answered as a recordset.
  \<^item> \<open>DalTransaction\<close> (\<open>src/dal/transaction.go\<close>, \<open>changes.go\<close>, \<open>hooks.go\<close>, \<open>precondition.go\<close>,
    \<open>data_wrapper.go\<close>): transactional contexts, options, change sets, hooks.
  \<^item> \<open>DalCollection\<close> (\<open>src/dal/collection.go\<close>): typed handles; what a handle relies on of a session is the
    locale \<open>store_session\<close>, interpreted on the in-memory session.
  \<^item> \<open>DtqlQuery\<close> (\<open>src/dtql\<close>): the documents structured queries are written as, reading them back,
    structural equality.
  \<^item> \<open>DtqlSchema\<close> (\<open>src/dtql/schema.go\<close>): the published JSON Schema, what it accepts, and the tree of a document.
  \<^item> \<open>FsDirectory\<close> (\<open>src/adapters/dalgo2fs\<close>): the file database over a file system given as an argument, and the
    reader of a directory, an instance of \<open>finite_reader\<close>.
  \<^item> \<open>SchemaDdl\<close> (\<open>src/ddl\<close>, \<open>src/dbschema\<close>): schema descriptions, alter operations and their dispatch, the helpers
    over what a driver implements as the locale \<open>capability_helper\<close>.
  \<^item> \<open>OrmField\<close> (\<open>src/orm\<close>): field definitions.
  \<^item> This theory: a guard of package \<open>access\<close> over the in-memory database.

  \<^bold>\<open>How state and effects are modelled.\<close> A Go struct is a record, an interface with known
  implementations a datatype with one constructor for each, a method a function from the state to
  the state and its result, an error or a panic a value of an error type. Methods of the in-memory
  database run under a mutex, so a history of calls is a sequence (\<open>runEngine\<close>). What is not in the
  repository is an argument: the marshalling and the element types of the caller's records, the text
  of foreign values and keys, codecs, random numbers, clocks, the iteration order of Go's maps. A
  property that relies on such an argument says how in a hypothesis, and its witness instantiates
  the argument.

  \<^bold>\<open>What is shown.\<close>
  \<^item> Access: a decision is that of the unbeaten matching rule on every resource, in any order of rules;
    a guard is the conjunction of the policies in force; a secured session leaves the adapter in the
    state reached by the authorized calls alone; contexts and bindings only narrow; transactions keep
    the policies they started with; policies survive being written to a file and read back, and a file
    of more than one document is refused.
  \<^item> Storage: either engine, and the database over any mixture of them, answers every history of
    calls as a plain map does; dead slots stay below half; field updates touch their path only; reads
    after writes are refused exactly when they have to be; generated identifiers never overwrite; a
    branch is its source at the capture, whatever happens in between, and the provider of branches passes
    its conformance suite for every fixture of calls.
  \<^item> Queries: a query of one collection, a join and a grouped query each answer with what a
    reference definition over lists of rows prescribes, and with the same whatever order Go's maps
    are iterated in, as far as that is true; sums are exact below \<open>2^53\<close>; acceleration by column
    strategies never adds rows, and loses none exactly when the strategy names them all. A query
    answered as a recordset shows the same rows in its cells.
  \<^item> Recordsets: a bitmap column behaves as a standard one; a write changes one cell; a computed column
    is evaluated once per row; draining a reader that ends returns what offset and limit select.
  \<^item> Differences: the merge of sorted streams delivers the diff of every identifier, in order, exactly
    when it has to be emitted; disorder is detected; what is delivered is well-formed even then; the
    deltas of two maps rebuild one from the other; the rendered document reads back.
  \<^item> The layer over sessions: a handle of a collection is a map of records at the keys of that
    collection, whatever parent it is scoped under, and its listings agree; a change set is applied as
    one history of calls; transaction options and nested contexts give what was asked for.
  \<^item> Documents of queries: an accepted document is written back as it was, a plain query is read
    back structurally equal, and the published schema accepts what the decoder accepts, up to the cases
    that are exhibited.
  \<^item> Builders: a clone over shared arrays is a copy as long as one of the two is extended, and no longer.
  \<^item> Files: listing a directory ends with one row per file, in order; a key that does not climb names a
    file below the directory.
  \<^item> Schemas, fields, errors: an alter operation reaches its method with its arguments and flags; a field
    definition is made exactly for predeclared types; a not-found error is recognised as one.
  \<^item> Together: an in-memory database behind a guard holds, after any history of single-record calls,
    what the authorized calls alone make of a map.
  \<^item> Where the code departs from its comments or its specification, a theorem exhibits the case:
    storage identifiers that collide, rows that accelerated equality misses, group keys that
    coincide, conditions that joins do not evaluate, orders with cycles, attempts that are not
    counted, the literal asterisk that widens a policy, boolean columns that lose rows, a pivot that
    panics on declared types, limits that do not narrow a recordset, parts of a query that are dropped
    when it is written as a document, a builder that its clone overwrites, identifiers that leave the
    directory, a transform that is not recognised as one.

  \<^bold>\<open>Bounds and fuel.\<close> No definition of the program uses fuel; only the evaluation of a JSON Schema does, whose
  references may be circular, and it is shown that the depth of the document is enough. Loops recurse over lists, and the loop over generated
  identifiers over the number of attempts left, a hundred in the in-memory adapter. Only the loop that
  drains a reader without a limit may run forever; it is partial, with \<^const>\<open>None\<close> for not returning, and
  it is shown to return on every reader that ends. Operation sets are 16 bits wide; rows of bitmap
  columns are numbered modulo \<open>2^32\<close>, as in the code, which is why their refinement speaks of at most
  that many operations. Numbers are compared and added as \<open>float64\<close>, written out as rationals rounded to
  53 significant bits, half to even; infinities and NaN cannot be stored as JSON and are left out.
  Slot numbers, lengths and limits are unbounded, as no slice reaches the width of an \<open>int\<close>.

  \<^bold>\<open>Not modelled.\<close> Left out for good: the packages that parse and print YAML and JSON, which are third-party or
  standard; the mutexes, which make a history a sequence of calls; generated mocks; the end-to-end suite and
  its fixtures, which run against adapters outside the repository; \<open>with_hooks.go\<close>, which is commented out. The
  deprecated names of methods of a collection, which call the ones that are modelled, and accessors of
  interface values have no definitions of their own.
\<close>

section \<open>A secured in-memory database\<close>

text \<open>
  The in-memory session behind the interfaces that package \<open>access\<close> secures: the methods on one
  record, in the form of \<^const>\<open>runCall\<close>. The other methods, and calls with a nil key, are those of
  any given sessions \<open>rs\<close> and \<open>ws\<close>; field updates are what passes through.
\<close>

definition memDone :: "('d, 'c) session \<times> memError option \<Rightarrow> ('d, 'c) session \<times> (memError goError + unit)" where
  "memDone r = (fst r, case snd r of None \<Rightarrow> Inr () | Some e \<Rightarrow> Inl (OtherError e))"

definition memorySessionReads ::
  "('d, 'c) sessionEnv \<Rightarrow> ('r, 'q, 'd memRecord, fieldUpdate, ('d, 'c) session, memError) readSession \<Rightarrow>
   ('r, 'q, 'd memRecord, fieldUpdate, ('d, 'c) session, memError) readSession" where
  "memorySessionReads env rs =
     rs\<lparr>sExists := (\<lambda>ctx k s. case k of
          None \<Rightarrow> sExists rs ctx None s
        | Some k' \<Rightarrow> (case sessionExists env s k' of (s', r) \<Rightarrow> (s', map_sum OtherError (\<lambda>b. b) r))),
        sGet := (\<lambda>ctx r s. case sessionGet env s r of (s', res) \<Rightarrow> (s', map_sum OtherError (\<lambda>_. ()) res))\<rparr>"

definition memorySessionWrites ::
  "('d, 'c) sessionEnv \<Rightarrow> ('r, 'q, 'd memRecord, fieldUpdate, ('d, 'c) session, memError) writeSession \<Rightarrow>
   ('r, 'q, 'd memRecord, fieldUpdate, ('d, 'c) session, memError) writeSession" where
  "memorySessionWrites env ws =
     ws\<lparr>sSet := (\<lambda>ctx r s. memDone (sessionSet env s r)),
        sInsert := (\<lambda>ctx r options s.
          if options = [] then memDone (markIfDone (save env s r False)) else sInsert ws ctx r options s),
        sUpdate := (\<lambda>ctx k updates preconditions s. case k of
          None \<Rightarrow> sUpdate ws ctx None updates preconditions s
        | Some k' \<Rightarrow> memDone (sessionUpdate env s k' updates)),
        sDelete := (\<lambda>ctx k s. case k of
          None \<Rightarrow> sDelete ws ctx None s | Some k' \<Rightarrow> memDone (sessionDelete env s k'))\<rparr>"

fun singleCall :: "('r, 'q, 'd memRecord, fieldUpdate) call \<Rightarrow> 'd sessionCall option" where
  "singleCall (CallExists ctx (Some k)) = Some (CExists k)"
| "singleCall (CallGet ctx r) = Some (CGet r)"
| "singleCall (CallSet ctx r) = Some (CSet r)"
| "singleCall (CallInsert ctx r []) = Some (CInsert r)"
| "singleCall (CallUpdate ctx (Some k) updates preconditions) = Some (CUpdate k updates)"
| "singleCall (CallDelete ctx (Some k)) = Some (CDelete k)"
| "singleCall _ = None"

lemma singleCall_step:
  "singleCall c = Some call \<Longrightarrow>
    fst (runCall (memorySessionReads env rs) (memorySessionWrites env ws) c s) = fst (sessionStep env s call)"
  by (cases c rule: singleCall.cases)
    (auto simp: memorySessionReads_def memorySessionWrites_def liftRes_def memDone_def doneResult_def split: prod.split)

lemma singleCalls_trace:
  assumes "list_all (\<lambda>c. singleCall c \<noteq> None) calls"
  shows "fst (runCalls (runCall (memorySessionReads env rs) (memorySessionWrites env ws)) calls s) =
    fst (runEngine (sessionStep env) s (map (the \<circ> singleCall) calls))"
  using assms
proof (induction calls arbitrary: s)
  case (Cons c calls)
  then obtain call where c: "singleCall c = Some call" by auto
  then show ?case
    using Cons singleCall_step [OF c, of env rs ws s]
    by (auto simp: c split: prod.split) (metis fst_conv)
qed simp

text \<open>C11: An in-memory database behind a guard: after any history of single-record calls, whoever makes
  them, its content is that of the plain map of records after the authorized calls alone, in their
  order. A call the policies deny leaves no trace, and one they allow has the effect it has without
  a guard.\<close>

theorem secured_memory_database:
  assumes "list_all (\<lambda>c. singleCall c \<noteq> None) calls"
  shows "dbContent (sDB (fst (runCalls
      (runCall (securedReadSession (Some \<circ> recKey) (memorySessionReads env rs) g)
        (securedWriteSession (Some \<circ> recKey) (memorySessionWrites env ws) g)) calls
      \<lparr>sDB = NewDB opts, sTx = None\<rparr>))) =
    fst (runEngine (dbMapStep env (NewDB opts)) (\<lambda>_ _. None)
      (map (the \<circ> singleCall) (filter (\<lambda>c. callDecision (Some \<circ> recKey) g c = None) calls)))"
proof -
  let ?allowed = "filter (\<lambda>c. callDecision (Some \<circ> recKey) g c = None) calls"
  let ?s = "\<lparr>sDB = NewDB opts, sTx = None\<rparr>"
  have "list_all (\<lambda>c. singleCall c \<noteq> None) ?allowed" using assms by (auto simp: list_all_iff)
  note state = singleCalls_trace [OF this, of env rs ws ?s]
  obtain s' res where run: "runEngine (sessionStep env) ?s (map (the \<circ> singleCall) ?allowed) = (s', res)"
    by fastforce
  have "runEngine (dbMapStep env (NewDB opts)) (\<lambda>_ _. None) (map (the \<circ> singleCall) ?allowed) = (dbContent (sDB s'), res)"
    using session_trace [OF _ _ run, of "NewDB opts"] by (simp add: dbWf_NewDB dbContent_NewDB)
  then show ?thesis
    using session_mediation.trace_state [where cs = calls and s = ?s and recKey = "Some \<circ> recKey" and g = g
        and rs = "memorySessionReads env rs" and ws = "memorySessionWrites env ws"] state run
    by simp
qed

text \<open>A client sets a note and tries to delete it, under a policy that denies deletions.\<close>

definition idleReads :: "(unit, unit, fields memRecord, fieldUpdate, (fields, value) session, memError) readSession" where
  "idleReads =
     \<lparr>sExists = (\<lambda>_ _ s. (s, Inr False)), sGet = (\<lambda>_ _ s. (s, Inr ())), sGetMulti = (\<lambda>_ _ s. (s, Inr ())),
      sQueryRecords = (\<lambda>_ _ s. (s, Inl (OtherError UnmarshalFailed))),
      sQueryRecordset = (\<lambda>_ _ _ s. (s, Inl (OtherError UnmarshalFailed)))\<rparr>"

definition idleWrites :: "(unit, unit, fields memRecord, fieldUpdate, (fields, value) session, memError) writeSession" where
  "idleWrites =
     \<lparr>sSet = (\<lambda>_ _ s. (s, Inr ())), sSetMulti = (\<lambda>_ _ s. (s, Inr ())), sInsert = (\<lambda>_ _ _ s. (s, Inr ())),
      sInsertMulti = (\<lambda>_ _ _ s. (s, Inr ())), sUpdate = (\<lambda>_ _ _ _ s. (s, Inr ())),
      sUpdateRecord = (\<lambda>_ _ _ _ s. (s, Inr ())), sUpdateMulti = (\<lambda>_ _ _ _ s. (s, Inr ())),
      sDelete = (\<lambda>_ _ s. (s, Inr ())), sDeleteMulti = (\<lambda>_ _ s. (s, Inr ()))\<rparr>"

definition denyDelete :: "(unit, unit) policy" where
  "denyDelete ctx request =
     (if reqOperation request = Delete
      then Some \<lparr>decAllowed = False, decOperation = Delete, decResource = zeroResource, decPolicy = ''keep'',
             decPolicySource = [], decRule = [], decEffect = effectString effectDeny, decExplanation = ContextPolicyRequired\<rparr>
      else None)"

definition setAndDelete :: "(unit, unit, fields memRecord, fieldUpdate) call list" where
  "setAndDelete = [CallSet None (sampleRecord ''a''), CallDelete None (Some (recKey (sampleRecord ''a'')))]"

theorem secured_memory_database_witness:
  "dbContent (sDB (fst (runCalls
      (runCall (securedReadSession (Some \<circ> recKey) (memorySessionReads sampleSessionEnv idleReads) (databaseGuard [denyDelete]))
        (securedWriteSession (Some \<circ> recKey) (memorySessionWrites sampleSessionEnv idleWrites) (databaseGuard [denyDelete])))
      setAndDelete \<lparr>sDB = NewDB [], sTx = None\<rparr>))) ''notes'' ''n1'' \<noteq> None"
proof -
  have "list_all (\<lambda>c. singleCall c \<noteq> None) setAndDelete" by (simp add: setAndDelete_def)
  note content = secured_memory_database [OF this, of sampleSessionEnv idleReads "databaseGuard [denyDelete]" idleWrites "[]"]
  have "case fst (runEngine (dbMapStep sampleSessionEnv (NewDB [])) (\<lambda>_ _. None)
      (map (the \<circ> singleCall) (filter (\<lambda>c. callDecision (Some \<circ> recKey) (databaseGuard [denyDelete]) c = None) setAndDelete)))
      ''notes'' ''n1'' of None \<Rightarrow> False | Some _ \<Rightarrow> True" by code_simp
  then show ?thesis unfolding content by (auto split: option.splits)
qed

end
